(* ===== verification/Prelude.thy ===== *)
theory Prelude
  imports Main
begin

text \<open>
  Shared material of the development: the parts of Go and of its standard
  library that the modelled files use (byte strings, \<open>strings\<close>, \<open>strconv\<close>),
  the rule collections, and generic lemmas on lists and maps.

  A Go string is its list of bytes, a \<^typ>\<open>string\<close>. Lengths and
  indices count bytes as in Go. \<open>trim_space\<close> and \<open>str_fields\<close> know every Unicode
  white space of \<open>unicode.IsSpace\<close> in its UTF-8 form. \<open>to_lower\<close> lowers the
  ASCII letters and the two other characters whose lower case is ASCII (U+0130
  and U+212A); the bytes of all other characters stay as they are, so the case
  of other scripts is not folded.

  A point in time is the number of nanoseconds since the Unix epoch.
\<close>

named_theorems go_defs \<open>definitions of library functions that proofs may unfold\<close>
named_theorems store_defs \<open>database statements and the helpers that run them\<close>
named_theorems step_simps \<open>characteristic equations of operations\<close>
named_theorems inv_intros \<open>preservation lemmas of invariants\<close>

type_synonym time = int \<comment> \<open>\<^verbatim>\<open>time.Time\<close>, nanoseconds since the epoch\<close>

abbreviation nanos_per_second :: int where
  "nanos_per_second \<equiv> 1000000000"

text \<open>The zero \<^verbatim>\<open>time.Time\<close>, year 1 in UTC.\<close>

definition zero_time :: time where "zero_time = - 62135596800 * nanos_per_second"

definition time_second :: time where "time_second = nanos_per_second"
definition time_minute :: time where "time_minute = 60 * nanos_per_second"
definition time_hour :: time where "time_hour = 3600 * nanos_per_second"

section \<open>Characters\<close>

definition is_digit_char :: "char \<Rightarrow> bool" where
  "is_digit_char c \<longleftrightarrow> 48 \<le> (of_char c :: nat) \<and> (of_char c :: nat) \<le> 57"

definition is_lower_char :: "char \<Rightarrow> bool" where
  "is_lower_char c \<longleftrightarrow> 97 \<le> (of_char c :: nat) \<and> (of_char c :: nat) \<le> 122"

definition is_upper_char :: "char \<Rightarrow> bool" where
  "is_upper_char c \<longleftrightarrow> 65 \<le> (of_char c :: nat) \<and> (of_char c :: nat) \<le> 90"

definition lower_char :: "char \<Rightarrow> char" where
  "lower_char c = (if is_upper_char c then char_of ((of_char c :: nat) + 32) else c)"

definition digit_val :: "char \<Rightarrow> nat" where
  "digit_val c = (of_char c :: nat) - 48"

definition digit_char :: "nat \<Rightarrow> char" where
  "digit_char d = char_of (48 + d)"

lemma digit_char_of: "d < 10 \<Longrightarrow> of_char (digit_char d) = (48 + d :: nat)"
  by (simp add: digit_char_def)

lemma is_digit_digit_char [simp]: "d < 10 \<Longrightarrow> is_digit_char (digit_char d)"
  by (simp add: is_digit_char_def digit_char_of)

lemma digit_val_digit_char [simp]: "d < 10 \<Longrightarrow> digit_val (digit_char d) = d"
  by (simp add: digit_val_def digit_char_of)

lemma digit_char_inj: "\<lbrakk> a < 10; b < 10; digit_char a = digit_char b \<rbrakk> \<Longrightarrow> a = b"
  by (metis digit_val_digit_char)

section \<open>Go's strings package\<close>

text \<open>\<^verbatim>\<open>strings.HasPrefix\<close>, \<^verbatim>\<open>CutPrefix\<close>, \<^verbatim>\<open>HasSuffix\<close>, \<^verbatim>\<open>TrimSuffix\<close>.\<close>

fun has_prefix :: "string \<Rightarrow> string \<Rightarrow> bool" where
  "has_prefix s [] = True"
| "has_prefix [] (p # ps) = False"
| "has_prefix (c # cs) (p # ps) = (c = p \<and> has_prefix cs ps)"

lemma has_prefix_iff: "has_prefix s p \<longleftrightarrow> (\<exists>t. s = p @ t)"
  by (induction s p rule: has_prefix.induct) auto

lemma has_prefix_append [simp]: "has_prefix (p @ t) p"
  by (auto simp: has_prefix_iff)

definition cut_prefix :: "string \<Rightarrow> string \<Rightarrow> string option" where
  "cut_prefix s p = (if has_prefix s p then Some (drop (length p) s) else None)"

lemma cut_prefix_Some: "cut_prefix s p = Some t \<longleftrightarrow> s = p @ t"
  by (auto simp: cut_prefix_def has_prefix_iff)

definition has_suffix :: "string \<Rightarrow> string \<Rightarrow> bool" where
  "has_suffix s p = has_prefix (rev s) (rev p)"

definition trim_suffix :: "string \<Rightarrow> string \<Rightarrow> string" where
  "trim_suffix s p = (if has_suffix s p then take (length s - length p) s else s)"

text \<open>\<^verbatim>\<open>strings.Cut\<close>: around the first occurrence; None when there is none.\<close>

fun cut :: "string \<Rightarrow> string \<Rightarrow> (string \<times> string) option" where
  "cut [] sep = (if sep = [] then Some ([], []) else None)"
| "cut (c # cs) sep =
     (if has_prefix (c # cs) sep then Some ([], drop (length sep) (c # cs))
      else map_option (\<lambda>(a, b). (c # a, b)) (cut cs sep))"

lemma cut_Some: "cut s sep = Some (a, b) \<Longrightarrow> s = a @ sep @ b"
  by (induction s sep arbitrary: a b rule: cut.induct)
     (auto simp: has_prefix_iff split: if_splits)

lemma cut_char_before:
  "x \<notin> set a \<Longrightarrow> cut (a @ x # b) [x] = Some (a, b)"
  by (induction a) auto

lemma cut_char_None: "cut s [x] = None \<longleftrightarrow> x \<notin> set s"
  by (induction s) (auto split: if_splits)

lemma cut_char_Some_notin: "cut s [x] = Some (a, b) \<Longrightarrow> x \<notin> set a"
  by (induction s arbitrary: a b) (auto split: if_splits)

definition contains :: "string \<Rightarrow> string \<Rightarrow> bool" where
  "contains s sub \<longleftrightarrow> cut s sub \<noteq> None"

text \<open>\<^verbatim>\<open>strings.Split\<close> with a one-byte separator.\<close>

fun split_char :: "char \<Rightarrow> string \<Rightarrow> string list" where
  "split_char x [] = [[]]"
| "split_char x (c # cs) =
     (if c = x then [] # split_char x cs
      else (case split_char x cs of [] \<Rightarrow> [[c]] | w # ws \<Rightarrow> (c # w) # ws))"

lemma split_char_nonempty [simp]: "split_char x s \<noteq> []"
  by (induction s) (auto split: list.splits)

text \<open>\<^verbatim>\<open>strings.Join\<close>.\<close>

fun join :: "string \<Rightarrow> string list \<Rightarrow> string" where
  "join sep [] = []"
| "join sep [w] = w"
| "join sep (w # ws) = w @ sep @ join sep ws"

lemma join_Cons: "ws \<noteq> [] \<Longrightarrow> join sep (w # ws) = w @ sep @ join sep ws"
  by (cases ws) auto

lemma join_split_char: "join [x] (split_char x s) = s"
proof (induction s)
  case (Cons c cs)
  then show ?case
    by (cases "split_char x cs"; cases "tl (split_char x cs)") (auto simp: join_Cons)
qed simp

lemma split_char_join:
  "\<lbrakk> ws \<noteq> []; \<forall>w \<in> set ws. x \<notin> set w \<rbrakk> \<Longrightarrow> split_char x (join [x] ws) = ws"
proof (induction ws)
  case (Cons w ws)
  have word: "split_char x w = [w]" if "x \<notin> set w" for w
    using that by (induction w) auto
  have app: "split_char x (w @ x # t) = w # split_char x t" if "x \<notin> set w" for w t
    using that by (induction w) auto
  show ?case
    using Cons by (cases "ws = []") (auto simp: word app join_Cons)
qed simp

text \<open>
  White space: the length in bytes of the white space character that starts a
  string, 0 when it starts with something else.
\<close>

fun space_len :: "string \<Rightarrow> nat" where
  "space_len [] = 0"
| "space_len (c # cs) =
     (let n = (of_char c :: nat);
          b = (case cs of [] \<Rightarrow> 0 | d # _ \<Rightarrow> (of_char d :: nat));
          e = (case cs of _ # d # _ \<Rightarrow> (of_char d :: nat) | _ \<Rightarrow> 0)
      in if n \<in> {9, 10, 11, 12, 13, 32} then 1
         else if n = 194 \<and> b \<in> {133, 160} then 2
         else if n = 225 \<and> b = 154 \<and> e = 128 then 3
         else if n = 226 \<and> b = 128 \<and> (128 \<le> e \<and> e \<le> 138 \<or> e \<in> {168, 169, 175}) then 3
         else if n = 226 \<and> b = 129 \<and> e = 159 then 3
         else if n = 227 \<and> b = 128 \<and> e = 128 then 3
         else 0)"

lemma space_len_le: "space_len s \<le> length s"
  by (cases s) (auto simp: Let_def split: list.splits)

function trim_left :: "string \<Rightarrow> string" where
  "trim_left s = (let n = space_len s in if n = 0 then s else trim_left (drop n s))"
  by pat_completeness auto
termination
proof (relation "measure length")
  fix s x
  assume "x = space_len s" "x \<noteq> 0"
  then show "(drop x s, s) \<in> measure length"
    by (cases s) auto
qed simp

declare trim_left.simps [simp del]

text \<open>The white space character that ends a string, looked for from its end.\<close>

definition space_len_end :: "string \<Rightarrow> nat" where
  "space_len_end s =
     (if s \<noteq> [] \<and> space_len (drop (length s - 1) s) = 1 then 1
      else if 2 \<le> length s \<and> space_len (drop (length s - 2) s) = 2 then 2
      else if 3 \<le> length s \<and> space_len (drop (length s - 3) s) = 3 then 3
      else 0)"

function trim_right :: "string \<Rightarrow> string" where
  "trim_right s =
     (let n = space_len_end s in if n = 0 then s else trim_right (take (length s - n) s))"
  by pat_completeness auto
termination
  by (relation "measure length") (auto simp: space_len_end_def split: if_splits)

declare trim_right.simps [simp del]

definition trim_space :: "string \<Rightarrow> string" where
  "trim_space s = trim_right (trim_left s)"

text \<open>Trimming a trimmed string changes nothing.\<close>

lemma trim_left_start: "space_len (trim_left s) = 0"
proof (induction s rule: trim_left.induct)
  case (1 s)
  then show ?case by (subst trim_left.simps) (auto simp: Let_def)
qed

lemma trim_right_end: "space_len_end (trim_right s) = 0"
proof (induction s rule: trim_right.induct)
  case (1 s)
  then show ?case by (subst trim_right.simps) (auto simp: Let_def)
qed

lemma space_len_prefix: "space_len (p @ t) = 0 \<Longrightarrow> space_len p = 0"
  by (cases p; cases "tl p"; cases "tl (tl p)") (auto simp: Let_def split: if_splits)

lemma trim_right_prefix: "\<exists>t. s = trim_right s @ t"
proof (induction s rule: trim_right.induct)
  case (1 s)
  show ?case
  proof (cases "space_len_end s = 0")
    case True
    then show ?thesis by (subst trim_right.simps) simp
  next
    case False
    let ?r = "take (length s - space_len_end s) s"
    from 1[OF refl False] obtain t where "?r = trim_right ?r @ t" by blast
    then have "s = trim_right ?r @ (t @ drop (length s - space_len_end s) s)"
      by (metis append.assoc append_take_drop_id)
    moreover have "trim_right s = trim_right ?r" using False by (subst trim_right.simps) simp
    ultimately show ?thesis by metis
  qed
qed

lemma trim_space_idem: "trim_space (trim_space s) = trim_space s"
proof -
  define r where "r = trim_right (trim_left s)"
  obtain t where "trim_left s = r @ t" using trim_right_prefix[of "trim_left s"] unfolding r_def by blast
  then have "space_len r = 0" using trim_left_start[of s] space_len_prefix by metis
  then have "trim_left r = r" by (subst trim_left.simps) simp
  moreover have "trim_right r = r" using trim_right_end[of "trim_left s"] unfolding r_def
    by (subst trim_right.simps) simp
  ultimately show ?thesis by (simp add: trim_space_def r_def)
qed

text \<open>\<^verbatim>\<open>strings.Fields\<close>.\<close>

function str_fields_acc :: "string \<Rightarrow> string \<Rightarrow> string list" where
  "str_fields_acc w [] = (if w = [] then [] else [rev w])"
| "str_fields_acc w (c # cs) =
     (let n = space_len (c # cs)
      in if n = 0 then str_fields_acc (c # w) cs
         else (if w = [] then [] else [rev w]) @ str_fields_acc [] (drop n (c # cs)))"
  by pat_completeness auto
termination
  by (relation "measure (\<lambda>(w, s). length s)") auto

definition str_fields :: "string \<Rightarrow> string list" where
  "str_fields s = str_fields_acc [] s"

text \<open>\<^verbatim>\<open>strings.ToLower\<close>.\<close>

fun to_lower :: "string \<Rightarrow> string" where
  "to_lower [] = []"
| "to_lower (c # cs) =
     (if (of_char c :: nat) = 196 \<and> cs \<noteq> [] \<and> (of_char (hd cs) :: nat) = 176 then CHR ''i'' # to_lower (tl cs)
      else if (of_char c :: nat) = 226 \<and> 2 \<le> length cs \<and> (of_char (cs ! 0) :: nat) = 132 \<and> (of_char (cs ! 1) :: nat) = 170
        then CHR ''k'' # to_lower (drop 2 cs)
      else lower_char c # to_lower cs)"

section \<open>Go's strconv package\<close>

text \<open>\<^verbatim>\<open>strconv.Itoa\<close> and \<^verbatim>\<open>strconv.Atoi\<close> (64-bit integers).\<close>

fun nat_digits :: "nat \<Rightarrow> string" where
  "nat_digits n = (if n < 10 then [digit_char n] else nat_digits (n div 10) @ [digit_char (n mod 10)])"

declare nat_digits.simps [simp del]

definition itoa :: "int \<Rightarrow> string" where
  "itoa n = (if n < 0 then CHR ''-'' # nat_digits (nat (- n)) else nat_digits (nat n))"

fun digits_val :: "nat \<Rightarrow> string \<Rightarrow> nat" where
  "digits_val acc [] = acc"
| "digits_val acc (c # cs) = digits_val (acc * 10 + digit_val c) cs"

definition max_int64 :: int where "max_int64 = 9223372036854775807"
definition min_int64 :: int where "min_int64 = - 9223372036854775808"

definition atoi :: "string \<Rightarrow> int option" where
  "atoi s =
     (let neg = (s \<noteq> [] \<and> hd s = CHR ''-'');
          ds = (if s \<noteq> [] \<and> hd s \<in> {CHR ''-'', CHR ''+''} then tl s else s)
      in if ds = [] \<or> \<not> list_all is_digit_char ds then None
         else let n = (if neg then - int (digits_val 0 ds) else int (digits_val 0 ds))
              in if min_int64 \<le> n \<and> n \<le> max_int64 then Some n else None)"

lemma digits_val_append: "digits_val acc (xs @ ys) = digits_val (digits_val acc xs) ys"
  by (induction xs arbitrary: acc) auto

lemma nat_digits_nonempty [simp]: "nat_digits n \<noteq> []"
  by (subst nat_digits.simps) simp

lemma nat_digits_all_digit: "list_all is_digit_char (nat_digits n)"
proof (induction n rule: nat_digits.induct)
  case (1 n)
  then show ?case by (subst nat_digits.simps) auto
qed

lemma digits_val_nat_digits: "digits_val 0 (nat_digits n) = n"
proof (induction n rule: nat_digits.induct)
  case (1 n)
  then show ?case by (subst nat_digits.simps) (auto simp: digits_val_append)
qed

lemma nat_digits_inj: "nat_digits a = nat_digits b \<Longrightarrow> a = b"
  by (metis digits_val_nat_digits)

lemma digit_not_sign: "is_digit_char c \<Longrightarrow> c \<noteq> CHR ''-'' \<and> c \<noteq> CHR ''+'' \<and> c \<noteq> CHR '':''"
  by (auto simp: is_digit_char_def)

lemma nat_digits_no_sign: "hd (nat_digits n) \<notin> {CHR ''-'', CHR ''+''}"
proof (cases "nat_digits n")
  case (Cons c cs)
  with nat_digits_all_digit[of n] have "is_digit_char c" by simp
  with Cons show ?thesis by (auto dest: digit_not_sign)
qed simp

lemma atoi_nat_digits: "int n \<le> max_int64 \<Longrightarrow> atoi (nat_digits n) = Some (int n)"
  using nat_digits_no_sign[of n]
  by (auto simp: atoi_def Let_def nat_digits_all_digit digits_val_nat_digits min_int64_def)

theorem atoi_itoa: "\<lbrakk> min_int64 \<le> n; n \<le> max_int64 \<rbrakk> \<Longrightarrow> atoi (itoa n) = Some n"
  by (auto simp: itoa_def atoi_nat_digits)
     (auto simp: atoi_def Let_def nat_digits_all_digit digits_val_nat_digits)

section \<open>Lists\<close>

text \<open>The first element a predicate accepts, as Go's loops with an early return find it.\<close>

lemma find_None_iff2: "List.find P xs = None \<longleftrightarrow> (\<forall>x \<in> set xs. \<not> P x)"
  by (auto simp: find_None_iff)

lemma find_SomeD: "List.find P xs = Some x \<Longrightarrow> x \<in> set xs \<and> P x"
  by (induction xs) (auto split: if_splits)

lemma find_sorted_first:
  "\<lbrakk> List.find P xs = Some x; List.sorted (map k xs); y \<in> set xs; P y \<rbrakk> \<Longrightarrow> k x \<le> k y"
  by (induction xs) (auto split: if_splits)

lemma count_list_distinct: "distinct xs \<Longrightarrow> count_list xs x = (if x \<in> set xs then 1 else 0)"
  by (induction xs) auto

lemma sort_key_snoc_least:
  "\<forall>y \<in> set xs. f x < f y \<Longrightarrow> sort_key f (xs @ [x]) = x # sort_key f xs"
  by (induction xs) auto

text \<open>The elements of a list in the order of their first occurrence.\<close>

fun first_seen :: "'a list \<Rightarrow> 'a list" where
  "first_seen [] = []"
| "first_seen (x # xs) = x # filter (\<lambda>y. y \<noteq> x) (first_seen xs)"

lemma set_first_seen [simp]: "set (first_seen xs) = set xs"
  by (induction xs) auto

lemma distinct_first_seen [simp]: "distinct (first_seen xs)"
  by (induction xs) auto

lemma find_map_cong:
  "\<lbrakk> \<And>x. x \<in> set xs \<Longrightarrow> P (f x) = P x \<rbrakk> \<Longrightarrow> List.find P (map f xs) = map_option f (List.find P xs)"
  by (induction xs) auto

lemma length_filter_le_1_distinct:
  "\<lbrakk> distinct (map f xs); \<And>x. x \<in> set xs \<Longrightarrow> P x \<Longrightarrow> f x = k \<rbrakk> \<Longrightarrow> length (filter P xs) \<le> 1"
proof (induction xs)
  case (Cons x xs)
  show ?case
  proof (cases "P x")
    case True
    with Cons.prems have "\<forall>y \<in> set xs. \<not> P y" by (auto simp: image_iff)
    then show ?thesis by (auto simp: filter_empty_conv)
  next
    case False
    with Cons show ?thesis by auto
  qed
qed simp

end
