(* ===== verification/Db.thy ===== *)
theory Db
  imports Prelude "HOL-Library.Product_Lexorder" "HOL-Library.List_Lexorder" "HOL-Library.Char_ord"
begin

text \<open>
  The master database as the Go code sees it: the rows of the tables the model
  uses and the outcome of each SQL statement. Every statement may fail with a
  driver error. Which ones fail is part of the state: \<open>faults\<close> is the schedule
  of the outcomes, one entry a statement (\<open>None\<close> succeeds, \<open>Some msg\<close> fails with
  that text and changes nothing), and statements succeed once it is used up.
  Theorems quantify over the state, so they hold for every schedule of failures.

  Sources: app/models/mailbox.go, app/models/setting.go,
  app/modules/wording/message.go, app/modules/settings.go (persistSettings).
\<close>

section \<open>Errors\<close>

datatype go_error =
    DbFault string            \<comment> \<open>an error of the database driver\<close>
  | NoRows                    \<comment> \<open>\<^verbatim>\<open>sql.ErrNoRows\<close>\<close>
  | Keyed string string       \<comment> \<open>\<^verbatim>\<open>wording.Message\<close>: Key and Text\<close>
  | Plain string              \<comment> \<open>\<^verbatim>\<open>errors.New\<close>, \<^verbatim>\<open>fmt.Errorf\<close>\<close>
  | Wrapped string go_error   \<comment> \<open>\<^verbatim>\<open>fmt.Errorf("<text>: %w", err)\<close>\<close>
  | Joined "go_error list"    \<comment> \<open>\<^verbatim>\<open>errors.Join\<close>\<close>

fun err_text :: "go_error \<Rightarrow> string" where
  "err_text (DbFault m) = m"
| "err_text NoRows = ''sql: no rows in result set''"
| "err_text (Keyed k t) = t"
| "err_text (Plain t) = t"
| "err_text (Wrapped p e) = p @ '': '' @ err_text e"
| "err_text (Joined es) = join [CHR 10] (map err_text es)"

section \<open>Rows\<close>

record mailbox =
  mb_id :: int
  mb_address :: string
  mb_display_name :: string
  mb_enabled :: bool
  mb_last_fetched_at :: "time option"
  mb_last_fetch_error :: string
  mb_created_at :: time
  mb_updated_at :: time
  mb_imap_host :: string
  mb_imap_port :: int
  mb_imap_security :: string
  mb_imap_username :: string
  mb_imap_password_enc :: string
  mb_folder :: string
  mb_initial_days :: int
  mb_recent_days :: int
  mb_server_keep_days :: int
  mb_smtp_host :: string
  mb_probe_enabled :: bool
  mb_smtp_port :: int
  mb_smtp_security :: string
  mb_smtp_username :: string
  mb_smtp_password_enc :: string

record job =
  j_id :: int
  j_kind :: string
  j_mailbox :: "int option"      \<comment> \<open>\<^verbatim>\<open>sql.NullInt64\<close>\<close>
  j_parent :: int                \<comment> \<open>0 for NULL, as InsertJob and scanJob convert it\<close>
  j_target :: string
  j_status :: string
  j_requested_by :: string
  j_created_at :: time
  j_started_at :: "time option"
  j_finished_at :: "time option"
  j_progress :: string
  j_result :: string
  j_error :: string

record user =
  u_id :: int
  u_username :: string
  u_display_name :: string
  u_email :: string
  u_language :: string
  u_timezone :: string
  u_theme :: string
  u_password_hash :: string
  u_role :: string
  u_created_at :: time
  u_updated_at :: time
  u_last_login_at :: "time option"

record probe_mail =
  p_id :: int
  p_mailbox :: int
  p_address :: string
  p_token :: string
  p_slot :: string
  p_manual :: bool
  p_subject :: string
  p_sent_at :: time
  p_status :: string
  p_level :: string
  p_delay_seconds :: int
  p_arrived_at :: "time option"
  p_last_checked_at :: "time option"
  p_error_message :: string
  p_deleted_at :: "time option"
  p_delay_notified_at :: "time option"
  p_notified_at :: "time option"
  p_resolved_at :: "time option"
  p_resolved_by :: string
  p_resolve_reason :: string
  p_resolve_note :: string
  p_created_at :: time
  p_updated_at :: time

text \<open>
  Every database the program opens is a record that extends \<open>db\<close>, the schedule of the
  failures of its coming statements; \<open>store\<close> is the master database.
\<close>

record db =
  faults :: "string option list"

record store = db +
  jobs :: "job list"             \<comment> \<open>in the order of insertion\<close>
  next_job :: int                \<comment> \<open>the next AUTOINCREMENT id of jobs\<close>
  mailboxes :: "mailbox list"
  next_mailbox :: int
  users :: "user list"
  next_user :: int
  probe_mails :: "probe_mail list"
  next_probe :: int
  settings :: "string \<rightharpoonup> string"

section \<open>Statements\<close>

type_synonym ('s, 'a) action = "'s \<Rightarrow> (go_error + 'a) \<times> 's"
type_synonym 'a act = "(store, 'a) action"

definition stmt :: "('r db_scheme \<Rightarrow> 'a \<times> 'r db_scheme) \<Rightarrow> ('r db_scheme, 'a) action" where
  "stmt f s =
     (case faults s of
        [] \<Rightarrow> (let (x, s') = f s in (Inr x, s'))
      | None # rest \<Rightarrow> (let (x, s') = f (s\<lparr>faults := rest\<rparr>) in (Inr x, s'))
      | Some msg # rest \<Rightarrow> (Inl (DbFault msg), s\<lparr>faults := rest\<rparr>))"

definition act_return :: "'a \<Rightarrow> ('s, 'a) action" where
  "act_return x s = (Inr x, s)"

definition act_fail :: "go_error \<Rightarrow> ('s, 'a) action" where
  "act_fail e s = (Inl e, s)"

text \<open>Sequencing with the usual \<^verbatim>\<open>if err != nil { return err }\<close>.\<close>

definition act_bind :: "('s, 'a) action \<Rightarrow> ('a \<Rightarrow> ('s, 'b) action) \<Rightarrow> ('s, 'b) action" where
  "act_bind m f s = (case m s of (Inl e, s1) \<Rightarrow> (Inl e, s1) | (Inr x, s1) \<Rightarrow> f x s1)"

text \<open>A result and a check (None is nil) as a step.\<close>

definition act_of :: "go_error + 'a \<Rightarrow> ('s, 'a) action" where
  "act_of r = (case r of Inl e \<Rightarrow> act_fail e | Inr x \<Rightarrow> act_return x)"

definition act_check :: "go_error option \<Rightarrow> ('s, unit) action" where
  "act_check r = (case r of Some e \<Rightarrow> act_fail e | None \<Rightarrow> act_return ())"

text \<open>Sequencing where the code looks at the error itself.\<close>

definition act_try :: "('s, 'a) action \<Rightarrow> (go_error + 'a \<Rightarrow> ('s, 'b) action) \<Rightarrow> ('s, 'b) action" where
  "act_try m f s = (let (r, s1) = m s in f r s1)"

definition query :: "('r db_scheme \<Rightarrow> 'a) \<Rightarrow> ('r db_scheme, 'a) action" where
  "query f = stmt (\<lambda>s. (f s, s))"

definition query_row :: "('r db_scheme \<Rightarrow> 'a option) \<Rightarrow> ('r db_scheme, 'a) action" where
  "query_row f =
     act_bind (query f) (\<lambda>r. case r of None \<Rightarrow> act_fail NoRows | Some x \<Rightarrow> act_return x)"

definition exec :: "('r db_scheme \<Rightarrow> 'r db_scheme) \<Rightarrow> ('r db_scheme, unit) action" where
  "exec f = stmt (\<lambda>s. ((), f s))"

text \<open>
  A transaction: \<open>BEGIN\<close> and \<open>COMMIT\<close> are statements too. When the body or the
  commit fails, the rollback restores every row; the statements that ran stay
  used up.
\<close>

definition transaction :: "('r db_scheme, 'a) action \<Rightarrow> ('r db_scheme, 'a) action" where
  "transaction body s =
     (case query (\<lambda>_. ()) s of
        (Inl e, s1) \<Rightarrow> (Inl e, s1)
      | (Inr _, s1) \<Rightarrow>
          (case act_bind body (\<lambda>x. act_bind (query (\<lambda>_. ())) (\<lambda>_. act_return x)) s1 of
             (Inl e, s2) \<Rightarrow> (Inl e, s1\<lparr>faults := faults s2\<rparr>)
           | (Inr x, s2) \<Rightarrow> (Inr x, s2)))"

lemmas [store_defs] = act_return_def act_fail_def act_bind_def act_try_def query_def query_row_def exec_def

text \<open>What a state holds apart from the schedule of failures.\<close>

definition same_rows :: "'r db_scheme \<Rightarrow> 'r db_scheme \<Rightarrow> bool" where
  "same_rows s t \<longleftrightarrow> t = s\<lparr>faults := faults t\<rparr>"

lemma same_rows_refl [simp]: "same_rows s s"
  by (simp add: same_rows_def)

lemma same_rowsD:
  fixes s t :: store
  assumes "same_rows s t"
  shows "jobs t = jobs s" "next_job t = next_job s" "mailboxes t = mailboxes s"
    "next_mailbox t = next_mailbox s" "settings t = settings s"
    "users t = users s" "next_user t = next_user s" "probe_mails t = probe_mails s" "next_probe t = next_probe s"
  using assms by (cases s; cases t; simp add: same_rows_def)+

lemma same_rows_trans: "\<lbrakk> same_rows s t; same_rows t u \<rbrakk> \<Longrightarrow> same_rows s u"
  by (cases s; cases t; cases u) (simp add: same_rows_def)

lemma same_rows_faults [simp]: "same_rows s (s\<lparr>faults := fs\<rparr>)"
  by (simp add: same_rows_def)

lemma stmt_cases:
  obtains (fault) msg t where "stmt f s = (Inl (DbFault msg), t)" "same_rows s t"
  | (ok) t where "same_rows s t" "stmt f s = (Inr (fst (f t)), snd (f t))"
proof (cases "faults s")
  case Nil
  then show thesis using ok[of s] by (simp add: stmt_def split: prod.splits)
next
  case (Cons x rest)
  then show thesis
    using fault[of _ "s\<lparr>faults := rest\<rparr>"] ok[of "s\<lparr>faults := rest\<rparr>"]
    by (cases x) (auto simp: stmt_def split: prod.splits)
qed

lemma stmt_no_faults: "faults s = [] \<Longrightarrow> stmt f s = (Inr (fst (f s)), snd (f s))"
  by (simp add: stmt_def split: prod.splits)

lemma query_same_rows: "query f s = (r, t) \<Longrightarrow> same_rows s t"
  unfolding query_def by (cases rule: stmt_cases[of "\<lambda>s. (f s, s)" s]) auto

lemma query_Inr: "query f s = (Inr x, t) \<Longrightarrow> \<exists>u. same_rows s u \<and> t = u \<and> x = f u"
  unfolding query_def by (cases rule: stmt_cases[of "\<lambda>s. (f s, s)" s]) auto

lemma query_Inl: "query f s = (Inl e, t) \<Longrightarrow> \<exists>m. e = DbFault m"
  unfolding query_def by (cases rule: stmt_cases[of "\<lambda>s. (f s, s)" s]) auto

lemma query_row_same_rows: "query_row f s = (r, t) \<Longrightarrow> same_rows s t"
  unfolding query_row_def act_bind_def
  by (auto split: prod.splits sum.splits option.splits simp: act_fail_def act_return_def
           dest: query_same_rows)

lemma query_row_Inr: "query_row f s = (Inr x, t) \<Longrightarrow> f t = Some x"
  unfolding query_row_def act_bind_def
  by (auto split: prod.splits sum.splits option.splits simp: act_fail_def act_return_def
           dest: query_Inr)

lemma query_row_NoRows: "query_row f s = (Inl NoRows, t) \<Longrightarrow> f t = None"
  unfolding query_row_def act_bind_def
  by (auto split: prod.splits sum.splits option.splits simp: act_fail_def act_return_def
           dest: query_Inr query_Inl)

lemma query_no_faults: "faults s = [] \<Longrightarrow> query f s = (Inr (f s), s)"
  by (simp add: query_def stmt_no_faults)

lemma query_row_no_faults:
  "faults s = [] \<Longrightarrow> query_row f s = (case f s of None \<Rightarrow> (Inl NoRows, s) | Some x \<Rightarrow> (Inr x, s))"
  by (simp add: query_row_def act_bind_def query_no_faults act_fail_def act_return_def split: option.splits)

text \<open>A failed transaction leaves every row as it was.\<close>

lemma transaction_failed: "transaction body s = (Inl e, t) \<Longrightarrow> same_rows s t"
  unfolding transaction_def
  by (auto split: prod.splits sum.splits dest!: query_same_rows intro: same_rows_trans)

lemma transaction_ok:
  assumes "transaction body s = (Inr x, t)"
  shows "\<exists>u v. same_rows s u \<and> body u = (Inr x, v) \<and> same_rows v t"
  using assms unfolding transaction_def act_bind_def act_return_def
  by (auto split: prod.splits sum.splits dest!: query_same_rows)

section \<open>The settings table (models/setting.go)\<close>

definition get_setting_strict :: "string \<Rightarrow> (string \<times> bool) act" where
  "get_setting_strict key =
     act_try (query_row (\<lambda>s. settings s key))
       (\<lambda>r. case r of
          Inl NoRows \<Rightarrow> act_return ('''', False)
        | Inl e \<Rightarrow> act_fail e
        | Inr v \<Rightarrow> act_return (v, True))"

text \<open>\<^verbatim>\<open>GetSetting\<close> swallows a read error: the value is then empty.\<close>

definition get_setting :: "string \<Rightarrow> store \<Rightarrow> string \<times> store" where
  "get_setting key s =
     (case get_setting_strict key s of (Inl e, t) \<Rightarrow> ('''', t) | (Inr (v, found), t) \<Rightarrow> (v, t))"

definition insert_setting_if_absent :: "string \<Rightarrow> string \<Rightarrow> unit act" where
  "insert_setting_if_absent key v =
     exec (\<lambda>s. if settings s key = None then s\<lparr>settings := (settings s)(key \<mapsto> v)\<rparr> else s)"

definition set_setting :: "string \<Rightarrow> string \<Rightarrow> unit act" where
  "set_setting key v = exec (\<lambda>s. s\<lparr>settings := (settings s)(key \<mapsto> v)\<rparr>)"

definition delete_setting :: "string \<Rightarrow> unit act" where
  "delete_setting key = exec (\<lambda>s. s\<lparr>settings := (settings s)(key := None)\<rparr>)"

text \<open>\<^verbatim>\<open>PersistSetting\<close> and \<^verbatim>\<open>persistSettings\<close> (modules/settings.go).\<close>

record setting_write =
  sw_key :: string
  sw_value :: string
  sw_default :: bool

definition persist_setting :: "string \<Rightarrow> string \<Rightarrow> bool \<Rightarrow> unit act" where
  "persist_setting key v is_default = (if is_default then delete_setting key else set_setting key v)"

fun persist_writes :: "setting_write list \<Rightarrow> unit act" where
  "persist_writes [] = act_return ()"
| "persist_writes (w # ws) =
     act_try (persist_setting (sw_key w) (sw_value w) (sw_default w))
       (\<lambda>r. case r of Inl e \<Rightarrow> act_fail (Wrapped (''save '' @ sw_key w) e)
                    | Inr _ \<Rightarrow> persist_writes ws)"

definition persist_settings :: "setting_write list \<Rightarrow> unit act" where
  "persist_settings ws = (if ws = [] then act_return () else transaction (persist_writes ws))"

text \<open>What the writes of a request amount to, the last write of a key deciding.\<close>

fun apply_writes :: "setting_write list \<Rightarrow> (string \<rightharpoonup> string) \<Rightarrow> (string \<rightharpoonup> string)" where
  "apply_writes [] m = m"
| "apply_writes (w # ws) m =
     apply_writes ws (m(sw_key w := (if sw_default w then None else Some (sw_value w))))"

lemma get_setting_same_rows: "get_setting k s = (v, t) \<Longrightarrow> same_rows s t"
  unfolding get_setting_def get_setting_strict_def act_try_def
  by (auto split: prod.splits sum.splits go_error.splits simp: act_fail_def act_return_def
      dest: query_row_same_rows)

lemma get_setting_no_faults:
  "faults s = [] \<Longrightarrow> get_setting k s = (case settings s k of None \<Rightarrow> '''' | Some v \<Rightarrow> v, s)"
  by (simp add: get_setting_def get_setting_strict_def act_try_def query_row_no_faults
      act_fail_def act_return_def split: option.splits)

lemma persist_setting_ok:
  assumes "persist_setting k v d s = (Inr x, t)"
  shows "\<exists>u. same_rows s u \<and> t = u\<lparr>settings := (settings u)(k := (if d then None else Some v))\<rparr>"
  using assms unfolding persist_setting_def delete_setting_def set_setting_def exec_def
  by (cases rule: stmt_cases[of "\<lambda>s. ((), if d then s\<lparr>settings := (settings s)(k := None)\<rparr>
          else s\<lparr>settings := (settings s)(k \<mapsto> v)\<rparr>)" s])
     (auto split: if_splits)

lemma persist_writes_ok:
  "persist_writes ws s = (Inr x, t) \<Longrightarrow>
     settings t = apply_writes ws (settings s) \<and> jobs t = jobs s \<and> mailboxes t = mailboxes s"
proof (induction ws arbitrary: s)
  case (Cons w ws)
  from Cons.prems obtain y s1 where p: "persist_setting (sw_key w) (sw_value w) (sw_default w) s = (Inr y, s1)"
    and r: "persist_writes ws s1 = (Inr x, t)"
    by (auto simp: act_try_def act_fail_def split: prod.splits sum.splits)
  from persist_setting_ok[OF p] obtain u where u: "same_rows s u"
    and s1: "s1 = u\<lparr>settings := (settings u)(sw_key w := (if sw_default w then None else Some (sw_value w)))\<rparr>"
    by blast
  from Cons.IH[OF r] show ?case unfolding s1 by (simp add: same_rowsD[OF u] fun_upd_def)
qed (auto simp: act_return_def)

definition setting_probe_imap_host :: string where "setting_probe_imap_host = ''probe_imap_host''"

section \<open>The mailboxes table (models/mailbox.go)\<close>

text \<open>The ordering key of \<^verbatim>\<open>ListMailboxes\<close>: the part after the first "@" (all of
  an address without one), then the address.\<close>

definition domain_part :: "string \<Rightarrow> string" where
  "domain_part a = (case cut a ''@'' of None \<Rightarrow> a | Some (_, d) \<Rightarrow> d)"

definition list_mailboxes :: "mailbox list act" where
  "list_mailboxes = query (\<lambda>s. sort_key (\<lambda>m. (domain_part (mb_address m), mb_address m)) (mailboxes s))"

definition get_mailbox_by_id :: "int \<Rightarrow> mailbox act" where
  "get_mailbox_by_id i = query_row (\<lambda>s. List.find (\<lambda>m. mb_id m = i) (mailboxes s))"

definition get_mailbox_by_address :: "string \<Rightarrow> mailbox act" where
  "get_mailbox_by_address a = query_row (\<lambda>s. List.find (\<lambda>m. mb_address m = a) (mailboxes s))"

text \<open>The column address is UNIQUE: a write that would store it twice fails.\<close>

definition address_conflict :: go_error where
  "address_conflict = DbFault ''UNIQUE constraint failed: mailboxes.address''"

definition insert_mailbox :: "time \<Rightarrow> mailbox \<Rightarrow> mailbox act" where
  "insert_mailbox now m =
     act_bind (stmt (\<lambda>s.
       if \<exists>r \<in> set (mailboxes s). mb_address r = mb_address m then (None, s)
       else let m' = m\<lparr>mb_id := next_mailbox s, mb_created_at := now, mb_updated_at := now\<rparr>
            in (Some m', s\<lparr>mailboxes := mailboxes s @ [m'\<lparr>mb_last_fetch_error := '''', mb_last_fetched_at := None\<rparr>],
                           next_mailbox := next_mailbox s + 1\<rparr>)))
     (\<lambda>r. case r of None \<Rightarrow> act_fail address_conflict | Some m' \<Rightarrow> act_return m')"

definition update_mailbox_fetch_result :: "time \<Rightarrow> int \<Rightarrow> string \<Rightarrow> unit act" where
  "update_mailbox_fetch_result now i msg =
     exec (\<lambda>s. s\<lparr>mailboxes := map (\<lambda>m. if mb_id m = i
                then m\<lparr>mb_last_fetched_at := Some now, mb_last_fetch_error := msg\<rparr> else m) (mailboxes s)\<rparr>)"

text \<open>
  \<^verbatim>\<open>UpdateMailbox\<close>: the stored IMAP password is kept when none is given, and the
  stored SMTP password while the send check is on and the SMTP host and user name
  are set.
\<close>

definition update_mailbox :: "time \<Rightarrow> mailbox \<Rightarrow> mailbox act" where
  "update_mailbox now m =
     (let keep_smtp = (mb_smtp_password_enc m = '''' \<and> mb_probe_enabled m
                        \<and> mb_smtp_host m \<noteq> '''' \<and> mb_smtp_username m \<noteq> '''');
          write = (\<lambda>m. act_bind (stmt (\<lambda>s.
                     if (\<exists>r \<in> set (mailboxes s). mb_id r = mb_id m)
                        \<and> (\<exists>r \<in> set (mailboxes s). mb_id r \<noteq> mb_id m \<and> mb_address r = mb_address m)
                     then (False, s)
                     else (True, s\<lparr>mailboxes := map (\<lambda>r. if mb_id r = mb_id m
                       then m\<lparr>mb_last_fetched_at := mb_last_fetched_at r, mb_last_fetch_error := mb_last_fetch_error r,
                              mb_created_at := mb_created_at r, mb_updated_at := now\<rparr> else r) (mailboxes s)\<rparr>)))
                   (\<lambda>ok. if ok then act_return (m\<lparr>mb_updated_at := now\<rparr>) else act_fail address_conflict))
      in if mb_imap_password_enc m = '''' \<or> keep_smtp
         then act_bind (get_mailbox_by_id (mb_id m)) (\<lambda>cur.
                write (m\<lparr>mb_imap_password_enc := (if mb_imap_password_enc m = '''' then mb_imap_password_enc cur
                                                   else mb_imap_password_enc m),
                          mb_smtp_password_enc := (if keep_smtp then mb_smtp_password_enc cur
                                                   else mb_smtp_password_enc m)\<rparr>))
         else write m)"

text \<open>
  \<^verbatim>\<open>DeleteMailbox\<close>: the foreign key of jobs.mailbox_id is \<open>ON DELETE SET NULL\<close>, the
  one of probe_mails.mailbox_id \<open>ON DELETE CASCADE\<close> (0001 and 0004 of
  embedded/migrations/master).
\<close>

definition delete_mailbox :: "int \<Rightarrow> unit act" where
  "delete_mailbox i =
     exec (\<lambda>s. s\<lparr>mailboxes := filter (\<lambda>m. mb_id m \<noteq> i) (mailboxes s),
                 jobs := map (\<lambda>j. if j_mailbox j = Some i then j\<lparr>j_mailbox := None\<rparr> else j) (jobs s),
                 probe_mails := filter (\<lambda>p. p_mailbox p \<noteq> i) (probe_mails s)\<rparr>)"

lemma list_mailboxes_set: "list_mailboxes s = (Inr ms, t) \<Longrightarrow> set ms = set (mailboxes s)"
  unfolding list_mailboxes_def by (drule query_Inr) (auto dest: same_rowsD(3))

lemma get_mailbox_by_id_Inr:
  "get_mailbox_by_id i s = (Inr m, t) \<Longrightarrow> m \<in> set (mailboxes s) \<and> mb_id m = i \<and> same_rows s t"
proof -
  assume a: "get_mailbox_by_id i s = (Inr m, t)"
  then have r: "same_rows s t" unfolding get_mailbox_by_id_def by (rule query_row_same_rows)
  from a have "List.find (\<lambda>m. mb_id m = i) (mailboxes t) = Some m"
    unfolding get_mailbox_by_id_def by (rule query_row_Inr)
  with r show ?thesis by (auto dest!: find_SomeD simp: same_rowsD(3)[OF r])
qed

end
