(* ===== verification/Job_Store.thy ===== *)
theory Job_Store
  imports Db
begin

text \<open>
  The jobs table (app/models/job.go): every statement of the file as an
  operation on the store, the states a job goes through, and the invariants the
  statements keep. The constants of the job kinds and states are those of
  app/modules/constants.go. \<^verbatim>\<open>time.Now()\<close> is the argument \<open>now\<close>.

  The contract they give the job manager, the life of one row, is the locale
  \<open>job_lifecycle\<close> of Job_Safety, interpreted there on these statements.
\<close>

section \<open>Kinds and states (constants.go)\<close>

definition job_sync :: string where "job_sync = ''sync''"
definition job_fetch :: string where "job_fetch = ''fetch''"
definition job_group :: string where "job_group = ''group''"
definition job_analyze :: string where "job_analyze = ''analyze''"
definition job_reindex :: string where "job_reindex = ''reindex''"
definition job_reclassify :: string where "job_reclassify = ''reclassify''"
definition job_notify :: string where "job_notify = ''notify''"
definition job_cleanup :: string where "job_cleanup = ''cleanup''"
definition job_probe_send :: string where "job_probe_send = ''probe_send''"
definition job_probe_check :: string where "job_probe_check = ''probe_check''"

lemmas job_kind_defs = job_sync_def job_fetch_def job_group_def job_analyze_def job_reindex_def
  job_reclassify_def job_notify_def job_cleanup_def job_probe_send_def job_probe_check_def

definition status_queued :: string where "status_queued = ''queued''"
definition status_running :: string where "status_running = ''running''"
definition status_done :: string where "status_done = ''done''"
definition status_error :: string where "status_error = ''error''"
definition status_canceled :: string where "status_canceled = ''canceled''"

lemmas job_status_defs = status_queued_def status_running_def status_done_def status_error_def
  status_canceled_def

definition job_active :: "job \<Rightarrow> bool" where
  "job_active j \<longleftrightarrow> j_status j \<in> {status_queued, status_running}"

definition job_finished :: "job \<Rightarrow> bool" where
  "job_finished j \<longleftrightarrow> j_status j \<in> {status_done, status_error, status_canceled}"

section \<open>Statements (models/job.go)\<close>

definition insert_job :: "time \<Rightarrow> job \<Rightarrow> job act" where
  "insert_job now j =
     stmt (\<lambda>s. let st = (if j_status j = '''' then status_queued else j_status j);
                   row = j\<lparr>j_id := next_job s, j_status := st, j_progress := '''', j_result := '''',
                           j_error := '''', j_created_at := now, j_started_at := None, j_finished_at := None\<rparr>
               in (j\<lparr>j_id := next_job s, j_status := st, j_created_at := now\<rparr>,
                   s\<lparr>jobs := jobs s @ [row], next_job := next_job s + 1\<rparr>))"

text \<open>\<^verbatim>\<open>UPDATE jobs SET ... WHERE ...\<close> with its \<^verbatim>\<open>RowsAffected\<close>.\<close>

definition update_jobs :: "(job \<Rightarrow> bool) \<Rightarrow> (job \<Rightarrow> job) \<Rightarrow> nat act" where
  "update_jobs P f =
     stmt (\<lambda>s. (length (filter P (jobs s)), s\<lparr>jobs := map (\<lambda>j. if P j then f j else j) (jobs s)\<rparr>))"

definition get_job_by_id :: "int \<Rightarrow> job act" where
  "get_job_by_id i = query_row (\<lambda>s. List.find (\<lambda>j. j_id j = i) (jobs s))"

definition claim_job_by_id :: "time \<Rightarrow> int \<Rightarrow> job option act" where
  "claim_job_by_id now i =
     act_bind (update_jobs (\<lambda>j. j_id j = i \<and> j_status j = status_queued)
                 (\<lambda>j. j\<lparr>j_status := status_running, j_started_at := Some now\<rparr>))
       (\<lambda>n. if n = 0 then act_return None
            else act_bind (get_job_by_id i) (\<lambda>j. act_return (Some j)))"

text \<open>
  The walk of \<^verbatim>\<open>ClaimNextRunnableJob\<close> over the queued jobs. \<open>can_run\<close> may read
  the database and keep notes of its own (type \<^typ>\<open>'c\<close>), as the closure of the
  job manager does.
\<close>

fun claim_loop :: "time \<Rightarrow> (job \<Rightarrow> 'c \<Rightarrow> store \<Rightarrow> (bool \<times> 'c) \<times> store) \<Rightarrow> job list \<Rightarrow> 'c \<Rightarrow> store
    \<Rightarrow> ((go_error + job option) \<times> 'c) \<times> store" where
  "claim_loop now can_run [] c s = ((Inr None, c), s)"
| "claim_loop now can_run (j # js) c s =
     (case can_run j c s of
        ((False, c1), s1) \<Rightarrow> claim_loop now can_run js c1 s1
      | ((True, c1), s1) \<Rightarrow>
          (case claim_job_by_id now (j_id j) s1 of
             (Inl e, s2) \<Rightarrow> ((Inl e, c1), s2)
           | (Inr None, s2) \<Rightarrow> claim_loop now can_run js c1 s2
           | (Inr (Some k), s2) \<Rightarrow> ((Inr (Some k), c1), s2)))"

definition queued_jobs :: "store \<Rightarrow> job list" where
  "queued_jobs s =
     sort_key (\<lambda>j. (j_created_at j, j_id j)) (filter (\<lambda>j. j_status j = status_queued) (jobs s))"

definition claim_next_runnable_job :: "time \<Rightarrow> (job \<Rightarrow> 'c \<Rightarrow> store \<Rightarrow> (bool \<times> 'c) \<times> store) \<Rightarrow> 'c \<Rightarrow> store
    \<Rightarrow> ((go_error + job option) \<times> 'c) \<times> store" where
  "claim_next_runnable_job now can_run c s =
     (case query queued_jobs s of
        (Inl e, s1) \<Rightarrow> ((Inl e, c), s1)
      | (Inr js, s1) \<Rightarrow> claim_loop now can_run js c s1)"

definition update_job_progress :: "int \<Rightarrow> string \<Rightarrow> nat act" where
  "update_job_progress i txt = update_jobs (\<lambda>j. j_id j = i) (\<lambda>j. j\<lparr>j_progress := txt\<rparr>)"

definition finish_job :: "time \<Rightarrow> int \<Rightarrow> string \<Rightarrow> string \<Rightarrow> nat act" where
  "finish_job now i result err =
     update_jobs (\<lambda>j. j_id j = i)
       (\<lambda>j. j\<lparr>j_status := (if err \<noteq> '''' then status_error else status_done), j_result := result,
              j_error := err, j_finished_at := Some now\<rparr>)"

definition cancel_queued_job :: "time \<Rightarrow> int \<Rightarrow> bool act" where
  "cancel_queued_job now i =
     act_bind (update_jobs (\<lambda>j. j_id j = i \<and> j_status j = status_queued)
                 (\<lambda>j. j\<lparr>j_status := status_canceled, j_finished_at := Some now\<rparr>))
       (\<lambda>n. act_return (0 < n))"

definition cancel_queued_jobs_for_mailbox :: "time \<Rightarrow> int \<Rightarrow> nat act" where
  "cancel_queued_jobs_for_mailbox now m =
     update_jobs (\<lambda>j. j_mailbox j = Some m \<and> j_status j = status_queued)
       (\<lambda>j. j\<lparr>j_status := status_canceled, j_finished_at := Some now\<rparr>)"

definition has_running_job_for_mailbox :: "int \<Rightarrow> bool act" where
  "has_running_job_for_mailbox m =
     query (\<lambda>s. 0 < length (filter (\<lambda>j. j_mailbox j = Some m \<and> j_status j = status_running) (jobs s)))"

definition reset_running_jobs :: "time \<Rightarrow> string \<Rightarrow> nat act" where
  "reset_running_jobs now reason =
     update_jobs (\<lambda>j. j_status j = status_running)
       (\<lambda>j. j\<lparr>j_status := status_error, j_error := reason, j_finished_at := Some now\<rparr>)"

text \<open>\<^verbatim>\<open>LIMIT\<close> and \<^verbatim>\<open>OFFSET\<close> of SQLite: a negative limit is none, a negative offset 0.\<close>

definition sql_limit :: "int \<Rightarrow> 'a list \<Rightarrow> 'a list" where
  "sql_limit n xs = (if n < 0 then xs else take (nat n) xs)"

definition list_jobs :: "int \<Rightarrow> job list act" where
  "list_jobs limit =
     query (\<lambda>s. sql_limit (if limit \<le> 0 then 50 else limit) (rev (sort_key j_id (jobs s))))"

text \<open>The filters of the history: "" is every finished job.\<close>

definition finished_job_condition :: "string \<Rightarrow> job \<Rightarrow> bool" where
  "finished_job_condition status j =
     (if status = '''' then j_status j \<in> {status_done, status_error, status_canceled}
      else j_status j = status)"

definition list_finished_jobs :: "string \<Rightarrow> int \<Rightarrow> int \<Rightarrow> (job list \<times> nat) act" where
  "list_finished_jobs status offset limit =
     act_bind (query (\<lambda>s. length (filter (finished_job_condition status) (jobs s)))) (\<lambda>total.
     act_bind (query (\<lambda>s. sql_limit limit (drop (nat offset)
        (rev (sort_key (\<lambda>j. (case j_finished_at j of None \<Rightarrow> (0::nat, 0) | Some t \<Rightarrow> (1, t), j_id j))
           (filter (finished_job_condition status) (jobs s))))))) (\<lambda>js.
     act_return (js, total)))"

record finished_counts =
  fc_all :: nat
  fc_done :: nat
  fc_error :: nat
  fc_canceled :: nat

definition count_finished_jobs :: "finished_counts act" where
  "count_finished_jobs =
     query (\<lambda>s. let fin = filter job_finished (jobs s) in
       \<lparr>fc_all = length fin,
        fc_done = length (filter (\<lambda>j. j_status j = status_done) fin),
        fc_error = length (filter (\<lambda>j. j_status j = status_error) fin),
        fc_canceled = length (filter (\<lambda>j. j_status j = status_canceled) fin)\<rparr>)"

definition list_active_jobs :: "job list act" where
  "list_active_jobs = query (\<lambda>s. sort_key j_id (filter job_active (jobs s)))"

text \<open>A job of the kind, mailbox (0: none) and target, as \<^verbatim>\<open>HasActiveJob\<close> compares it.\<close>

definition job_matches :: "string \<Rightarrow> int \<Rightarrow> string \<Rightarrow> job \<Rightarrow> bool" where
  "job_matches kind mailbox_id target j \<longleftrightarrow>
     j_kind j = kind \<and> j_target j = target
     \<and> (if mailbox_id = 0 then j_mailbox j = None else j_mailbox j = Some mailbox_id)"

definition has_active_job :: "string \<Rightarrow> int \<Rightarrow> string \<Rightarrow> bool act" where
  "has_active_job kind mailbox_id target =
     query (\<lambda>s. 0 < length (filter (\<lambda>j. job_matches kind mailbox_id target j \<and> job_active j) (jobs s)))"

definition has_active_job_of_kind :: "string \<Rightarrow> bool act" where
  "has_active_job_of_kind kind =
     query (\<lambda>s. 0 < length (filter (\<lambda>j. j_kind j = kind \<and> job_active j) (jobs s)))"

text \<open>
  \<^verbatim>\<open>DELETE\<close> of the old finished jobs; the foreign key of jobs.parent_id is
  \<open>ON DELETE SET NULL\<close>.
\<close>

definition old_finished :: "time \<Rightarrow> job \<Rightarrow> bool" where
  "old_finished before j \<longleftrightarrow>
     job_finished j \<and> (case j_finished_at j of None \<Rightarrow> False | Some t \<Rightarrow> t < before)"

definition delete_old_jobs :: "time \<Rightarrow> nat act" where
  "delete_old_jobs before =
     stmt (\<lambda>s. let gone = map j_id (filter (old_finished before) (jobs s))
               in (length gone,
                   s\<lparr>jobs := map (\<lambda>j. if j_parent j \<in> set gone then j\<lparr>j_parent := 0\<rparr> else j)
                             (filter (\<lambda>j. \<not> old_finished before j) (jobs s))\<rparr>))"

section \<open>Invariants\<close>

text \<open>
  A well-formed table: ids are distinct, positive and below the next id, and
  every row has one of the five states with the timestamps that belong to it.
\<close>

definition job_ok :: "job \<Rightarrow> bool" where
  "job_ok j \<longleftrightarrow>
     j_status j \<in> {status_queued, status_running, status_done, status_error, status_canceled}
     \<and> (j_status j = status_queued \<longrightarrow> j_started_at j = None \<and> j_finished_at j = None)
     \<and> (j_status j = status_running \<longrightarrow> j_started_at j \<noteq> None \<and> j_finished_at j = None)
     \<and> (job_finished j \<longrightarrow> j_finished_at j \<noteq> None)
     \<and> (j_status j = status_error \<longrightarrow> j_error j \<noteq> '''')"

definition table_ok :: "store \<Rightarrow> bool" where
  "table_ok s \<longleftrightarrow>
     distinct (map j_id (jobs s)) \<and> (\<forall>j \<in> set (jobs s). 0 < j_id j \<and> j_id j < next_job s \<and> job_ok j)
     \<and> 0 < next_job s"

text \<open>No two jobs of the same kind, mailbox and target are queued or running.\<close>

definition job_key :: "job \<Rightarrow> string \<times> int option \<times> string" where
  "job_key j = (j_kind j, j_mailbox j, j_target j)"

definition active_unique :: "store \<Rightarrow> bool" where
  "active_unique s \<longleftrightarrow> distinct (map job_key (filter job_active (jobs s)))"

subsection \<open>Generic facts on the update statements\<close>

lemma job_active_finished: "job_active j \<Longrightarrow> \<not> job_finished j"
  by (auto simp: job_active_def job_finished_def job_status_defs)

lemma update_jobs_cases:
  assumes "update_jobs P f s = (r, t)"
  obtains (fault) msg where "r = Inl (DbFault msg)" "same_rows s t"
  | (ok) u where "same_rows s u" "r = Inr (length (filter P (jobs s)))"
      "t = u\<lparr>jobs := map (\<lambda>j. if P j then f j else j) (jobs s)\<rparr>"
proof (cases rule: stmt_cases[of "\<lambda>s. (length (filter P (jobs s)),
    s\<lparr>jobs := map (\<lambda>j. if P j then f j else j) (jobs s)\<rparr>)" s])
  case (fault msg t')
  with assms show ?thesis using that(1)[of msg] by (simp add: update_jobs_def)
next
  case (ok t')
  with assms show ?thesis using that(2)[of t'] by (simp add: update_jobs_def same_rowsD[OF ok(1)])
qed

lemma update_jobs_no_faults:
  "faults s = [] \<Longrightarrow> update_jobs P f s
     = (Inr (length (filter P (jobs s))), s\<lparr>jobs := map (\<lambda>j. if P j then f j else j) (jobs s)\<rparr>)"
  by (simp add: update_jobs_def stmt_no_faults)

text \<open>
  An update keeps the table well-formed and the active jobs unique when each row
  it changes keeps its identity and goes to a proper state, never from finished
  to active.
\<close>

definition update_safe :: "(job \<Rightarrow> bool) \<Rightarrow> (job \<Rightarrow> job) \<Rightarrow> bool" where
  "update_safe P f \<longleftrightarrow>
     (\<forall>j. P j \<longrightarrow> j_id (f j) = j_id j \<and> job_key (f j) = job_key j
        \<and> (job_ok j \<longrightarrow> job_ok (f j)) \<and> (job_active (f j) \<longrightarrow> job_active j))"

lemma map_update_id:
  "update_safe P f \<Longrightarrow> map j_id (map (\<lambda>j. if P j then f j else j) js) = map j_id js"
  by (auto simp: update_safe_def)

lemma distinct_map_filter_update:
  assumes "update_safe P f" and "distinct (map job_key (filter job_active js))"
  shows "distinct (map job_key (filter job_active (map (\<lambda>j. if P j then f j else j) js)))"
  using assms(2)
proof (induction js)
  case (Cons j js)
  let ?g = "\<lambda>j. if P j then f j else j"
  have key: "job_key (?g k) = job_key k" and act: "job_active (?g k) \<Longrightarrow> job_active k" for k
    using assms(1) by (auto simp: update_safe_def split: if_splits)
  show ?case
  proof (cases "job_active (?g j)")
    case False
    with Cons show ?thesis by (cases "job_active j") simp_all
  next
    case True
    then have "job_active j" by (rule act)
    with Cons.prems have fresh: "job_key j \<notin> job_key ` set (filter job_active js)"
      and rest: "distinct (map job_key (filter job_active js))" by simp_all
    have "job_key j \<notin> job_key ` set (filter job_active (map ?g js))"
    proof
      assume "job_key j \<in> job_key ` set (filter job_active (map ?g js))"
      then obtain k where "k \<in> set js" "job_active (?g k)" "job_key j = job_key (?g k)" by auto
      with key[of k] act[of k] have "k \<in> set (filter job_active js)" "job_key j = job_key k"
        by simp_all
      with fresh show False by blast
    qed
    with True Cons.IH[OF rest] key[of j] show ?thesis by simp
  qed
qed simp

lemma update_safe_table_ok:
  assumes "update_safe P f" "table_ok s" "same_rows s u"
  shows "table_ok (u\<lparr>jobs := map (\<lambda>j. if P j then f j else j) (jobs s)\<rparr>)"
  using assms map_update_id[OF assms(1), of "jobs s"]
  by (auto simp: table_ok_def same_rowsD update_safe_def simp del: map_map)

lemma update_safe_active_unique:
  assumes "update_safe P f" "active_unique s"
  shows "active_unique (u\<lparr>jobs := map (\<lambda>j. if P j then f j else j) (jobs s)\<rparr>)"
  using distinct_map_filter_update[OF assms(1)] assms(2) by (simp add: active_unique_def)

lemma same_rows_table_ok: "\<lbrakk> same_rows s t; table_ok s \<rbrakk> \<Longrightarrow> table_ok t"
  by (simp add: table_ok_def same_rowsD)

lemma same_rows_active_unique: "\<lbrakk> same_rows s t; active_unique s \<rbrakk> \<Longrightarrow> active_unique t"
  by (simp add: active_unique_def same_rowsD)

lemma update_jobs_invs:
  assumes "update_jobs P f s = (r, t)" "update_safe P f"
  shows "table_ok s \<Longrightarrow> table_ok t" "active_unique s \<Longrightarrow> active_unique t"
    "next_job t = next_job s" "mailboxes t = mailboxes s" "settings t = settings s"
  using assms(1) by (cases rule: update_jobs_cases; use assms(2) in
      \<open>auto simp: same_rowsD intro: same_rows_table_ok same_rows_active_unique
          update_safe_table_ok update_safe_active_unique\<close>)+

subsection \<open>The statements keep the invariants\<close>

lemma update_safe_claim:
  "update_safe (\<lambda>j. j_id j = i \<and> j_status j = status_queued)
     (\<lambda>j. j\<lparr>j_status := status_running, j_started_at := Some now\<rparr>)"
  by (auto simp: update_safe_def job_key_def job_ok_def job_active_def job_finished_def job_status_defs)

lemma update_safe_cancel:
  "(\<And>j. P j \<Longrightarrow> j_status j = status_queued) \<Longrightarrow>
   update_safe P (\<lambda>j. j\<lparr>j_status := status_canceled, j_finished_at := Some now\<rparr>)"
  by (auto simp: update_safe_def job_key_def job_ok_def job_active_def job_finished_def job_status_defs)

lemma update_safe_progress: "update_safe P (\<lambda>j. j\<lparr>j_progress := txt\<rparr>)"
  by (auto simp: update_safe_def job_key_def job_ok_def job_active_def job_finished_def)

lemma update_safe_finish:
  "update_safe P (\<lambda>j. j\<lparr>j_status := (if err \<noteq> '''' then status_error else status_done), j_result := res,
     j_error := err, j_finished_at := Some now\<rparr>)"
  by (auto simp: update_safe_def job_key_def job_ok_def job_active_def job_finished_def job_status_defs)

lemma update_safe_reset:
  "reason \<noteq> '''' \<Longrightarrow> update_safe P (\<lambda>j. j\<lparr>j_status := status_error, j_error := reason, j_finished_at := Some now\<rparr>)"
  by (auto simp: update_safe_def job_key_def job_ok_def job_active_def job_finished_def job_status_defs)

text \<open>What an action keeps: the invariants and everything but the jobs.\<close>

definition keeps :: "store \<Rightarrow> store \<Rightarrow> bool" where
  "keeps s t \<longleftrightarrow>
     (table_ok s \<longrightarrow> table_ok t) \<and> (active_unique s \<longrightarrow> active_unique t) \<and> next_job s \<le> next_job t
     \<and> mailboxes t = mailboxes s \<and> settings t = settings s"

lemma keeps_refl [simp]: "keeps s s" by (simp add: keeps_def)

lemma keeps_trans: "\<lbrakk> keeps s t; keeps t u \<rbrakk> \<Longrightarrow> keeps s u" by (auto simp: keeps_def)

lemma keeps_same_rows: "same_rows s t \<Longrightarrow> keeps s t"
  by (simp add: keeps_def same_rowsD same_rows_table_ok same_rows_active_unique)

lemma keeps_update: "\<lbrakk> update_jobs P f s = (r, t); update_safe P f \<rbrakk> \<Longrightarrow> keeps s t"
  using update_jobs_invs by (simp add: keeps_def)

lemma keeps_query: "query f s = (r, t) \<Longrightarrow> keeps s t"
  by (rule keeps_same_rows) (rule query_same_rows)

lemma keeps_query_row: "query_row f s = (r, t) \<Longrightarrow> keeps s t"
  by (rule keeps_same_rows) (rule query_row_same_rows)

lemma keeps_bind:
  assumes "act_bind m f s = (r, t)"
    and "\<And>r t. m s = (r, t) \<Longrightarrow> keeps s t" "\<And>x u r t. f x u = (r, t) \<Longrightarrow> keeps u t"
  shows "keeps s t"
  using assms(1) by (auto simp: act_bind_def split: prod.splits sum.splits intro: keeps_trans assms(2,3))

lemma keeps_return: "act_return x s = (r, t) \<Longrightarrow> keeps s t"
  by (simp add: act_return_def)

lemma claim_job_by_id_keeps: "claim_job_by_id now i s = (r, t) \<Longrightarrow> keeps s t"
  unfolding claim_job_by_id_def get_job_by_id_def
  by (erule keeps_bind)
     (auto intro: keeps_update[OF _ update_safe_claim] keeps_return
       elim!: keeps_bind keeps_query_row split: if_splits)

lemma finish_job_keeps: "finish_job now i res err s = (r, t) \<Longrightarrow> keeps s t"
  unfolding finish_job_def by (rule keeps_update[OF _ update_safe_finish])

lemma update_job_progress_keeps: "update_job_progress i txt s = (r, t) \<Longrightarrow> keeps s t"
  unfolding update_job_progress_def by (rule keeps_update[OF _ update_safe_progress])

lemma cancel_queued_job_keeps: "cancel_queued_job now i s = (r, t) \<Longrightarrow> keeps s t"
  unfolding cancel_queued_job_def
  by (erule keeps_bind) (auto intro: keeps_return keeps_update[OF _ update_safe_cancel])

lemma cancel_for_mailbox_keeps: "cancel_queued_jobs_for_mailbox now m s = (r, t) \<Longrightarrow> keeps s t"
  unfolding cancel_queued_jobs_for_mailbox_def by (erule keeps_update) (rule update_safe_cancel, simp)

lemma reset_running_jobs_keeps:
  "\<lbrakk> reset_running_jobs now reason s = (r, t); reason \<noteq> '''' \<rbrakk> \<Longrightarrow> keeps s t"
  unfolding reset_running_jobs_def by (rule keeps_update[OF _ update_safe_reset])

text \<open>Inserting keeps the active jobs unique only when no active job matches.\<close>

definition fresh_row :: "time \<Rightarrow> job \<Rightarrow> store \<Rightarrow> job" where
  "fresh_row now j s =
     j\<lparr>j_id := next_job s, j_status := (if j_status j = '''' then status_queued else j_status j),
       j_progress := '''', j_result := '''', j_error := '''', j_created_at := now,
       j_started_at := None, j_finished_at := None\<rparr>"

definition inserted_job :: "time \<Rightarrow> job \<Rightarrow> store \<Rightarrow> job" where
  "inserted_job now j s =
     j\<lparr>j_id := next_job s, j_status := (if j_status j = '''' then status_queued else j_status j),
       j_created_at := now\<rparr>"

lemma insert_job_stmt:
  "insert_job now j = stmt (\<lambda>s. (inserted_job now j s,
     s\<lparr>jobs := jobs s @ [fresh_row now j s], next_job := next_job s + 1\<rparr>))"
  by (simp add: insert_job_def fresh_row_def inserted_job_def Let_def)

lemma insert_job_cases:
  assumes "insert_job now j s = (r, t)"
  obtains (fault) msg where "r = Inl (DbFault msg)" "same_rows s t"
  | (ok) u where "same_rows s u" "r = Inr (inserted_job now j s)"
      "t = u\<lparr>jobs := jobs s @ [fresh_row now j s], next_job := next_job s + 1\<rparr>"
proof (cases rule: stmt_cases[of "\<lambda>s. (inserted_job now j s,
     s\<lparr>jobs := jobs s @ [fresh_row now j s], next_job := next_job s + 1\<rparr>)" s])
  case (fault msg u)
  with assms that(1)[of msg] show ?thesis by (simp add: insert_job_stmt)
next
  case (ok u)
  have "inserted_job now j u = inserted_job now j s" "fresh_row now j u = fresh_row now j s"
    by (simp_all add: inserted_job_def fresh_row_def same_rowsD[OF ok(1)])
  with assms ok that(2)[of u] show ?thesis by (simp add: insert_job_stmt same_rowsD[OF ok(1)])
qed

lemma fresh_row_ok: "j_status j \<in> {'''', status_queued} \<Longrightarrow> job_ok (fresh_row now j s)"
  by (auto simp: fresh_row_def job_ok_def job_finished_def job_status_defs)

lemma insert_job_table_ok:
  assumes "insert_job now j s = (r, t)" "j_status j \<in> {'''', status_queued}" "table_ok s"
  shows "table_ok t"
  using assms(1)
proof (cases rule: insert_job_cases)
  case (ok u)
  have "j_id (fresh_row now j s) = next_job s" by (simp add: fresh_row_def)
  with ok(3) assms(3) fresh_row_ok[OF assms(2), of now s] show ?thesis
    by (auto simp: table_ok_def)
qed (use assms(3) in \<open>auto intro: same_rows_table_ok\<close>)

lemma insert_job_active_unique:
  assumes "insert_job now j s = (r, t)" "active_unique s"
    and "\<And>k. \<lbrakk> k \<in> set (jobs s); job_active k \<rbrakk> \<Longrightarrow> job_key k \<noteq> job_key j"
  shows "active_unique t"
  using assms(1)
proof (cases rule: insert_job_cases)
  case (ok u)
  have "job_key (fresh_row now j s) = job_key j" by (simp add: fresh_row_def job_key_def)
  moreover from assms(3) have "job_key j \<notin> job_key ` set (filter job_active (jobs s))"
    by (auto simp: image_iff dest!: sym[of "job_key j"])
  ultimately show ?thesis using ok(3) assms(2) by (simp add: active_unique_def)
qed (use assms(2) in \<open>auto intro: same_rows_active_unique\<close>)

lemma insert_job_other:
  assumes "insert_job now j s = (r, t)"
  shows "mailboxes t = mailboxes s \<and> settings t = settings s \<and> next_job s \<le> next_job t"
  using assms by (cases rule: insert_job_cases) (auto simp: same_rowsD)

text \<open>Deleting the old finished jobs touches no active job.\<close>

lemma delete_old_jobs_cases:
  assumes "delete_old_jobs before s = (r, t)"
  obtains (fault) msg where "r = Inl (DbFault msg)" "same_rows s t"
  | (ok) u where "same_rows s u" "r = Inr (length (filter (old_finished before) (jobs s)))"
      "t = u\<lparr>jobs := map (\<lambda>j. if j_parent j \<in> j_id ` set (filter (old_finished before) (jobs s))
                              then j\<lparr>j_parent := 0\<rparr> else j)
                    (filter (\<lambda>j. \<not> old_finished before j) (jobs s))\<rparr>"
proof (cases rule: stmt_cases[of "\<lambda>s. let gone = map j_id (filter (old_finished before) (jobs s))
               in (length gone,
                   s\<lparr>jobs := map (\<lambda>j. if j_parent j \<in> set gone then j\<lparr>j_parent := 0\<rparr> else j)
                             (filter (\<lambda>j. \<not> old_finished before j) (jobs s))\<rparr>)" s])
  case (fault msg u)
  with assms that(1)[of msg] show ?thesis by (simp add: delete_old_jobs_def)
next
  case (ok u)
  with assms that(2)[of u] show ?thesis by (simp add: delete_old_jobs_def Let_def same_rowsD[OF ok(1)])
qed

lemma distinct_map_filter': "distinct (map f xs) \<Longrightarrow> distinct (map f (filter P xs))"
  by (induction xs) auto

lemma delete_old_jobs_keeps:
  assumes "delete_old_jobs before s = (r, t)"
  shows "keeps s t"
  using assms
proof (cases rule: delete_old_jobs_cases)
  case (ok u)
  let ?gone = "j_id ` set (filter (old_finished before) (jobs s))"
  let ?f = "\<lambda>j. if j_parent j \<in> ?gone then j\<lparr>j_parent := 0\<rparr> else j"
  let ?left = "filter (\<lambda>j. \<not> old_finished before j) (jobs s)"
  have safe: "update_safe (\<lambda>j. j_parent j \<in> ?gone) (\<lambda>j. j\<lparr>j_parent := 0\<rparr>)"
    by (auto simp: update_safe_def job_key_def job_ok_def job_active_def job_finished_def)
  have "table_ok (u\<lparr>jobs := ?left\<rparr>)" if "table_ok s"
    using that by (auto simp: table_ok_def distinct_map_filter' same_rowsD[OF ok(1)])
  then have a: "table_ok t" if "table_ok s"
    using that update_safe_table_ok[OF safe, of "u\<lparr>jobs := ?left\<rparr>" "u\<lparr>jobs := ?left\<rparr>"] ok(3)
    by simp
  have "active_unique (s\<lparr>jobs := ?left\<rparr>)" if "active_unique s"
    using that distinct_map_filter'[of job_key "filter job_active (jobs s)" "\<lambda>j. \<not> old_finished before j"]
    by (simp add: active_unique_def conj_commute)
  then have b: "active_unique t" if "active_unique s"
    using that update_safe_active_unique[OF safe, of "s\<lparr>jobs := ?left\<rparr>" u] ok(3) by simp
  from a b ok(3) show ?thesis by (simp add: keeps_def same_rowsD[OF ok(1)])
qed (rule keeps_same_rows)

subsection \<open>What a claim does\<close>

lemma find_by_id:
  "\<lbrakk> distinct (map j_id js); j \<in> set js; j_id j = i \<rbrakk> \<Longrightarrow> List.find (\<lambda>j. j_id j = i) js = Some j"
  by (induction js) (auto simp: image_iff)

definition job_row :: "store \<Rightarrow> int \<Rightarrow> job option" where
  "job_row s i = List.find (\<lambda>j. j_id j = i) (jobs s)"

lemma job_row_Some: "job_row s i = Some j \<Longrightarrow> j \<in> set (jobs s) \<and> j_id j = i"
  unfolding job_row_def by (drule find_SomeD) simp

lemma job_row_mem: "\<lbrakk> table_ok s; j \<in> set (jobs s) \<rbrakk> \<Longrightarrow> job_row s (j_id j) = Some j"
  unfolding job_row_def table_ok_def by (auto intro: find_by_id)

lemma same_rows_job_row: "same_rows s t \<Longrightarrow> job_row t = job_row s"
  by (simp add: job_row_def fun_eq_iff same_rowsD)

lemma find_update:
  assumes "\<And>j. P j \<Longrightarrow> j_id (f j) = j_id j"
  shows "List.find (\<lambda>j. j_id j = i) (map (\<lambda>j. if P j then f j else j) js)
     = map_option (\<lambda>j. if P j then f j else j) (List.find (\<lambda>j. j_id j = i) js)"
  using assms by (induction js) auto

lemma update_jobs_row:
  assumes "update_jobs P f s = (r, t)" "\<And>j. P j \<Longrightarrow> j_id (f j) = j_id j"
  shows "(\<exists>msg. r = Inl (DbFault msg)) \<and> job_row t = job_row s
    \<or> r = Inr (length (filter P (jobs s)))
      \<and> job_row t = (\<lambda>i. map_option (\<lambda>j. if P j then f j else j) (job_row s i))"
  using assms(1) by (cases rule: update_jobs_cases)
    (auto simp: same_rows_job_row job_row_def fun_eq_iff find_update[OF assms(2)])

lemma length_filter_row:
  assumes "table_ok s" "\<And>j. P j \<Longrightarrow> j_id j = i"
  shows "length (filter P (jobs s)) = (case job_row s i of None \<Rightarrow> 0 | Some j \<Rightarrow> if P j then 1 else 0)"
proof -
  have le: "length (filter P (jobs s)) \<le> 1"
    using assms by (intro length_filter_le_1_distinct[of j_id _ _ i]) (auto simp: table_ok_def)
  show ?thesis
  proof (cases "filter P (jobs s)")
    case Nil
    then show ?thesis by (auto simp: filter_empty_conv dest!: job_row_Some split: option.splits)
  next
    case (Cons j js)
    then have "j \<in> set (jobs s)" "P j" by (auto simp: filter_eq_Cons_iff)
    with assms have "job_row s i = Some j" using job_row_mem by blast
    with Cons le \<open>P j\<close> show ?thesis by simp
  qed
qed

definition claimed :: "time \<Rightarrow> job \<Rightarrow> job" where
  "claimed now j = j\<lparr>j_status := status_running, j_started_at := Some now\<rparr>"

text \<open>
  The three outcomes of a claim: an error, which leaves the job as it was or (when
  only reading the row back failed) running; nothing, when the job is not queued;
  the job, now running.
\<close>

lemma claim_job_by_id_cases:
  assumes "claim_job_by_id now i s = (r, t)" "table_ok s"
  obtains (failed) msg where "r = Inl (DbFault msg)" "job_row t = job_row s"
  | (lost) msg j where "r = Inl (DbFault msg)" "job_row s i = Some j" "j_status j = status_queued"
      "job_row t = (job_row s)(i \<mapsto> claimed now j)"
  | (none) "r = Inr None" "job_row t = job_row s" "\<And>j. job_row s i = Some j \<Longrightarrow> j_status j \<noteq> status_queued"
  | (some) j where "r = Inr (Some (claimed now j))" "job_row s i = Some j" "j_status j = status_queued"
      "job_row t = (job_row s)(i \<mapsto> claimed now j)"
proof -
  let ?P = "\<lambda>j. j_id j = i \<and> j_status j = status_queued"
  obtain r1 s1 where u: "update_jobs ?P (\<lambda>j. j\<lparr>j_status := status_running, j_started_at := Some now\<rparr>) s = (r1, s1)"
    by fastforce
  note row = update_jobs_row[OF u]
  show thesis
  proof (cases r1)
    case (Inl e)
    with assms(1) u have "r = Inl e" "t = s1" by (simp_all add: claim_job_by_id_def act_bind_def)
    with row Inl show thesis by (auto intro: failed)
  next
    case (Inr n)
    with row have n: "n = length (filter ?P (jobs s))"
      and rows: "job_row s1 = (\<lambda>k. map_option (\<lambda>j. if ?P j then claimed now j else j) (job_row s k))"
      unfolding claimed_def by auto
    note n' = n[unfolded length_filter_row[OF assms(2), of ?P i, simplified]]
    show thesis
    proof (cases "n = 0")
      case True
      with assms(1) u Inr have r: "r = Inr None" "t = s1"
        by (simp_all add: claim_job_by_id_def act_bind_def act_return_def)
      have nq: "j_status j \<noteq> status_queued" if "job_row s i = Some j" for j
        using n' True that by (auto dest: job_row_Some split: if_splits)
      have "job_row s1 = job_row s"
      proof
        fix k show "job_row s1 k = job_row s k"
          using nq job_row_Some[of s k] by (cases "job_row s k") (auto simp: rows)
      qed
      with r nq show thesis by (auto intro: none)
    next
      case False
      with n' obtain j where j: "job_row s i = Some j" "j_status j = status_queued"
        by (auto split: option.splits if_splits)
      have rows': "job_row s1 = (job_row s)(i \<mapsto> claimed now j)"
      proof
        fix k
        show "job_row s1 k = ((job_row s)(i \<mapsto> claimed now j)) k"
        proof (cases "k = i")
          case True
          with j job_row_Some[OF j(1)] show ?thesis by (simp add: rows)
        next
          case False
          with job_row_Some[of s k] show ?thesis by (cases "job_row s k") (auto simp: rows)
        qed
      qed
      obtain r2 s2 where g: "get_job_by_id i s1 = (r2, s2)" by fastforce
      have sr: "same_rows s1 s2" using g unfolding get_job_by_id_def by (rule query_row_same_rows)
      have rt: "t = s2" "r = (case r2 of Inl e \<Rightarrow> Inl e | Inr k \<Rightarrow> Inr (Some k))"
        using assms(1) u Inr False g
        by (auto simp: claim_job_by_id_def act_bind_def act_return_def split: sum.splits)
      have t: "job_row t = (job_row s)(i \<mapsto> claimed now j)"
        using rows' same_rows_job_row[OF sr] rt(1) by simp
      show thesis
      proof (cases r2)
        case (Inr k)
        with g have "job_row s2 i = Some k"
          unfolding get_job_by_id_def job_row_def by (auto dest: query_row_Inr)
        with t rt have "k = claimed now j" by simp
        with Inr rt t j show thesis by (auto intro: some)
      next
        case (Inl e)
        have "\<exists>m. e = DbFault m"
        proof -
          have "query (\<lambda>s. List.find (\<lambda>j. j_id j = i) (jobs s)) s1 \<noteq> (Inr None, s2)"
            using rows' query_Inr[of "\<lambda>s. List.find (\<lambda>j. j_id j = i) (jobs s)" s1 None s2]
            by (auto simp: job_row_def[symmetric] same_rows_job_row)
          with g Inl show ?thesis
            by (auto simp: get_job_by_id_def query_row_def act_bind_def act_fail_def act_return_def
                split: prod.splits sum.splits option.splits dest: query_Inl)
        qed
        with Inl rt t j show thesis by (auto intro: lost)
      qed
    qed
  qed
qed

end
