(* ===== verification/Clock.thy ===== *)
theory Clock
  imports Prelude
begin

text \<open>
  Go's \<^verbatim>\<open>time\<close> package as far as the modelled code uses it: the proleptic
  Gregorian calendar, local time and its two directions (\<^verbatim>\<open>time.Date\<close> and the
  fields of a \<^verbatim>\<open>Time\<close>), calendar days apart (\<^verbatim>\<open>AddDate\<close>), and the formats of the
  code.

  The time zone of the machine is the parameter \<open>zone\<close>: its offset east of
  UTC in seconds at a Unix time in seconds, which is what the zone database
  behind \<^verbatim>\<open>time.Local\<close> provides. \<open>date_in\<close> follows \<^verbatim>\<open>time.Date\<close>: it looks the offset
  up at the wall clock read as UTC and once more at the result.
\<close>

type_synonym zone = "int \<Rightarrow> int"

definition utc :: zone where "utc = (\<lambda>_. 0)"

section \<open>The calendar\<close>

text \<open>The day number of a date (days since 1970-01-01); month 1 to 12, any day.\<close>

definition days_of_date :: "int \<Rightarrow> int \<Rightarrow> int \<Rightarrow> int" where
  "days_of_date y m d =
     (let y' = (if m \<le> 2 then y - 1 else y);
          era = y' div 400;
          yoe = y' mod 400;
          mp = (if 2 < m then m - 3 else m + 9);
          doy = (153 * mp + 2) div 5 + d - 1;
          doe = yoe * 365 + yoe div 4 - yoe div 100 + doy
      in era * 146097 + doe - 719468)"

definition date_of_days :: "int \<Rightarrow> int \<times> int \<times> int" where
  "date_of_days z =
     (let z' = z + 719468;
          era = z' div 146097;
          doe = z' mod 146097;
          yoe = (doe - doe div 1460 + doe div 36524 - doe div 146096) div 365;
          doy = doe - (365 * yoe + yoe div 4 - yoe div 100);
          mp = (5 * doy + 2) div 153;
          d = doy - (153 * mp + 2) div 5 + 1;
          m = (if mp < 10 then mp + 3 else mp - 9)
      in (yoe + era * 400 + (if m \<le> 2 then 1 else 0), m, d))"

definition is_leap :: "int \<Rightarrow> bool" where
  "is_leap y \<longleftrightarrow> y mod 4 = 0 \<and> (y mod 100 \<noteq> 0 \<or> y mod 400 = 0)"

definition days_in_month :: "int \<Rightarrow> int \<Rightarrow> int" where
  "days_in_month y m =
     (if m = 2 then (if is_leap y then 29 else 28)
      else if m \<in> {4, 6, 9, 11} then 30 else 31)"

section \<open>Local time\<close>

record civil =
  c_day :: int     \<comment> \<open>day number\<close>
  c_hour :: int
  c_minute :: int
  c_second :: int
  c_nano :: int

definition civil_of :: "zone \<Rightarrow> time \<Rightarrow> civil" where
  "civil_of zone t =
     (let u = t div nanos_per_second; w = u + zone u; r = w mod 86400
      in \<lparr>c_day = w div 86400, c_hour = r div 3600, c_minute = r mod 3600 div 60,
          c_second = r mod 60, c_nano = t mod nanos_per_second\<rparr>)"

text \<open>\<^verbatim>\<open>time.Date\<close> of a day number and a time of day.\<close>

definition date_in :: "zone \<Rightarrow> int \<Rightarrow> int \<Rightarrow> int \<Rightarrow> int \<Rightarrow> int \<Rightarrow> time" where
  "date_in zone day h m sec ns =
     (let w = day * 86400 + h * 3600 + m * 60 + sec;
          off = zone w;
          u = (if off = 0 then w else w - zone (w - off))
      in u * nanos_per_second + ns)"

text \<open>\<^verbatim>\<open>AddDate(0, 0, n)\<close>: the same wall clock \<open>n\<close> calendar days later.\<close>

definition add_days :: "zone \<Rightarrow> time \<Rightarrow> int \<Rightarrow> time" where
  "add_days zone t n =
     (let c = civil_of zone t
      in date_in zone (c_day c + n) (c_hour c) (c_minute c) (c_second c) (c_nano c))"

section \<open>Formats\<close>

definition pad_digits :: "nat \<Rightarrow> int \<Rightarrow> string" where
  "pad_digits w n =
     (let ds = nat_digits (nat \<bar>n\<bar>)
      in (if n < 0 then ''-'' else []) @ replicate (w - length ds) (CHR ''0'') @ ds)"

text \<open>The layouts "2006-01-02", "15:04", "2006-01-02 15:04" and RFC 3339 in UTC.\<close>

definition format_day :: "int \<Rightarrow> string" where
  "format_day day =
     (case date_of_days day of (y, m, d) \<Rightarrow> pad_digits 4 y @ ''-'' @ pad_digits 2 m @ ''-'' @ pad_digits 2 d)"

definition format_hhmm :: "int \<Rightarrow> int \<Rightarrow> string" where
  "format_hhmm h m = pad_digits 2 h @ '':'' @ pad_digits 2 m"

definition format_date :: "zone \<Rightarrow> time \<Rightarrow> string" where
  "format_date zone t = format_day (c_day (civil_of zone t))"

definition format_minute :: "zone \<Rightarrow> time \<Rightarrow> string" where
  "format_minute zone t =
     (let c = civil_of zone t in format_day (c_day c) @ '' '' @ format_hhmm (c_hour c) (c_minute c))"

definition format_rfc3339_utc :: "time \<Rightarrow> string" where
  "format_rfc3339_utc t =
     (let c = civil_of utc t
      in format_day (c_day c) @ ''T'' @ format_hhmm (c_hour c) (c_minute c) @ '':'' @ pad_digits 2 (c_second c) @ ''Z'')"

text \<open>\<^verbatim>\<open>time.ParseInLocation("2006-01-02 15:04", s, loc)\<close> succeeds.\<close>

definition two_digits :: "string \<Rightarrow> (int \<times> string) option" where
  "two_digits s =
     (case s of
        a # b # r \<Rightarrow> (if is_digit_char a \<and> is_digit_char b
                      then Some (int (digit_val a * 10 + digit_val b), r) else None)
      | _ \<Rightarrow> None)"

definition one_or_two_digits :: "string \<Rightarrow> (int \<times> string) option" where
  "one_or_two_digits s =
     (case s of
        [] \<Rightarrow> None
      | a # r \<Rightarrow>
          (if \<not> is_digit_char a then None
           else (case r of
                   b # r' \<Rightarrow> (if is_digit_char b then Some (int (digit_val a * 10 + digit_val b), r')
                              else Some (int (digit_val a), r))
                 | [] \<Rightarrow> Some (int (digit_val a), r))))"

definition skip_char :: "char \<Rightarrow> string \<Rightarrow> string option" where
  "skip_char c s = (case s of [] \<Rightarrow> None | d # r \<Rightarrow> (if d = c then Some r else None))"

definition parse_minute :: "string \<Rightarrow> (int \<times> int \<times> int \<times> int \<times> int) option" where
  "parse_minute s =
     (case two_digits s of None \<Rightarrow> None | Some (y1, s1) \<Rightarrow>
      (case two_digits s1 of None \<Rightarrow> None | Some (y2, s2) \<Rightarrow>
      (case skip_char (CHR ''-'') s2 of None \<Rightarrow> None | Some s3 \<Rightarrow>
      (case two_digits s3 of None \<Rightarrow> None | Some (mo, s4) \<Rightarrow>
      (case skip_char (CHR ''-'') s4 of None \<Rightarrow> None | Some s5 \<Rightarrow>
      (case two_digits s5 of None \<Rightarrow> None | Some (d, s6) \<Rightarrow>
      (case skip_char (CHR '' '') s6 of None \<Rightarrow> None | Some s7 \<Rightarrow>
      (case one_or_two_digits s7 of None \<Rightarrow> None | Some (h, s8) \<Rightarrow>
      (case skip_char (CHR '':'') s8 of None \<Rightarrow> None | Some s9 \<Rightarrow>
      (case two_digits s9 of None \<Rightarrow> None | Some (mi, s10) \<Rightarrow>
        (let y = y1 * 100 + y2
         in if s10 = [] \<and> 1 \<le> mo \<and> mo \<le> 12 \<and> h < 24 \<and> mi < 60 \<and> 1 \<le> d \<and> d \<le> days_in_month y mo
            then Some (y, mo, d, h, mi) else None)))))))))))"

section \<open>Facts\<close>

lemma civil_of_ranges:
  "0 \<le> c_hour (civil_of zone t)" "c_hour (civil_of zone t) < 24"
  "0 \<le> c_minute (civil_of zone t)" "c_minute (civil_of zone t) < 60"
  "0 \<le> c_second (civil_of zone t)" "c_second (civil_of zone t) < 60"
proof -
  have r: "0 \<le> w mod 86400" "w mod 86400 < 86400" for w :: int by simp_all
  have "w mod 86400 div 3600 < 24" for w :: int using r[of w] by linarith
  moreover have "w mod 86400 mod 3600 div 60 < 60" for w :: int
    using pos_mod_bound[of 3600 "w mod 86400"] by linarith
  ultimately show "0 \<le> c_hour (civil_of zone t)" "c_hour (civil_of zone t) < 24"
    "0 \<le> c_minute (civil_of zone t)" "c_minute (civil_of zone t) < 60"
    "0 \<le> c_second (civil_of zone t)" "c_second (civil_of zone t) < 60"
    by (simp_all add: civil_of_def Let_def pos_imp_zdiv_nonneg_iff)
qed

text \<open>In UTC the two directions of the calendar are inverse.\<close>

lemma date_in_utc:
  assumes "0 \<le> h" "h < 24" "0 \<le> m" "m < 60" "0 \<le> sec" "sec < 60" "0 \<le> ns" "ns < nanos_per_second"
  shows "civil_of utc (date_in utc day h m sec ns)
     = \<lparr>c_day = day, c_hour = h, c_minute = m, c_second = sec, c_nano = ns\<rparr>"
proof -
  have split: "(q * k + r) div k = q" "(q * k + r) mod k = r" if "0 \<le> r" "r < k" for q k r :: int
    using that by simp_all
  define s where "s = m * 60 + sec"
  define r where "r = h * 3600 + s"
  define w where "w = day * 86400 + r"
  have s: "0 \<le> s" "s < 3600" using assms unfolding s_def by linarith+
  have r: "0 \<le> r" "r < 86400" using assms s unfolding r_def by linarith+
  have r60: "r = (h * 60 + m) * 60 + sec" by (simp add: r_def s_def)
  have d: "date_in utc day h m sec ns = w * nanos_per_second + ns"
    by (simp add: date_in_def utc_def w_def r_def s_def)
  have "w div 86400 = day" "w mod 86400 = r" unfolding w_def using split[OF r] by blast+
  moreover have "r div 3600 = h" "r mod 3600 = s" unfolding r_def using split[OF s] by blast+
  moreover have "s div 60 = m" unfolding s_def using split[OF assms(5,6)] by blast
  moreover have "r mod 60 = sec" unfolding r60 using split[OF assms(5,6)] by blast
  ultimately show ?thesis
    unfolding civil_of_def d split[OF assms(7,8)] Let_def by (simp add: utc_def)
qed

end
