(* ===== verification/Job_Manager.thy ===== *)
theory Job_Manager
  imports Job_Store Clock
begin

text \<open>
  The job manager (app/modules/jobs.go): which jobs may be queued, the resource
  keys that keep running jobs apart, the claim of the next job and the
  dispatcher. The manager's state is its database, the table of held keys, the
  number of running jobs, the worker limit, the wake-up flag (a channel of
  capacity 1) and the goroutines that execute jobs.

  The critical sections of the code (claimMu, lockMu, mu) are the atomic steps
  of the model. Log lines are left out. The key of a goroutine's lock set is
  recorded with it for the proofs; the code only has the table.
\<close>

section \<open>Quoting (fmt's \<open>%q\<close>)\<close>

definition hex_digit :: "nat \<Rightarrow> char" where
  "hex_digit n = (if n < 10 then digit_char n else char_of (87 + n))"

definition quote_char :: "char \<Rightarrow> string" where
  "quote_char c =
     (let n = (of_char c :: nat)
      in if n = 34 then [CHR 92, CHR 34] else if n = 92 then [CHR 92, CHR 92]
         else if n = 7 then [CHR 92, CHR ''a''] else if n = 8 then [CHR 92, CHR ''b'']
         else if n = 12 then [CHR 92, CHR ''f''] else if n = 10 then [CHR 92, CHR ''n'']
         else if n = 13 then [CHR 92, CHR ''r''] else if n = 9 then [CHR 92, CHR ''t'']
         else if n = 11 then [CHR 92, CHR ''v'']
         else if n < 32 \<or> n = 127 then [CHR 92, CHR ''x'', hex_digit (n div 16), hex_digit (n mod 16)]
         else [c])"

definition go_quote :: "string \<Rightarrow> string" where
  "go_quote s = [CHR 34] @ concat (map quote_char s) @ [CHR 34]"

section \<open>Kinds and targets\<close>

definition job_kinds :: "string list" where
  "job_kinds = [job_sync, job_fetch, job_group, job_analyze, job_reindex, job_reclassify, job_notify,
     job_cleanup, job_probe_send, job_probe_check]"

definition err_job_kind :: "string \<Rightarrow> go_error" where
  "err_job_kind kind = Keyed ''system.invalidRequest'' (''unknown job kind '' @ go_quote kind)"

definition validate_job_kind :: "string \<Rightarrow> go_error option" where
  "validate_job_kind kind = (if kind \<in> set job_kinds then None else Some (err_job_kind kind))"

definition mailboxless_job_kind :: "string \<Rightarrow> bool" where
  "mailboxless_job_kind kind \<longleftrightarrow> kind \<in> {job_notify, job_probe_send, job_probe_check}"

definition job_of_deleted_mailbox :: "job \<Rightarrow> bool" where
  "job_of_deleted_mailbox j =
     (if j_mailbox j \<noteq> None \<or> mailboxless_job_kind (j_kind j) then False
      else j_parent j \<noteq> 0 \<or> (j_status j = status_canceled \<and> j_result j = ''''))"

definition invalid_request :: "string \<Rightarrow> go_error" where
  "invalid_request txt = Keyed ''system.invalidRequest'' txt"

definition normalize_probe_send_target :: "string \<Rightarrow> go_error + string" where
  "normalize_probe_send_target target =
     (if target = '''' then Inr ''''
      else if parse_minute target = None
        then Inl (invalid_request (''invalid probe_send target '' @ go_quote target
               @ '' (use '' @ go_quote '''' @ '' or '' @ go_quote ''YYYY-MM-DD HH:MM'' @ '')''))
      else Inr target)"

text \<open>\<^verbatim>\<open>NormalizeEmail\<close> and its pattern (modules/auth.go).\<close>

definition max_email_length :: nat where "max_email_length = 254"

definition is_alnum_char :: "char \<Rightarrow> bool" where
  "is_alnum_char c \<longleftrightarrow> is_digit_char c \<or> is_lower_char c \<or> is_upper_char c"

definition email_local_char :: "char \<Rightarrow> bool" where
  "email_local_char c \<longleftrightarrow> is_alnum_char c
     \<or> c \<in> set ''!#$%&*+/=?^_{|}~.-'' \<or> (of_char c :: nat) \<in> {39, 96}"

definition email_label :: "string \<Rightarrow> bool" where
  "email_label l \<longleftrightarrow> l \<noteq> [] \<and> is_alnum_char (hd l) \<and> is_alnum_char (last l)
     \<and> list_all (\<lambda>c. is_alnum_char c \<or> c = CHR ''-'') l"

definition email_matches :: "string \<Rightarrow> bool" where
  "email_matches s =
     (case cut s ''@'' of
        None \<Rightarrow> False
      | Some (l, d) \<Rightarrow> l \<noteq> [] \<and> list_all email_local_char l
          \<and> (let ls = split_char (CHR ''.'') d in 2 \<le> length ls \<and> list_all email_label ls))"

definition normalize_email :: "string \<Rightarrow> go_error + string" where
  "normalize_email raw =
     (let email = to_lower (trim_space raw)
      in if email = '''' then Inr ''''
         else if max_email_length < length email
           then Inl (Keyed ''validation.user.emailTooLong'' ''email must be 254 characters or fewer'')
         else if \<not> email_matches email
           then Inl (Keyed ''validation.common.emailFormat'' (''invalid email address '' @ go_quote email))
         else Inr email)"

definition notify_test_prefix :: string where "notify_test_prefix = ''test:''"

definition notify_test_target :: "string \<Rightarrow> string" where
  "notify_test_target address = notify_test_prefix @ address"

definition normalize_notify_target :: "string \<Rightarrow> go_error + string" where
  "normalize_notify_target target =
     (if target = '''' then Inr ''''
      else case cut_prefix target notify_test_prefix of
          None \<Rightarrow> Inl (invalid_request (''invalid notify target '' @ go_quote target
                    @ '' (use '' @ go_quote '''' @ '' or '' @ go_quote ''test:<address>'' @ '')''))
        | Some raw \<Rightarrow>
            (case normalize_email raw of
               Inl e \<Rightarrow> Inl e
             | Inr address \<Rightarrow>
                 if address = ''''
                 then Inl (Keyed ''validation.notification.testRecipientRequired''
                             ''the test mail needs a recipient address'')
                 else Inr (notify_test_target address)))"

definition analyze_all_target :: string where "analyze_all_target = ''*''"
definition fetch_all_time_target :: string where "fetch_all_time_target = ''*''"
definition requested_by_cli :: string where "requested_by_cli = ''cli''"
definition requested_by_scheduler :: string where "requested_by_scheduler = ''scheduler''"

section \<open>Queueing (EnqueueJob)\<close>

text \<open>The checks on kind, mailbox, target and requester, before the database is read.\<close>

definition enqueue_target :: "string \<Rightarrow> int \<Rightarrow> string \<Rightarrow> string \<Rightarrow> go_error + string" where
  "enqueue_target kind mailbox_id raw requested_by =
     (case validate_job_kind kind of
        Some e \<Rightarrow> Inl e
      | None \<Rightarrow>
          (let target = trim_space raw
           in if kind = job_analyze then
                (if mailbox_id = 0 \<and> target \<noteq> '''' \<and> target \<noteq> analyze_all_target
                 then Inl (invalid_request ''analyze of one group requires a mailbox'') else Inr target)
              else if kind = job_sync \<or> kind = job_fetch then
                (if target \<noteq> '''' \<and> target \<noteq> fetch_all_time_target
                 then Inl (invalid_request (''invalid '' @ kind @ '' target '' @ go_quote target
                        @ '' (use '' @ go_quote '''' @ '' or '' @ go_quote fetch_all_time_target @ '')''))
                 else Inr target)
              else if kind = job_notify then
                (if mailbox_id \<noteq> 0 then Inl (invalid_request ''notify takes no mailbox'')
                 else normalize_notify_target target)
              else if kind = job_probe_send \<or> kind = job_probe_check then
                (if mailbox_id \<noteq> 0 then Inl (invalid_request (kind @ '' takes no mailbox''))
                 else if kind = job_probe_check then Inr ''''
                 else case normalize_probe_send_target target of
                     Inl e \<Rightarrow> Inl e
                   | Inr t \<Rightarrow>
                       if t \<noteq> '''' \<and> requested_by \<noteq> requested_by_scheduler
                       then Inl (invalid_request ''a probe_send with a send time is queued by the scheduler only'')
                       else Inr t)
              else Inr ''''))"

definition find_active_job :: "string \<Rightarrow> int \<Rightarrow> string \<Rightarrow> job option act" where
  "find_active_job kind mailbox_id target =
     act_bind list_active_jobs (\<lambda>js.
       act_return (List.find (\<lambda>j. j_kind j = kind \<and> j_target j = target
          \<and> (case j_mailbox j of None \<Rightarrow> 0 | Some m \<Rightarrow> m) = mailbox_id) js))"

definition blank_job :: job where
  "blank_job = \<lparr>j_id = 0, j_kind = '''', j_mailbox = None, j_parent = 0, j_target = '''', j_status = '''',
     j_requested_by = '''', j_created_at = 0, j_started_at = None, j_finished_at = None,
     j_progress = '''', j_result = '''', j_error = ''''\<rparr>"

definition new_job :: "string \<Rightarrow> int \<Rightarrow> string \<Rightarrow> string \<Rightarrow> int \<Rightarrow> job" where
  "new_job kind mailbox_id target requested_by parent_id =
     blank_job\<lparr>j_kind := kind, j_target := target, j_requested_by := requested_by, j_parent := parent_id,
       j_mailbox := (if mailbox_id \<noteq> 0 then Some mailbox_id else None)\<rparr>"

text \<open>
  The reads before the insert: the normalised target and the active job of the
  same kind, mailbox and target, if any. Nothing in the code holds a lock over the
  reads and the insert, so another request may come between them.
\<close>

definition enqueue_check :: "string \<Rightarrow> int \<Rightarrow> string \<Rightarrow> string \<Rightarrow> (string \<times> job option) act" where
  "enqueue_check kind mailbox_id raw requested_by =
     (case enqueue_target kind mailbox_id raw requested_by of
        Inl e \<Rightarrow> act_fail e
      | Inr target \<Rightarrow>
          act_try (if mailbox_id \<noteq> 0 then act_bind (get_mailbox_by_id mailbox_id) (\<lambda>_. act_return ())
                   else act_return ())
            (\<lambda>r. case r of
               Inl NoRows \<Rightarrow> act_fail (Keyed ''system.notFound'' ''mailbox not found'')
             | Inl e \<Rightarrow> act_fail e
             | Inr _ \<Rightarrow>
                 act_bind (has_active_job kind mailbox_id target) (\<lambda>active.
                 act_bind (if active then find_active_job kind mailbox_id target else act_return None)
                   (\<lambda>existing. act_return (target, existing)))))"

text \<open>\<^verbatim>\<open>EnqueueJob\<close> as a whole: the job and whether it was created.\<close>

definition enqueue_job :: "time \<Rightarrow> string \<Rightarrow> int \<Rightarrow> string \<Rightarrow> string \<Rightarrow> int \<Rightarrow> (job \<times> bool) act" where
  "enqueue_job now kind mailbox_id raw requested_by parent_id =
     act_bind (enqueue_check kind mailbox_id raw requested_by) (\<lambda>(target, existing).
       case existing of
         Some j \<Rightarrow> act_return (j, False)
       | None \<Rightarrow>
           act_bind (insert_job now (new_job kind mailbox_id target requested_by parent_id))
             (\<lambda>j. act_return (j, True)))"

section \<open>Resource keys\<close>

definition lock_agent :: string where "lock_agent = ''agent''"
definition lock_notify :: string where "lock_notify = ''notify''"
definition lock_probe :: string where "lock_probe = ''probe''"
definition lock_host_prefix :: string where "lock_host_prefix = ''host:''"
definition lock_mailbox_prefix :: string where "lock_mailbox_prefix = ''mailbox:''"
definition lock_analyze_prefix :: string where "lock_analyze_prefix = ''analyze:''"

lemmas lock_defs = lock_agent_def lock_notify_def lock_probe_def lock_host_prefix_def
  lock_mailbox_prefix_def lock_analyze_prefix_def

definition server_retention_applies :: "mailbox \<Rightarrow> bool" where
  "server_retention_applies mb \<longleftrightarrow> mb_enabled mb \<and> 0 < mb_server_keep_days mb"

definition host_key :: "string \<Rightarrow> string" where
  "host_key host = lock_host_prefix @ to_lower (trim_space host)"

definition job_resource_keys :: "string \<Rightarrow> mailbox \<Rightarrow> string list" where
  "job_resource_keys kind mb =
     (let mailbox_key = lock_mailbox_prefix @ mb_address mb
      in if kind = job_sync \<or> kind = job_fetch then [host_key (mb_imap_host mb), mailbox_key]
         else if kind = job_group \<or> kind = job_reclassify then [mailbox_key]
         else if kind = job_analyze then [lock_agent, lock_analyze_prefix @ mb_address mb]
         else if kind = job_reindex then [mailbox_key, lock_agent]
         else if kind = job_cleanup then
           (if server_retention_applies mb then [host_key (mb_imap_host mb), mailbox_key, lock_agent]
            else [mailbox_key, lock_agent])
         else [])"


definition resource_keys :: "job \<Rightarrow> store \<Rightarrow> string list \<times> store" where
  "resource_keys j s =
     (if j_kind j = job_notify then ([lock_notify], s)
      else if j_kind j = job_probe_send then ([lock_probe], s)
      else if j_kind j = job_probe_check then
        (let (v, s1) = get_setting setting_probe_imap_host s;
             host = to_lower (trim_space v)
         in (if host \<noteq> '''' then [lock_probe, lock_host_prefix @ host] else [lock_probe], s1))
      else case j_mailbox j of
          None \<Rightarrow> ([], s)
        | Some m \<Rightarrow>
            (case get_mailbox_by_id m s of
               (Inl e, s1) \<Rightarrow> ([], s1)
             | (Inr mb, s1) \<Rightarrow> (job_resource_keys (j_kind j) mb, s1)))"

section \<open>The table of held keys\<close>

type_synonym locks = "string \<rightharpoonup> int"

fun locks_free :: "locks \<Rightarrow> string list \<Rightarrow> bool" where
  "locks_free l [] = True"
| "locks_free l (k # ks) = (if l k \<noteq> None then False else locks_free l ks)"

fun acquire_locks :: "int \<Rightarrow> string list \<Rightarrow> locks \<Rightarrow> locks" where
  "acquire_locks i [] l = l"
| "acquire_locks i (k # ks) l = acquire_locks i ks (l(k \<mapsto> i))"

definition release_locks :: "int \<Rightarrow> locks \<Rightarrow> locks" where
  "release_locks i l = (\<lambda>k. if l k = Some i then None else l k)"

lemma locks_free_iff: "locks_free l ks \<longleftrightarrow> (\<forall>k \<in> set ks. l k = None)"
  by (induction ks) auto

lemma acquire_locks_apply: "acquire_locks i ks l k = (if k \<in> set ks then Some i else l k)"
  by (induction ks arbitrary: l) auto

section \<open>The manager\<close>

record manager =
  m_db :: store
  m_locks :: locks
  m_running :: int
  m_workers :: int
  m_wake :: bool
  m_started :: bool
  m_execs :: "(int \<times> string list) list"   \<comment> \<open>job goroutines with the keys they reserved\<close>
  m_leaving :: nat                          \<comment> \<open>goroutines past their release of the keys\<close>

definition default_workers :: int where "default_workers = 2"
definition max_workers :: int where "max_workers = 16"

definition clamp_workers :: "int \<Rightarrow> int" where
  "clamp_workers n = (if n \<le> 0 then default_workers else if max_workers < n then max_workers else n)"

definition set_workers :: "int \<Rightarrow> manager \<Rightarrow> manager" where
  "set_workers n m = m\<lparr>m_workers := clamp_workers n, m_wake := True\<rparr>"

text \<open>
  The closure of \<^verbatim>\<open>claimRunnable\<close>: a job the filter refuses is passed over; for the
  others the keys are noted and looked up in the table.
\<close>

definition claim_can_run :: "(job \<Rightarrow> bool) \<Rightarrow> locks \<Rightarrow> job \<Rightarrow> (int \<rightharpoonup> string list) \<Rightarrow> store
    \<Rightarrow> (bool \<times> (int \<rightharpoonup> string list)) \<times> store" where
  "claim_can_run accept l j keys_of s =
     (if \<not> accept j then ((False, keys_of), s)
      else let (keys, s1) = resource_keys j s
           in ((locks_free l keys, keys_of(j_id j \<mapsto> keys)), s1))"

definition keys_noted :: "(int \<rightharpoonup> string list) \<Rightarrow> int \<Rightarrow> string list" where
  "keys_noted keys_of i = (case keys_of i of None \<Rightarrow> [] | Some ks \<Rightarrow> ks)"

definition claim_runnable :: "time \<Rightarrow> (job \<Rightarrow> bool) \<Rightarrow> manager \<Rightarrow> (go_error + (job \<times> string list) option) \<times> manager" where
  "claim_runnable now accept m =
     (case claim_next_runnable_job now (claim_can_run accept (m_locks m)) (\<lambda>_. None) (m_db m) of
        ((Inl e, _), s) \<Rightarrow> (Inl e, m\<lparr>m_db := s\<rparr>)
      | ((Inr None, _), s) \<Rightarrow> (Inr None, m\<lparr>m_db := s\<rparr>)
      | ((Inr (Some j), keys_of), s) \<Rightarrow>
          (let ks = keys_noted keys_of (j_id j)
           in (Inr (Some (j, ks)), m\<lparr>m_db := s, m_locks := acquire_locks (j_id j) ks (m_locks m)\<rparr>)))"

definition claim_by_id :: "time \<Rightarrow> int \<Rightarrow> manager \<Rightarrow> (go_error + (job \<times> string list) option) \<times> manager" where
  "claim_by_id now i m =
     (case claim_job_by_id now i (m_db m) of
        (Inl e, s) \<Rightarrow> (Inl e, m\<lparr>m_db := s\<rparr>)
      | (Inr None, s) \<Rightarrow> (Inr None, m\<lparr>m_db := s\<rparr>)
      | (Inr (Some j), s) \<Rightarrow>
          (let (ks, s1) = resource_keys j s
           in (Inr (Some (j, ks)), m\<lparr>m_db := s1, m_locks := acquire_locks (j_id j) ks (m_locks m)\<rparr>)))"

text \<open>The body of the loop of \<^verbatim>\<open>dispatch\<close>: None when the loop returns.\<close>

definition dispatch_step :: "time \<Rightarrow> manager \<Rightarrow> bool \<times> manager" where
  "dispatch_step now m =
     (if \<not> m_running m < m_workers m then (False, m)
      else case claim_runnable now (\<lambda>_. True) m of
          (Inl e, m1) \<Rightarrow> (False, m1)
        | (Inr None, m1) \<Rightarrow> (False, m1)
        | (Inr (Some (j, ks)), m1) \<Rightarrow>
            (True, m1\<lparr>m_running := m_running m1 + 1, m_execs := m_execs m1 @ [(j_id j, ks)]\<rparr>))"

lemma claim_runnable_frame:
  assumes "claim_runnable now accept m = (r, m1)"
  shows "m_running m1 = m_running m" "m_workers m1 = m_workers m" "m_execs m1 = m_execs m"
    "m_wake m1 = m_wake m" "m_started m1 = m_started m" "m_leaving m1 = m_leaving m"
  using assms unfolding claim_runnable_def
  by (auto simp: Let_def split: prod.splits sum.splits option.splits)

lemma dispatch_step_frame:
  assumes "dispatch_step now m = (b, m1)"
  shows "m_workers m1 = m_workers m" "b \<Longrightarrow> m_running m1 = m_running m + 1 \<and> m_running m < m_workers m"
    "\<not> b \<Longrightarrow> m_running m1 = m_running m"
  using assms unfolding dispatch_step_def
  by (auto split: if_splits prod.splits sum.splits option.splits dest: claim_runnable_frame)

text \<open>
  The dispatcher's loop while its context lives; every claim takes its own time
  from the clock \<open>nows\<close> (the number of claims so far tells which).
\<close>

function dispatch_loop :: "(nat \<Rightarrow> time) \<Rightarrow> nat \<Rightarrow> manager \<Rightarrow> manager" where
  "dispatch_loop nows n m =
     (let (again, m1) = dispatch_step (nows n) m
      in if again then dispatch_loop nows (Suc n) m1 else m1)"
  by pat_completeness auto
termination
proof (relation "measure (\<lambda>(nows, n, m). nat (m_workers m - m_running m))")
  fix nows :: "nat \<Rightarrow> time" and n :: nat and m x again m1
  assume "x = dispatch_step (nows n) m" "(again, m1) = x" "again"
  then have "m_workers m1 = m_workers m" "m_running m1 = m_running m + 1" "m_running m < m_workers m"
    using dispatch_step_frame[of "nows n" m again m1] by simp_all
  then show "((nows, Suc n, m1), nows, n, m) \<in> measure (\<lambda>(nows, n, m). nat (m_workers m - m_running m))"
    by simp
qed simp

declare dispatch_loop.simps [simp del]

definition dispatch :: "bool \<Rightarrow> (nat \<Rightarrow> time) \<Rightarrow> manager \<Rightarrow> manager" where
  "dispatch ctx_alive nows m = (if ctx_alive then dispatch_loop nows 0 m else m)"

text \<open>
  The end of a job goroutine, in three steps that others may come between:
  \<^verbatim>\<open>FinishJob\<close> (its failure is only logged), the keys released, then the count
  lowered and the dispatcher woken.
\<close>

definition job_finish :: "time \<Rightarrow> int \<Rightarrow> string \<Rightarrow> string \<Rightarrow> manager \<Rightarrow> manager" where
  "job_finish now i result err m =
     (let (_, s) = finish_job now i result err (m_db m) in m\<lparr>m_db := s\<rparr>)"

definition job_release :: "int \<Rightarrow> manager \<Rightarrow> manager" where
  "job_release i m =
     m\<lparr>m_locks := release_locks i (m_locks m), m_execs := filter (\<lambda>(k, _). k \<noteq> i) (m_execs m),
       m_leaving := m_leaving m + 1\<rparr>"

definition job_leave :: "manager \<Rightarrow> manager" where
  "job_leave m = m\<lparr>m_running := m_running m - 1, m_leaving := m_leaving m - 1, m_wake := True\<rparr>"

definition job_done :: "time \<Rightarrow> int \<Rightarrow> string \<Rightarrow> string \<Rightarrow> manager \<Rightarrow> manager" where
  "job_done now i result err m = job_leave (job_release i (job_finish now i result err m))"

text \<open>\<^verbatim>\<open>NewJobManager\<close>; \<open>workers\<close> is \<^verbatim>\<open>ResolveWorkers\<close> of the database.\<close>

definition new_job_manager :: "store \<Rightarrow> int \<Rightarrow> manager" where
  "new_job_manager s workers =
     \<lparr>m_db = s, m_locks = (\<lambda>_. None), m_running = 0, m_workers = clamp_workers workers, m_wake = False,
      m_started = False, m_execs = [], m_leaving = 0\<rparr>"

text \<open>\<^verbatim>\<open>Enqueue\<close> and \<^verbatim>\<open>enqueueChild\<close> of the manager.\<close>

definition manager_enqueue :: "time \<Rightarrow> string \<Rightarrow> int \<Rightarrow> string \<Rightarrow> string \<Rightarrow> int \<Rightarrow> manager
    \<Rightarrow> (go_error + job \<times> bool) \<times> manager" where
  "manager_enqueue now kind mailbox_id target requested_by parent_id m =
     (case enqueue_job now kind mailbox_id target requested_by parent_id (m_db m) of
        (Inl e, s) \<Rightarrow> (Inl e, m\<lparr>m_db := s\<rparr>)
      | (Inr (j, created), s) \<Rightarrow> (Inr (j, created), m\<lparr>m_db := s, m_wake := (m_wake m \<or> created)\<rparr>))"

definition enqueue_child :: "time \<Rightarrow> string \<Rightarrow> int \<Rightarrow> string \<Rightarrow> job \<Rightarrow> manager \<Rightarrow> (go_error + job \<times> bool) \<times> manager" where
  "enqueue_child now kind mailbox_id target parent m =
     manager_enqueue now kind mailbox_id target (j_requested_by parent) (j_id parent) m"

text \<open>\<^verbatim>\<open>deleteMailboxRow\<close> (modules/mailboxes.go).\<close>

definition err_mailbox_busy :: go_error where
  "err_mailbox_busy = Keyed ''result.mailbox.busy'' ''a job is running for this mailbox''"

definition delete_mailbox_row :: "time \<Rightarrow> int \<Rightarrow> unit act" where
  "delete_mailbox_row now i =
     transaction (
       act_bind (cancel_queued_jobs_for_mailbox now i) (\<lambda>_.
       act_bind (has_running_job_for_mailbox i) (\<lambda>running.
         if running then act_fail err_mailbox_busy else delete_mailbox i)))"

end
