(* ===== verification/Job_Safety.thy ===== *)
theory Job_Safety
  imports Job_Manager
begin

text \<open>
  What the job manager guarantees. Two interfaces are stated as locales and
  interpreted on the model: \<open>key_table\<close>, what the manager needs of the table of
  held keys to keep running jobs apart, and \<open>job_lifecycle\<close>, what the statements
  of the jobs table promise about the state of one job. The manager then is a
  step relation, \<open>mstep\<close>, whose invariant \<open>minv\<close> holds in every reachable state
  under every schedule of database failures.
\<close>

section \<open>The table of held keys\<close>

locale key_table =
  fixes free :: "'l \<Rightarrow> string list \<Rightarrow> bool"
    and acquire :: "int \<Rightarrow> string list \<Rightarrow> 'l \<Rightarrow> 'l"
    and release :: "int \<Rightarrow> 'l \<Rightarrow> 'l"
    and holder :: "'l \<Rightarrow> string \<Rightarrow> int option"
  assumes free_iff: "free l ks \<longleftrightarrow> (\<forall>k \<in> set ks. holder l k = None)"
    and holder_acquire: "holder (acquire i ks l) k = (if k \<in> set ks then Some i else holder l k)"
    and holder_release: "holder (release i l) k = (if holder l k = Some i then None else holder l k)"
begin

text \<open>The table and a list of owners with their keys say the same.\<close>

definition consistent :: "'l \<Rightarrow> (int \<times> string list) list \<Rightarrow> bool" where
  "consistent l es \<longleftrightarrow>
     distinct (map fst es) \<and> (\<forall>k i. holder l k = Some i \<longleftrightarrow> (\<exists>ks. (i, ks) \<in> set es \<and> k \<in> set ks))"

lemma exclusive:
  assumes "consistent l es" "(i, ks) \<in> set es" "(j, ks') \<in> set es" "i \<noteq> j"
  shows "set ks \<inter> set ks' = {}"
proof -
  { fix k assume "k \<in> set ks" "k \<in> set ks'"
    with assms(1-3) have "holder l k = Some i" "holder l k = Some j"
      unfolding consistent_def by blast+
    with assms(4) have False by simp }
  then show ?thesis by blast
qed

lemma consistent_claim:
  assumes "consistent l es" "free l ks" "i \<notin> fst ` set es"
  shows "consistent (acquire i ks l) (es @ [(i, ks)])"
  unfolding consistent_def
proof (intro conjI allI)
  show "distinct (map fst (es @ [(i, ks)]))" using assms(1,3) by (simp add: consistent_def)
  fix k n
  have old: "holder l k = Some n \<longleftrightarrow> (\<exists>ks. (n, ks) \<in> set es \<and> k \<in> set ks)"
    using assms(1) by (simp add: consistent_def)
  show "holder (acquire i ks l) k = Some n
      \<longleftrightarrow> (\<exists>ks'. (n, ks') \<in> set (es @ [(i, ks)]) \<and> k \<in> set ks')"
  proof (cases "k \<in> set ks")
    case True
    with assms(2) have "holder l k = None" by (simp add: free_iff)
    with True old show ?thesis by (auto simp: holder_acquire)
  next
    case False
    with old show ?thesis by (auto simp: holder_acquire)
  qed
qed

lemma consistent_release:
  assumes "consistent l es"
  shows "consistent (release i l) (filter (\<lambda>(k, _). k \<noteq> i) es)"
  unfolding consistent_def
proof (intro conjI allI)
  let ?es = "filter (\<lambda>(k, _). k \<noteq> i) es"
  show "distinct (map fst ?es)"
    using assms by (simp add: consistent_def distinct_map_filter')
  fix k n
  have old: "holder l k = Some m \<longleftrightarrow> (\<exists>ks. (m, ks) \<in> set es \<and> k \<in> set ks)" for m
    using assms by (simp add: consistent_def)
  show "holder (release i l) k = Some n \<longleftrightarrow> (\<exists>ks. (n, ks) \<in> set ?es \<and> k \<in> set ks)"
  proof (cases "n = i")
    case True
    then show ?thesis by (auto simp: holder_release)
  next
    case False
    have "holder (release i l) k = Some n \<longleftrightarrow> holder l k = Some n"
      using False by (auto simp: holder_release)
    with False old show ?thesis by auto
  qed
qed

end

interpretation lt: key_table locks_free acquire_locks release_locks "\<lambda>l k. l k"
  by unfold_locales (simp_all add: locks_free_iff acquire_locks_apply release_locks_def)

section \<open>The life of a job\<close>

text \<open>The moves between the states of one row; None is a row that is not there.\<close>

inductive status_move :: "string option \<Rightarrow> string option \<Rightarrow> bool" where
  stay: "status_move a a"
| create: "status_move None (Some status_queued)"
| claim: "status_move (Some status_queued) (Some status_running)"
| cancel: "status_move (Some status_queued) (Some status_canceled)"
| complete: "status_move (Some status_running) (Some status_done)"
| break: "status_move (Some status_running) (Some status_error)"
| prune: "a \<in> {status_done, status_error, status_canceled} \<Longrightarrow> status_move (Some a) None"

inductive_cases status_move_from: "status_move (Some a) b"

lemma move_not_queued:
  "\<lbrakk> status_move a b; a \<noteq> None; a \<noteq> Some status_queued \<rbrakk> \<Longrightarrow> b \<noteq> Some status_queued"
  by (cases rule: status_move.cases) (auto simp: job_status_defs)

lemma move_final:
  "\<lbrakk> status_move (Some a) b; a \<in> {status_done, status_error, status_canceled} \<rbrakk> \<Longrightarrow> b \<in> {Some a, None}"
  by (erule status_move_from) (auto simp: job_status_defs)

locale job_lifecycle =
  fixes step :: "'s \<Rightarrow> 's \<Rightarrow> bool"
    and status :: "'s \<Rightarrow> int \<Rightarrow> string option"
    and issued :: "'s \<Rightarrow> int \<Rightarrow> bool"
    and inv :: "'s \<Rightarrow> bool"
  assumes inv_step: "\<lbrakk> inv s; step s t \<rbrakk> \<Longrightarrow> inv t"
    and moves: "\<lbrakk> inv s; step s t \<rbrakk> \<Longrightarrow> status_move (status s i) (status t i)"
    and issued_step: "\<lbrakk> inv s; step s t; issued s i \<rbrakk> \<Longrightarrow> issued t i"
    and not_reissued: "\<lbrakk> inv s; step s t; issued s i; status s i = None \<rbrakk> \<Longrightarrow> status t i = None"
begin

lemma run_inv: "\<lbrakk> step\<^sup>*\<^sup>* s t; inv s \<rbrakk> \<Longrightarrow> inv t"
  by (induction rule: rtranclp_induct) (auto intro: inv_step)

lemma run_issued: "\<lbrakk> step\<^sup>*\<^sup>* s t; inv s; issued s i \<rbrakk> \<Longrightarrow> issued t i"
  by (induction rule: rtranclp_induct) (auto intro: issued_step run_inv)

text \<open>A job that has left the queue never returns to it.\<close>

lemma never_requeued:
  "\<lbrakk> step\<^sup>*\<^sup>* s t; inv s; issued s i; status s i \<noteq> Some status_queued \<rbrakk> \<Longrightarrow> status t i \<noteq> Some status_queued"
proof (induction rule: rtranclp_induct)
  case (step t u)
  from step have i: "inv t" "issued t i" by (auto intro: run_inv run_issued)
  show ?case
  proof (cases "status t i")
    case None
    with i step.hyps(2) not_reissued show ?thesis by simp
  next
    case (Some a)
    from move_not_queued[OF moves[OF i(1) step.hyps(2), of i]] Some step.IH step.prems
    show ?thesis by simp
  qed
qed simp

text \<open>The outcome of a finished job is final until the history is pruned.\<close>

lemma outcome_final:
  "\<lbrakk> step\<^sup>*\<^sup>* s t; inv s; issued s i; status s i = Some a; a \<in> {status_done, status_error, status_canceled} \<rbrakk>
    \<Longrightarrow> status t i \<in> {Some a, None}"
proof (induction rule: rtranclp_induct)
  case (step t u)
  from step have i: "inv t" "issued t i" by (auto intro: run_inv run_issued)
  from step have "status t i \<in> {Some a, None}" by simp
  then show ?case
  proof
    assume "status t i = Some a"
    with move_final moves[OF i(1) step.hyps(2), of i] step.prems(4) show ?thesis by metis
  next
    assume "status t i \<in> {None}"
    with i step.hyps(2) not_reissued show ?thesis by simp
  qed
qed simp

end

section \<open>The claim\<close>

definition reads_only :: "(job \<Rightarrow> 'c \<Rightarrow> store \<Rightarrow> (bool \<times> 'c) \<times> store) \<Rightarrow> bool" where
  "reads_only can \<longleftrightarrow> (\<forall>j c s b c' t. can j c s = ((b, c'), t) \<longrightarrow> same_rows s t)"

lemma resource_keys_same_rows: "resource_keys j s = (ks, t) \<Longrightarrow> same_rows s t"
  unfolding resource_keys_def
  by (auto simp: Let_def get_mailbox_by_id_def split: if_splits prod.splits option.splits sum.splits
      dest: get_setting_same_rows query_row_same_rows)

lemma claim_can_run_reads_only: "reads_only (claim_can_run accept l)"
  unfolding reads_only_def claim_can_run_def
  by (auto simp: Let_def split: if_splits prod.splits dest: resource_keys_same_rows)

lemma claim_loop_keeps:
  "\<lbrakk> claim_loop now can js c s = ((r, c'), t); reads_only can \<rbrakk> \<Longrightarrow> keeps s t"
proof (induction js arbitrary: c s)
  case Nil
  then show ?case by simp
next
  case (Cons j js)
  obtain b c1 s1 where can: "can j c s = ((b, c1), s1)" by (metis prod.exhaust)
  with Cons.prems(2) have k1: "keeps s s1"
    unfolding reads_only_def by (blast intro: keeps_same_rows)
  obtain r2 s2 where cl: "claim_job_by_id now (j_id j) s1 = (r2, s2)" by fastforce
  then have k2: "keeps s s2" using k1 claim_job_by_id_keeps keeps_trans by blast
  show ?case
  proof (cases "b \<and> r2 \<noteq> Inr None")
    case True
    with can cl Cons.prems(1) have "t = s2" by (auto split: sum.splits option.splits)
    with k2 show ?thesis by simp
  next
    case False
    with can cl Cons.prems(1)
    have "\<exists>u. claim_loop now can js c1 u = ((r, c'), t) \<and> keeps s u"
      using k1 k2 by (cases b) auto
    with Cons.IH Cons.prems(2) show ?thesis by (blast intro: keeps_trans)
  qed
qed

text \<open>
  At most one job changes its state in a claim, from queued to running; a
  returned job is that one, and \<open>can_run\<close> accepted it.
\<close>

definition claim_untouched :: "store \<Rightarrow> (go_error + job option) \<Rightarrow> store \<Rightarrow> bool" where
  "claim_untouched s r t \<longleftrightarrow> job_row t = job_row s \<and> (\<forall>k. r \<noteq> Inr (Some k))"

definition claim_accepted :: "(job \<Rightarrow> 'c \<Rightarrow> store \<Rightarrow> (bool \<times> 'c) \<times> store) \<Rightarrow> job list \<Rightarrow> store \<Rightarrow> int \<Rightarrow> 'c \<Rightarrow> bool" where
  "claim_accepted can js s i c' \<longleftrightarrow>
     (\<exists>q \<in> set js. j_id q = i \<and> (\<exists>c0 s0 s1. keeps s s0 \<and> can q c0 s0 = ((True, c'), s1)))"

definition claim_taken :: "time \<Rightarrow> store \<Rightarrow> (go_error + job option) \<Rightarrow> store \<Rightarrow> (int \<Rightarrow> bool) \<Rightarrow> bool" where
  "claim_taken now s r t ok \<longleftrightarrow>
     (\<exists>i j. job_row s i = Some j \<and> j_status j = status_queued \<and> job_row t = (job_row s)(i \<mapsto> claimed now j)
        \<and> ((\<exists>e. r = Inl e) \<or> r = Inr (Some (claimed now j)) \<and> ok i))"

lemma claim_taken_mono:
  assumes "claim_taken now s1 r t ok" "job_row s1 = job_row s" "\<And>i. ok i \<Longrightarrow> ok' i"
  shows "claim_taken now s r t ok'"
  using assms(1) unfolding claim_taken_def assms(2) using assms(3) by blast

lemma claim_accepted_Cons:
  assumes "claim_accepted can js s1 i c'" "keeps s s1"
  shows "claim_accepted can (j # js) s i c'"
proof -
  from assms(1) obtain q c0 s0 s2 where "q \<in> set js" "j_id q = i" "keeps s1 s0" "can q c0 s0 = ((True, c'), s2)"
    unfolding claim_accepted_def by blast
  with keeps_trans[OF assms(2)] have "q \<in> set (j # js)" "j_id q = i" "keeps s s0" "can q c0 s0 = ((True, c'), s2)"
    by simp_all
  then show ?thesis unfolding claim_accepted_def by blast
qed

lemma claim_loop_rows:
  "\<lbrakk> claim_loop now can js c s = ((r, c'), t); reads_only can; table_ok s \<rbrakk> \<Longrightarrow>
    claim_untouched s r t \<or> claim_taken now s r t (\<lambda>i. claim_accepted can js s i c')"
proof (induction js arbitrary: c s)
  case Nil
  then show ?case by (auto simp: claim_untouched_def)
next
  case (Cons j js)
  obtain b c1 s1 where can: "can j c s = ((b, c1), s1)" by (metis prod.exhaust)
  with Cons.prems(2) have sr: "same_rows s s1" unfolding reads_only_def by blast
  have s1: "table_ok s1" "job_row s1 = job_row s" "keeps s s1"
    using sr Cons.prems(3) by (simp_all add: same_rows_table_ok same_rows_job_row keeps_same_rows)
  have rest: "claim_untouched s r t \<or> claim_taken now s r t (\<lambda>i. claim_accepted can (j # js) s i c')"
    if u: "claim_loop now can js c1 u = ((r, c'), t)" "keeps s u" "job_row u = job_row s" for u
  proof -
    from u(2) Cons.prems(3) have "table_ok u" by (simp add: keeps_def)
    from Cons.IH[OF u(1) Cons.prems(2) this] show ?thesis
    proof
      assume "claim_untouched u r t"
      with u(3) show ?thesis by (simp add: claim_untouched_def)
    next
      assume "claim_taken now u r t (\<lambda>i. claim_accepted can js u i c')"
      then have "claim_taken now s r t (\<lambda>i. claim_accepted can (j # js) s i c')"
        by (rule claim_taken_mono[OF _ u(3)]) (rule claim_accepted_Cons[OF _ u(2)])
      then show ?thesis ..
    qed
  qed
  show ?case
  proof (cases b)
    case False
    with can Cons.prems(1) have "claim_loop now can js c1 s1 = ((r, c'), t)" by simp
    from rest[OF this s1(3,2)] show ?thesis .
  next
    case True
    obtain r2 s2 where cl: "claim_job_by_id now (j_id j) s1 = (r2, s2)" by fastforce
    have k2: "keeps s s2" using s1(3) claim_job_by_id_keeps[OF cl] by (rule keeps_trans)
    from cl s1(1) show ?thesis
    proof (cases rule: claim_job_by_id_cases)
      case (failed msg)
      with can cl True Cons.prems(1) s1(2) show ?thesis by (auto simp: claim_untouched_def)
    next
      case (lost msg q)
      with can cl True Cons.prems(1) s1(2) show ?thesis by (auto simp: claim_taken_def)
    next
      case (some q)
      have acc: "claim_accepted can (j # js) s (j_id j) c1"
        unfolding claim_accepted_def using can True by fastforce
      with some can cl True Cons.prems(1) s1(2) show ?thesis
        unfolding claim_taken_def by (intro disjI2 exI[of _ "j_id j"] exI[of _ q]) simp
    next
      case none
      with can cl True Cons.prems(1) have "claim_loop now can js c1 s2 = ((r, c'), t)" by simp
      from rest[OF this k2] none(2) s1(2) show ?thesis by simp
    qed
  qed
qed


section \<open>The statements as steps of the table\<close>

text \<open>
  Every statement the program runs on the jobs table, with any outcome. A job is
  finished only while it runs: \<^verbatim>\<open>FinishJob\<close> is called by its goroutine and by
  \<^verbatim>\<open>RunJobInline\<close> after the claim.
\<close>

inductive store_step :: "store \<Rightarrow> store \<Rightarrow> bool" where
  ss_insert: "\<lbrakk> insert_job now j s = (r, t); j_status j \<in> {'''', status_queued} \<rbrakk> \<Longrightarrow> store_step s t"
| ss_claim: "claim_job_by_id now i s = (r, t) \<Longrightarrow> store_step s t"
| ss_progress: "update_job_progress i msg s = (n, t) \<Longrightarrow> store_step s t"
| ss_finish: "\<lbrakk> finish_job now i res err s = (n, t); job_row s i = Some j; j_status j = status_running \<rbrakk>
    \<Longrightarrow> store_step s t"
| ss_cancel: "cancel_queued_job now i s = (b, t) \<Longrightarrow> store_step s t"
| ss_cancel_mailbox: "cancel_queued_jobs_for_mailbox now i s = (n, t) \<Longrightarrow> store_step s t"
| ss_reset: "\<lbrakk> reset_running_jobs now reason s = (n, t); reason \<noteq> '''' \<rbrakk> \<Longrightarrow> store_step s t"
| ss_delete_old: "delete_old_jobs before s = (n, t) \<Longrightarrow> store_step s t"
| ss_delete_mailbox: "delete_mailbox i s = (u, t) \<Longrightarrow> store_step s t"

definition status_of :: "store \<Rightarrow> int \<Rightarrow> string option" where
  "status_of s i = map_option j_status (job_row s i)"

definition issued :: "store \<Rightarrow> int \<Rightarrow> bool" where
  "issued s i \<longleftrightarrow> 0 < i \<and> i < next_job s"

definition row_step :: "store \<Rightarrow> store \<Rightarrow> bool" where
  "row_step s t \<longleftrightarrow> table_ok t \<and> next_job s \<le> next_job t
     \<and> (\<forall>i. status_move (status_of s i) (status_of t i) \<and> (issued s i \<and> status_of s i = None \<longrightarrow> status_of t i = None))"

lemma row_step_same:
  "\<lbrakk> table_ok t; next_job s \<le> next_job t; job_row t = job_row s \<rbrakk> \<Longrightarrow> row_step s t"
  by (simp add: row_step_def status_of_def status_move.stay)

lemma row_step_update:
  assumes "update_jobs P f s = (r, t)" "update_safe P f" "table_ok s"
    and "\<And>j. \<lbrakk> j \<in> set (jobs s); P j \<rbrakk> \<Longrightarrow> status_move (Some (j_status j)) (Some (j_status (f j)))"
  shows "row_step s t"
proof -
  have id: "\<And>j. P j \<Longrightarrow> j_id (f j) = j_id j" using assms(2) by (simp add: update_safe_def)
  have ok: "table_ok t" "next_job t = next_job s"
    using update_jobs_invs[OF assms(1,2)] assms(3) by simp_all
  from update_jobs_row[OF assms(1) id] consider "job_row t = job_row s"
    | "job_row t = (\<lambda>i. map_option (\<lambda>j. if P j then f j else j) (job_row s i))" by blast
  then show ?thesis
  proof cases
    case 1
    with ok show ?thesis by (simp add: row_step_same)
  next
    case 2
    have "status_move (status_of s i) (status_of t i) \<and> (status_of s i = None \<longrightarrow> status_of t i = None)" for i
    proof (cases "job_row s i")
      case None
      with 2 show ?thesis by (simp add: status_of_def status_move.stay)
    next
      case (Some j)
      with 2 assms(4)[of j] job_row_Some[OF Some] show ?thesis
        by (auto simp: status_of_def status_move.stay)
    qed
    with ok show ?thesis by (simp add: row_step_def)
  qed
qed

lemma row_step_bind_return:
  assumes "act_bind m (\<lambda>x. act_return (g x)) s = (r, t)" "\<And>r t. m s = (r, t) \<Longrightarrow> row_step s t"
  shows "row_step s t"
  using assms by (auto simp: act_bind_def act_return_def split: prod.splits sum.splits)

lemma row_step_insert:
  assumes "insert_job now j s = (r, t)" "j_status j \<in> {'''', status_queued}" "table_ok s"
  shows "row_step s t"
proof -
  have ok: "table_ok t" by (rule insert_job_table_ok[OF assms])
  from assms(1) show ?thesis
  proof (cases rule: insert_job_cases)
    case fault
    with ok show ?thesis by (simp add: row_step_same same_rows_job_row same_rowsD)
  next
    case (ok u)
    have new: "j_id (fresh_row now j s) = next_job s" "j_status (fresh_row now j s) = status_queued"
      using assms(2) by (auto simp: fresh_row_def)
    have find: "List.find P (xs @ [x]) = (case List.find P xs of None \<Rightarrow> if P x then Some x else None | Some y \<Rightarrow> Some y)"
      for P and xs and x :: job by (induction xs) auto
    have row: "job_row t i = (case job_row s i of None \<Rightarrow> if i = next_job s then Some (fresh_row now j s) else None
        | Some y \<Rightarrow> Some y)" for i
      using ok(3) new(1) by (simp add: job_row_def find split: option.splits)
    have nj: "next_job t = next_job s + 1" using ok(3) by simp
    show ?thesis
      unfolding row_step_def
      using \<open>table_ok t\<close> nj new(2)
      by (auto simp: status_of_def row issued_def status_move.stay status_move.create split: option.splits)
  qed
qed

lemma find_filter_map:
  assumes "distinct (map j_id js)" "\<And>j. j_id (f j) = j_id j"
  shows "List.find (\<lambda>j. j_id j = i) (map f (filter Q js))
     = (case List.find (\<lambda>j. j_id j = i) js of None \<Rightarrow> None | Some j \<Rightarrow> if Q j then Some (f j) else None)"
  using assms(1)
proof (induction js)
  case (Cons j js)
  show ?case
  proof (cases "j_id j = i")
    case True
    with Cons.prems have "\<forall>k \<in> set js. j_id k \<noteq> i" by (auto simp: image_iff)
    then have "List.find (\<lambda>j. j_id j = i) (map f (filter Q js)) = None"
      using assms(2) by (auto simp: find_None_iff)
    with True assms(2) show ?thesis by simp
  next
    case False
    with Cons assms(2) show ?thesis by simp
  qed
qed simp

lemma row_step_delete_old:
  assumes "delete_old_jobs before s = (r, t)" "table_ok s"
  shows "row_step s t"
proof -
  have k: "keeps s t" by (rule delete_old_jobs_keeps[OF assms(1)])
  with assms(2) have tok: "table_ok t" "next_job s \<le> next_job t" by (simp_all add: keeps_def)
  from assms(1) show ?thesis
  proof (cases rule: delete_old_jobs_cases)
    case fault
    with tok show ?thesis by (simp add: row_step_same same_rows_job_row)
  next
    case (ok u)
    let ?f = "\<lambda>j. if j_parent j \<in> j_id ` set (filter (old_finished before) (jobs s)) then j\<lparr>j_parent := 0\<rparr> else j"
    have d: "distinct (map j_id (jobs s))" using assms(2) by (simp add: table_ok_def)
    have row: "job_row t i = (case job_row s i of None \<Rightarrow> None
        | Some j \<Rightarrow> if \<not> old_finished before j then Some (?f j) else None)" for i
      using find_filter_map[OF d, of ?f i "\<lambda>j. \<not> old_finished before j"] ok(3)
      unfolding job_row_def by (simp only: store.simps if_distrib job.simps if_cancel) (simp add: job_row_def)
    have "status_move (status_of s i) (status_of t i) \<and> (status_of s i = None \<longrightarrow> status_of t i = None)" for i
      by (cases "job_row s i")
         (auto simp: status_of_def row old_finished_def job_finished_def intro: status_move.stay status_move.prune)
    with tok show ?thesis by (simp add: row_step_def)
  qed
qed


definition update_safe2 :: "(job \<Rightarrow> job) \<Rightarrow> bool" where
  "update_safe2 f \<longleftrightarrow> (\<forall>j. j_id (f j) = j_id j \<and> (job_ok j \<longrightarrow> job_ok (f j)))"

lemma update_safe2_table_ok:
  assumes "update_safe2 f" "table_ok s" "jobs t = map f (jobs s)" "next_job t = next_job s"
  shows "table_ok t"
proof -
  have "map j_id (map f (jobs s)) = map j_id (jobs s)" using assms(1) by (simp add: update_safe2_def)
  with assms show ?thesis by (auto simp: table_ok_def update_safe2_def simp del: map_map)
qed

lemma row_step_delete_mailbox:
  assumes "delete_mailbox i s = (r, t)" "table_ok s"
  shows "row_step s t"
proof -
  let ?f = "\<lambda>j. if j_mailbox j = Some i then j\<lparr>j_mailbox := None\<rparr> else j"
  let ?g = "\<lambda>s. s\<lparr>mailboxes := filter (\<lambda>m. mb_id m \<noteq> i) (mailboxes s), jobs := map ?f (jobs s),
    probe_mails := filter (\<lambda>p. p_mailbox p \<noteq> i) (probe_mails s)\<rparr>"
  show ?thesis
  proof (cases rule: stmt_cases[of "\<lambda>s. ((), ?g s)" s])
    case (fault msg u)
    with assms(1) have "same_rows s t" by (simp add: delete_mailbox_def exec_def)
    with assms(2) show ?thesis by (simp add: row_step_same same_rows_job_row same_rows_table_ok same_rowsD)
  next
    case (ok u)
    with assms(1) have t: "jobs t = map ?f (jobs s)" "next_job t = next_job s"
      by (auto simp: delete_mailbox_def exec_def same_rowsD)
    have "update_safe2 ?f" by (simp add: update_safe2_def job_ok_def job_finished_def)
    then have ok': "table_ok t" using assms(2) t by (rule update_safe2_table_ok)
    have row: "job_row t k = map_option ?f (job_row s k)" for k
      unfolding job_row_def t by (rule find_map_cong) simp
    have "status_of t = status_of s"
      unfolding status_of_def fun_eq_iff row by (auto simp: option.map_comp comp_def intro!: option.map_cong0)
    with ok' t(2) show ?thesis by (simp add: row_step_def status_move.stay)
  qed
qed

lemma row_step_claim:
  assumes "claim_job_by_id now i s = (r, t)" "table_ok s"
  shows "row_step s t"
proof -
  from claim_job_by_id_keeps[OF assms(1)] assms(2) have tok: "table_ok t" "next_job s \<le> next_job t"
    by (simp_all add: keeps_def)
  have "job_row t = job_row s \<or> (\<exists>j. job_row s i = Some j \<and> j_status j = status_queued
      \<and> job_row t = (job_row s)(i \<mapsto> claimed now j))"
    using assms by (cases rule: claim_job_by_id_cases) auto
  then show ?thesis
  proof
    assume "job_row t = job_row s"
    with tok show ?thesis by (simp add: row_step_same)
  next
    assume "\<exists>j. job_row s i = Some j \<and> j_status j = status_queued \<and> job_row t = (job_row s)(i \<mapsto> claimed now j)"
    with tok show ?thesis
      by (auto simp: row_step_def status_of_def claimed_def intro: status_move.stay status_move.claim)
  qed
qed

lemma store_step_rows: "\<lbrakk> store_step s t; table_ok s \<rbrakk> \<Longrightarrow> row_step s t"
proof (induction rule: store_step.induct)
  case (ss_finish now i res err s n t j)
  have "status_move (Some (j_status k)) (Some (if err \<noteq> '''' then status_error else status_done))"
    if "k \<in> set (jobs s)" "j_id k = i" for k
    using ss_finish(2,3) job_row_mem[OF ss_finish(4) that(1)] that(2)
    by (auto intro: status_move.complete status_move.break)
  with ss_finish(1) show ?case
    unfolding finish_job_def by - (rule row_step_update[OF _ update_safe_finish ss_finish(4)], assumption, simp)
next
  case (ss_cancel now i s b t)
  show ?case
    using ss_cancel(1) unfolding cancel_queued_job_def
    by (rule row_step_bind_return)
       (erule row_step_update[OF _ update_safe_cancel ss_cancel(2)], simp, auto intro: status_move.cancel)
next
  case (ss_cancel_mailbox now i s n t)
  then show ?case
    unfolding cancel_queued_jobs_for_mailbox_def
    by - (erule row_step_update[OF _ update_safe_cancel], simp, assumption, auto intro: status_move.cancel)
next
  case (ss_reset now reason s n t)
  then show ?case
    unfolding reset_running_jobs_def
    by - (erule row_step_update[OF _ update_safe_reset], (assumption | simp add: status_move.break)+)
next
  case (ss_progress i msg s n t)
  then show ?case
    unfolding update_job_progress_def
    by - (erule row_step_update[OF _ update_safe_progress], (assumption | simp add: status_move.stay)+)
qed (blast intro: row_step_insert row_step_claim row_step_delete_old row_step_delete_mailbox)+

interpretation tb: job_lifecycle store_step status_of issued table_ok
  by unfold_locales (auto dest!: store_step_rows simp: row_step_def issued_def)


section \<open>The claim without database failures\<close>

text \<open>The keys of a job, as \<^verbatim>\<open>resourceKeys\<close> computes them from what the tables hold.\<close>

definition job_keys :: "store \<Rightarrow> job \<Rightarrow> string list" where
  "job_keys s j =
     (if j_kind j = job_notify then [lock_notify]
      else if j_kind j = job_probe_send then [lock_probe]
      else if j_kind j = job_probe_check then
        (let host = to_lower (trim_space (case settings s setting_probe_imap_host of None \<Rightarrow> '''' | Some v \<Rightarrow> v))
         in if host = '''' then [lock_probe] else [lock_probe, lock_host_prefix @ host])
      else case j_mailbox j of
          None \<Rightarrow> []
        | Some m \<Rightarrow> (case List.find (\<lambda>mb. mb_id mb = m) (mailboxes s) of
                     None \<Rightarrow> [] | Some mb \<Rightarrow> job_resource_keys (j_kind j) mb))"

lemma resource_keys_no_faults: "faults s = [] \<Longrightarrow> resource_keys j s = (job_keys s j, s)"
  by (simp add: resource_keys_def job_keys_def Let_def get_setting_no_faults get_mailbox_by_id_def
      query_row_no_faults split: option.splits)

lemma claim_can_run_no_faults:
  "faults s = [] \<Longrightarrow> claim_can_run accept l j c s
     = ((accept j \<and> locks_free l (job_keys s j), if accept j then c(j_id j \<mapsto> job_keys s j) else c), s)"
  by (simp add: claim_can_run_def resource_keys_no_faults)

definition claim_row :: "time \<Rightarrow> int \<Rightarrow> store \<Rightarrow> store" where
  "claim_row now i s =
     s\<lparr>jobs := map (\<lambda>j. if j_id j = i \<and> j_status j = status_queued then claimed now j else j) (jobs s)\<rparr>"

lemma claim_job_by_id_no_faults:
  assumes "faults s = []" "table_ok s" "job_row s i = Some j" "j_status j = status_queued"
  shows "claim_job_by_id now i s = (Inr (Some (claimed now j)), claim_row now i s)"
proof -
  have n: "length (filter (\<lambda>j. j_id j = i \<and> j_status j = status_queued) (jobs s)) = 1"
    using length_filter_row[OF assms(2), of "\<lambda>j. j_id j = i \<and> j_status j = status_queued" i] assms(3,4)
      job_row_Some[OF assms(3)] by simp
  have row: "List.find (\<lambda>j. j_id j = i) (jobs (claim_row now i s)) = Some (claimed now j)"
    using assms(3,4) job_row_Some[OF assms(3)]
    by (simp add: claim_row_def job_row_def find_update claimed_def)
  show ?thesis
    using n row assms(1) unfolding claim_row_def claimed_def
    by (simp add: claim_job_by_id_def act_bind_def update_jobs_no_faults get_job_by_id_def query_row_no_faults
        act_return_def)
qed

lemma queued_jobs_set: "set (queued_jobs s) = {j \<in> set (jobs s). j_status j = status_queued}"
  by (simp add: queued_jobs_def)

lemma claim_loop_no_faults:
  assumes "faults s = []" "table_ok s" "set js \<subseteq> {j \<in> set (jobs s). j_status j = status_queued}"
  shows "\<exists>c'. claim_loop now (claim_can_run accept l) js c s
     = (case List.find (\<lambda>j. accept j \<and> locks_free l (job_keys s j)) js of
          None \<Rightarrow> ((Inr None, c'), s)
        | Some j \<Rightarrow> ((Inr (Some (claimed now j)), c'), claim_row now (j_id j) s))
     \<and> (\<forall>j. List.find (\<lambda>j. accept j \<and> locks_free l (job_keys s j)) js = Some j \<longrightarrow> c' (j_id j) = Some (job_keys s j))"
  using assms(3)
proof (induction js arbitrary: c)
  case (Cons j js)
  show ?case
  proof (cases "accept j \<and> locks_free l (job_keys s j)")
    case True
    from Cons.prems have "job_row s (j_id j) = Some j" "j_status j = status_queued"
      using job_row_mem[OF assms(2)] by auto
    from claim_job_by_id_no_faults[OF assms(1,2) this] True show ?thesis
      by (simp add: claim_can_run_no_faults[OF assms(1)])
  next
    case False
    with Cons show ?thesis by (simp add: claim_can_run_no_faults[OF assms(1)])
  qed
qed simp

definition first_free :: "(job \<Rightarrow> bool) \<Rightarrow> manager \<Rightarrow> job option" where
  "first_free accept m =
     List.find (\<lambda>j. accept j \<and> locks_free (m_locks m) (job_keys (m_db m) j)) (queued_jobs (m_db m))"

lemma claim_runnable_first_free:
  assumes "faults (m_db m) = []" "table_ok (m_db m)"
  shows "claim_runnable now accept m =
     (case first_free accept m of
        None \<Rightarrow> (Inr None, m)
      | Some j \<Rightarrow> (Inr (Some (claimed now j, job_keys (m_db m) j)),
                   m\<lparr>m_db := claim_row now (j_id j) (m_db m),
                     m_locks := acquire_locks (j_id j) (job_keys (m_db m) j) (m_locks m)\<rparr>))"
proof -
  have "set (queued_jobs (m_db m)) \<subseteq> {j \<in> set (jobs (m_db m)). j_status j = status_queued}"
    by (simp add: queued_jobs_set)
  from claim_loop_no_faults[OF assms this, of now accept "m_locks m" "\<lambda>_. None"] obtain c' where
    l: "claim_loop now (claim_can_run accept (m_locks m)) (queued_jobs (m_db m)) (\<lambda>_. None) (m_db m) =
      (case first_free accept m of None \<Rightarrow> ((Inr None, c'), m_db m)
        | Some j \<Rightarrow> ((Inr (Some (claimed now j)), c'), claim_row now (j_id j) (m_db m)))"
    and c: "\<And>j. first_free accept m = Some j \<Longrightarrow> c' (j_id j) = Some (job_keys (m_db m) j)"
    unfolding first_free_def by blast
  show ?thesis
    using c by (cases "first_free accept m")
      (simp_all add: claim_runnable_def claim_next_runnable_job_def query_no_faults assms(1) l
        keys_noted_def claimed_def Let_def)
qed


section \<open>Claims under any schedule of failures\<close>

lemma claim_runnable_cases:
  assumes "claim_runnable now accept m = (r, m1)" "table_ok (m_db m)"
  obtains (empty) s where "\<And>x. r \<noteq> Inr (Some x)" "m1 = m\<lparr>m_db := s\<rparr>" "keeps (m_db m) s"
      "job_row s = job_row (m_db m)"
  | (lost) s e j i where "r = Inl e" "m1 = m\<lparr>m_db := s\<rparr>" "keeps (m_db m) s"
      "job_row (m_db m) i = Some j" "j_status j = status_queued" "job_row s = (job_row (m_db m))(i \<mapsto> claimed now j)"
  | (taken) s j ks s0 s1 where "r = Inr (Some (claimed now j, ks))"
      "m1 = m\<lparr>m_db := s, m_locks := acquire_locks (j_id j) ks (m_locks m)\<rparr>" "keeps (m_db m) s"
      "job_row (m_db m) (j_id j) = Some j" "j_status j = status_queued" "accept j" "locks_free (m_locks m) ks"
      "keeps (m_db m) s0" "resource_keys j s0 = (ks, s1)"
      "job_row s = (job_row (m_db m))(j_id j \<mapsto> claimed now j)"
proof -
  let ?can = "claim_can_run accept (m_locks m)"
  obtain r0 s0 where q: "query queued_jobs (m_db m) = (r0, s0)" by fastforce
  have sr: "same_rows (m_db m) s0" by (rule query_same_rows[OF q])
  have tok: "table_ok s0" by (rule same_rows_table_ok[OF sr assms(2)])
  show thesis
  proof (cases r0)
    case (Inl e)
    with assms(1) q have "r = Inl e" "m1 = m\<lparr>m_db := s0\<rparr>"
      by (simp_all add: claim_runnable_def claim_next_runnable_job_def)
    then have a: "r \<noteq> Inr (Some x)" "m1 = m\<lparr>m_db := s0\<rparr>" for x by simp_all
    show thesis by (rule that(1)[OF a keeps_same_rows[OF sr] same_rows_job_row[OF sr]])
  next
    case (Inr js)
    obtain p s2 where "claim_loop now ?can js (\<lambda>_. None) s0 = (p, s2)" by fastforce
    moreover obtain r1 c1 where "p = (r1, c1)" by fastforce
    ultimately have l: "claim_loop now ?can js (\<lambda>_. None) s0 = ((r1, c1), s2)" by simp
    have js: "js = queued_jobs s0" using query_Inr[OF q[unfolded Inr]] by simp
    have k: "keeps (m_db m) s2"
      using keeps_same_rows[OF sr] claim_loop_keeps[OF l claim_can_run_reads_only] by (rule keeps_trans)
    have m1: "(r, m1) = (case ((r1, c1), s2) of ((Inl e, _), s) \<Rightarrow> (Inl e, m\<lparr>m_db := s\<rparr>)
      | ((Inr None, _), s) \<Rightarrow> (Inr None, m\<lparr>m_db := s\<rparr>)
      | ((Inr (Some j), keys_of), s) \<Rightarrow> (let ks = keys_noted keys_of (j_id j)
           in (Inr (Some (j, ks)), m\<lparr>m_db := s, m_locks := acquire_locks (j_id j) ks (m_locks m)\<rparr>)))"
      using assms(1) q Inr l unfolding claim_runnable_def claim_next_runnable_job_def by (simp del: split_paired_All)
    from claim_loop_rows[OF l claim_can_run_reads_only tok] show thesis
    proof
      assume u: "claim_untouched s0 r1 s2"
      with m1 have "\<And>x. r \<noteq> Inr (Some x)" "m1 = m\<lparr>m_db := s2\<rparr>"
        by (auto simp: claim_untouched_def split: sum.splits option.splits)
      moreover from u same_rows_job_row[OF sr] have "job_row s2 = job_row (m_db m)"
        by (simp add: claim_untouched_def)
      ultimately show thesis using k by - (rule that(1)[of s2])
    next
      assume "claim_taken now s0 r1 s2 (\<lambda>i. claim_accepted ?can js s0 i c1)"
      then obtain i j where j: "job_row s0 i = Some j" "j_status j = status_queued"
          "job_row s2 = (job_row s0)(i \<mapsto> claimed now j)"
        and res: "(\<exists>e. r1 = Inl e) \<or> r1 = Inr (Some (claimed now j)) \<and> claim_accepted ?can js s0 i c1"
        unfolding claim_taken_def by blast
      note j = j[unfolded same_rows_job_row[OF sr]]
      from res show thesis
      proof
        assume "\<exists>e. r1 = Inl e"
        then obtain e where "r1 = Inl e" ..
        with m1 have "r = Inl e" "m1 = m\<lparr>m_db := s2\<rparr>" by simp_all
        then show thesis using k j by (rule that(2))
      next
        assume a: "r1 = Inr (Some (claimed now j)) \<and> claim_accepted ?can js s0 i c1"
        then obtain p c0 t0 t1 where p: "p \<in> set js" "j_id p = i" "keeps s0 t0" "?can p c0 t0 = ((True, c1), t1)"
          unfolding claim_accepted_def by blast
        from p(1,2) js j(1) job_row_mem[OF tok, of p] same_rows_job_row[OF sr] have pj: "p = j"
          by (simp add: queued_jobs_set)
        from p(4) obtain ks where ks: "resource_keys j t0 = (ks, t1)" "accept j" "locks_free (m_locks m) ks"
          "c1 = c0(j_id j \<mapsto> ks)"
          unfolding claim_can_run_def pj by (auto simp: Let_def split: if_splits prod.splits)
        have kt: "keeps (m_db m) t0" using keeps_same_rows[OF sr] p(3) by (rule keeps_trans)
        have "keys_noted c1 (j_id (claimed now j)) = ks" by (simp add: ks(4) keys_noted_def claimed_def)
        with m1 a have "r = Inr (Some (claimed now j, ks))"
          "m1 = m\<lparr>m_db := s2, m_locks := acquire_locks (j_id j) ks (m_locks m)\<rparr>"
          by (simp_all add: Let_def claimed_def)
        then show thesis
          using k kt j ks p(2) pj by - (rule that(3)[of j ks s2 t0 t1], simp_all)
      qed
    qed
  qed
qed


section \<open>The manager as a step relation\<close>

text \<open>
  What may happen to the manager: any statement on the jobs by any part of the
  program (\<open>ms_store\<close>: requests, the schedule, the goroutines of the jobs), any
  change of the other tables or of the failures to come (\<open>ms_other\<close>), a turn of the
  dispatcher's loop, the end of a goroutine and a new worker limit.
\<close>

inductive mstep :: "manager \<Rightarrow> manager \<Rightarrow> bool" where
  ms_store: "store_step (m_db m) s \<Longrightarrow> mstep m (m\<lparr>m_db := s\<rparr>)"
| ms_other: "\<lbrakk> jobs s = jobs (m_db m); next_job s = next_job (m_db m) \<rbrakk> \<Longrightarrow> mstep m (m\<lparr>m_db := s\<rparr>)"
| ms_dispatch: "dispatch_step now m = (b, m1) \<Longrightarrow> mstep m m1"
| ms_release: "i \<in> fst ` set (m_execs m) \<Longrightarrow> mstep m (job_release i m)"
| ms_leave: "0 < m_leaving m \<Longrightarrow> mstep m (job_leave m)"
| ms_workers: "mstep m (set_workers n m)"

text \<open>
  The invariant: the table of keys is exactly what the goroutines reserved, a
  goroutine's job is out of the queue, the count is that of the goroutines, and
  the limit is in range and was respected.
\<close>

definition minv :: "manager \<Rightarrow> bool" where
  "minv m \<longleftrightarrow> table_ok (m_db m) \<and> lt.consistent (m_locks m) (m_execs m)
     \<and> (\<forall>i \<in> fst ` set (m_execs m). issued (m_db m) i \<and> status_of (m_db m) i \<noteq> Some status_queued)
     \<and> m_running m = int (length (m_execs m) + m_leaving m)
     \<and> 1 \<le> m_workers m \<and> m_workers m \<le> max_workers \<and> m_running m \<le> max_workers"

lemma minv_db:
  assumes "minv m" "row_step (m_db m) s"
  shows "minv (m\<lparr>m_db := s\<rparr>)"
proof -
  have "issued s i \<and> status_of s i \<noteq> Some status_queued"
    if "issued (m_db m) i" "status_of (m_db m) i \<noteq> Some status_queued" for i
  proof -
    from assms(2) that(1) have mv: "status_move (status_of (m_db m) i) (status_of s i)" "issued s i"
      "status_of (m_db m) i = None \<Longrightarrow> status_of s i = None"
      by (auto simp: row_step_def issued_def)
    with move_not_queued[OF mv(1)] that(2) show ?thesis by (cases "status_of (m_db m) i") auto
  qed
  with assms show ?thesis by (auto simp: minv_def row_step_def)
qed

lemma row_step_id: "\<lbrakk> table_ok s; jobs t = jobs s; next_job t = next_job s \<rbrakk> \<Longrightarrow> row_step s t"
  by (rule row_step_same) (auto simp: table_ok_def job_row_def fun_eq_iff)

lemma row_step_claimed:
  assumes "keeps s t" "table_ok s" "job_row s i = Some j" "j_status j = status_queued"
    "job_row t = (job_row s)(i \<mapsto> claimed now j)"
  shows "row_step s t"
  using assms by (auto simp: row_step_def keeps_def status_of_def claimed_def intro: status_move.stay status_move.claim)

lemma minv_dispatch:
  assumes "minv m" "dispatch_step now m = (b, m1)"
  shows "minv m1"
proof (cases "m_running m < m_workers m")
  case False
  with assms show ?thesis by (simp add: dispatch_step_def)
next
  case room: True
  from assms(1) have tok: "table_ok (m_db m)" by (simp add: minv_def)
  obtain r m2 where c: "claim_runnable now (\<lambda>_. True) m = (r, m2)" by fastforce
  from c tok show ?thesis
  proof (cases rule: claim_runnable_cases)
    case (empty s)
    have "row_step (m_db m) s"
      using empty(3,4) tok by (intro row_step_same) (simp_all add: keeps_def)
    moreover have "m1 = m2"
      using assms(2) room c empty(1) by (auto simp: dispatch_step_def split: sum.splits option.splits)
    ultimately show ?thesis using minv_db[OF assms(1)] empty(2) by simp
  next
    case (lost s e j i)
    have "row_step (m_db m) s" by (rule row_step_claimed[OF lost(3) tok lost(4-6)])
    moreover have "m1 = m2" using assms(2) room c lost(1) by (simp add: dispatch_step_def)
    ultimately show ?thesis using minv_db[OF assms(1)] lost(2) by simp
  next
    case (taken s j ks s0 s1)
    have rs: "row_step (m_db m) s" by (rule row_step_claimed[OF taken(3) tok taken(4,5,10)])
    have m1: "m1 = (m\<lparr>m_db := s\<rparr>)\<lparr>m_locks := acquire_locks (j_id j) ks (m_locks m), m_running := m_running m + 1,
        m_execs := m_execs m @ [(j_id j, ks)]\<rparr>"
      using assms(2) room c taken(1,2) by (simp add: dispatch_step_def claimed_def)
    have i: "minv (m\<lparr>m_db := s\<rparr>)" by (rule minv_db[OF assms(1) rs])
    have new: "j_id j \<notin> fst ` set (m_execs m)"
      using assms(1) taken(4,5) by (auto simp: minv_def status_of_def)
    have "issued (m_db m) (j_id j)"
      using job_row_Some[OF taken(4)] tok by (simp add: table_ok_def issued_def)
    with taken(3) have iss: "issued s (j_id j)" by (simp add: issued_def keeps_def)
    have st: "status_of s (j_id j) = Some status_running" by (simp add: status_of_def taken(10) claimed_def)
    have con: "lt.consistent (acquire_locks (j_id j) ks (m_locks m)) (m_execs m @ [(j_id j, ks)])"
      using assms(1) taken(7) new by (intro lt.consistent_claim) (simp_all add: minv_def)
    show ?thesis
      using i con iss st room by (simp add: m1 minv_def job_status_defs ball_Un)
  qed
qed

lemma length_filter_fst:
  "\<lbrakk> distinct (map fst xs); i \<in> fst ` set xs \<rbrakk> \<Longrightarrow> Suc (length (filter (\<lambda>(k, _). k \<noteq> i) xs)) = length xs"
proof (induction xs)
  case (Cons x xs)
  show ?case
  proof (cases "fst x = i")
    case True
    with Cons.prems(1) have "\<forall>y \<in> set xs. fst y \<noteq> i" by (auto simp: image_iff)
    then have "filter (\<lambda>(k, _). k \<noteq> i) xs = xs" by (auto simp: filter_id_conv)
    with True show ?thesis by (cases x) simp
  next
    case False
    with Cons show ?thesis by (cases x) auto
  qed
qed simp

lemma minv_step: "\<lbrakk> mstep m m'; minv m \<rbrakk> \<Longrightarrow> minv m'"
proof (induction rule: mstep.induct)
  case (ms_store m s)
  then have "table_ok (m_db m)" by (simp add: minv_def)
  from minv_db[OF ms_store(2) store_step_rows[OF ms_store(1) this]] show ?case .
next
  case (ms_other s m)
  then show ?case by (intro minv_db row_step_id) (simp_all add: minv_def)
next
  case (ms_dispatch now m b m1)
  from minv_dispatch[OF ms_dispatch(2,1)] show ?case .
next
  case (ms_release i m)
  have "lt.consistent (release_locks i (m_locks m)) (filter (\<lambda>(k, _). k \<noteq> i) (m_execs m))"
    using ms_release(2) by (intro lt.consistent_release) (simp add: minv_def)
  moreover have "Suc (length (filter (\<lambda>(k, _). k \<noteq> i) (m_execs m))) = length (m_execs m)"
    using ms_release by (intro length_filter_fst) (simp_all add: minv_def lt.consistent_def)
  ultimately show ?case using ms_release(2) by (auto simp: minv_def job_release_def)
next
  case (ms_leave m)
  then show ?case by (auto simp: minv_def job_leave_def)
next
  case (ms_workers m n)
  then show ?case
    by (auto simp: minv_def set_workers_def clamp_workers_def default_workers_def max_workers_def)
qed

lemma minv_run: "\<lbrakk> mstep\<^sup>*\<^sup>* m m'; minv m \<rbrakk> \<Longrightarrow> minv m'"
  by (induction rule: rtranclp_induct) (auto intro: minv_step)

lemma minv_new: "table_ok s \<Longrightarrow> minv (new_job_manager s w)"
  by (simp add: minv_def new_job_manager_def lt.consistent_def clamp_workers_def default_workers_def max_workers_def)

end
