(* ===== verification/Job_Properties.thy ===== *)
theory Job_Properties
  imports Job_Safety
begin

text \<open>
  The properties of the job manager and of the jobs table: what a request to
  queue a job does, what the dispatcher starts, what keeps running jobs apart,
  the life of a job, the deletion of a mailbox, and what database failures can
  do. The example database of the witnesses is at the start.
\<close>

section \<open>An example\<close>

definition demo_mailbox :: "int \<Rightarrow> string \<Rightarrow> string \<Rightarrow> mailbox" where
  "demo_mailbox i address host =
     \<lparr>mb_id = i, mb_address = address, mb_display_name = '''', mb_enabled = True, mb_last_fetched_at = None,
      mb_last_fetch_error = '''', mb_created_at = 0, mb_updated_at = 0, mb_imap_host = host, mb_imap_port = 993,
      mb_imap_security = ''ssl'', mb_imap_username = address, mb_imap_password_enc = '''', mb_folder = ''INBOX'',
      mb_initial_days = 7, mb_recent_days = 7, mb_server_keep_days = 0, mb_smtp_host = '''',
      mb_probe_enabled = False, mb_smtp_port = 465, mb_smtp_security = ''ssl'', mb_smtp_username = '''',
      mb_smtp_password_enc = ''''\<rparr>"

definition demo_job :: "int \<Rightarrow> string \<Rightarrow> int \<Rightarrow> job" where
  "demo_job i kind mb = (new_job kind mb '''' ''cli'' 0)\<lparr>j_id := i, j_status := status_queued, j_created_at := i\<rparr>"

text \<open>Two mailboxes on one server; a sync of each, and the analysis of the first.\<close>

definition demo_db :: store where
  "demo_db =
     \<lparr>faults = [], jobs = [demo_job 1 job_sync 1, demo_job 2 job_sync 2, demo_job 3 job_analyze 1], next_job = 4,
      mailboxes = [demo_mailbox 1 ''a@x.jp'' ''imap.x.jp'', demo_mailbox 2 ''b@x.jp'' '' IMAP.x.jp''],
      next_mailbox = 3, users = [], next_user = 1, probe_mails = [], next_probe = 1,
      settings = (\<lambda>_. None)\<rparr>"

definition demo_manager :: manager where
  "demo_manager = new_job_manager demo_db 2"

definition demo_running :: manager where
  "demo_running = snd (dispatch_step 20 (snd (dispatch_step 10 demo_manager)))"

lemma demo_table_ok: "table_ok demo_db"
  by code_simp

lemma demo_minv: "minv demo_manager"
  unfolding demo_manager_def by (rule minv_new[OF demo_table_ok])

lemma demo_run: "mstep\<^sup>*\<^sup>* demo_manager demo_running"
proof -
  have "mstep m (snd (dispatch_step now m))" for now m
    by (rule ms_dispatch[of now m "fst (dispatch_step now m)"]) simp
  then show ?thesis unfolding demo_running_def by (meson rtranclp.rtrancl_into_rtrancl rtranclp.rtrancl_refl)
qed

text \<open>The second sync waits for the server both mailboxes are on; the analysis runs.\<close>

lemma demo_execs:
  "m_execs demo_running = [(1, [''host:imap.x.jp'', ''mailbox:a@x.jp'']), (3, [''agent'', ''analyze:a@x.jp''])]"
  by code_simp


section \<open>The dispatcher without database failures\<close>

definition start_job :: "time \<Rightarrow> job \<Rightarrow> manager \<Rightarrow> manager" where
  "start_job now j m =
     m\<lparr>m_db := claim_row now (j_id j) (m_db m),
       m_locks := acquire_locks (j_id j) (job_keys (m_db m) j) (m_locks m),
       m_running := m_running m + 1, m_execs := m_execs m @ [(j_id j, job_keys (m_db m) j)]\<rparr>"

lemma dispatch_step_no_faults:
  assumes "faults (m_db m) = []" "table_ok (m_db m)"
  shows "dispatch_step now m =
    (if m_running m < m_workers m
     then (case first_free (\<lambda>_. True) m of None \<Rightarrow> (False, m) | Some j \<Rightarrow> (True, start_job now j m))
     else (False, m))"
  by (simp add: dispatch_step_def claim_runnable_first_free[OF assms] start_job_def claimed_def split: option.splits)

lemma first_free_row:
  assumes "first_free accept m = Some j" "table_ok (m_db m)"
  shows "job_row (m_db m) (j_id j) = Some j" "j_status j = status_queued" "accept j"
    "locks_free (m_locks m) (job_keys (m_db m) j)"
proof -
  from assms(1) have "j \<in> set (queued_jobs (m_db m)) \<and> accept j \<and> locks_free (m_locks m) (job_keys (m_db m) j)"
    unfolding first_free_def by (rule find_SomeD)
  then show "job_row (m_db m) (j_id j) = Some j" "j_status j = status_queued" "accept j"
    "locks_free (m_locks m) (job_keys (m_db m) j)"
    using job_row_mem[OF assms(2)] by (auto simp: queued_jobs_set)
qed

lemma claim_row_ok:
  assumes "faults s = []" "table_ok s" "job_row s i = Some j" "j_status j = status_queued"
  shows "faults (claim_row now i s) = []" "table_ok (claim_row now i s)"
proof -
  show "faults (claim_row now i s) = []" using assms(1) by (simp add: claim_row_def)
  from claim_job_by_id_keeps[OF claim_job_by_id_no_faults[OF assms]] assms(2)
  show "table_ok (claim_row now i s)" by (simp add: keeps_def)
qed

lemma dispatch_loop_complete:
  assumes "faults (m_db m) = []" "table_ok (m_db m)"
  shows "m_workers (dispatch_loop nows n m) \<le> m_running (dispatch_loop nows n m)
    \<or> first_free (\<lambda>_. True) (dispatch_loop nows n m) = None"
  using assms
proof (induction nows n m rule: dispatch_loop.induct)
  case (1 nows n m)
  show ?case
  proof (cases "m_running m < m_workers m \<and> first_free (\<lambda>_. True) m \<noteq> None")
    case False
    then show ?thesis
      by (subst (1 2 3) dispatch_loop.simps) (auto simp: dispatch_step_no_faults[OF 1(2,3)])
  next
    case True
    then obtain j where j: "m_running m < m_workers m" "first_free (\<lambda>_. True) m = Some j" by auto
    have step: "dispatch_step (nows n) m = (True, start_job (nows n) j m)"
      using j by (simp add: dispatch_step_no_faults[OF 1(2,3)])
    have "faults (m_db (start_job (nows n) j m)) = []" "table_ok (m_db (start_job (nows n) j m))"
      using claim_row_ok[OF 1(2,3) first_free_row(1,2)[OF j(2) 1(3)]] by (simp_all add: start_job_def)
    from 1(1)[OF refl step[symmetric] TrueI this] show ?thesis
      by (subst (1 2 3) dispatch_loop.simps) (simp add: step)
  qed
qed

definition runnable :: "(job \<Rightarrow> bool) \<Rightarrow> manager \<Rightarrow> job \<Rightarrow> bool" where
  "runnable accept m j \<longleftrightarrow>
     j_status j = status_queued \<and> accept j \<and> locks_free (m_locks m) (job_keys (m_db m) j)"

lemma first_free_order:
  "first_free accept m = Some j \<Longrightarrow> j \<in> set (jobs (m_db m)) \<and> runnable accept m j
     \<and> (\<forall>i\<in>set (jobs (m_db m)). runnable accept m i \<longrightarrow> (j_created_at j, j_id j) \<le> (j_created_at i, j_id i))"
  "first_free accept m = None \<Longrightarrow> \<forall>i\<in>set (jobs (m_db m)). \<not> runnable accept m i"
proof -
  let ?P = "\<lambda>j. accept j \<and> locks_free (m_locks m) (job_keys (m_db m) j)"
  let ?k = "\<lambda>j. (j_created_at j, j_id j)"
  have p: "runnable accept m i \<and> i \<in> set (jobs (m_db m)) \<longleftrightarrow> i \<in> set (queued_jobs (m_db m)) \<and> ?P i" for i
    by (auto simp: runnable_def queued_jobs_set)
  { assume "first_free accept m = Some j"
    then have f: "List.find ?P (queued_jobs (m_db m)) = Some j" by (simp only: first_free_def)
    have "List.sorted (map ?k (queued_jobs (m_db m)))" by (simp add: queued_jobs_def del: prod.collapse)
    from find_sorted_first[OF f this] find_SomeD[OF f] show "j \<in> set (jobs (m_db m)) \<and> runnable accept m j
     \<and> (\<forall>i\<in>set (jobs (m_db m)). runnable accept m i \<longrightarrow> (j_created_at j, j_id j) \<le> (j_created_at i, j_id i))"
      using p by blast }
  { assume "first_free accept m = None"
    then show "\<forall>i\<in>set (jobs (m_db m)). \<not> runnable accept m i"
      using p unfolding first_free_def find_None_iff2 by blast }
qed

section \<open>What queueing does\<close>

lemma enqueue_check_same_rows: "enqueue_check kind mb raw by s = (r, t) \<Longrightarrow> same_rows s t"
  unfolding enqueue_check_def find_active_job_def list_active_jobs_def has_active_job_def get_mailbox_by_id_def
  by (auto simp: act_try_def act_bind_def act_fail_def act_return_def Let_def
      split: sum.splits prod.splits if_splits go_error.splits
      dest!: query_same_rows query_row_same_rows intro: same_rows_trans)

lemma enqueue_check_target: "enqueue_check kind mb raw by s = (Inr (target, ex), t) \<Longrightarrow> enqueue_target kind mb raw by = Inr target"
  unfolding enqueue_check_def
  by (auto simp: act_try_def act_bind_def act_fail_def act_return_def Let_def
      split: sum.splits prod.splits if_splits go_error.splits)


definition job_same_request :: "string \<Rightarrow> int \<Rightarrow> string \<Rightarrow> job \<Rightarrow> bool" where
  "job_same_request kind mailbox_id target j \<longleftrightarrow>
     j_kind j = kind \<and> j_target j = target \<and> (case j_mailbox j of None \<Rightarrow> 0 | Some m \<Rightarrow> m) = mailbox_id"

lemma job_matches_same_request: "job_matches kind mb target j \<Longrightarrow> job_same_request kind mb target j"
  by (auto simp: job_matches_def job_same_request_def split: if_splits)

lemma job_matches_key: "job_matches kind mb target j \<longleftrightarrow> job_key j = job_key (new_job kind mb target by p)"
  by (auto simp: job_matches_def job_key_def new_job_def blank_job_def)

lemma has_active_job_Inr:
  "has_active_job kind mb target s = (Inr b, t) \<Longrightarrow>
     b = (\<exists>j \<in> set (jobs s). job_matches kind mb target j \<and> job_active j)"
  unfolding has_active_job_def by (drule query_Inr) (auto simp: same_rowsD filter_empty_conv)

lemma find_active_job_Inr:
  assumes "find_active_job kind mb target s = (Inr r, t)"
  shows "r = None \<Longrightarrow> \<forall>j \<in> set (jobs s). job_active j \<longrightarrow> \<not> job_same_request kind mb target j"
    "r = Some j \<Longrightarrow> j \<in> set (jobs s) \<and> job_active j \<and> job_same_request kind mb target j"
proof -
  from assms obtain js s1 where q: "list_active_jobs s = (Inr js, s1)"
    and r: "r = List.find (job_same_request kind mb target) js"
    by (auto simp: find_active_job_def act_bind_def act_return_def job_same_request_def[abs_def]
        split: prod.splits sum.splits)
  from query_Inr[OF q[unfolded list_active_jobs_def]] have "set js = {j \<in> set (jobs s). job_active j}"
    by (auto simp: same_rowsD)
  with r show "r = None \<Longrightarrow> \<forall>j \<in> set (jobs s). job_active j \<longrightarrow> \<not> job_same_request kind mb target j"
    "r = Some j \<Longrightarrow> j \<in> set (jobs s) \<and> job_active j \<and> job_same_request kind mb target j"
    by (auto simp: find_None_iff2 dest!: find_SomeD sym[of "Some j"])
qed

lemma enqueue_check_Inr:
  assumes "enqueue_check kind mb raw by s = (Inr (target, ex), t)"
  shows "ex = None \<Longrightarrow> \<forall>j \<in> set (jobs s). job_active j \<longrightarrow> \<not> job_matches kind mb target j"
    "ex = Some j \<Longrightarrow> j \<in> set (jobs s) \<and> job_active j \<and> job_same_request kind mb target j"
proof -
  note tg = enqueue_check_target[OF assms]
  from assms obtain u s1 active s2 where g: "(if mb \<noteq> 0 then act_bind (get_mailbox_by_id mb) (\<lambda>_. act_return ())
      else act_return ()) s = (Inr u, s1)" and a: "has_active_job kind mb target s1 = (Inr active, s2)"
    and f: "(if active then find_active_job kind mb target else act_return None) s2 = (Inr ex, t)"
    unfolding enqueue_check_def tg
    by (auto simp: act_try_def act_bind_def act_fail_def act_return_def Let_def
        split: sum.splits prod.splits go_error.splits)
  have sr: "same_rows s s1"
    using g by (auto simp: act_bind_def act_return_def get_mailbox_by_id_def split: if_splits prod.splits sum.splits
        dest: query_row_same_rows)
  have sr2: "same_rows s1 s2" using a unfolding has_active_job_def by (rule query_same_rows)
  have j: "jobs s2 = jobs s" "jobs s1 = jobs s" by (simp_all add: same_rowsD[OF sr] same_rowsD[OF sr2])
  note act = has_active_job_Inr[OF a, unfolded j]
  show "\<forall>j \<in> set (jobs s). job_active j \<longrightarrow> \<not> job_matches kind mb target j" if "ex = None"
  proof (cases active)
    case True
    with f find_active_job_Inr(1)[of kind mb target s2 ex t] j job_matches_same_request that show ?thesis
      by (metis (full_types))
  next
    case False
    with act show ?thesis by blast
  qed
  show "j \<in> set (jobs s) \<and> job_active j \<and> job_same_request kind mb target j" if "ex = Some j"
    using f find_active_job_Inr(2)[of kind mb target s2 ex t j] j that
    by (cases active) (auto simp: act_return_def)
qed

lemma enqueue_job_cases:
  assumes "enqueue_job now kind mb raw by p s = (r, t)"
  obtains (failed) e where "r = Inl e" "same_rows s t"
  | (existing) j target where "r = Inr (j, False)" "same_rows s t" "enqueue_target kind mb raw by = Inr target"
      "j \<in> set (jobs s)" "job_active j" "job_same_request kind mb target j"
  | (created) u target where "r = Inr (inserted_job now (new_job kind mb target by p) s, True)" "same_rows s u"
      "enqueue_target kind mb raw by = Inr target"
      "\<forall>j \<in> set (jobs s). job_active j \<longrightarrow> \<not> job_matches kind mb target j"
      "t = u\<lparr>jobs := jobs s @ [fresh_row now (new_job kind mb target by p) s], next_job := next_job s + 1\<rparr>"
proof -
  obtain r1 s1 where c: "enqueue_check kind mb raw by s = (r1, s1)" by fastforce
  have sr: "same_rows s s1" by (rule enqueue_check_same_rows[OF c])
  show thesis
  proof (cases r1)
    case (Inl e)
    with assms c sr show thesis by (intro failed[of e]) (auto simp: enqueue_job_def act_bind_def)
  next
    case (Inr x)
    obtain target ex where x: "x = (target, ex)" by fastforce
    note c' = c[unfolded Inr x]
    show thesis
    proof (cases ex)
      case (Some j)
      with assms c' have "r = Inr (j, False)" "t = s1" by (simp_all add: enqueue_job_def act_bind_def act_return_def)
      with sr enqueue_check_target[OF c'] enqueue_check_Inr(2)[OF c' Some] show thesis by (intro existing) auto
    next
      case None
      obtain r2 s2 where i: "insert_job now (new_job kind mb target by p) s1 = (r2, s2)" by fastforce
      with assms c' None have r: "r = (case r2 of Inl e \<Rightarrow> Inl e | Inr j \<Rightarrow> Inr (j, True))" "t = s2"
        by (auto simp: enqueue_job_def act_bind_def act_return_def split: sum.splits)
      have eq: "inserted_job now j s1 = inserted_job now j s" "fresh_row now j s1 = fresh_row now j s" for j
        by (simp_all add: inserted_job_def fresh_row_def same_rowsD[OF sr])
      from i show thesis
      proof (cases rule: insert_job_cases)
        case (fault msg)
        with r same_rows_trans[OF sr] show thesis by (intro failed) auto
      next
        case (ok u)
        with r eq same_rows_trans[OF sr ok(1)] enqueue_check_target[OF c'] enqueue_check_Inr(1)[OF c' None]
        show thesis by (intro created[of target u]) (simp_all add: same_rowsD[OF sr])
      qed
    qed
  qed
qed


section \<open>Deleting a mailbox\<close>

lemma delete_mailbox_ok:
  assumes "delete_mailbox i s = (Inr x, t)"
  shows "\<exists>u. same_rows s u \<and> t = u\<lparr>mailboxes := filter (\<lambda>m. mb_id m \<noteq> i) (mailboxes s),
    jobs := map (\<lambda>j. if j_mailbox j = Some i then j\<lparr>j_mailbox := None\<rparr> else j) (jobs s),
    probe_mails := filter (\<lambda>p. p_mailbox p \<noteq> i) (probe_mails s)\<rparr>"
  using assms unfolding delete_mailbox_def exec_def
  by (cases rule: stmt_cases[of "\<lambda>s. ((), s\<lparr>mailboxes := filter (\<lambda>m. mb_id m \<noteq> i) (mailboxes s),
        jobs := map (\<lambda>j. if j_mailbox j = Some i then j\<lparr>j_mailbox := None\<rparr> else j) (jobs s),
    probe_mails := filter (\<lambda>p. p_mailbox p \<noteq> i) (probe_mails s)\<rparr>)" s])
     (auto simp: same_rowsD)

lemma cancel_for_mailbox_ok:
  assumes "cancel_queued_jobs_for_mailbox now i s = (Inr n, t)"
  shows "\<exists>u. same_rows s u \<and> t = u\<lparr>jobs := map (\<lambda>j. if j_mailbox j = Some i \<and> j_status j = status_queued
      then j\<lparr>j_status := status_canceled, j_finished_at := Some now\<rparr> else j) (jobs s)\<rparr>"
  using assms unfolding cancel_queued_jobs_for_mailbox_def by (cases rule: update_jobs_cases) auto

lemma has_running_job_for_mailbox_Inr:
  "has_running_job_for_mailbox i s = (Inr b, t) \<Longrightarrow>
     same_rows s t \<and> b = (\<exists>j \<in> set (jobs s). j_mailbox j = Some i \<and> j_status j = status_running)"
  unfolding has_running_job_for_mailbox_def
  by (drule query_Inr) (auto simp: same_rowsD filter_empty_conv)

text \<open>What the deletion makes of a row: canceled when it was queued, its mailbox gone.\<close>

definition orphaned :: "time \<Rightarrow> int \<Rightarrow> job \<Rightarrow> job" where
  "orphaned now i j =
     (if j_mailbox j = Some i
      then (if j_status j = status_queued then j\<lparr>j_mailbox := None, j_status := status_canceled, j_finished_at := Some now\<rparr>
            else j\<lparr>j_mailbox := None\<rparr>)
      else j)"

lemma delete_mailbox_row_ok:
  assumes "delete_mailbox_row now i s = (Inr x, t)"
  shows "mailboxes t = filter (\<lambda>m. mb_id m \<noteq> i) (mailboxes s) \<and> jobs t = map (orphaned now i) (jobs s)
    \<and> (\<forall>j \<in> set (jobs s). j_mailbox j = Some i \<longrightarrow> j_status j \<noteq> status_running)"
proof -
  from transaction_ok[OF assms[unfolded delete_mailbox_row_def]] obtain u v where u: "same_rows s u" "same_rows v t"
    and b: "act_bind (cancel_queued_jobs_for_mailbox now i) (\<lambda>_.
       act_bind (has_running_job_for_mailbox i) (\<lambda>running.
         if running then act_fail err_mailbox_busy else delete_mailbox i)) u = (Inr x, v)" by blast
  from b obtain n u1 run u2 where c: "cancel_queued_jobs_for_mailbox now i u = (Inr n, u1)"
    and h: "has_running_job_for_mailbox i u1 = (Inr run, u2)"
    and d: "(if run then act_fail err_mailbox_busy else delete_mailbox i) u2 = (Inr x, v)"
    by (auto simp: act_bind_def split: prod.splits sum.splits)
  from d have "\<not> run" by (auto simp: act_fail_def)
  with d have d': "delete_mailbox i u2 = (Inr x, v)" by simp
  from cancel_for_mailbox_ok[OF c] obtain w where w: "same_rows u w"
    "jobs u1 = map (\<lambda>j. if j_mailbox j = Some i \<and> j_status j = status_queued
      then j\<lparr>j_status := status_canceled, j_finished_at := Some now\<rparr> else j) (jobs u)" "mailboxes u1 = mailboxes u"
    by (auto simp: same_rowsD)
  from has_running_job_for_mailbox_Inr[OF h] \<open>\<not> run\<close> have sr: "same_rows u1 u2"
    and none: "\<forall>j \<in> set (jobs u1). j_mailbox j = Some i \<longrightarrow> j_status j \<noteq> status_running" by auto
  from delete_mailbox_ok[OF d'] obtain y where y: "same_rows u2 y"
    "jobs v = map (\<lambda>j. if j_mailbox j = Some i then j\<lparr>j_mailbox := None\<rparr> else j) (jobs u2)"
    "mailboxes v = filter (\<lambda>m. mb_id m \<noteq> i) (mailboxes u2)" by auto
  have "jobs v = map (orphaned now i) (jobs s)"
    unfolding y(2) same_rowsD(1)[OF sr] w(2) same_rowsD(1)[OF u(1)] by (simp add: orphaned_def)
  moreover have "\<forall>j \<in> set (jobs s). j_mailbox j = Some i \<longrightarrow> j_status j \<noteq> status_running"
    using none unfolding w(2) same_rowsD(1)[OF u(1)] by (auto simp: job_status_defs split: if_splits)
  ultimately show ?thesis
    by (simp add: same_rowsD[OF u(2)] y(3) same_rowsD[OF sr] w(3) same_rowsD(3)[OF u(1)])
qed

lemma orphaned_active_unique:
  assumes "active_unique s" "table_ok s" "jobs t = map (orphaned now i) (jobs s)"
    "\<forall>j \<in> set (jobs s). j_mailbox j = Some i \<longrightarrow> j_status j \<noteq> status_running"
  shows "active_unique t"
proof -
  have "filter job_active (map (orphaned now i) js) = filter (\<lambda>j. j_mailbox j \<noteq> Some i) (filter job_active js)"
    if "\<forall>j \<in> set js. j_mailbox j = Some i \<longrightarrow> j_status j \<noteq> status_running" for js
    using that by (induction js) (auto simp: orphaned_def job_active_def job_status_defs)
  from this[OF assms(4)] assms(1) show ?thesis
    unfolding active_unique_def assms(3) by (simp only: distinct_map_filter')
qed

section \<open>The properties\<close>

text \<open>C1: Two jobs that execute at the same time hold no resource key in common, in every state the
  manager can reach from its start, whatever requests, database failures, renamed mailboxes and new
  worker limits come between.\<close>

theorem running_jobs_share_no_key:
  assumes "mstep\<^sup>*\<^sup>* (new_job_manager s w) m" "table_ok s"
    and "(i, ks) \<in> set (m_execs m)" "(j, ks') \<in> set (m_execs m)" "i \<noteq> j"
  shows "set ks \<inter> set ks' = {}"
proof -
  from minv_run[OF assms(1) minv_new[OF assms(2)]] have "lt.consistent (m_locks m) (m_execs m)"
    by (simp add: minv_def)
  then show ?thesis using assms(3-5) by (rule lt.exclusive)
qed

theorem running_jobs_share_no_key_witness:
  "set [''host:imap.x.jp'', ''mailbox:a@x.jp''] \<inter> set [''agent'', ''analyze:a@x.jp''] = {}"
  by (rule running_jobs_share_no_key[OF demo_run[unfolded demo_manager_def] demo_table_ok, of 1 _ 3])
     (simp_all add: demo_execs)

text \<open>C2: Without database failures the dispatcher claims the oldest queued job (by creation time, then
  id) whose keys are all free, makes exactly that row running, and reserves exactly the keys of the
  job's kind and mailbox; with no such job it changes nothing.\<close>

theorem claim_is_first_free:
  assumes "faults (m_db m) = []" "table_ok (m_db m)"
  shows "(\<exists>j\<in>set (jobs (m_db m)). runnable accept m j
        \<and> (\<forall>i\<in>set (jobs (m_db m)). runnable accept m i \<longrightarrow> (j_created_at j, j_id j) \<le> (j_created_at i, j_id i))
        \<and> claim_runnable now accept m =
            (Inr (Some (claimed now j, job_keys (m_db m) j)),
             m\<lparr>m_db := claim_row now (j_id j) (m_db m),
               m_locks := acquire_locks (j_id j) (job_keys (m_db m) j) (m_locks m)\<rparr>))
    \<or> (\<forall>i\<in>set (jobs (m_db m)). \<not> runnable accept m i) \<and> claim_runnable now accept m = (Inr None, m)"
proof (cases "first_free accept m")
  case None
  then show ?thesis using claim_runnable_first_free[OF assms] first_free_order(2)[OF None] by simp
next
  case (Some j)
  from first_free_order(1)[OF Some] show ?thesis
    by (intro disjI1 bexI[of _ j] conjI) (simp_all add: claim_runnable_first_free[OF assms] Some)
qed

theorem claim_is_first_free_witness:
  "claim_runnable 10 (\<lambda>_. True) demo_manager
     = (Inr (Some (claimed 10 (demo_job 1 job_sync 1), [''host:imap.x.jp'', ''mailbox:a@x.jp''])),
        demo_manager\<lparr>m_db := claim_row 10 1 (m_db demo_manager),
          m_locks := acquire_locks 1 [''host:imap.x.jp'', ''mailbox:a@x.jp''] (m_locks demo_manager)\<rparr>)"
proof -
  let ?c = "demo_job 1 job_sync 1"
  have "faults (m_db demo_manager) = []" "table_ok (m_db demo_manager)" by code_simp+
  note c = claim_is_first_free[OF this, of "\<lambda>_. True" 10]
  have q: "?c \<in> set (jobs (m_db demo_manager))" "runnable (\<lambda>_. True) demo_manager ?c"
    "list_all (\<lambda>i. runnable (\<lambda>_. True) demo_manager i \<longrightarrow> i = ?c \<or> (j_created_at ?c, j_id ?c) < (j_created_at i, j_id i))
       (jobs (m_db demo_manager))"
    "job_keys (m_db demo_manager) ?c = [''host:imap.x.jp'', ''mailbox:a@x.jp'']" "j_id ?c = 1"
    by code_simp+
  from c q(1,2) obtain j where j: "j \<in> set (jobs (m_db demo_manager))" "runnable (\<lambda>_. True) demo_manager j"
    "(j_created_at j, j_id j) \<le> (j_created_at ?c, j_id ?c)"
    "claim_runnable 10 (\<lambda>_. True) demo_manager =
       (Inr (Some (claimed 10 j, job_keys (m_db demo_manager) j)),
        demo_manager\<lparr>m_db := claim_row 10 (j_id j) (m_db demo_manager),
          m_locks := acquire_locks (j_id j) (job_keys (m_db demo_manager) j) (m_locks demo_manager)\<rparr>)"
    by blast
  from j(1-3) q(3) have "j = ?c" unfolding list_all_iff by (meson linorder_not_less)
  with j(4) q(4,5) show ?thesis by simp
qed

text \<open>C3: Without database failures a turn of the dispatcher leaves no work undone: afterwards the
  worker limit is reached or no queued job has all its keys free.\<close>

theorem dispatch_leaves_nothing_runnable:
  assumes "faults (m_db m) = []" "table_ok (m_db m)"
  shows "m_workers (dispatch True nows m) \<le> m_running (dispatch True nows m)
    \<or> first_free (\<lambda>_. True) (dispatch True nows m) = None"
  using dispatch_loop_complete[OF assms] by (simp add: dispatch_def)

theorem dispatch_leaves_nothing_runnable_witness:
  "m_workers (dispatch True int demo_manager) \<le> m_running (dispatch True int demo_manager)
    \<or> first_free (\<lambda>_. True) (dispatch True int demo_manager) = None"
  by (rule dispatch_leaves_nothing_runnable) code_simp+

text \<open>C4: The worker limit: in every reachable state at most 16 jobs execute, and a turn of the
  dispatcher's loop starts a job only while fewer jobs than the limit are counted; the count is never
  below the number of executing jobs.\<close>

theorem worker_limit:
  assumes "mstep\<^sup>*\<^sup>* (new_job_manager s w) m" "table_ok s"
  shows "int (length (m_execs m)) \<le> m_running m \<and> m_running m \<le> max_workers
    \<and> (fst (dispatch_step now m) \<longrightarrow> m_running m < m_workers m)"
proof -
  have "m_running m < m_workers m" if "fst (dispatch_step now m)"
    using that dispatch_step_frame(2)[of now m True "snd (dispatch_step now m)"]
    by (metis (full_types) prod.collapse)
  with minv_run[OF assms(1) minv_new[OF assms(2)]] show ?thesis by (auto simp: minv_def)
qed

theorem worker_limit_witness:
  "int (length (m_execs demo_running)) \<le> m_running demo_running \<and> m_running demo_running \<le> max_workers"
  using worker_limit[OF demo_run[unfolded demo_manager_def] demo_table_ok] by blast

text \<open>C5: A job is started at most once: once it has left the queue, no sequence of statements on the
  jobs table, failing or not, brings it back, so it can never be claimed again.\<close>

theorem job_never_requeued:
  assumes "store_step\<^sup>*\<^sup>* s t" "table_ok s" "issued s i" "status_of s i \<noteq> Some status_queued"
  shows "status_of t i \<noteq> Some status_queued \<and> (\<forall>k. fst (claim_job_by_id now i t) \<noteq> Inr (Some k))"
proof
  show q: "status_of t i \<noteq> Some status_queued" by (rule tb.never_requeued[OF assms])
  obtain r u where c: "claim_job_by_id now i t = (r, u)" by fastforce
  have "table_ok t" by (rule tb.run_inv[OF assms(1,2)])
  with c have "\<forall>k. r \<noteq> Inr (Some k)"
    using q by (cases rule: claim_job_by_id_cases) (auto simp: status_of_def)
  with c show "\<forall>k. fst (claim_job_by_id now i t) \<noteq> Inr (Some k)" by simp
qed

definition demo_claimed :: store where
  "demo_claimed = snd (claim_job_by_id 10 1 demo_db)"

lemma demo_claimed_ok: "table_ok demo_claimed" "issued demo_claimed 1" "status_of demo_claimed 1 = Some status_running"
  by code_simp+

lemma demo_finish_step: "store_step demo_claimed (snd (finish_job 20 1 ''ok'' '''' demo_claimed))"
proof -
  have "map_option j_status (job_row demo_claimed 1) = Some status_running"
    using demo_claimed_ok(3) by (simp add: status_of_def)
  then obtain j where "job_row demo_claimed 1 = Some j" "j_status j = status_running" by auto
  then show ?thesis by (intro ss_finish[of 20 1 "''ok''" "''''" demo_claimed "fst (finish_job 20 1 ''ok'' '''' demo_claimed)"]) simp
qed

theorem job_never_requeued_witness:
  "status_of (snd (finish_job 20 1 ''ok'' '''' demo_claimed)) 1 \<noteq> Some status_queued"
  using job_never_requeued[OF r_into_rtranclp[of store_step, OF demo_finish_step] demo_claimed_ok(1,2)]
  by (simp add: demo_claimed_ok(3) job_status_defs)


definition demo_canceled :: store where
  "demo_canceled = snd (cancel_queued_job 10 3 demo_db)"



text \<open>C7: Queueing is idempotent: run without interruption, \<^verbatim>\<open>EnqueueJob\<close> keeps the queued and running jobs
  distinct in kind, mailbox and target. A refusal or failure changes no row; a request that is already
  active gets that job back and changes no row; otherwise exactly one queued job of the request is added.\<close>

theorem enqueue_job_dedup:
  assumes "enqueue_job now kind mb raw by p s = (r, t)" "active_unique s"
  shows "active_unique t \<and>
    (case r of
       Inl e \<Rightarrow> same_rows s t
     | Inr (j, False) \<Rightarrow> same_rows s t \<and> j \<in> set (jobs s) \<and> job_active j
         \<and> (\<exists>target. enqueue_target kind mb raw by = Inr target \<and> job_same_request kind mb target j)
     | Inr (j, True) \<Rightarrow> (\<exists>target row. enqueue_target kind mb raw by = Inr target \<and> jobs t = jobs s @ [row]
         \<and> j_id row = j_id j \<and> j_status row = status_queued \<and> job_matches kind mb target row
         \<and> j_requested_by row = by \<and> j_parent row = p))"
  using assms(1)
proof (cases rule: enqueue_job_cases)
  case (failed e)
  with assms(2) show ?thesis by (simp add: same_rows_active_unique)
next
  case (existing j target)
  with assms(2) show ?thesis by (simp add: same_rows_active_unique)
next
  case (created u target)
  let ?new = "new_job kind mb target by p"
  have key: "job_key (fresh_row now ?new s) = job_key ?new" by (simp add: fresh_row_def job_key_def)
  have "job_key ?new \<notin> job_key ` set (filter job_active (jobs s))"
    using created(4) by (auto simp: job_matches_key[of kind mb target _ "by" p])
  then have "active_unique t" using assms(2) created(5) key by (simp add: active_unique_def)
  moreover have "job_matches kind mb target (fresh_row now ?new s)"
    using key by (simp add: job_matches_key[of kind mb target _ "by" p])
  ultimately show ?thesis
    using created(1,3,5)
    by (auto simp: inserted_job_def fresh_row_def new_job_def blank_job_def intro!: exI[of _ "fresh_row now ?new s"])
qed

theorem enqueue_job_dedup_witness:
  "active_unique (snd (enqueue_job 30 job_sync 1 '' '' ''web'' 0 demo_db))"
proof -
  have "active_unique demo_db" by code_simp
  from enqueue_job_dedup[OF prod.collapse[symmetric] this] show ?thesis by blast
qed


text \<open>C9: \<^verbatim>\<open>deleteMailboxRow\<close> is all or nothing: it fails and leaves every row as it was, in particular while
  a job of the mailbox runs (an unfailing database); or it removes exactly that mailbox, cancels its queued
  jobs and leaves every other job alone, so that no queued or running job refers to the mailbox.\<close>

theorem delete_mailbox_row_atomic:
  assumes "delete_mailbox_row now i s = (r, t)" "table_ok s" "active_unique s"
  shows "(case r of
      Inl e \<Rightarrow> same_rows s t
    | Inr _ \<Rightarrow> mailboxes t = filter (\<lambda>m. mb_id m \<noteq> i) (mailboxes s) \<and> jobs t = map (orphaned now i) (jobs s)
        \<and> active_unique t \<and> (\<forall>j \<in> set (jobs t). j_mailbox j \<noteq> Some i)
        \<and> (\<forall>j \<in> set (jobs s). j_mailbox j = Some i \<longrightarrow> j_status j \<noteq> status_running))"
proof (cases r)
  case (Inl e)
  with assms(1) show ?thesis by (auto simp: delete_mailbox_row_def dest: transaction_failed)
next
  case (Inr x)
  note d = delete_mailbox_row_ok[OF assms(1)[unfolded Inr]]
  from orphaned_active_unique[OF assms(3,2)] d have "active_unique t" by blast
  with d Inr show ?thesis by (auto simp: orphaned_def)
qed

theorem delete_mailbox_row_atomic_witness:
  "same_rows (m_db demo_running) (snd (delete_mailbox_row 40 1 (m_db demo_running)))"
proof -
  have "table_ok (m_db demo_running)" "active_unique (m_db demo_running)" by code_simp+
  moreover have "fst (delete_mailbox_row 40 1 (m_db demo_running)) = Inl err_mailbox_busy" by code_simp
  ultimately show ?thesis
    using delete_mailbox_row_atomic[OF prod.collapse[symmetric, of "delete_mailbox_row 40 1 (m_db demo_running)"]]
    by simp
qed

text \<open>A job that \<^verbatim>\<open>ClaimJobByID\<close> marked running but could not read back is lost: nothing executes it and
  the row stays running; the dispatcher reports the failure and keeps no key for it.\<close>

theorem claim_may_lose_job:
  "\<exists>m m1. minv m \<and> dispatch_step 10 m = (False, m1) \<and> m_execs m1 = [] \<and> m_running m1 = 0
     \<and> status_of (m_db m) 1 = Some status_queued \<and> status_of (m_db m1) 1 = Some status_running"
proof -
  let ?m = "demo_manager\<lparr>m_db := demo_db\<lparr>faults := [None, None, None, Some ''locked'']\<rparr>\<rparr>"
  have "minv ?m"
    by (rule minv_step[OF ms_other demo_minv]) (simp_all add: demo_manager_def new_job_manager_def)
  moreover have "\<not> fst (dispatch_step 10 ?m)" "m_execs (snd (dispatch_step 10 ?m)) = []"
    "m_running (snd (dispatch_step 10 ?m)) = 0" "status_of (m_db ?m) 1 = Some status_queued"
    "status_of (m_db (snd (dispatch_step 10 ?m))) 1 = Some status_running"
    by code_simp+
  ultimately show ?thesis by (intro exI[of _ ?m] exI[of _ "snd (dispatch_step 10 ?m)"]) (simp add: prod_eq_iff)
qed

text \<open>A database failure while the keys of a job are read makes \<^verbatim>\<open>resourceKeys\<close> return none, and the
  job runs beside another job of the same mailbox and server.\<close>

theorem failed_read_drops_keys:
  "\<exists>m m1. minv m \<and> dispatch_step 20 m = (True, m1)
     \<and> m_execs m1 = [(1, [''host:imap.x.jp'', ''mailbox:a@x.jp'']), (2, [])]
     \<and> job_keys (m_db m) (demo_job 2 job_sync 2) = [''host:imap.x.jp'', ''mailbox:b@x.jp'']"
proof -
  let ?first = "snd (dispatch_step 10 demo_manager)"
  let ?m = "?first\<lparr>m_db := (m_db ?first)\<lparr>faults := [None, Some ''locked'']\<rparr>\<rparr>"
  have i: "minv ?first" by (rule minv_dispatch[OF demo_minv prod.collapse[symmetric]])
  have st: "mstep ?first ?m" by (rule ms_other) simp_all
  have i': "minv ?m" by (rule minv_step[OF st i])
  have "fst (dispatch_step 20 ?m)"
    "m_execs (snd (dispatch_step 20 ?m)) = [(1, [''host:imap.x.jp'', ''mailbox:a@x.jp'']), (2, [])]"
    "job_keys (m_db ?m) (demo_job 2 job_sync 2) = [''host:imap.x.jp'', ''mailbox:b@x.jp'']"
    by code_simp+
  with i' show ?thesis by (intro exI[of _ ?m] exI[of _ "snd (dispatch_step 20 ?m)"]) (simp add: prod_eq_iff)
qed

end
