(* ===== verification/Netip.thy ===== *)
theory Netip
  imports Prelude "HOL-Library.Word"
begin

text \<open>
  Go's \<^verbatim>\<open>net/netip\<close> as far as the modelled code uses it: an address is 32 bits,
  or 128 bits with a zone (\<open>[]\<close> for none); a prefix is an address with a length.
  \<open>parse_addr\<close> and \<open>parse_prefix\<close> are \<^verbatim>\<open>netip.ParseAddr\<close> and \<^verbatim>\<open>netip.ParsePrefix\<close>
  with their errors as None.
\<close>

unbundle bit_operations_syntax

datatype ip_addr = IPv4 "32 word" | IPv6 "128 word" string

record ip_prefix =
  p_addr :: ip_addr
  p_bits :: nat

definition addr_is4 :: "ip_addr \<Rightarrow> bool" where
  "addr_is4 a = (case a of IPv4 _ \<Rightarrow> True | IPv6 _ _ \<Rightarrow> False)"

definition addr_zone :: "ip_addr \<Rightarrow> string" where
  "addr_zone a = (case a of IPv4 _ \<Rightarrow> [] | IPv6 _ z \<Rightarrow> z)"

definition addr_bit_len :: "ip_addr \<Rightarrow> nat" where
  "addr_bit_len a = (if addr_is4 a then 32 else 128)"

text \<open>\<^verbatim>\<open>::ffff:0:0/96\<close>, and \<^verbatim>\<open>Unmap\<close>, which takes such an address as the IPv4 address in it.\<close>

definition addr_is4in6 :: "ip_addr \<Rightarrow> bool" where
  "addr_is4in6 a = (case a of IPv4 _ \<Rightarrow> False | IPv6 w _ \<Rightarrow> drop_bit 32 w = 65535)"

definition addr_unmap :: "ip_addr \<Rightarrow> ip_addr" where
  "addr_unmap a = (case a of IPv6 w z \<Rightarrow> if addr_is4in6 a then IPv4 (ucast w) else a | IPv4 _ \<Rightarrow> a)"

text \<open>\<^verbatim>\<open>PrefixFrom\<close> (for a length in range) drops the zone.\<close>

definition prefix_from :: "ip_addr \<Rightarrow> nat \<Rightarrow> ip_prefix" where
  "prefix_from a n = \<lparr>p_addr = (case a of IPv4 w \<Rightarrow> IPv4 w | IPv6 w _ \<Rightarrow> IPv6 w []), p_bits = n\<rparr>"

definition prefix_masked :: "ip_prefix \<Rightarrow> ip_prefix" where
  "prefix_masked p =
     p\<lparr>p_addr := (case p_addr p of
         IPv4 w \<Rightarrow> IPv4 (push_bit (32 - p_bits p) (drop_bit (32 - p_bits p) w))
       | IPv6 w z \<Rightarrow> IPv6 (push_bit (128 - p_bits p) (drop_bit (128 - p_bits p) w)) z)\<rparr>"

text \<open>\<^verbatim>\<open>Prefix.Contains\<close>: never across families, never an address with a zone.\<close>

definition prefix_contains :: "ip_prefix \<Rightarrow> ip_addr \<Rightarrow> bool" where
  "prefix_contains p a =
     (case (p_addr p, a) of
        (IPv4 w, IPv4 v) \<Rightarrow> drop_bit (32 - p_bits p) (w XOR v) = 0
      | (IPv6 w _, IPv6 v z) \<Rightarrow> z = [] \<and> drop_bit (128 - p_bits p) (w XOR v) = 0
      | _ \<Rightarrow> False)"

section \<open>Parsing\<close>

text \<open>\<^verbatim>\<open>parseIPv4Fields\<close>: the octet read so far with its number of digits, and the octets before it.\<close>

fun ipv4_fields :: "string \<Rightarrow> nat \<Rightarrow> nat \<Rightarrow> nat list \<Rightarrow> nat list option" where
  "ipv4_fields [] val digits done = (if digits = 0 \<or> length done \<noteq> 3 then None else Some (done @ [val]))"
| "ipv4_fields (c # cs) val digits done =
     (if is_digit_char c then
        (if digits = 1 \<and> val = 0 then None
         else let v = val * 10 + digit_val c in if 255 < v then None else ipv4_fields cs v (digits + 1) done)
      else if c = CHR ''.'' then
        (if digits = 0 \<or> cs = [] \<or> length done = 3 then None else ipv4_fields cs 0 0 (done @ [val]))
      else None)"

definition word_of_bytes :: "nat list \<Rightarrow> 'a::len word" where
  "word_of_bytes bs = foldl (\<lambda>w b. push_bit 8 w OR of_nat b) 0 bs"

definition hex_val :: "char \<Rightarrow> nat option" where
  "hex_val c =
     (let n = of_char c
      in if is_digit_char c then Some (n - 48)
         else if 97 \<le> n \<and> n \<le> 102 then Some (n - 87)
         else if 65 \<le> n \<and> n \<le> 70 then Some (n - 55)
         else None)"

text \<open>The leading hexadecimal digits: their value, their number and the rest.\<close>

fun hex_group :: "string \<Rightarrow> nat \<Rightarrow> nat \<Rightarrow> nat \<times> nat \<times> string" where
  "hex_group [] acc n = (acc, n, [])"
| "hex_group (c # cs) acc n =
     (case hex_val c of None \<Rightarrow> (acc, n, c # cs) | Some d \<Rightarrow> hex_group cs (acc * 16 + d) (n + 1))"

lemma hex_group_shorter: "hex_group s acc n = (v, k, r) \<Longrightarrow> length r + k = length s + n"
  by (induction s acc n rule: hex_group.induct) (auto split: option.splits)

text \<open>
  The loop of \<^verbatim>\<open>parseIPv6\<close>: the bytes so far and the place of the ellipsis among
  them. The result is the bytes, the ellipsis and what is left of the string.
\<close>

function ipv6_loop :: "string \<Rightarrow> nat list \<Rightarrow> nat option \<Rightarrow> (nat list \<times> nat option \<times> string) option" where
  "ipv6_loop s bs ell =
     (if 16 \<le> length bs then Some (bs, ell, s)
      else let (acc, off, r) = hex_group s 0 0
        in if 4 < off \<or> off = 0 then None
           else if r \<noteq> [] \<and> hd r = CHR ''.'' then
             (if ell = None \<and> length bs \<noteq> 12 then None
              else if 16 < length bs + 4 then None
              else case ipv4_fields s 0 0 [] of None \<Rightarrow> None | Some os \<Rightarrow> Some (bs @ os, ell, []))
           else let bs' = bs @ [acc div 256, acc mod 256]
             in if r = [] then Some (bs', ell, [])
                else if hd r \<noteq> CHR '':'' \<or> tl r = [] then None
                else if hd (tl r) = CHR '':'' then
                  (if ell \<noteq> None then None
                   else if tl (tl r) = [] then Some (bs', Some (length bs'), [])
                   else ipv6_loop (tl (tl r)) bs' (Some (length bs')))
                else ipv6_loop (tl r) bs' ell)"
  by pat_completeness auto
termination
  by (relation "measure (\<lambda>(s, bs, ell). 16 - length bs)") auto

declare ipv6_loop.simps [simp del]

definition parse_ipv6 :: "string \<Rightarrow> ip_addr option" where
  "parse_ipv6 text =
     (let (s, zone, bad) = (case cut text ''%'' of
            None \<Rightarrow> (text, [], False) | Some (a, z) \<Rightarrow> (a, z, z = []));
          lead = has_prefix s ''::'';
          s' = (if lead then drop 2 s else s)
      in if bad then None
         else if lead \<and> s' = [] then Some (IPv6 0 zone)
         else case ipv6_loop s' [] (if lead then Some 0 else None) of
             None \<Rightarrow> None
           | Some (bs, ell, rest) \<Rightarrow>
               if rest \<noteq> [] then None
               else if length bs < 16 then
                 (case ell of None \<Rightarrow> None
                  | Some k \<Rightarrow> Some (IPv6 (word_of_bytes (take k bs @ replicate (16 - length bs) 0 @ drop k bs)) zone))
               else if ell \<noteq> None then None
               else Some (IPv6 (word_of_bytes bs) zone))"

definition parse_ipv4 :: "string \<Rightarrow> ip_addr option" where
  "parse_ipv4 s = map_option (\<lambda>os. IPv4 (word_of_bytes os)) (ipv4_fields s 0 0 [])"

definition parse_addr :: "string \<Rightarrow> ip_addr option" where
  "parse_addr s =
     (case List.find (\<lambda>c. c = CHR ''.'' \<or> c = CHR '':'' \<or> c = CHR ''%'') s of
        None \<Rightarrow> None
      | Some c \<Rightarrow> if c = CHR ''.'' then parse_ipv4 s else if c = CHR '':'' then parse_ipv6 s else None)"

text \<open>The last slash of a string.\<close>

definition cut_last :: "char \<Rightarrow> string \<Rightarrow> (string \<times> string) option" where
  "cut_last x s = map_option (\<lambda>(a, b). (rev b, rev a)) (cut (rev s) [x])"

definition parse_prefix :: "string \<Rightarrow> ip_prefix option" where
  "parse_prefix s =
     (case cut_last (CHR ''/'') s of
        None \<Rightarrow> None
      | Some (a, b) \<Rightarrow>
          (case parse_addr a of
             None \<Rightarrow> None
           | Some ip \<Rightarrow>
               if addr_zone ip \<noteq> [] then None
               else if 1 < length b \<and> (hd b = CHR ''0'' \<or> \<not> is_digit_char (hd b)) then None
               else case atoi b of
                   None \<Rightarrow> None
                 | Some n \<Rightarrow> if n < 0 \<or> int (addr_bit_len ip) < n then None else Some (prefix_from ip (nat n))))"

section \<open>Facts\<close>

lemma prefix_masked_bits [simp]: "p_bits (prefix_masked p) = p_bits p"
  by (simp add: prefix_masked_def)

lemma prefix_masked_is4 [simp]: "addr_is4 (p_addr (prefix_masked p)) = addr_is4 (p_addr p)"
  by (simp add: prefix_masked_def addr_is4_def split: ip_addr.splits)

lemma push_drop_idem: "push_bit n (drop_bit n (push_bit n (drop_bit n (w :: 'a::len word)))) = push_bit n (drop_bit n w)"
  by (rule bit_word_eqI) (auto simp: bit_push_bit_iff bit_drop_bit_eq)

lemma prefix_masked_idem: "prefix_masked (prefix_masked p) = prefix_masked p"
  by (cases "p_addr p") (simp_all add: prefix_masked_def push_drop_idem)

lemma drop_push_drop: "drop_bit n (push_bit n (drop_bit n (w :: 'a::len word))) = drop_bit n w"
  by (rule bit_word_eqI) (auto simp: bit_push_bit_iff bit_drop_bit_eq dest: bit_imp_le_length)

lemma prefix_contains_masked: "prefix_contains (prefix_masked p) a = prefix_contains p a"
  by (auto simp: prefix_contains_def prefix_masked_def drop_push_drop split: ip_addr.splits)

text \<open>The addresses a parsed prefix can hold: the length is in range and there is no zone.\<close>

definition prefix_ok :: "ip_prefix \<Rightarrow> bool" where
  "prefix_ok p \<longleftrightarrow> p_bits p \<le> addr_bit_len (p_addr p) \<and> addr_zone (p_addr p) = []"

lemma prefix_from_ok: "n \<le> addr_bit_len a \<Longrightarrow> prefix_ok (prefix_from a n)"
  by (cases a) (simp_all add: prefix_ok_def prefix_from_def addr_bit_len_def addr_is4_def addr_zone_def)

lemma parse_prefix_ok: "parse_prefix s = Some p \<Longrightarrow> prefix_ok p"
  by (auto simp: parse_prefix_def intro!: prefix_from_ok split: option.splits if_splits)

lemma prefix_masked_ok: "prefix_ok p \<Longrightarrow> prefix_ok (prefix_masked p)"
  by (cases "p_addr p") (simp_all add: prefix_ok_def prefix_masked_def addr_bit_len_def addr_is4_def addr_zone_def)

end
