(* ===== verification/Spf.thy ===== *)
theory Spf
  imports Netip
begin

text \<open>
  The evaluation of the SPF record of a monitored domain
  (app/modules/dnscheck/spf.go). The resolvers are the parameter \<open>ask\<close>: what the
  first reachable resolver that answers (\<^verbatim>\<open>firstRecords\<close>) says to the n-th
  question of the evaluation, None when the context has ended before it. Nothing
  is assumed of it, so the theorems hold for every behaviour of the DNS.

  The recursion over include and redirect is bounded by \<^verbatim>\<open>spfMaxDepth\<close> in the code
  itself; \<open>spf_domain\<close> recurses on a counter, and \<open>lookup_spf\<close> starts it high enough
  (\<open>spf_domain_fuel\<close>) that the depth check always comes first.
\<close>

section \<open>State\<close>

datatype dns_answer = AnswerNone | AnswerData | AnswerNX | AnswerNoData | AnswerFail

datatype query_type = TypeA | TypeAAAA | TypeMX | TypeTXT

type_synonym dns = "nat \<Rightarrow> string \<Rightarrow> query_type \<Rightarrow> (string list \<times> dns_answer) option"

text \<open>The limits of a \<^verbatim>\<open>Checker\<close>, and those \<^verbatim>\<open>New\<close> sets.\<close>

record spf_limits =
  spf_max_queries :: nat
  spf_max_void :: nat
  spf_max_mx_targets :: nat
  spf_max_depth :: nat

definition default_spf_limits :: spf_limits where
  "default_spf_limits =
     \<lparr>spf_max_queries = 10, spf_max_void = 2, spf_max_mx_targets = 10, spf_max_depth = 10\<rparr>"

definition spf_min_bits4 :: nat where "spf_min_bits4 = 8"
definition spf_min_bits6 :: nat where "spf_min_bits6 = 16"

record spf_eval =
  sp_terms :: nat
  sp_voids :: nat
  sp_prefixes :: "ip_prefix list"
  sp_seen_prefix :: "ip_prefix \<Rightarrow> bool"
  sp_hosts :: "string list"
  sp_seen_host :: "string \<Rightarrow> bool"
  sp_failed :: bool
  sp_asked :: nat      \<comment> \<open>questions asked so far\<close>

record spf_result =
  sr_prefixes :: "ip_prefix list"
  sr_hosts :: "string list"
  sr_complete :: bool

definition spf_start :: spf_eval where
  "spf_start = \<lparr>sp_terms = 0, sp_voids = 0, sp_prefixes = [], sp_seen_prefix = (\<lambda>_. False), sp_hosts = [],
     sp_seen_host = (\<lambda>_. False), sp_failed = False, sp_asked = 0\<rparr>"

definition spf_fail :: "spf_eval \<Rightarrow> spf_eval" where
  "spf_fail e = e\<lparr>sp_failed := True\<rparr>"

definition count_term :: "spf_limits \<Rightarrow> spf_eval \<Rightarrow> bool \<times> spf_eval" where
  "count_term lim e =
     (let e1 = e\<lparr>sp_terms := sp_terms e + 1\<rparr>
      in if spf_max_queries lim < sp_terms e1 then (False, spf_fail e1) else (True, e1))"

definition spf_void :: "spf_limits \<Rightarrow> spf_eval \<Rightarrow> spf_eval" where
  "spf_void lim e =
     (let e1 = e\<lparr>sp_voids := sp_voids e + 1\<rparr>
      in if spf_max_void lim < sp_voids e1 then spf_fail e1 else e1)"

definition spf_query :: "dns \<Rightarrow> string \<Rightarrow> query_type \<Rightarrow> spf_eval \<Rightarrow> (string list \<times> dns_answer) option \<times> spf_eval" where
  "spf_query ask name t e =
     (if sp_failed e then (None, spf_fail e)
      else case ask (sp_asked e) name t of
          None \<Rightarrow> (None, spf_fail e)
        | Some (values, a) \<Rightarrow>
            (let e1 = e\<lparr>sp_asked := sp_asked e + 1\<rparr>
             in if a = AnswerFail \<or> a = AnswerNone then (None, spf_fail e1) else (Some (values, a), e1)))"

definition min_bits :: "ip_prefix \<Rightarrow> nat" where
  "min_bits p = (if addr_is4 (p_addr p) then spf_min_bits4 else spf_min_bits6)"

definition add_prefix :: "ip_prefix \<Rightarrow> spf_eval \<Rightarrow> spf_eval" where
  "add_prefix p e =
     (if p_bits p < min_bits p then spf_fail e
      else let q = prefix_masked p
        in if sp_seen_prefix e q then e
           else e\<lparr>sp_seen_prefix := (sp_seen_prefix e)(q := True), sp_prefixes := sp_prefixes e @ [q]\<rparr>)"

definition add_host :: "string \<Rightarrow> spf_eval \<Rightarrow> spf_eval" where
  "add_host h e =
     (if sp_seen_host e h then e
      else e\<lparr>sp_seen_host := (sp_seen_host e)(h := True), sp_hosts := sp_hosts e @ [h]\<rparr>)"

definition spf_too_wide :: "ip_prefix list \<Rightarrow> bool" where
  "spf_too_wide ps \<longleftrightarrow> list_ex (\<lambda>p. prefix_ok p \<and> p_bits p < min_bits p) ps"

section \<open>Reading a record\<close>

definition is_spf_text :: "string \<Rightarrow> bool" where
  "is_spf_text txt \<longleftrightarrow> to_lower txt = ''v=spf1'' \<or> has_prefix (to_lower txt) ''v=spf1 ''"

text \<open>The result is the record, whether there is one, and whether it is usable (not several).\<close>

fun pick_spf_loop :: "string list \<Rightarrow> string \<Rightarrow> bool \<Rightarrow> string \<times> bool \<times> bool" where
  "pick_spf_loop [] record found = (record, found, True)"
| "pick_spf_loop (t # ts) record found =
     (if \<not> is_spf_text t then pick_spf_loop ts record found
      else if found then ('''', True, False)
      else pick_spf_loop ts t True)"

definition pick_spf :: "string list \<Rightarrow> string \<times> bool \<times> bool" where
  "pick_spf txts = pick_spf_loop txts '''' False"

definition is_letter_char :: "char \<Rightarrow> bool" where
  "is_letter_char c \<longleftrightarrow> is_lower_char c \<or> is_upper_char c"

definition spf_modifier :: "string \<Rightarrow> (string \<times> string) option" where
  "spf_modifier term =
     (case cut term ''='' of
        None \<Rightarrow> None
      | Some (name, v) \<Rightarrow>
          if name = [] \<or> \<not> is_letter_char (hd name)
             \<or> \<not> list_all (\<lambda>c. is_letter_char c \<or> is_digit_char c \<or> c \<in> {CHR ''-'', CHR ''_'', CHR ''.''}) name
          then None else Some (to_lower name, v))"

definition split_mechanism :: "string \<Rightarrow> string \<times> string" where
  "split_mechanism term =
     (let p = (\<lambda>c. c \<noteq> CHR '':'' \<and> c \<noteq> CHR ''/'') in (to_lower (takeWhile p term), dropWhile p term))"

definition split_qualifier :: "string \<Rightarrow> char \<times> string" where
  "split_qualifier term =
     (if term \<noteq> [] \<and> hd term \<in> {CHR ''+'', CHR ''-'', CHR ''~'', CHR ''?''} then (hd term, tl term)
      else (CHR ''+'', term))"

definition cidr_length :: "nat \<Rightarrow> string \<Rightarrow> nat option" where
  "cidr_length most s =
     (case atoi s of None \<Rightarrow> None
      | Some n \<Rightarrow> if n < 0 \<or> int most < n \<or> itoa n \<noteq> s then None else Some (nat n))"

definition parse_dual_cidr :: "string \<Rightarrow> (nat \<times> nat) option" where
  "parse_dual_cidr s =
     (if s = [] then Some (32, 128)
      else if \<not> has_prefix s ''/'' then None
      else let (v4, v6, dual) =
              (if has_prefix s ''//'' then ([], drop 2 s, True)
               else case cut (drop 1 s) ''//'' of None \<Rightarrow> (drop 1 s, [], False) | Some (a, b) \<Rightarrow> (a, b, True))
        in if \<not> dual \<and> v4 = [] then None
           else case (if v4 = [] then Some 32 else cidr_length 32 v4) of
               None \<Rightarrow> None
             | Some b4 \<Rightarrow>
                 (case (if dual then cidr_length 128 v6 else Some 128) of
                    None \<Rightarrow> None | Some b6 \<Rightarrow> Some (b4, b6)))"

definition spf_label :: "string \<Rightarrow> bool" where
  "spf_label l \<longleftrightarrow> l \<noteq> [] \<and> length l \<le> 63
     \<and> list_all (\<lambda>c. is_lower_char c \<or> is_digit_char c \<or> c = CHR ''-'' \<or> c = CHR ''_'') l"

definition spf_domain_name :: "string \<Rightarrow> string option" where
  "spf_domain_name s =
     (let name = trim_suffix (to_lower (trim_space s)) ''.''; labels = split_char (CHR ''.'') name
      in if name = [] \<or> 253 < length name then None
         else if length labels < 2 then None
         else if \<not> list_all spf_label labels then None
         else if list_all is_digit_char (last labels) then None
         else Some name)"

section \<open>Terms\<close>

definition ip_value :: "string \<Rightarrow> ip_prefix option" where
  "ip_value v =
     (if contains v ''/'' then parse_prefix v else map_option (\<lambda>a. prefix_from a (addr_bit_len a)) (parse_addr v))"

definition ip_term :: "string \<Rightarrow> string \<Rightarrow> spf_eval \<Rightarrow> spf_eval" where
  "ip_term mech rest e =
     (case cut_prefix rest '':'' of
        None \<Rightarrow> spf_fail e
      | Some v \<Rightarrow>
          if v = [] then spf_fail e
          else case ip_value v of
              None \<Rightarrow> spf_fail e
            | Some p \<Rightarrow>
                if addr_zone (p_addr p) \<noteq> [] \<or> addr_is4 (p_addr p) \<noteq> (mech = ''ip4'') then spf_fail e
                else if addr_is4in6 (p_addr p) then
                  (if p_bits p < 96 then e else add_prefix (prefix_from (addr_unmap (p_addr p)) (p_bits p - 96)) e)
                else add_prefix p e)"

text \<open>The addresses of one answer; the result of a type is whether the term is given up.\<close>

fun add_addresses :: "nat \<Rightarrow> nat \<Rightarrow> string list \<Rightarrow> spf_eval \<Rightarrow> spf_eval" where
  "add_addresses b4 b6 [] e = e"
| "add_addresses b4 b6 (v # vs) e =
     (case parse_addr v of
        None \<Rightarrow> add_addresses b4 b6 vs e
      | Some a \<Rightarrow>
          (let a' = addr_unmap a
           in add_addresses b4 b6 vs (add_prefix (prefix_from a' (if addr_is4 a' then b4 else b6)) e)))"

fun host_types :: "dns \<Rightarrow> nat \<Rightarrow> nat \<Rightarrow> string \<Rightarrow> query_type list \<Rightarrow> bool \<Rightarrow> spf_eval \<Rightarrow> bool \<times> bool \<times> spf_eval" where
  "host_types ask b4 b6 h [] found e = (True, found, e)"
| "host_types ask b4 b6 h (t # ts) found e =
     (case spf_query ask h t e of
        (None, e1) \<Rightarrow> (False, found, e1)
      | (Some (values, a), e1) \<Rightarrow>
          if a \<noteq> AnswerData then host_types ask b4 b6 h ts found e1
          else host_types ask b4 b6 h ts True (add_addresses b4 b6 values e1))"

fun host_loop :: "spf_limits \<Rightarrow> dns \<Rightarrow> string \<Rightarrow> nat \<Rightarrow> nat \<Rightarrow> string list \<Rightarrow> spf_eval \<Rightarrow> spf_eval" where
  "host_loop lim ask mech b4 b6 [] e = e"
| "host_loop lim ask mech b4 b6 (h # hs) e =
     (case host_types ask b4 b6 h [TypeA, TypeAAAA] False (add_host h e) of
        (False, _, e1) \<Rightarrow> e1
      | (True, found, e1) \<Rightarrow>
          host_loop lim ask mech b4 b6 hs (if mech = ''a'' \<and> \<not> found then spf_void lim e1 else e1))"

declare host_types.simps [simp del] host_loop.simps [simp del]

text \<open>The target of an a or mx term and its CIDR part; None for a macro, an error for a bad name.\<close>

datatype host_target = TargetMacro | TargetBad | Target string string

definition host_target_of :: "string \<Rightarrow> string \<Rightarrow> host_target" where
  "host_target_of rest current =
     (case cut_prefix rest '':'' of
        None \<Rightarrow> Target current rest
      | Some v \<Rightarrow>
          (let (spec, cidr) = (case cut v ''/'' of None \<Rightarrow> (v, []) | Some (a, b) \<Rightarrow> (a, b))
           in if contains spec ''%'' then TargetMacro
              else case spf_domain_name spec of
                  None \<Rightarrow> TargetBad
                | Some name \<Rightarrow> Target name (if cidr \<noteq> [] \<or> contains v ''/'' then ''/'' @ cidr else [])))"

definition host_term :: "spf_limits \<Rightarrow> dns \<Rightarrow> string \<Rightarrow> string \<Rightarrow> string \<Rightarrow> spf_eval \<Rightarrow> spf_eval" where
  "host_term lim ask mech rest current e =
     (case host_target_of rest current of
        TargetMacro \<Rightarrow> e
      | TargetBad \<Rightarrow> spf_fail e
      | Target target cidr \<Rightarrow>
          (case parse_dual_cidr cidr of
             None \<Rightarrow> spf_fail e
           | Some (b4, b6) \<Rightarrow>
               if mech \<noteq> ''mx'' then host_loop lim ask mech b4 b6 [target] e
               else case spf_query ask target TypeMX e of
                   (None, e1) \<Rightarrow> e1
                 | (Some (values, a), e1) \<Rightarrow>
                     (let hosts = (if a = AnswerData
                                   then filter (\<lambda>v. v \<noteq> ''.'' \<and> v \<noteq> ''(invalid name)'') values else []);
                          e2 = (if a = AnswerData then e1 else spf_void lim e1)
                      in if spf_max_mx_targets lim < length hosts then spf_fail e2
                         else host_loop lim ask mech b4 b6 hosts e2)))"

section \<open>The evaluation of a domain\<close>

text \<open>
  One term of a record (the body of the loop); \<open>follow\<close> evaluates an included domain.
  The result is whether the function returned, the redirect target, whether "all"
  was met, and the state.
\<close>

definition spf_include :: "(string \<Rightarrow> spf_eval \<Rightarrow> spf_eval) \<Rightarrow> string \<Rightarrow> spf_eval \<Rightarrow> bool \<times> spf_eval" where
  "spf_include follow rest e =
     (case cut_prefix rest '':'' of
        None \<Rightarrow> (True, spf_fail e)
      | Some target \<Rightarrow>
          if target = '''' then (True, spf_fail e)
          else if contains target ''%'' then (False, e)
          else case spf_domain_name target of None \<Rightarrow> (True, spf_fail e) | Some name \<Rightarrow> (False, follow name e))"

definition spf_mechanism :: "(string \<Rightarrow> spf_eval \<Rightarrow> spf_eval) \<Rightarrow> spf_limits \<Rightarrow> dns \<Rightarrow> string \<Rightarrow> bool \<Rightarrow> string \<Rightarrow> string
    \<Rightarrow> spf_eval \<Rightarrow> bool \<times> spf_eval" where
  "spf_mechanism follow lim ask cur pass mech rest e =
     (if mech = ''ip4'' \<or> mech = ''ip6'' then (False, if pass then ip_term mech rest e else e)
      else if mech \<in> {''ptr'', ''exists'', ''a'', ''mx'', ''include''} then
        (let (ok, e1) = count_term lim e
         in if \<not> ok then (True, e1)
            else if \<not> pass \<or> mech = ''ptr'' \<or> mech = ''exists'' then (False, e1)
            else if mech = ''include'' then spf_include follow rest e1
            else (False, host_term lim ask mech rest cur e1))
      else (True, spf_fail e))"

definition spf_term :: "(string \<Rightarrow> spf_eval \<Rightarrow> spf_eval) \<Rightarrow> spf_limits \<Rightarrow> dns \<Rightarrow> string \<Rightarrow> string \<Rightarrow> string \<Rightarrow> bool
    \<Rightarrow> spf_eval \<Rightarrow> bool \<times> string \<times> bool \<times> spf_eval" where
  "spf_term follow lim ask cur t redirect all e =
     (case spf_modifier t of
        Some (name, v) \<Rightarrow>
          if name \<noteq> ''redirect'' then (False, redirect, all, e)
          else if redirect \<noteq> '''' \<or> v = '''' then (True, v, all, spf_fail e)
          else (False, v, all, e)
      | None \<Rightarrow>
          (let (qualifier, body) = split_qualifier t; (mech, rest) = split_mechanism body
           in if mech = ''all'' then (False, redirect, True, e)
              else let (stop, e1) = spf_mechanism follow lim ask cur (qualifier = CHR ''+'') mech rest e
                in (stop, redirect, all, e1)))"

fun spf_terms :: "(string \<Rightarrow> spf_eval \<Rightarrow> spf_eval) \<Rightarrow> spf_limits \<Rightarrow> dns \<Rightarrow> string \<Rightarrow> string list \<Rightarrow> string \<Rightarrow> bool
    \<Rightarrow> spf_eval \<Rightarrow> bool \<times> string \<times> bool \<times> spf_eval" where
  "spf_terms follow lim ask cur [] redirect all e = (False, redirect, all, e)"
| "spf_terms follow lim ask cur (t # ts) redirect all e =
     (if sp_failed e then (True, redirect, all, e)
      else let (stop, redirect1, all1, e1) = spf_term follow lim ask cur t redirect all e
        in if stop then (True, redirect1, all1, e1) else spf_terms follow lim ask cur ts redirect1 all1 e1)"

text \<open>The redirect after the loop.\<close>

definition spf_redirect :: "(string \<Rightarrow> spf_eval \<Rightarrow> spf_eval) \<Rightarrow> spf_limits \<Rightarrow> string \<Rightarrow> bool \<Rightarrow> spf_eval \<Rightarrow> spf_eval" where
  "spf_redirect follow lim redirect all e =
     (if redirect = '''' \<or> all \<or> contains redirect ''%'' then e
      else case spf_domain_name redirect of
          None \<Rightarrow> spf_fail e
        | Some target \<Rightarrow> (let (ok, e1) = count_term lim e in if ok then follow target e1 else e1))"

definition spf_record :: "(string \<Rightarrow> spf_eval \<Rightarrow> spf_eval) \<Rightarrow> spf_limits \<Rightarrow> dns \<Rightarrow> string \<Rightarrow> string list \<Rightarrow> spf_eval \<Rightarrow> spf_eval" where
  "spf_record follow lim ask cur txts e =
     (let (record, found, usable) = pick_spf txts
      in if \<not> usable then spf_fail e
         else if \<not> found then e
         else let (stop, redirect, all, e1) = spf_terms follow lim ask cur (tl (str_fields record)) '''' False e
           in if stop then e1 else spf_redirect follow lim redirect all e1)"

fun spf_domain :: "nat \<Rightarrow> spf_limits \<Rightarrow> dns \<Rightarrow> string \<Rightarrow> nat \<Rightarrow> string list \<Rightarrow> spf_eval \<Rightarrow> spf_eval" where
  "spf_domain 0 lim ask cur depth chain e = spf_fail e"
| "spf_domain (Suc n) lim ask cur depth chain e =
     (if sp_failed e then e
      else if spf_max_depth lim < depth then spf_fail e
      else if cur \<in> set chain then e
      else case spf_query ask cur TypeTXT e of
          (None, e1) \<Rightarrow> e1
        | (Some (txts, a), e1) \<Rightarrow>
            if a \<noteq> AnswerData then (if 0 < depth then spf_void lim e1 else e1)
            else spf_record (\<lambda>target. spf_domain n lim ask target (depth + 1) (chain @ [cur])) lim ask cur txts e1)"

definition spf_evaluate :: "spf_limits \<Rightarrow> dns \<Rightarrow> string \<Rightarrow> spf_eval" where
  "spf_evaluate lim ask name = spf_domain (spf_max_depth lim + 2) lim ask name 0 [] spf_start"

text \<open>
  \<^verbatim>\<open>LookupSPF\<close>: \<open>live\<close> says that the verification is on, \<open>ended\<close> that the context has ended
  after the evaluation; the results of the run are remembered in \<open>cache\<close>.
\<close>

definition lookup_spf :: "spf_limits \<Rightarrow> dns \<Rightarrow> bool \<Rightarrow> bool \<Rightarrow> string \<Rightarrow> (string \<rightharpoonup> spf_result)
    \<Rightarrow> spf_result \<times> (string \<rightharpoonup> spf_result)" where
  "lookup_spf lim ask live ended domain cache =
     (let none = \<lparr>sr_prefixes = [], sr_hosts = [], sr_complete = False\<rparr>
      in if \<not> live then (none, cache)
         else case spf_domain_name domain of
             None \<Rightarrow> (none, cache)
           | Some name \<Rightarrow>
               (case cache name of
                  Some res \<Rightarrow> (res, cache)
                | None \<Rightarrow>
                    (let e = spf_evaluate lim ask name;
                         res = \<lparr>sr_prefixes = sp_prefixes e, sr_hosts = sp_hosts e, sr_complete = \<not> sp_failed e\<rparr>
                     in if ended then (res\<lparr>sr_complete := False\<rparr>, cache) else (res, cache(name \<mapsto> res)))))"

end
