(* ===== verification/Spf_Properties.thy ===== *)
theory Spf_Properties
  imports Spf
begin

text \<open>
  What the SPF evaluation guarantees. \<open>recorder\<close> is the contract of the two lists
  that are kept without repeats (prefixes and host names), and \<open>spf_preserved\<close> lifts
  a relation that every primitive step of the evaluation keeps to the whole
  evaluation; both are interpreted on the model.
\<close>

section \<open>Lists without repeats\<close>

locale recorder =
  fixes add :: "'e \<Rightarrow> 's \<Rightarrow> 's"
    and canon :: "'e \<Rightarrow> 'e option"
    and items :: "'s \<Rightarrow> 'e list"
    and seen :: "'s \<Rightarrow> 'e \<Rightarrow> bool"
  assumes items_add: "items (add x s) = (case canon x of None \<Rightarrow> items s
      | Some y \<Rightarrow> if seen s y then items s else items s @ [y])"
    and seen_add: "seen (add x s) z \<longleftrightarrow> seen s z \<or> canon x = Some z"
begin

definition sound :: "'s \<Rightarrow> bool" where
  "sound s \<longleftrightarrow> distinct (items s) \<and> (\<forall>y. seen s y \<longleftrightarrow> y \<in> set (items s))"

lemma sound_add: "sound s \<Longrightarrow> sound (add x s)"
  by (auto simp: sound_def items_add seen_add split: option.splits)

lemma items_add_grow: "\<exists>ys. items (add x s) = items s @ ys"
  by (simp add: items_add split: option.splits)

lemma items_add_set: "sound s \<Longrightarrow> set (items (add x s)) = set (items s) \<union> set_option (canon x)"
  by (auto simp: sound_def items_add split: option.splits)

end

definition canon_prefix :: "ip_prefix \<Rightarrow> ip_prefix option" where
  "canon_prefix p = (if p_bits p < min_bits p then None else Some (prefix_masked p))"

interpretation pr: recorder add_prefix canon_prefix sp_prefixes sp_seen_prefix
  by unfold_locales (auto simp: add_prefix_def canon_prefix_def spf_fail_def Let_def)

interpretation hs: recorder add_host Some sp_hosts sp_seen_host
  by unfold_locales (auto simp: add_host_def)

lemma ip_value_ok: "ip_value v = Some p \<Longrightarrow> prefix_ok p"
  by (auto simp: ip_value_def split: if_splits intro: parse_prefix_ok prefix_from_ok)

lemma unmapped_ok:
  "\<lbrakk> prefix_ok p; addr_is4in6 (p_addr p) \<rbrakk> \<Longrightarrow> prefix_ok (prefix_from (addr_unmap (p_addr p)) (p_bits p - 96))"
  by (intro prefix_from_ok)
    (auto simp: prefix_ok_def addr_bit_len_def addr_unmap_def addr_is4in6_def addr_is4_def split: ip_addr.splits if_splits)

section \<open>From steps to evaluations\<close>

locale spf_preserved =
  fixes R :: "spf_eval \<Rightarrow> spf_eval \<Rightarrow> bool"
    and lim :: spf_limits
  assumes refl: "R e e"
    and trans: "\<lbrakk> R e f; R f g \<rbrakk> \<Longrightarrow> R e g"
    and fail: "R e (spf_fail e)"
    and count: "R e (snd (count_term lim e))"
    and void: "R e (spf_void lim e)"
    and prefix: "prefix_ok p \<Longrightarrow> R e (add_prefix p e)"
    and host: "R e (add_host h e)"
    and ask: "R e (e\<lparr>sp_asked := n\<rparr>)"
begin

lemma query: "spf_query ask name t e = (r, e1) \<Longrightarrow> R e e1"
  using trans[OF ask fail]
  by (auto simp: spf_query_def Let_def intro: fail ask split: if_splits option.splits)

lemma count_cases: "count_term lim e = (ok, e1) \<Longrightarrow> R e e1"
  using count[of e] by simp

lemma addresses:
  assumes "b4 \<le> 32" "b6 \<le> 128"
  shows "R e (add_addresses b4 b6 vs e)"
proof (induction vs arbitrary: e)
  case Nil
  show ?case by (simp add: refl)
next
  case (Cons v vs)
  show ?case
  proof (cases "parse_addr v")
    case None
    with Cons show ?thesis by simp
  next
    case (Some a)
    let ?p = "prefix_from (addr_unmap a) (if addr_is4 (addr_unmap a) then b4 else b6)"
    have "R e (add_prefix ?p e)"
      using assms by (intro prefix prefix_from_ok) (simp add: addr_bit_len_def)
    from trans[OF this Cons.IH] Some show ?thesis by (simp add: Let_def)
  qed
qed

lemma types:
  assumes "b4 \<le> 32" "b6 \<le> 128"
  shows "host_types ask b4 b6 h ts found e = (ok, f, e1) \<Longrightarrow> R e e1"
proof (induction ts arbitrary: found e)
  case Nil
  then show ?case by (simp add: host_types.simps refl)
next
  case (Cons t ts)
  obtain r e2 where q: "spf_query ask h t e = (r, e2)" by fastforce
  note q2 = query[OF q]
  show ?case
  proof (cases r)
    case None
    with Cons.prems q q2 show ?thesis by (simp add: host_types.simps)
  next
    case (Some x)
    obtain vs a where x: "x = (vs, a)" by fastforce
    show ?thesis
    proof (cases "a = AnswerData")
      case True
      with Cons.prems q Some x have "host_types ask b4 b6 h ts True (add_addresses b4 b6 vs e2) = (ok, f, e1)" by (simp add: host_types.simps)
      from Cons.IH[OF this] show ?thesis
        by (rule trans[OF trans[OF q2 addresses[OF assms]]])
    next
      case False
      with Cons.prems q Some x have "host_types ask b4 b6 h ts found e2 = (ok, f, e1)" by (simp add: host_types.simps)
      from Cons.IH[OF this] show ?thesis by (rule trans[OF q2])
    qed
  qed
qed

lemma loop:
  assumes "b4 \<le> 32" "b6 \<le> 128"
  shows "R e (host_loop lim ask mech b4 b6 hs e)"
proof (induction hs arbitrary: e)
  case Nil
  show ?case by (simp add: host_loop.simps refl)
next
  case (Cons h hs)
  obtain ok f e1 where q: "host_types ask b4 b6 h [TypeA, TypeAAAA] False (add_host h e) = (ok, f, e1)"
    by (rule prod_cases3)
  have e1: "R e e1" using trans[OF host types[OF assms q]] .
  let ?e2 = "if mech = ''a'' \<and> \<not> f then spf_void lim e1 else e1"
  have "R e ?e2" using e1 trans[OF e1 void] by simp
  from trans[OF this Cons.IH] e1 show ?case by (simp add: host_loop.simps q split: bool.splits)
qed

lemma cidr_range: "parse_dual_cidr s = Some (b4, b6) \<Longrightarrow> b4 \<le> 32 \<and> b6 \<le> 128"
  by (auto simp: parse_dual_cidr_def cidr_length_def Let_def split: if_splits option.splits prod.splits)

lemma host_term: "R e (host_term lim ask mech rest cur e)"
proof -
  have on_target: "R e (case parse_dual_cidr cidr of
             None \<Rightarrow> spf_fail e
           | Some (b4, b6) \<Rightarrow>
               if mech \<noteq> ''mx'' then host_loop lim ask mech b4 b6 [target] e
               else case spf_query ask target TypeMX e of
                   (None, e1) \<Rightarrow> e1
                 | (Some (values, a), e1) \<Rightarrow>
                     (let hosts = (if a = AnswerData
                                   then filter (\<lambda>v. v \<noteq> ''.'' \<and> v \<noteq> ''(invalid name)'') values else []);
                          e2 = (if a = AnswerData then e1 else spf_void lim e1)
                      in if spf_max_mx_targets lim < length hosts then spf_fail e2
                         else host_loop lim ask mech b4 b6 hosts e2))" for target cidr
  proof (cases "parse_dual_cidr cidr")
    case None
    then show ?thesis by (simp add: fail)
  next
    case (Some b)
    obtain b4 b6 where b: "b = (b4, b6)" by fastforce
    with Some have r: "b4 \<le> 32" "b6 \<le> 128" by (auto dest: cidr_range)
    note l = loop[OF r]
    obtain q e1 where q: "spf_query ask target TypeMX e = (q, e1)" by fastforce
    note e1 = query[OF q]
    show ?thesis
    proof (cases q)
      case None
      with Some b q e1 l show ?thesis by simp
    next
      case (Some x)
      obtain vs a where x: "x = (vs, a)" by fastforce
      let ?e2 = "if a = AnswerData then e1 else spf_void lim e1"
      have "R e ?e2" using e1 trans[OF e1 void] by simp
      from trans[OF this fail] trans[OF this l] \<open>parse_dual_cidr cidr = Some b\<close> Some b q x l show ?thesis
        by (simp add: Let_def)
    qed
  qed
  show ?thesis
    unfolding host_term_def by (cases "host_target_of rest cur") (simp_all only: host_target.case refl fail on_target)
qed

lemma ip_term: "R e (ip_term mech rest e)"
proof (cases "cut_prefix rest '':''")
  case None
  then show ?thesis by (simp add: ip_term_def fail)
next
  case (Some v)
  show ?thesis
  proof (cases "ip_value v")
    case None
    with Some show ?thesis by (simp add: ip_term_def fail)
  next
    case (Some p)
    note ok = ip_value_ok[OF Some]
    have "R e (add_prefix (prefix_from (addr_unmap (p_addr p)) (p_bits p - 96)) e)" if "addr_is4in6 (p_addr p)"
      by (rule prefix[OF unmapped_ok[OF ok that]])
    with prefix[OF ok] Some \<open>cut_prefix rest '':'' = Some v\<close> show ?thesis
      by (simp add: ip_term_def fail refl)
  qed
qed

lemma include_keeps:
  assumes "\<And>n e. R e (follow n e)" "spf_include follow rest e = (stop, e1)"
  shows "R e e1"
  using assms(2) by (auto simp: spf_include_def intro: refl fail assms(1) split: option.splits if_splits)

lemma mechanism:
  assumes "\<And>n e. R e (follow n e)" "spf_mechanism follow lim ask cur pass mech rest e = (stop, e1)"
  shows "R e e1"
proof -
  obtain ok e2 where c: "count_term lim e = (ok, e2)" by fastforce
  note e2 = count_cases[OF c]
  have "R e e1" if "spf_include follow rest e2 = (stop, e1)"
    by (rule trans[OF e2 include_keeps[OF assms(1) that]])
  then show ?thesis
    using assms(2) e2 refl[of e] fail[of e] ip_term[of e mech rest] trans[OF e2 host_term[of e2 ask mech rest cur]]
    by (auto simp: spf_mechanism_def c split: if_splits)
qed

lemma one_term:
  assumes "\<And>n e. R e (follow n e)" "spf_term follow lim ask cur t redirect all e = (stop, r1, a1, e1)"
  shows "R e e1"
  using assms(2) mechanism[OF assms(1)]
  by (fastforce simp: spf_term_def Let_def intro: refl fail split: option.splits prod.splits if_splits)

lemma all_terms:
  assumes "\<And>n e. R e (follow n e)"
  shows "spf_terms follow lim ask cur ts redirect all e = (stop, r1, a1, e1) \<Longrightarrow> R e e1"
proof (induction ts arbitrary: redirect all e)
  case Nil
  then show ?case by (simp add: refl)
next
  case (Cons t ts)
  obtain s2 r2 a2 e2 where t: "spf_term follow lim ask cur t redirect all e = (s2, r2, a2, e2)"
    by (rule prod_cases4)
  note e2 = one_term[OF assms t]
  show ?case
    using Cons.prems Cons.IH[of r2 a2 e2] e2 refl trans[OF e2] by (auto simp: t split: if_splits)
qed

lemma redirect:
  assumes "\<And>n e. R e (follow n e)"
  shows "R e (spf_redirect follow lim r all e)"
  using count_cases trans[OF count_cases assms]
  by (auto simp: spf_redirect_def intro: refl fail split: option.splits prod.splits)

lemma record_keeps:
  assumes "\<And>n e. R e (follow n e)"
  shows "R e (spf_record follow lim ask cur txts e)"
proof -
  obtain rec found usable where p: "pick_spf txts = (rec, found, usable)" by (rule prod_cases3)
  obtain stop r a e1 where t: "spf_terms follow lim ask cur (tl (str_fields rec)) '''' False e = (stop, r, a, e1)"
    by (rule prod_cases4)
  note e1 = all_terms[OF assms t]
  from e1 trans[OF e1 redirect[OF assms]] show ?thesis
    by (simp add: spf_record_def p t fail refl)
qed

theorem domain: "R e (spf_domain n lim ask cur depth chain e)"
proof (induction n arbitrary: cur depth chain e)
  case 0
  show ?case by (simp add: fail)
next
  case (Suc n)
  obtain q e1 where q: "spf_query ask cur TypeTXT e = (q, e1)" by fastforce
  note e1 = query[OF q]
  have rec: "R e1 (spf_record (\<lambda>target. spf_domain n lim ask target (depth + 1) (chain @ [cur])) lim ask cur txts e1)"
    for txts by (rule record_keeps) (rule Suc.IH)
  show ?case
    using e1 trans[OF e1 void] trans[OF e1 rec] by (auto simp: q refl fail split: option.splits)
qed

lemma evaluate: "R spf_start (spf_evaluate lim ask name)"
  unfolding spf_evaluate_def by (rule domain)

end


section \<open>The invariants of an evaluation\<close>

lemmas spf_step_defs = spf_fail_def count_term_def spf_void_def add_prefix_def add_host_def Let_def

text \<open>The lists are without repeats and agree with the maps; every prefix is masked and not too wide.\<close>

definition spf_inv :: "spf_eval \<Rightarrow> bool" where
  "spf_inv e \<longleftrightarrow> pr.sound e \<and> hs.sound e
     \<and> (\<forall>p \<in> set (sp_prefixes e). prefix_ok p \<and> min_bits p \<le> p_bits p \<and> prefix_masked p = p)"

lemma min_bits_masked [simp]: "min_bits (prefix_masked p) = min_bits p"
  by (simp add: min_bits_def)

lemma spf_inv_add_prefix:
  assumes "prefix_ok p" "spf_inv e"
  shows "spf_inv (add_prefix p e)"
proof -
  from assms(2) have "pr.sound e" by (simp add: spf_inv_def)
  from pr.items_add_set[OF this, of p] pr.sound_add[OF this, of p] assms show ?thesis
    by (auto simp: spf_inv_def hs.sound_def canon_prefix_def prefix_masked_idem prefix_masked_ok
        add_prefix_def spf_fail_def Let_def split: if_splits)
qed

lemma spf_inv_frame:
  "\<lbrakk> sp_prefixes f = sp_prefixes e; sp_seen_prefix f = sp_seen_prefix e; sp_hosts f = sp_hosts e;
     sp_seen_host f = sp_seen_host e \<rbrakk> \<Longrightarrow> spf_inv f = spf_inv e"
  by (simp add: spf_inv_def pr.sound_def hs.sound_def)

lemma spf_inv_add_host:
  assumes "spf_inv e"
  shows "spf_inv (add_host h e)"
proof -
  from assms have "hs.sound (add_host h e)" by (simp add: spf_inv_def hs.sound_add)
  with assms show ?thesis by (auto simp: spf_inv_def pr.sound_def add_host_def)
qed

interpretation sinv: spf_preserved "\<lambda>e f. spf_inv e \<longrightarrow> spf_inv f" lim for lim
proof
  show "spf_inv e \<longrightarrow> spf_inv (spf_fail e)" "spf_inv e \<longrightarrow> spf_inv (snd (count_term lim e))"
    "spf_inv e \<longrightarrow> spf_inv (spf_void lim e)" "spf_inv e \<longrightarrow> spf_inv (e\<lparr>sp_asked := n\<rparr>)" for e n
    by (rule impI, erule iffD1[OF spf_inv_frame, rotated -1]; simp add: spf_step_defs)+
  show "spf_inv e \<longrightarrow> spf_inv (add_prefix p e)" if "prefix_ok p" for p e
    using that spf_inv_add_prefix by blast
  show "spf_inv e \<longrightarrow> spf_inv (add_host h e)" for h e
    using spf_inv_add_host by blast
qed blast+

text \<open>Nothing found is lost again, and an incomplete evaluation stays incomplete.\<close>

definition spf_grows :: "spf_eval \<Rightarrow> spf_eval \<Rightarrow> bool" where
  "spf_grows e f \<longleftrightarrow> (\<exists>ps. sp_prefixes f = sp_prefixes e @ ps) \<and> (\<exists>hs. sp_hosts f = sp_hosts e @ hs)
     \<and> (sp_failed e \<longrightarrow> sp_failed f)"

interpretation sgrow: spf_preserved spf_grows lim for lim
proof
  show "\<lbrakk> spf_grows e f; spf_grows f g \<rbrakk> \<Longrightarrow> spf_grows e g" for e f g
    by (fastforce simp: spf_grows_def)
qed (simp_all add: spf_grows_def spf_step_defs)

text \<open>An evaluation that is not incomplete has kept the limits on terms and void lookups.\<close>

definition spf_within :: "spf_limits \<Rightarrow> spf_eval \<Rightarrow> bool" where
  "spf_within lim e \<longleftrightarrow>
     (\<not> sp_failed e \<longrightarrow> sp_terms e \<le> spf_max_queries lim \<and> sp_voids e \<le> spf_max_void lim)"

interpretation slim: spf_preserved "\<lambda>e f. spf_within lim e \<longrightarrow> spf_within lim f" lim for lim
  by unfold_locales (auto simp: spf_within_def spf_step_defs)

lemma spf_start_ok: "spf_inv spf_start" "spf_within lim spf_start"
  by (simp_all add: spf_inv_def spf_within_def spf_start_def pr.sound_def hs.sound_def)

text \<open>An evaluation that is incomplete already asks nothing more.\<close>

lemma spf_domain_failed: "sp_failed e \<Longrightarrow> spf_domain (Suc n) lim ask cur depth chain e = e"
  by simp

section \<open>The number of questions\<close>

text \<open>
  A counted term asks at most \<open>term_cost\<close> questions: the address questions of the
  targets of an mx term and the MX question. \<open>spf_budget k\<close> says that k more questions
  are paid for by the terms counted so far.
\<close>

definition term_cost :: "spf_limits \<Rightarrow> nat" where
  "term_cost lim = 2 * max 1 (spf_max_mx_targets lim) + 1"

definition spf_budget :: "spf_limits \<Rightarrow> nat \<Rightarrow> spf_eval \<Rightarrow> bool" where
  "spf_budget lim k e \<longleftrightarrow>
     sp_asked e + k \<le> 1 + term_cost lim * min (sp_terms e) (spf_max_queries lim)
     \<and> (\<not> sp_failed e \<longrightarrow> sp_terms e \<le> spf_max_queries lim)"

definition same_cost :: "spf_eval \<Rightarrow> spf_eval \<Rightarrow> bool" where
  "same_cost e f \<longleftrightarrow> sp_asked f = sp_asked e \<and> sp_terms f = sp_terms e \<and> (sp_failed e \<longrightarrow> sp_failed f)"

lemma same_cost_budget: "\<lbrakk> same_cost e f; spf_budget lim k e \<rbrakk> \<Longrightarrow> spf_budget lim k f"
  by (auto simp: same_cost_def spf_budget_def)

lemma same_cost_trans: "\<lbrakk> same_cost e f; same_cost f g \<rbrakk> \<Longrightarrow> same_cost e g"
  by (auto simp: same_cost_def)

lemma same_cost_steps:
  "same_cost e e" "same_cost e (spf_fail e)" "same_cost e (spf_void lim e)" "same_cost e (add_prefix p e)"
  "same_cost e (add_host h e)"
  by (auto simp: same_cost_def spf_step_defs)

lemma same_cost_addresses: "same_cost e (add_addresses b4 b6 vs e)"
proof (induction vs arbitrary: e)
  case (Cons v vs)
  show ?case
    by (auto simp: Let_def intro: Cons.IH same_cost_trans[OF same_cost_steps(4) Cons.IH] split: option.splits)
qed (simp add: same_cost_steps)

lemma same_cost_ip_term: "same_cost e (ip_term mech rest e)"
  unfolding ip_term_def by (auto intro: same_cost_steps split: option.splits)

lemma budget_less: "\<lbrakk> spf_budget lim k e; j \<le> k \<rbrakk> \<Longrightarrow> spf_budget lim j e"
  by (auto simp: spf_budget_def)

lemma budget_query: "\<lbrakk> spf_query ask name t e = (r, e1); spf_budget lim (Suc k) e \<rbrakk> \<Longrightarrow> spf_budget lim k e1"
  by (auto simp: spf_query_def spf_fail_def spf_budget_def Let_def split: if_splits option.splits)

lemma budget_types:
  "\<lbrakk> host_types ask b4 b6 h ts found e = (ok, f, e1); spf_budget lim (length ts + k) e \<rbrakk> \<Longrightarrow> spf_budget lim k e1"
proof (induction ts arbitrary: found e)
  case Nil
  then show ?case by (simp add: host_types.simps)
next
  case (Cons t ts)
  obtain r e2 where q: "spf_query ask h t e = (r, e2)" by fastforce
  from Cons.prems(2) have e2: "spf_budget lim (length ts + k) e2" by (auto intro: budget_query[OF q])
  note e3 = same_cost_budget[OF same_cost_addresses e2]
  show ?case
  proof (cases r)
    case None
    with Cons.prems(1) q budget_less[OF e2, of k] show ?thesis by (simp add: host_types.simps)
  next
    case (Some x)
    with Cons.prems(1) q Cons.IH[OF _ e2] Cons.IH[OF _ e3] show ?thesis
      by (auto simp: host_types.simps split: prod.splits if_splits)
  qed
qed

lemma budget_loop: "spf_budget lim (2 * length hs) e \<Longrightarrow> spf_budget lim 0 (host_loop lim ask mech b4 b6 hs e)"
proof (induction hs arbitrary: e)
  case Nil
  then show ?case by (simp add: host_loop.simps)
next
  case (Cons h hs)
  obtain ok f e1 where q: "host_types ask b4 b6 h [TypeA, TypeAAAA] False (add_host h e) = (ok, f, e1)"
    by (rule prod_cases3)
  have "spf_budget lim (length [TypeA, TypeAAAA] + 2 * length hs) (add_host h e)"
    using same_cost_budget[OF same_cost_steps(5) Cons.prems] by simp
  from budget_types[OF q this] have e1: "spf_budget lim (2 * length hs) e1" .
  let ?e2 = "if mech = ''a'' \<and> \<not> f then spf_void lim e1 else e1"
  have "spf_budget lim (2 * length hs) ?e2" using e1 same_cost_budget[OF same_cost_steps(3) e1] by simp
  from Cons.IH[OF this] budget_less[OF e1, of 0] show ?case by (simp add: host_loop.simps q split: bool.splits)
qed

lemma budget_host_term:
  assumes "spf_budget lim (term_cost lim) e"
  shows "spf_budget lim 0 (host_term lim ask mech rest cur e)"
proof -
  have b0: "spf_budget lim 0 e" "spf_budget lim 0 (spf_fail e)"
    using budget_less[OF assms, of 0] same_cost_budget[OF same_cost_steps(2)] by blast+
  have one: "spf_budget lim (2 * length [h]) e" for h :: string
    by (rule budget_less[OF assms]) (simp add: term_cost_def)
  have "spf_budget lim (2 * max 1 (spf_max_mx_targets lim)) e1" if "spf_query ask target TypeMX e = (r, e1)" for target r e1
    by (rule budget_query[OF that]) (use assms in \<open>simp add: term_cost_def\<close>)
  then have mx: "spf_budget lim (2 * spf_max_mx_targets lim) e1"
    if "spf_query ask target TypeMX e = (r, e1)" for target r e1
    using that by (rule_tac budget_less) auto
  have on: "spf_budget lim 0 (case spf_query ask target TypeMX e of
        (None, e1) \<Rightarrow> e1
      | (Some (values, a), e1) \<Rightarrow>
          (let hosts = (if a = AnswerData then filter (\<lambda>v. v \<noteq> ''.'' \<and> v \<noteq> ''(invalid name)'') values else []);
               e2 = (if a = AnswerData then e1 else spf_void lim e1)
           in if spf_max_mx_targets lim < length hosts then spf_fail e2 else host_loop lim ask mech b4 b6 hosts e2))"
    for target b4 b6
  proof -
    obtain r e1 where q: "spf_query ask target TypeMX e = (r, e1)" by fastforce
    show ?thesis
    proof (cases r)
      case None
      with q budget_less[OF mx[OF q], of 0] show ?thesis by simp
    next
      case (Some x)
      obtain vs a where x: "x = (vs, a)" by fastforce
      let ?hs = "if a = AnswerData then filter (\<lambda>v. v \<noteq> ''.'' \<and> v \<noteq> ''(invalid name)'') vs else []"
      let ?e2 = "if a = AnswerData then e1 else spf_void lim e1"
      have e2: "spf_budget lim (2 * spf_max_mx_targets lim) ?e2"
        using mx[OF q] same_cost_budget[OF same_cost_steps(3) mx[OF q]] by simp
      have "spf_budget lim 0 (spf_fail ?e2)"
        by (rule same_cost_budget[OF same_cost_steps(2) budget_less[OF e2]]) simp
      moreover have "spf_budget lim 0 (host_loop lim ask mech b4 b6 ?hs ?e2)"
        if "length ?hs \<le> spf_max_mx_targets lim"
        by (rule budget_loop[OF budget_less[OF e2]]) (use that in simp)
      ultimately show ?thesis using q Some x by (simp add: Let_def not_less)
    qed
  qed
  show ?thesis
    unfolding host_term_def
    using b0 budget_loop[OF one] on by (cases "host_target_of rest cur") (simp_all split: option.splits)
qed


lemma budget_more_terms:
  assumes "spf_budget lim k e" "sp_failed f" "sp_asked f = sp_asked e" "sp_terms f = Suc (sp_terms e)"
  shows "spf_budget lim k f"
proof -
  have "min (sp_terms e) (spf_max_queries lim) \<le> min (Suc (sp_terms e)) (spf_max_queries lim)" by simp
  then have "term_cost lim * min (sp_terms e) (spf_max_queries lim)
      \<le> term_cost lim * min (Suc (sp_terms e)) (spf_max_queries lim)" by (rule mult_le_mono2)
  moreover have "sp_asked e + k \<le> 1 + term_cost lim * min (sp_terms e) (spf_max_queries lim)"
    using assms(1) by (simp add: spf_budget_def)
  ultimately have "sp_asked f + k \<le> 1 + term_cost lim * min (sp_terms f) (spf_max_queries lim)"
    unfolding assms(3,4) by linarith
  with assms(2) show ?thesis by (simp add: spf_budget_def)
qed

lemma budget_count:
  assumes "count_term lim e = (ok, e1)" "spf_budget lim 0 e" "\<not> sp_failed e"
  shows "spf_budget lim (if ok then term_cost lim else 0) e1"
proof (cases "spf_max_queries lim < sp_terms e + 1")
  case True
  with assms have "\<not> ok" "e1 = spf_fail (e\<lparr>sp_terms := sp_terms e + 1\<rparr>)" by (simp_all add: count_term_def Let_def)
  moreover from this have "spf_budget lim 0 e1"
    using budget_more_terms[OF assms(2), of "e\<lparr>sp_terms := sp_terms e + 1, sp_failed := True\<rparr>"] by (simp add: spf_fail_def)
  ultimately show ?thesis by simp
next
  case False
  then have m: "min (sp_terms e + 1) (spf_max_queries lim) = Suc (sp_terms e)"
    "min (sp_terms e) (spf_max_queries lim) = sp_terms e" by simp_all
  from False assms have "ok" "e1 = e\<lparr>sp_terms := sp_terms e + 1\<rparr>" by (simp_all add: count_term_def Let_def)
  with False assms(2) m show ?thesis by (simp add: spf_budget_def)
qed

lemma count_ok_cost: "spf_budget lim (term_cost lim) e \<Longrightarrow> spf_budget lim 1 e"
  by (erule budget_less) (simp add: term_cost_def)

lemma budget_fail: "spf_budget lim k e \<Longrightarrow> spf_budget lim 0 (spf_fail e)"
  by (rule same_cost_budget[OF same_cost_steps(2)]) (rule budget_less, assumption, simp)

definition budget_follow :: "spf_limits \<Rightarrow> (string \<Rightarrow> spf_eval \<Rightarrow> spf_eval) \<Rightarrow> bool" where
  "budget_follow lim follow \<longleftrightarrow> (\<forall>n e. spf_budget lim 1 e \<longrightarrow> spf_budget lim 0 (follow n e))"

lemma budget_include:
  assumes "budget_follow lim follow" "spf_budget lim (term_cost lim) e" "spf_include follow rest e = (stop, e1)"
  shows "spf_budget lim 0 e1"
  using assms(1,3) budget_less[OF assms(2), of 0] budget_fail[OF assms(2)] count_ok_cost[OF assms(2)]
  by (auto simp: spf_include_def budget_follow_def split: option.splits if_splits)

lemma budget_mechanism:
  assumes "budget_follow lim follow" "spf_budget lim 0 e" "\<not> sp_failed e"
    and "spf_mechanism follow lim ask cur pass mech rest e = (stop, e1)"
  shows "spf_budget lim 0 e1"
proof -
  obtain ok e2 where c: "count_term lim e = (ok, e2)" by fastforce
  note e2 = budget_count[OF c assms(2,3)]
  show ?thesis
  proof (cases ok)
    case False
    with e2 assms(2,4) budget_fail[OF assms(2)] same_cost_budget[OF same_cost_ip_term assms(2)] show ?thesis
      by (auto simp: spf_mechanism_def c split: if_splits)
  next
    case True
    with e2 have e2: "spf_budget lim (term_cost lim) e2" by simp
    show ?thesis
      using assms(2,4) True budget_include[OF assms(1) e2] budget_host_term[OF e2, of ask mech rest cur] budget_fail[OF assms(2)]
        budget_less[OF e2, of 0] same_cost_budget[OF same_cost_ip_term assms(2)]
      by (auto simp: spf_mechanism_def c split: if_splits)
  qed
qed

lemma budget_term:
  assumes "budget_follow lim follow" "spf_budget lim 0 e" "\<not> sp_failed e"
    and "spf_term follow lim ask cur t redirect all e = (stop, r1, a1, e1)"
  shows "spf_budget lim 0 e1"
proof -
  obtain q body where sq: "split_qualifier t = (q, body)" by fastforce
  obtain mech rest where sm: "split_mechanism body = (mech, rest)" by fastforce
  obtain st e2 where m: "spf_mechanism follow lim ask cur (q = CHR ''+'') mech rest e = (st, e2)" by fastforce
  note e2 = budget_mechanism[OF assms(1-3) m]
  show ?thesis
    using assms(2,4) e2 budget_fail[OF assms(2)]
    by (auto simp: spf_term_def Let_def sq sm m split: option.splits if_splits)
qed

lemma budget_terms:
  assumes "budget_follow lim follow"
  shows "\<lbrakk> spf_terms follow lim ask cur ts redirect all e = (stop, r1, a1, e1); spf_budget lim 0 e \<rbrakk> \<Longrightarrow> spf_budget lim 0 e1"
proof (induction ts arbitrary: redirect all e)
  case (Cons t ts)
  obtain s2 r2 a2 e2 where t: "spf_term follow lim ask cur t redirect all e = (s2, r2, a2, e2)"
    by (rule prod_cases4)
  show ?case
  proof (cases "sp_failed e")
    case True
    with Cons.prems show ?thesis by simp
  next
    case False
    note e2 = budget_term[OF assms Cons.prems(2) False t]
    from False Cons.prems(1) e2 Cons.IH[OF _ e2] show ?thesis by (auto simp: t split: if_splits)
  qed
qed simp

lemma budget_redirect:
  assumes "budget_follow lim follow" "spf_budget lim 0 e" "\<not> sp_failed e"
  shows "spf_budget lim 0 (spf_redirect follow lim r all e)"
proof -
  obtain ok e2 where c: "count_term lim e = (ok, e2)" by fastforce
  note e2 = budget_count[OF c assms(2,3)]
  have "spf_budget lim 0 (follow n e2)" if ok for n
    using count_ok_cost e2 that assms(1) by (simp add: budget_follow_def)
  with e2 assms(2) budget_fail[OF assms(2)] show ?thesis
    by (auto simp: spf_redirect_def c split: option.splits if_splits)
qed

lemma budget_redirect_failed:
  assumes "\<forall>n e. sp_failed e \<longrightarrow> sp_asked (follow n e) = sp_asked e \<and> sp_terms (follow n e) = sp_terms e \<and> sp_failed (follow n e)"
    and "spf_budget lim 0 e" "sp_failed e"
  shows "spf_budget lim 0 (spf_redirect follow lim r all e)"
proof -
  obtain ok e2 where c: "count_term lim e = (ok, e2)" by fastforce
  then have e2: "sp_failed e2" "sp_asked e2 = sp_asked e" "sp_terms e2 = Suc (sp_terms e)"
    using assms(3) by (auto simp: count_term_def spf_fail_def Let_def split: if_splits)
  note b2 = budget_more_terms[OF assms(2) e2]
  moreover have "spf_budget lim 0 (follow n e2)" for n
    using assms(1) e2(1) b2 by (simp add: spf_budget_def)
  ultimately show ?thesis
    using assms(2) budget_fail[OF assms(2)] by (auto simp: spf_redirect_def c split: option.splits if_splits)
qed

theorem budget_domain: "spf_budget lim 1 e \<Longrightarrow> spf_budget lim 0 (spf_domain n lim ask cur depth chain e)"
proof (induction n arbitrary: cur depth chain e)
  case 0
  then show ?case by (simp add: budget_fail)
next
  case (Suc n)
  let ?follow = "\<lambda>target. spf_domain n lim ask target (depth + 1) (chain @ [cur])"
  have follow: "budget_follow lim ?follow" using Suc.IH by (simp add: budget_follow_def)
  have idle: "\<forall>k f. sp_failed f \<longrightarrow> sp_asked (?follow k f) = sp_asked f \<and> sp_terms (?follow k f) = sp_terms f
      \<and> sp_failed (?follow k f)" by (cases n) (simp_all add: spf_fail_def)
  obtain q e1 where q: "spf_query ask cur TypeTXT e = (q, e1)" by fastforce
  have e1: "spf_budget lim 0 e1" using budget_query[OF q] Suc.prems by simp
  have rec: "spf_budget lim 0 (spf_record ?follow lim ask cur txts e1)" for txts
  proof -
    obtain rec found usable where p: "pick_spf txts = (rec, found, usable)" by (rule prod_cases3)
    obtain stop r a e2 where t: "spf_terms ?follow lim ask cur (tl (str_fields rec)) '''' False e1 = (stop, r, a, e2)"
      by (rule prod_cases4)
    note e2 = budget_terms[OF follow t e1]
    have "spf_budget lim 0 (spf_redirect ?follow lim r a e2)"
      by (cases "sp_failed e2") (rule budget_redirect_failed[OF idle e2] budget_redirect[OF follow e2], assumption)+
    with e1 e2 budget_fail[OF e1] show ?thesis
      unfolding spf_record_def p Let_def split_conv t by simp
  qed
  have "spf_budget lim 0 e" by (rule budget_less[OF Suc.prems]) simp
  with budget_fail[OF this] e1 rec same_cost_budget[OF same_cost_steps(3) e1] show ?case
    by (auto simp: q split: option.splits)
qed

lemma evaluate_asked: "sp_asked (spf_evaluate lim ask name) \<le> 1 + term_cost lim * spf_max_queries lim"
proof -
  have "spf_budget lim 1 spf_start" by (simp add: spf_budget_def spf_start_def)
  from budget_domain[OF this] have "spf_budget lim 0 (spf_evaluate lim ask name)" by (simp only: spf_evaluate_def)
  moreover have "term_cost lim * min k (spf_max_queries lim) \<le> term_cost lim * spf_max_queries lim" for k
    by (rule mult_le_mono2) simp
  ultimately show ?thesis unfolding spf_budget_def by (meson add_left_mono order_trans le_add1)
qed

section \<open>The depth counter\<close>

text \<open>From depth d, \<^verbatim>\<open>spfMaxDepth + 2 - d\<close> levels are enough: the depth check comes first.\<close>

lemma spf_domain_fuel:
  "\<lbrakk> spf_max_depth lim + 2 \<le> n + depth; spf_max_depth lim + 2 \<le> m + depth; depth \<le> spf_max_depth lim + 1 \<rbrakk>
   \<Longrightarrow> spf_domain n lim ask cur depth chain e = spf_domain m lim ask cur depth chain e"
proof (induction n arbitrary: m cur depth chain e)
  case 0
  then show ?case by simp
next
  case (Suc n)
  then obtain k where m: "m = Suc k" by (cases m) auto
  show ?case
  proof (cases "spf_max_depth lim < depth")
    case True
    then show ?thesis by (simp add: m)
  next
    case False
    have "spf_domain n lim ask target (depth + 1) (chain @ [cur]) = spf_domain k lim ask target (depth + 1) (chain @ [cur])" for target
    proof
      fix e
      show "spf_domain n lim ask target (depth + 1) (chain @ [cur]) e = spf_domain k lim ask target (depth + 1) (chain @ [cur]) e"
        using Suc.prems False m by (intro Suc.IH) simp_all
    qed
    then have "(\<lambda>target. spf_domain n lim ask target (depth + 1) (chain @ [cur]))
        = (\<lambda>target. spf_domain k lim ask target (depth + 1) (chain @ [cur]))" by (rule ext)
    then show ?thesis unfolding m spf_domain.simps by (rule arg_cong)
  qed
qed


section \<open>Terms that are not vouched for\<close>

definition passes :: "string \<Rightarrow> bool" where
  "passes t \<longleftrightarrow> spf_modifier t = None \<and> fst (split_qualifier t) = CHR ''+''"

definition same_findings :: "spf_eval \<Rightarrow> spf_eval \<Rightarrow> bool" where
  "same_findings e f \<longleftrightarrow> sp_prefixes f = sp_prefixes e \<and> sp_hosts f = sp_hosts e \<and> sp_asked f = sp_asked e"

lemma not_passing_term:
  assumes "\<not> passes t" "spf_term follow lim ask cur t redirect all e = (stop, r1, a1, e1)"
  shows "same_findings e e1"
proof -
  obtain q body where sq: "split_qualifier t = (q, body)" by fastforce
  obtain mech rest where sm: "split_mechanism body = (mech, rest)" by fastforce
  show ?thesis
  proof (cases "spf_modifier t")
    case (Some x)
    with assms(2) show ?thesis
      by (auto simp: spf_term_def same_findings_def spf_fail_def split: prod.splits if_splits)
  next
    case None
    with assms(1) sq have q: "(q = CHR ''+'') = False" by (simp add: passes_def)
    have m: "same_findings e (snd (spf_mechanism follow lim ask cur False mech rest e))"
      unfolding spf_mechanism_def count_term_def spf_fail_def same_findings_def Let_def by simp
    have "spf_term follow lim ask cur t redirect all e =
        (if mech = ''all'' then (False, redirect, True, e)
         else let (stop, e1) = spf_mechanism follow lim ask cur False mech rest e in (stop, redirect, all, e1))"
      unfolding spf_term_def None sq option.case Let_def split_conv sm q ..
    with assms(2) m show ?thesis
      by (cases "mech = ''all''") (simp_all add: same_findings_def split: prod.splits)
  qed
qed

lemma not_passing_terms:
  "\<lbrakk> spf_terms follow lim ask cur ts redirect all e = (stop, r1, a1, e1); list_all (\<lambda>t. \<not> passes t) ts \<rbrakk>
   \<Longrightarrow> same_findings e e1"
proof (induction ts arbitrary: redirect all e)
  case Nil
  then show ?case by (simp add: same_findings_def)
next
  case (Cons t ts)
  obtain s2 r2 a2 e2 where t: "spf_term follow lim ask cur t redirect all e = (s2, r2, a2, e2)"
    by (rule prod_cases4)
  from Cons.prems(2) have e2: "same_findings e e2" by (auto intro: not_passing_term[OF _ t])
  show ?case
  proof (cases "sp_failed e \<or> s2")
    case True
    with Cons.prems(1) e2 show ?thesis by (auto simp: t same_findings_def split: if_splits)
  next
    case False
    with Cons.prems(1) have "spf_terms follow lim ask cur ts r2 a2 e2 = (stop, r1, a1, e1)" by (simp add: t)
    from Cons.IH[OF this] Cons.prems(2) e2 show ?thesis by (simp add: same_findings_def)
  qed
qed

section \<open>CIDR lengths\<close>

lemma cidr_length_itoa: "n \<le> most \<Longrightarrow> most \<le> 128 \<Longrightarrow> cidr_length most (itoa (int n)) = Some n"
  by (simp add: cidr_length_def atoi_itoa min_int64_def max_int64_def)

lemma slash_not_in_digits: "CHR ''/'' \<notin> set (nat_digits n)"
  using nat_digits_all_digit[of n] by (auto simp: list_all_iff is_digit_char_def)

lemma cut_double_slash: "CHR ''/'' \<notin> set a \<Longrightarrow> cut (a @ ''//'' @ b) ''//'' = Some (a, b)"
  by (induction a) auto

section \<open>The properties\<close>

text \<open>C20: Whatever the DNS answers, what an evaluation collects are distinct host names and distinct
  masked prefixes in range, none wider than /8 (IPv4) or /16 (IPv6), also when it is incomplete.\<close>

theorem spf_findings_ok:
  "distinct (sp_prefixes (spf_evaluate lim ask name)) \<and> distinct (sp_hosts (spf_evaluate lim ask name))
   \<and> list_all (\<lambda>p. prefix_ok p \<and> prefix_masked p = p \<and> min_bits p \<le> p_bits p) (sp_prefixes (spf_evaluate lim ask name))
   \<and> \<not> spf_too_wide (sp_prefixes (spf_evaluate lim ask name))"
proof -
  have "spf_inv (spf_evaluate lim ask name)" using sinv.evaluate spf_start_ok(1) by blast
  then show ?thesis
    by (auto simp: spf_inv_def pr.sound_def hs.sound_def list_all_iff spf_too_wide_def list_ex_iff)
qed

text \<open>C21: The evaluation of one domain asks at most 211 questions, whatever the records say: one TXT
  question of the domain and 21 for each of the ten terms that may cause questions.\<close>

theorem spf_questions_bounded:
  "sp_asked (spf_evaluate default_spf_limits ask name) \<le> 211"
  using evaluate_asked[of default_spf_limits ask name] by (simp add: term_cost_def default_spf_limits_def)


definition demo_dns :: dns where
  "demo_dns n name t =
     (if name = ''x.jp'' \<and> t = TypeTXT then Some ([''v=spf1 ip4:192.0.2.0/24 include:_spf.y.jp ~all''], AnswerData)
      else if name = ''_spf.y.jp'' \<and> t = TypeTXT then Some ([''v=spf1 a:m.y.jp -all''], AnswerData)
      else if name = ''m.y.jp'' \<and> t = TypeA then Some ([''198.51.100.7''], AnswerData)
      else Some ([], AnswerNoData))"

lemma demo_spf:
  "\<not> sp_failed (spf_evaluate default_spf_limits demo_dns ''x.jp'')"
  "sp_prefixes (spf_evaluate default_spf_limits demo_dns ''x.jp'')
     = [\<lparr>p_addr = IPv4 0xC0000200, p_bits = 24\<rparr>, \<lparr>p_addr = IPv4 0xC6336407, p_bits = 32\<rparr>]"
  by code_simp+


text \<open>A term whose qualifier is not "+" contributes nothing: over such terms the evaluation finds no
  prefix and no host name and asks no question.\<close>

theorem spf_only_pass_terms_count:
  assumes "list_all (\<lambda>t. \<not> passes t) ts" "spf_terms follow lim ask cur ts redirect all e = (stop, r1, a1, e1)"
  shows "sp_prefixes e1 = sp_prefixes e \<and> sp_hosts e1 = sp_hosts e \<and> sp_asked e1 = sp_asked e"
  using not_passing_terms[OF assms(2,1)] by (simp add: same_findings_def)

theorem spf_only_pass_terms_count_witness:
  "sp_prefixes (snd (snd (snd (spf_terms (\<lambda>_ e. e) default_spf_limits demo_dns ''x.jp''
     [''-ip4:192.0.2.1'', ''~include:_spf.y.jp'', ''?a'', ''-all''] '''' False spf_start)))) = []"
proof -
  let ?ts = "[''-ip4:192.0.2.1'', ''~include:_spf.y.jp'', ''?a'', ''-all'']"
  have "list_all (\<lambda>t. \<not> passes t) ?ts" by code_simp
  from spf_only_pass_terms_count[OF this, of "\<lambda>_ e. e" default_spf_limits demo_dns "''x.jp''" "''''" False spf_start]
  show ?thesis by (metis prod.collapse spf_eval.select_convs(3) spf_start_def)
qed

text \<open>C23: The nesting guard of the code ends the recursion: the counter of the model never runs out
  before it, so any higher start gives the same evaluation.\<close>

theorem spf_depth_counter_enough:
  assumes "spf_max_depth lim + 2 \<le> n"
  shows "spf_domain n lim ask name 0 [] spf_start = spf_evaluate lim ask name"
  unfolding spf_evaluate_def by (rule spf_domain_fuel) (use assms in simp_all)

theorem spf_depth_counter_enough_witness:
  "spf_domain 50 default_spf_limits demo_dns ''x.jp'' 0 [] spf_start = spf_evaluate default_spf_limits demo_dns ''x.jp''"
  by (rule spf_depth_counter_enough) (simp add: default_spf_limits_def)

text \<open>C24: The dual CIDR length of an a or mx term is read back as written, for every pair of lengths.\<close>

theorem parse_dual_cidr_roundtrip:
  assumes "n \<le> 32" "m \<le> 128"
  shows "parse_dual_cidr (''/'' @ itoa (int n) @ ''//'' @ itoa (int m)) = Some (n, m)"
proof -
  have i: "itoa (int n) = nat_digits n" by (simp add: itoa_def)
  obtain c cs where d: "nat_digits n = c # cs" "c \<noteq> CHR ''/''"
    using slash_not_in_digits[of n] by (cases "nat_digits n") auto
  from cut_double_slash[OF slash_not_in_digits, of n "itoa (int m)"] d
  have "cut (c # cs @ ''//'' @ itoa (int m)) ''//'' = Some (c # cs, itoa (int m))" by simp
  moreover have "cidr_length 32 (c # cs) = Some n" "cidr_length 128 (itoa (int m)) = Some m"
    using cidr_length_itoa[OF assms(1)] cidr_length_itoa[OF assms(2)] i d by simp_all
  ultimately show ?thesis using d by (simp add: parse_dual_cidr_def i)
qed

theorem parse_dual_cidr_roundtrip_witness: "parse_dual_cidr ''/24//64'' = Some (24, 64)"
proof -
  have "itoa (int 24) = ''24''" "itoa (int 64) = ''64''" by code_simp+
  with parse_dual_cidr_roundtrip[of 24 64] show ?thesis by simp
qed

text \<open>A lookup is remembered for the run: after a lookup that ended in time, looking the same domain
  up again gives the same result whatever the DNS answers now.\<close>

theorem lookup_spf_remembered:
  "fst (lookup_spf lim ask2 True ended name (snd (lookup_spf lim ask True False name cache)))
     = fst (lookup_spf lim ask True False name cache)"
  by (auto simp: lookup_spf_def Let_def split: option.splits)

text \<open>The zone check of an ip6 term never fires: \<^verbatim>\<open>PrefixFrom\<close> has already dropped the zone, so an
  address with a zone, which is no valid ip6 term, counts as a sending source.\<close>

theorem ip6_zone_accepted:
  "\<not> sp_failed (ip_term ''ip6'' '':2001:db8::1%eth0'' spf_start)
   \<and> sp_prefixes (ip_term ''ip6'' '':2001:db8::1%eth0'' spf_start) = [\<lparr>p_addr = IPv6 0x20010DB8000000000000000000000001 [], p_bits = 128\<rparr>]"
proof -
  let ?p = "\<lparr>p_addr = IPv6 0x20010DB8000000000000000000000001 [], p_bits = 128\<rparr>"
  have v: "cut_prefix '':2001:db8::1%eth0'' '':'' = Some ''2001:db8::1%eth0''" "ip_value ''2001:db8::1%eth0'' = Some ?p"
    by code_simp+
  have m: "\<not> addr_is4in6 (p_addr ?p)" "prefix_masked ?p = ?p" "min_bits ?p = 16" "addr_zone (p_addr ?p) = []"
    "\<not> addr_is4 (p_addr ?p)"
    by (simp_all add: addr_is4in6_def prefix_masked_def min_bits_def addr_is4_def addr_zone_def spf_min_bits6_def)
  show ?thesis
    unfolding ip_term_def v(1) option.case v(2) using m by (simp add: add_prefix_def spf_start_def Let_def)
qed

end
