(* ===== verification/Dns_Vote.thy ===== *)
theory Dns_Vote
  imports Spf "HOL-Library.Multiset"
begin

text \<open>
  The vote of the DNS verification (app/modules/dnscheck/vote.go): what the answers
  of the resolvers and of the authoritative servers say about a name.
\<close>

datatype dns_outcome = OutcomeNotFound | OutcomeExists | OutcomeBroken

definition count_answers :: "dns_answer \<Rightarrow> dns_answer list \<Rightarrow> nat" where
  "count_answers a xs = length (filter ((=) a) xs)"

definition vote :: "dns_answer list \<Rightarrow> dns_answer list \<Rightarrow> dns_outcome option" where
  "vote resolvers authoritative =
     (if resolvers = [] then None
      else let data = count_answers AnswerData resolvers; nx = count_answers AnswerNX resolvers;
               answering = data + nx + count_answers AnswerNoData resolvers;
               auth_nx = count_answers AnswerNX authoritative;
               auth_exists = count_answers AnswerData authoritative + count_answers AnswerNoData authoritative
        in if answering = 0 \<and> count_answers AnswerFail resolvers = 0 then None
           else if answering = 0 then Some OutcomeBroken
           else if nx = answering \<and> auth_exists = 0 then Some OutcomeNotFound
           else if data = answering \<and> auth_nx = 0 then Some OutcomeExists
           else Some OutcomeBroken)"

definition answered :: "dns_answer \<Rightarrow> bool" where
  "answered a \<longleftrightarrow> a \<in> {AnswerData, AnswerNX, AnswerNoData}"

text \<open>The rules as the comment of the code words them.\<close>

definition vote_spec :: "dns_answer list \<Rightarrow> dns_answer list \<Rightarrow> dns_outcome option" where
  "vote_spec resolvers authoritative =
     (if \<forall>a \<in> set resolvers. a = AnswerNone then None
      else if \<forall>a \<in> set resolvers. \<not> answered a then Some OutcomeBroken
      else if (\<forall>a \<in> set resolvers. answered a \<longrightarrow> a = AnswerNX)
              \<and> (\<forall>a \<in> set authoritative. a \<notin> {AnswerData, AnswerNoData}) then Some OutcomeNotFound
      else if (\<forall>a \<in> set resolvers. answered a \<longrightarrow> a = AnswerData) \<and> AnswerNX \<notin> set authoritative
           then Some OutcomeExists
      else Some OutcomeBroken)"

lemma count_answers_0: "count_answers a xs = 0 \<longleftrightarrow> a \<notin> set xs"
  by (auto simp: count_answers_def filter_empty_conv)

text \<open>The outcome depends only on which answers occur.\<close>

lemma vote_sets:
  "vote rs as =
     (if AnswerData \<notin> set rs \<and> AnswerNX \<notin> set rs \<and> AnswerNoData \<notin> set rs
      then (if AnswerFail \<notin> set rs then None else Some OutcomeBroken)
      else if AnswerData \<notin> set rs \<and> AnswerNoData \<notin> set rs \<and> AnswerData \<notin> set as \<and> AnswerNoData \<notin> set as
        then Some OutcomeNotFound
      else if AnswerNX \<notin> set rs \<and> AnswerNoData \<notin> set rs \<and> AnswerNX \<notin> set as then Some OutcomeExists
      else Some OutcomeBroken)"
  unfolding vote_def Let_def by (cases "rs = []") (simp_all add: count_answers_0[symmetric])

lemma vote_eq_spec: "vote rs as = vote_spec rs as"
proof -
  have none: "(\<forall>a \<in> set rs. a = AnswerNone) \<longleftrightarrow> AnswerData \<notin> set rs \<and> AnswerNX \<notin> set rs \<and> AnswerNoData \<notin> set rs
      \<and> AnswerFail \<notin> set rs"
    by (auto, metis dns_answer.exhaust)
  have un: "(\<forall>a \<in> set rs. \<not> answered a) \<longleftrightarrow> AnswerData \<notin> set rs \<and> AnswerNX \<notin> set rs \<and> AnswerNoData \<notin> set rs"
    by (auto simp: answered_def)
  have nx: "(\<forall>a \<in> set rs. answered a \<longrightarrow> a = AnswerNX) \<longleftrightarrow> AnswerData \<notin> set rs \<and> AnswerNoData \<notin> set rs"
    by (auto simp: answered_def)
  have dat: "(\<forall>a \<in> set rs. answered a \<longrightarrow> a = AnswerData) \<longleftrightarrow> AnswerNX \<notin> set rs \<and> AnswerNoData \<notin> set rs"
    by (auto simp: answered_def)
  have au: "(\<forall>a \<in> set as. a \<notin> {AnswerData, AnswerNoData}) \<longleftrightarrow> AnswerData \<notin> set as \<and> AnswerNoData \<notin> set as"
    by auto
  show ?thesis
    unfolding vote_sets vote_spec_def none un nx dat au by simp
qed

section \<open>The properties\<close>

text \<open>C25: The vote follows the rules of its documentation: undecided when nobody replied; broken when every
  reply is an error; not found when every resolver that answered says NXDOMAIN and no authoritative server
  knows the name; exists when every resolver that answered has an address and no authoritative server says
  NXDOMAIN; broken otherwise.\<close>

theorem vote_follows_rules: "vote resolvers authoritative = vote_spec resolvers authoritative"
  by (rule vote_eq_spec)

text \<open>A failing or silent server does not change the outcome as long as a resolver answered, and the
  order in which the servers are asked does not matter.\<close>

theorem vote_ignores_failures:
  assumes "filter answered rs \<noteq> []" "mset rs' = mset (filter answered rs)" "mset as' = mset (filter answered as)"
  shows "vote rs' as' = vote rs as"
proof -
  note s = mset_eq_setD[OF assms(2)] mset_eq_setD[OF assms(3)]
  have same: "x \<in> set (filter answered xs) \<longleftrightarrow> x \<in> set xs" if "answered x" for x xs using that by simp
  have no: "answered AnswerData" "answered AnswerNX" "answered AnswerNoData" by (simp_all add: answered_def)
  from assms(1) have "AnswerData \<in> set rs \<or> AnswerNX \<in> set rs \<or> AnswerNoData \<in> set rs"
    by (auto simp: filter_empty_conv answered_def)
  then show ?thesis
    unfolding vote_sets s same[OF no(1)] same[OF no(2)] same[OF no(3)] by (elim disjE) simp_all
qed

theorem vote_ignores_failures_witness:
  "vote [AnswerData, AnswerData] [] = vote [AnswerData, AnswerFail, AnswerData] [AnswerNone]"
  by (rule vote_ignores_failures) (simp_all add: answered_def)

end
