(* ===== verification/Check_Times.thy ===== *)
theory Check_Times
  imports Job_Manager
begin

text \<open>
  Times of day in the settings (modules/settings.go): \<open>parse_check_times\<close> reads a
  list of HH:MM times, \<open>format_check_times\<close> writes one, \<open>parse_cleanup_time\<close> reads
  one time, and \<open>next_check_at\<close> computes the next occurrence. The lemmas give the
  shape of what is read, the round trip, and the meaning of the next occurrence
  on a clock with a fixed offset from UTC.
\<close>

section \<open>Reading and writing times\<close>

definition err_time :: "string \<Rightarrow> go_error" where
  "err_time txt = Keyed ''validation.common.timeFormat'' txt"

text \<open>One entry, already trimmed and not empty (the body of the inner loop).\<close>

definition parse_check_time :: "string \<Rightarrow> go_error + string" where
  "parse_check_time s =
     (case cut s '':'' of
        None \<Rightarrow> Inl (err_time (''invalid check time '' @ go_quote s @ '' (use HH:MM)''))
      | Some (hh, mm) \<Rightarrow>
          (let bad = Inl (err_time (''invalid check time '' @ go_quote s @ '' (use HH:MM, 00:00-23:59)''))
           in case (atoi hh, atoi mm) of
                (Some h, Some m) \<Rightarrow>
                  if length mm \<noteq> 2 \<or> length hh = 0 \<or> 2 < length hh \<or> h < 0 \<or> 23 < h \<or> m < 0 \<or> 59 < m then bad
                  else Inr (format_hhmm h m)
              | _ \<Rightarrow> bad))"

fun check_times_loop :: "string list \<Rightarrow> string list \<Rightarrow> go_error + string list" where
  "check_times_loop [] out = Inr out"
| "check_times_loop (raw # raws) out =
     (let s = trim_space raw
      in if s = '''' then check_times_loop raws out
         else case parse_check_time s of
             Inl e \<Rightarrow> Inl e
           | Inr norm \<Rightarrow> check_times_loop raws (if norm \<in> set out then out else out @ [norm]))"

definition parse_check_times :: "string list \<Rightarrow> go_error + string list" where
  "parse_check_times inputs =
     (case check_times_loop (concat (map (split_char (CHR '','')) inputs)) [] of
        Inl e \<Rightarrow> Inl e
      | Inr out \<Rightarrow> Inr (sort out))"

definition format_check_times :: "string list \<Rightarrow> string" where
  "format_check_times ts = join '','' ts"

definition check_times_none :: string where "check_times_none = ''none''"

definition display_check_times :: "string list \<Rightarrow> string" where
  "display_check_times ts = (if ts = [] then check_times_none else format_check_times ts)"

definition default_check_times :: string where "default_check_times = ''06:00,12:00,18:00''"
definition default_cleanup_time :: string where "default_cleanup_time = ''02:00''"

definition default_check_time_list :: "string list" where
  "default_check_time_list = (case parse_check_times [default_check_times] of Inl _ \<Rightarrow> [] | Inr ts \<Rightarrow> ts)"

definition parse_cleanup_time :: "string \<Rightarrow> go_error + string" where
  "parse_cleanup_time s =
     (let bad = Inl (err_time (''invalid cleanup_time '' @ go_quote (trim_space s) @ '' (use one HH:MM time, 00:00-23:59)''))
      in case parse_check_times [s] of
           Inl _ \<Rightarrow> bad
         | Inr ts \<Rightarrow> if length ts \<noteq> 1 then bad else Inr (ts ! 0))"

text \<open>\<^verbatim>\<open>ParseBoolSetting\<close>.\<close>

definition parse_bool_setting :: "string \<Rightarrow> go_error + bool" where
  "parse_bool_setting s =
     (let v = to_lower (trim_space s)
      in if v \<in> {''1'', ''true'', ''yes'', ''on''} then Inr True
         else if v \<in> {''0'', ''false'', ''no'', ''off''} then Inr False
         else Inl (Plain (''invalid boolean '' @ go_quote s @ '' (use 1/0, true/false, yes/no or on/off)'')))"

section \<open>The next check\<close>

text \<open>The hour and minute of a time in the list; None for an entry that is skipped.\<close>

definition clock_of :: "string \<Rightarrow> (int \<times> int) option" where
  "clock_of t =
     (case cut t '':'' of
        None \<Rightarrow> None
      | Some (hh, mm) \<Rightarrow> (case (atoi hh, atoi mm) of (Some h, Some m) \<Rightarrow> Some (h, m) | _ \<Rightarrow> None))"

definition next_candidate :: "zone \<Rightarrow> time \<Rightarrow> int \<Rightarrow> int \<Rightarrow> time" where
  "next_candidate zone now h m =
     (let cand = date_in zone (c_day (civil_of zone now)) h m 0 0
      in if cand \<le> now then add_days zone cand 1 else cand)"

fun next_check_loop :: "zone \<Rightarrow> time \<Rightarrow> string list \<Rightarrow> time option \<Rightarrow> time option" where
  "next_check_loop zone now [] best = best"
| "next_check_loop zone now (t # ts) best =
     next_check_loop zone now ts
       (case clock_of t of
          None \<Rightarrow> best
        | Some (h, m) \<Rightarrow>
            (let cand = next_candidate zone now h m
             in case best of None \<Rightarrow> Some cand | Some b \<Rightarrow> if cand < b then Some cand else best))"

definition next_check_at :: "zone \<Rightarrow> time \<Rightarrow> string list \<Rightarrow> time option" where
  "next_check_at zone now ts = next_check_loop zone now ts None"

section \<open>Text without white space\<close>

text \<open>The printable ASCII characters.\<close>

definition plain_char :: "char \<Rightarrow> bool" where
  "plain_char c \<longleftrightarrow> 33 \<le> (of_char c :: nat) \<and> (of_char c :: nat) \<le> 126"

lemma space_len_plain: "plain_char c \<Longrightarrow> space_len (c # cs) = 0"
  by (auto simp: plain_char_def Let_def)

lemma space_len_end_plain:
  assumes "list_all plain_char s"
  shows "space_len_end s = 0"
proof -
  have "space_len (drop k s) = 0" for k
  proof (cases "drop k s")
    case (Cons c cs)
    then have "c \<in> set s" by (metis in_set_dropD list.set_intros(1))
    with assms have "plain_char c" by (auto simp: list_all_iff)
    then show ?thesis by (simp only: Cons space_len_plain)
  qed simp
  then show ?thesis by (simp add: space_len_end_def)
qed

lemma trim_space_plain: "list_all plain_char s \<Longrightarrow> trim_space s = s"
proof -
  assume p: "list_all plain_char s"
  then have "space_len s = 0"
  proof (cases s)
    case (Cons c cs)
    with p show ?thesis by (simp only: space_len_plain list.pred_inject)
  qed simp
  then show ?thesis unfolding trim_space_def
    by (simp add: trim_left.simps[of s] trim_right.simps[of s] space_len_end_plain[OF p])
qed

lemma digit_plain: "is_digit_char c \<Longrightarrow> plain_char c"
  by (simp add: is_digit_char_def plain_char_def)

section \<open>What is read\<close>

definition clock_ok :: "string \<Rightarrow> bool" where
  "clock_ok s \<longleftrightarrow> (\<exists>h m. 0 \<le> h \<and> h < 24 \<and> 0 \<le> m \<and> m < 60 \<and> s = format_hhmm h m)"

lemma digit_zero: "digit_char 0 = CHR ''0''"
  by code_simp

lemma pad_2:
  assumes "0 \<le> n" "n < 100"
  shows "pad_digits 2 n = [digit_char (nat (n div 10)), digit_char (nat (n mod 10))]"
proof (cases "n < 10")
  case True
  then have "nat n < 10" "n div 10 = 0" "n mod 10 = n" using assms by auto
  then show ?thesis using assms
    by (simp add: pad_digits_def nat_digits.simps[of "nat n"] digit_zero)
next
  case False
  then have "\<not> nat n < 10" "nat n div 10 < 10" using assms by auto
  then show ?thesis using assms
    by (simp add: pad_digits_def nat_digits.simps[of "nat n"] nat_digits.simps[of "nat n div 10"] nat_div_distrib nat_mod_distrib)
qed

lemma pad_2_length: "\<lbrakk> 0 \<le> n; n < 100 \<rbrakk> \<Longrightarrow> length (pad_digits 2 n) = 2 \<and> pad_digits 2 n \<noteq> []"
  by (simp add: pad_2)

lemma atoi_pad_2: "\<lbrakk> 0 \<le> n; n < 100 \<rbrakk> \<Longrightarrow> atoi (pad_digits 2 n) = Some n"
proof -
  assume n: "0 \<le> n" "n < 100"
  then have d: "nat (n div 10) < 10" "nat (n mod 10) < 10" by auto
  have "digit_char (nat (n div 10)) \<noteq> CHR ''-''" "digit_char (nat (n div 10)) \<noteq> CHR ''+''"
    using digit_not_sign[OF is_digit_digit_char[OF d(1)]] by auto
  moreover have "nat (n div 10) * 10 + nat (n mod 10) = nat n"
    using n by (simp add: nat_div_distrib nat_mod_distrib)
  ultimately show ?thesis using n d unfolding pad_2[OF n]
    by (simp add: atoi_def Let_def max_int64_def min_int64_def)
qed

lemma format_hhmm_chars:
  assumes "0 \<le> h" "h < 24" "0 \<le> m" "m < 60"
  shows "cut (format_hhmm h m) '':'' = Some (pad_digits 2 h, pad_digits 2 m)"
    and "list_all plain_char (format_hhmm h m)"
    and "CHR '','' \<notin> set (format_hhmm h m)"
    and "format_hhmm h m \<noteq> []"
proof -
  have d: "nat (h div 10) < 10" "nat (h mod 10) < 10" "nat (m div 10) < 10" "nat (m mod 10) < 10" using assms by auto
  have ph: "pad_digits 2 h = [digit_char (nat (h div 10)), digit_char (nat (h mod 10))]"
    and pm: "pad_digits 2 m = [digit_char (nat (m div 10)), digit_char (nat (m mod 10))]"
    using assms by (simp_all add: pad_2)
  have nd: "\<not> is_digit_char (CHR '':'')" "\<not> is_digit_char (CHR '','')" "plain_char (CHR '':'')" by code_simp+
  have ne: "digit_char k \<noteq> CHR '':'' \<and> digit_char k \<noteq> CHR '',''" if "k < 10" for k
    using is_digit_digit_char[OF that] nd by metis
  have "CHR '':'' \<notin> set (pad_digits 2 h)" using ne[OF d(1)] ne[OF d(2)] unfolding ph by auto
  from cut_char_before[OF this, of "pad_digits 2 m"]
  show "cut (format_hhmm h m) '':'' = Some (pad_digits 2 h, pad_digits 2 m)" by (simp add: format_hhmm_def)
  show "list_all plain_char (format_hhmm h m)"
    using digit_plain[OF is_digit_digit_char] d nd(3) by (simp add: format_hhmm_def ph pm)
  show "CHR '','' \<notin> set (format_hhmm h m)"
    using ne[OF d(1)] ne[OF d(2)] ne[OF d(3)] ne[OF d(4)] by (auto simp: format_hhmm_def ph pm)
  show "format_hhmm h m \<noteq> []" by (simp add: format_hhmm_def)
qed

lemma clock_of_format: "\<lbrakk> 0 \<le> h; h < 24; 0 \<le> m; m < 60 \<rbrakk> \<Longrightarrow> clock_of (format_hhmm h m) = Some (h, m)"
  by (simp add: clock_of_def format_hhmm_chars atoi_pad_2)

lemma parse_check_time_format:
  "\<lbrakk> 0 \<le> h; h < 24; 0 \<le> m; m < 60 \<rbrakk> \<Longrightarrow> parse_check_time (format_hhmm h m) = Inr (format_hhmm h m)"
  by (simp add: parse_check_time_def format_hhmm_chars atoi_pad_2 pad_2_length Let_def)

lemma parse_check_time_ok:
  assumes "parse_check_time s = Inr t"
  shows "clock_ok t"
proof -
  from assms obtain h m where "t = format_hhmm h m" "\<not> h < 0" "\<not> 23 < h" "\<not> m < 0" "\<not> 59 < m"
    by (auto simp: parse_check_time_def Let_def split: option.splits if_splits)
  then show ?thesis unfolding clock_ok_def by (intro exI[of _ h] exI[of _ m]) auto
qed

lemma check_times_loop_ok:
  "\<lbrakk> check_times_loop raws out = Inr r; distinct out; list_all clock_ok out \<rbrakk> \<Longrightarrow> distinct r \<and> list_all clock_ok r"
proof (induction raws out rule: check_times_loop.induct)
  case (2 raw raws out)
  show ?case
  proof (cases "trim_space raw = ''''")
    case True
    with 2 show ?thesis by simp
  next
    case False
    with 2(3) obtain n where n: "parse_check_time (trim_space raw) = Inr n"
      by (auto simp: Let_def split: sum.splits)
    have "check_times_loop raws (if n \<in> set out then out else out @ [n]) = Inr r"
      using 2(3) False n by (simp add: Let_def)
    moreover have "distinct (if n \<in> set out then out else out @ [n])"
      "list_all clock_ok (if n \<in> set out then out else out @ [n])"
      using 2(4,5) parse_check_time_ok[OF n] by auto
    ultimately show ?thesis by (rule 2(2)[OF refl False n])
  qed
qed auto

lemma parse_check_times_ok:
  assumes "parse_check_times inputs = Inr ts"
  shows "sorted ts \<and> distinct ts \<and> list_all clock_ok ts"
proof -
  from assms obtain out where "check_times_loop (concat (map (split_char (CHR '','')) inputs)) [] = Inr out"
    and ts: "ts = sort out" by (auto simp: parse_check_times_def split: sum.splits)
  then have "distinct out \<and> list_all clock_ok out" using check_times_loop_ok by fastforce
  then show ?thesis by (simp add: ts list_all_iff)
qed

lemma check_times_loop_formatted:
  "\<lbrakk> list_all clock_ok ts; distinct (out @ ts) \<rbrakk> \<Longrightarrow> check_times_loop ts out = Inr (out @ ts)"
proof (induction ts arbitrary: out)
  case (Cons t ts)
  from Cons.prems(1) obtain h m where t: "t = format_hhmm h m" "0 \<le> h" "h < 24" "0 \<le> m" "m < 60"
    by (auto simp: clock_ok_def)
  then have "parse_check_time t = Inr t" "trim_space t = t" "t \<noteq> ''''"
    using parse_check_time_format format_hhmm_chars trim_space_plain by auto
  then show ?case using Cons by (simp add: Let_def)
qed simp

lemma clock_ok_no_comma: "clock_ok t \<Longrightarrow> CHR '','' \<notin> set t"
  by (auto simp: clock_ok_def format_hhmm_chars)

text \<open>Times in their stored form are read back as they were.\<close>

lemma parse_check_times_format:
  assumes "sorted ts" "distinct ts" "list_all clock_ok ts"
  shows "parse_check_times [format_check_times ts] = Inr ts"
proof (cases "ts = []")
  case True
  have "trim_space [] = []" by code_simp
  then show ?thesis by (simp add: True parse_check_times_def format_check_times_def)
next
  case False
  have "split_char (CHR '','') (join '','' ts) = ts"
    using assms(3) clock_ok_no_comma by (intro split_char_join[OF False]) (auto simp: list_all_iff)
  moreover have "check_times_loop ts [] = Inr ts"
    using check_times_loop_formatted[OF assms(3), of "[]"] assms(2) by simp
  ultimately show ?thesis using assms(1) by (simp add: parse_check_times_def format_check_times_def sorted_sort_id)
qed

lemma parse_cleanup_time_ok: "parse_cleanup_time s = Inr t \<Longrightarrow> clock_ok t"
  using parse_check_times_ok[of "[s]"]
  by (auto simp: parse_cleanup_time_def Let_def list_all_length split: sum.splits if_splits)

lemma parse_cleanup_time_format: "clock_ok t \<Longrightarrow> parse_cleanup_time t = Inr t"
  using parse_check_times_format[of "[t]"] by (simp add: parse_cleanup_time_def format_check_times_def)

section \<open>Clocks with a fixed offset\<close>

definition fixed_zone :: "int \<Rightarrow> zone" where
  "fixed_zone off = (\<lambda>_. off)"

lemma date_in_fixed: "date_in (fixed_zone off) day h m sec ns
    = (day * 86400 + h * 3600 + m * 60 + sec - off) * nanos_per_second + ns"
  by (simp add: date_in_def fixed_zone_def Let_def)

lemma civil_of_fixed: "civil_of (fixed_zone off) t = civil_of utc (t + off * nanos_per_second)"
  by (simp add: civil_of_def fixed_zone_def utc_def Let_def add.commute)

lemma civil_of_fixed_time:
  assumes "0 \<le> h" "h < 24" "0 \<le> m" "m < 60"
  shows "civil_of (fixed_zone off) (date_in (fixed_zone off) day h m 0 0)
    = \<lparr>c_day = day, c_hour = h, c_minute = m, c_second = 0, c_nano = 0\<rparr>"
proof -
  have "date_in (fixed_zone off) day h m 0 0 + off * nanos_per_second = date_in utc day h m 0 0"
    by (simp add: date_in_def fixed_zone_def utc_def Let_def algebra_simps)
  then show ?thesis using date_in_utc[of h m 0 0 day] assms by (simp add: civil_of_fixed)
qed

lemma add_days_fixed:
  assumes "0 \<le> h" "h < 24" "0 \<le> m" "m < 60"
  shows "add_days (fixed_zone off) (date_in (fixed_zone off) day h m 0 0) n
    = date_in (fixed_zone off) (day + n) h m 0 0"
  unfolding add_days_def civil_of_fixed_time[OF assms] by (simp add: Let_def)

lemma fixed_day_bounds:
  shows "date_in (fixed_zone off) (c_day (civil_of (fixed_zone off) t)) 0 0 0 0 \<le> t"
    and "t < date_in (fixed_zone off) (c_day (civil_of (fixed_zone off) t) + 1) 0 0 0 0"
proof -
  define u where "u = t div nanos_per_second"
  have t: "u * nanos_per_second \<le> t" "t < (u + 1) * nanos_per_second"
    unfolding u_def using div_mult_mod_eq[of t nanos_per_second] pos_mod_sign[of nanos_per_second t]
      pos_mod_bound[of nanos_per_second t] by (simp_all add: algebra_simps)
  define d where "d = (u + off) div 86400"
  have d: "d * 86400 \<le> u + off" "u + off < (d + 1) * 86400"
    unfolding d_def using div_mult_mod_eq[of "u + off" 86400] pos_mod_sign[of 86400 "u + off"]
      pos_mod_bound[of 86400 "u + off"] by simp_all
  have c: "c_day (civil_of (fixed_zone off) t) = d"
    by (simp add: civil_of_def fixed_zone_def d_def u_def Let_def)
  have "(d * 86400 - off) * nanos_per_second \<le> u * nanos_per_second" using d(1) by simp
  then show "date_in (fixed_zone off) (c_day (civil_of (fixed_zone off) t)) 0 0 0 0 \<le> t"
    using t(1) unfolding c date_in_fixed by simp
  have "(u + 1) * nanos_per_second \<le> ((d + 1) * 86400 - off) * nanos_per_second" using d(2) by simp
  then show "t < date_in (fixed_zone off) (c_day (civil_of (fixed_zone off) t) + 1) 0 0 0 0"
    using t(2) unfolding c date_in_fixed by simp
qed

text \<open>The instants at which a clock shows a time of day, to the second.\<close>

definition shows_clock :: "zone \<Rightarrow> time \<Rightarrow> int \<Rightarrow> int \<Rightarrow> bool" where
  "shows_clock zone t h m \<longleftrightarrow>
     (let c = civil_of zone t in c_hour c = h \<and> c_minute c = m \<and> c_second c = 0 \<and> c_nano c = 0)"

lemma shows_clock_fixed:
  assumes "0 \<le> h" "h < 24" "0 \<le> m" "m < 60"
  shows "shows_clock (fixed_zone off) t h m
    \<longleftrightarrow> t = date_in (fixed_zone off) (c_day (civil_of (fixed_zone off) t)) h m 0 0"
proof
  assume "t = date_in (fixed_zone off) (c_day (civil_of (fixed_zone off) t)) h m 0 0"
  then show "shows_clock (fixed_zone off) t h m"
    by (metis (no_types, lifting) civil.select_convs(2-5) civil_of_fixed_time[OF assms] shows_clock_def)
next
  assume s: "shows_clock (fixed_zone off) t h m"
  define u where "u = t div nanos_per_second"
  define w where "w = u + off"
  from s have c: "w mod 86400 div 3600 = h" "w mod 86400 mod 3600 div 60 = m" "w mod 86400 mod 60 = 0"
    "t mod nanos_per_second = 0"
    by (simp_all add: shows_clock_def civil_of_def fixed_zone_def w_def u_def Let_def)
  have "w mod 86400 = h * 3600 + m * 60"
  proof -
    define r where "r = w mod 86400"
    have "r mod 3600 mod 60 = r mod 60" by (simp add: mod_mod_cancel)
    then have "r mod 3600 = m * 60" using c(2,3) div_mult_mod_eq[of "r mod 3600" 60] unfolding r_def by simp
    then show ?thesis using c(1) div_mult_mod_eq[of r 3600] unfolding r_def by simp
  qed
  then have "w = w div 86400 * 86400 + h * 3600 + m * 60" using div_mult_mod_eq[of w 86400] by simp
  moreover have "t = u * nanos_per_second" using c(4) div_mult_mod_eq[of t nanos_per_second] unfolding u_def by simp
  moreover have "c_day (civil_of (fixed_zone off) t) = w div 86400"
    by (simp add: civil_of_def fixed_zone_def w_def u_def Let_def)
  ultimately show "t = date_in (fixed_zone off) (c_day (civil_of (fixed_zone off) t)) h m 0 0"
    unfolding date_in_fixed w_def by simp
qed

text \<open>The candidate of one time is the next instant after \<open>now\<close> that shows it.\<close>

lemma next_candidate_first:
  fixes off :: int and now :: time
  assumes "0 \<le> h" "h < 24" "0 \<le> m" "m < 60"
  defines "c \<equiv> next_candidate (fixed_zone off) now h m"
  shows "now < c" "shows_clock (fixed_zone off) c h m"
    and "\<And>t. \<lbrakk> now < t; t < c \<rbrakk> \<Longrightarrow> \<not> shows_clock (fixed_zone off) t h m"
proof -
  let ?z = "fixed_zone off"
  define d where "d = c_day (civil_of ?z now)"
  define at where "at = (\<lambda>day. date_in ?z day h m 0 0)"
  have mono: "a < b \<Longrightarrow> date_in ?z a 0 0 0 0 < date_in ?z b 0 0 0 0" for a b by (simp add: date_in_fixed)
  have within: "date_in ?z a 0 0 0 0 \<le> at a" "at a < date_in ?z (a + 1) 0 0 0 0" for a
    using assms by (auto simp: at_def date_in_fixed)
  have c: "c = (if at d \<le> now then at (d + 1) else at d)"
    unfolding c_def next_candidate_def Let_def at_def d_def by (simp add: add_days_fixed[OF assms(1-4)])
  have b: "date_in ?z d 0 0 0 0 \<le> now" "now < date_in ?z (d + 1) 0 0 0 0"
    unfolding d_def by (rule fixed_day_bounds)+
  show "now < c" using b(2) within(1)[of "d + 1"] by (auto simp: c)
  have sh: "shows_clock ?z (at a) h m" for a
    unfolding at_def by (simp add: shows_clock_def Let_def civil_of_fixed_time[OF assms(1-4)])
  then show "shows_clock ?z c h m" by (simp add: c)
  fix t assume t: "now < t" "t < c"
  show "\<not> shows_clock ?z t h m"
  proof
    assume "shows_clock ?z t h m"
    then obtain e where e: "t = at e" using shows_clock_fixed[OF assms(1-4)] unfolding at_def by blast
    have lt: "at a < at b \<longleftrightarrow> a < b" for a b by (simp add: at_def date_in_fixed)
    have "at e < date_in ?z d 0 0 0 0" if "e < d"
      using within(2)[of e] mono[of "e + 1" d] that by (cases "e + 1 = d") auto
    then have "\<not> e < d" using t(1) b(1) e by auto
    moreover have "e < d + 1" using t(2) e lt[of e "d + 1"] lt[of e d] by (auto simp: c split: if_splits)
    ultimately have "e = d" by simp
    then show False using t e by (auto simp: c split: if_splits)
  qed
qed

text \<open>The instants at which one of the times of a list comes.\<close>

definition check_instant :: "zone \<Rightarrow> string list \<Rightarrow> time \<Rightarrow> bool" where
  "check_instant zone ts t \<longleftrightarrow> list_ex (\<lambda>s. case clock_of s of None \<Rightarrow> False | Some (h, m) \<Rightarrow> shows_clock zone t h m) ts"

lemma clock_of_ok: "clock_ok s \<Longrightarrow> \<exists>h m. clock_of s = Some (h, m) \<and> 0 \<le> h \<and> h < 24 \<and> 0 \<le> m \<and> m < 60"
  by (auto simp: clock_ok_def clock_of_format)

lemma next_check_loop_first:
  assumes "list_all clock_ok ts"
    and "\<And>b. best = Some b \<Longrightarrow> now < b"
  shows "case next_check_loop (fixed_zone off) now ts best of
      None \<Rightarrow> best = None \<and> ts = []
    | Some n \<Rightarrow> now < n \<and> (best = Some n \<or> check_instant (fixed_zone off) ts n)
        \<and> (\<forall>b. best = Some b \<longrightarrow> n \<le> b) \<and> (\<forall>t. now < t \<and> t < n \<longrightarrow> \<not> check_instant (fixed_zone off) ts t)"
  using assms
proof (induction ts arbitrary: best)
  case Nil
  then show ?case by (cases best) (auto simp: check_instant_def)
next
  case (Cons s ts)
  from Cons.prems(1) obtain h m where s: "clock_of s = Some (h, m)" and hm: "0 \<le> h" "h < 24" "0 \<le> m" "m < 60"
    using clock_of_ok[of s] by auto
  let ?c = "next_candidate (fixed_zone off) now h m"
  let ?best = "case best of None \<Rightarrow> Some ?c | Some b \<Rightarrow> if ?c < b then Some ?c else best"
  note c = next_candidate_first[OF hm, where now = now and off = off]
  have step: "next_check_loop (fixed_zone off) now (s # ts) best = next_check_loop (fixed_zone off) now ts ?best"
    by (simp add: s Let_def split: option.splits)
  have ins: "check_instant (fixed_zone off) (s # ts) t \<longleftrightarrow>
      shows_clock (fixed_zone off) t h m \<or> check_instant (fixed_zone off) ts t" for t
    by (simp add: check_instant_def s)
  have "\<And>b. ?best = Some b \<Longrightarrow> now < b" using c(1) Cons.prems(2) by (auto split: option.splits if_splits)
  from Cons.IH[OF _ this] Cons.prems(1) have ih: "case next_check_loop (fixed_zone off) now ts ?best of
      None \<Rightarrow> ?best = None \<and> ts = []
    | Some n \<Rightarrow> now < n \<and> (?best = Some n \<or> check_instant (fixed_zone off) ts n)
        \<and> (\<forall>b. ?best = Some b \<longrightarrow> n \<le> b) \<and> (\<forall>t. now < t \<and> t < n \<longrightarrow> \<not> check_instant (fixed_zone off) ts t)" by simp
  have "?best \<noteq> None" by (auto split: option.splits)
  then obtain n where n: "next_check_loop (fixed_zone off) now ts ?best = Some n"
    using ih by (cases "next_check_loop (fixed_zone off) now ts ?best") auto
  have best: "?best = Some ?c \<or> (?best = best \<and> (\<exists>b. best = Some b \<and> b \<le> ?c))"
    by (auto split: option.splits if_splits)
  have le: "n \<le> ?c" "\<forall>b. best = Some b \<longrightarrow> n \<le> b"
    using ih best unfolding n by (auto split: option.splits if_splits)
  have fresh: "\<not> shows_clock (fixed_zone off) t h m" if "now < t" "t < n" for t
    using c(3)[of t] le(1) that by simp
  show ?case
    unfolding step n using ih[unfolded n] best le fresh c(2) by (auto simp: ins split: if_splits)
qed

end
