(* ===== verification/Netip_Text.thy ===== *)
theory Netip_Text
  imports Netip
begin

text \<open>
  The canonical text of \<^verbatim>\<open>net/netip\<close> (\<^verbatim>\<open>Addr.String\<close>, \<^verbatim>\<open>Prefix.String\<close>) and the
  predicates of addresses the code asks for, with the round trip of an IPv4
  address and prefix through its text.
\<close>

unbundle bit_operations_syntax

definition ipv4_octets :: "32 word \<Rightarrow> nat list" where
  "ipv4_octets w = map (\<lambda>k. unat (take_bit 8 (drop_bit k w))) [24, 16, 8, 0]"

definition ipv4_text :: "32 word \<Rightarrow> string" where
  "ipv4_text w = join ''.'' (map nat_digits (ipv4_octets w))"

definition ipv6_groups :: "128 word \<Rightarrow> nat list" where
  "ipv6_groups w = map (\<lambda>k. unat (take_bit 16 (drop_bit k w))) [112, 96, 80, 64, 48, 32, 16, 0]"

definition hex_digit_char :: "nat \<Rightarrow> char" where
  "hex_digit_char d = (if d < 10 then digit_char d else char_of (87 + d))"

fun hex_digits :: "nat \<Rightarrow> string" where
  "hex_digits n = (if n < 16 then [hex_digit_char n] else hex_digits (n div 16) @ [hex_digit_char (n mod 16)])"

declare hex_digits.simps [simp del]

text \<open>The longest run of zero groups, the first of several: its start and end; none shorter than two.\<close>

definition zero_run :: "nat list \<Rightarrow> nat \<Rightarrow> nat" where
  "zero_run gs i = length (takeWhile (\<lambda>g. g = 0) (drop i gs))"

fun longest_zeros :: "nat list \<Rightarrow> nat list \<Rightarrow> (nat \<times> nat) option \<Rightarrow> (nat \<times> nat) option" where
  "longest_zeros gs [] best = best"
| "longest_zeros gs (i # is) best =
     (let l = zero_run gs i
      in longest_zeros gs is
           (if 2 \<le> l \<and> (case best of None \<Rightarrow> 0 | Some (a, b) \<Rightarrow> b - a) < l then Some (i, i + l) else best))"

definition ipv6_text :: "128 word \<Rightarrow> string" where
  "ipv6_text w =
     (let gs = ipv6_groups w
      in case longest_zeros gs [0..<8] None of
           None \<Rightarrow> join '':'' (map hex_digits gs)
         | Some (a, b) \<Rightarrow> join '':'' (map hex_digits (take a gs)) @ ''::'' @ join '':'' (map hex_digits (drop b gs)))"

definition addr_text :: "ip_addr \<Rightarrow> string" where
  "addr_text a =
     (case a of
        IPv4 w \<Rightarrow> ipv4_text w
      | IPv6 w z \<Rightarrow> (if addr_is4in6 a then ''::ffff:'' @ ipv4_text (ucast w) else ipv6_text w)
                    @ (if z = [] then [] else CHR ''%'' # z))"

definition prefix_text :: "ip_prefix \<Rightarrow> string" where
  "prefix_text p = addr_text (p_addr p) @ ''/'' @ nat_digits (p_bits p)"

text \<open>\<^verbatim>\<open>IsLoopback\<close>, \<^verbatim>\<open>IsUnspecified\<close>, \<^verbatim>\<open>IsSingleIP\<close>.\<close>

definition addr_is_loopback :: "ip_addr \<Rightarrow> bool" where
  "addr_is_loopback a =
     (case addr_unmap a of IPv4 w \<Rightarrow> drop_bit 24 w = 127 | IPv6 w z \<Rightarrow> w = 1)"

definition addr_is_unspecified :: "ip_addr \<Rightarrow> bool" where
  "addr_is_unspecified a = (case a of IPv4 w \<Rightarrow> w = 0 | IPv6 w z \<Rightarrow> w = 0 \<and> z = [])"

definition prefix_is_single :: "ip_prefix \<Rightarrow> bool" where
  "prefix_is_single p \<longleftrightarrow> p_bits p = addr_bit_len (p_addr p)"

section \<open>IPv4\<close>

lemma octets_word: "word_of_bytes (ipv4_octets w) = w"
proof (rule bit_word_eqI)
  fix n assume n: "n < LENGTH(32)"
  have o: "of_nat (unat (take_bit 8 (drop_bit k w))) = take_bit 8 (drop_bit k w)" for k
    by simp
  consider "n < 8" | m where "n = 8 + m" "m < 8" | m where "n = 16 + m" "m < 8" | m where "n = 24 + m" "m < 8"
  proof -
    have "n < 8 \<or> (\<exists>m. n = 8 + m \<and> m < 8) \<or> (\<exists>m. n = 16 + m \<and> m < 8) \<or> (\<exists>m. n = 24 + m \<and> m < 8)"
      using n by simp presburger
    then show thesis using that by blast
  qed
  then show "bit (word_of_bytes (ipv4_octets w) :: 32 word) n = bit w n"
    using n unfolding word_of_bytes_def ipv4_octets_def
    by cases (auto simp: o bit_or_iff bit_push_bit_iff bit_take_bit_iff bit_drop_bit_eq)
qed

lemma octets_small: "o' \<in> set (ipv4_octets w) \<Longrightarrow> o' < 256"
  using unsigned_less
  by (auto simp: ipv4_octets_def unsigned_take_bit_eq take_bit_nat_less_exp[of 8, simplified])

lemma nat_digits_1: "n < 10 \<Longrightarrow> nat_digits n = [digit_char n]"
  by (simp add: nat_digits.simps)

lemma nat_digits_2: "\<lbrakk> 10 \<le> n; n < 100 \<rbrakk> \<Longrightarrow> nat_digits n = [digit_char (n div 10), digit_char (n mod 10)]"
  by (subst nat_digits.simps) (simp add: nat_digits_1)

lemma nat_digits_3: "\<lbrakk> 100 \<le> n; n < 1000 \<rbrakk> \<Longrightarrow>
    nat_digits n = [digit_char (n div 100), digit_char (n div 10 mod 10), digit_char (n mod 10)]"
proof -
  assume "100 \<le> n" "n < 1000"
  moreover have "n div 10 div 10 = n div 100" by (simp add: div_mult2_eq[symmetric])
  ultimately show ?thesis by (subst nat_digits.simps) (simp add: nat_digits_2)
qed

lemma digit_0: "digit_char 0 = CHR ''0''"
  by code_simp

text \<open>Reading one octet back.\<close>

lemma ipv4_fields_octet:
  assumes "n < 256"
  shows "ipv4_fields (nat_digits n @ t) 0 0 done
    = ipv4_fields t n (length (nat_digits n)) done"
proof -
  consider "n < 10" | "10 \<le> n" "n < 100" | "100 \<le> n" "n < 256" using assms by linarith
  then show ?thesis
  proof cases
    case 1
    then show ?thesis by (simp add: nat_digits_1)
  next
    case 2
    have "n div 10 < 10" "0 < n div 10" using 2 by auto
    then show ?thesis using 2 by (simp add: nat_digits_2)
  next
    case 3
    have "n div 100 < 10" "0 < n div 100" "n div 100 * 10 + n div 10 mod 10 = n div 10"
      "n div 10 * 10 + n mod 10 = n" "n div 10 < 256" using 3 div_mult2_eq[of n 10 10] by auto
    then show ?thesis using 3 by (simp add: nat_digits_3 Let_def)
  qed
qed

lemma dot_not_digit: "\<not> is_digit_char (CHR ''.'')"
  by (simp add: is_digit_char_def)

lemma nat_digits_len: "length (nat_digits n) \<noteq> 0"
  by simp

lemma parse_ipv4_text: "parse_ipv4 (ipv4_text w) = Some (IPv4 w)"
proof -
  obtain a b c d where o: "ipv4_octets w = [a, b, c, d]" by (simp add: ipv4_octets_def)
  then have s: "a < 256" "b < 256" "c < 256" "d < 256" using octets_small[of _ w] by auto
  have "ipv4_fields (ipv4_text w) 0 0 [] = Some [a, b, c, d]"
    using ipv4_fields_octet[OF s(4), of "[]" "[a, b, c]"]
    by (simp add: ipv4_text_def o s ipv4_fields_octet dot_not_digit del: length_0_conv)
  then show ?thesis unfolding parse_ipv4_def using octets_word[of w] by (simp add: o)
qed


section \<open>IPv6\<close>

definition group_bytes :: "nat list \<Rightarrow> nat list" where
  "group_bytes gs = concat (map (\<lambda>g. [g div 256, g mod 256]) gs)"

lemma length_group_bytes [simp]: "length (group_bytes gs) = 2 * length gs"
  by (induction gs) (auto simp: group_bytes_def)

lemma group_bytes_append: "group_bytes (xs @ ys) = group_bytes xs @ group_bytes ys"
  by (simp add: group_bytes_def)

lemma group_bytes_Cons [simp]: "group_bytes (g # gs) = [g div 256, g mod 256] @ group_bytes gs"
  by (simp add: group_bytes_def)

lemma group_bytes_Nil [simp]: "group_bytes [] = []"
  by (simp add: group_bytes_def)

lemma group_bytes_zeros: "group_bytes (replicate n 0) = replicate (2 * n) 0"
  by (induction n) auto

lemma two_bytes_word:
  fixes w :: "128 word"
  shows "push_bit 8 (push_bit 8 w OR of_nat (g div 256)) OR of_nat (g mod 256) = push_bit 16 w OR of_nat g"
proof -
  have g: "g = push_bit 8 (g div 256) OR (g mod 256)"
    by (rule bit_eqI) (auto simp: bit_or_iff bit_push_bit_iff bit_take_bit_iff bit_drop_bit_eq
        simp flip: drop_bit_eq_div[of 8, simplified] take_bit_eq_mod[of 8, simplified])
  have "of_nat g = (push_bit 8 (of_nat (g div 256)) OR of_nat (g mod 256) :: 128 word)"
    by (subst g) (simp only: of_nat_or_eq of_nat_push_bit)
  then show ?thesis by (simp add: push_bit_or or.assoc)
qed

lemma word_of_group_bytes:
  "foldl (\<lambda>w b. push_bit 8 w OR of_nat b) (v :: 128 word) (group_bytes gs) = foldl (\<lambda>w g. push_bit 16 w OR of_nat g) v gs"
proof (induction gs arbitrary: v)
  case (Cons g gs)
  then show ?case by (simp only: group_bytes_Cons foldl_append foldl.simps two_bytes_word)
qed simp

lemma groups_small: "list_all (\<lambda>g. g < 65536) (ipv6_groups w)"
  by (auto simp: ipv6_groups_def unsigned_take_bit_eq take_bit_nat_less_exp[of 16, simplified])

lemma groups_len [simp]: "length (ipv6_groups w) = 8"
  by (simp add: ipv6_groups_def)

lemma shift_group: "push_bit 16 (drop_bit (16 + k) w) OR take_bit 16 (drop_bit k w) = drop_bit k (w :: 128 word)"
proof (rule bit_word_eqI)
  fix n assume "n < LENGTH(128)"
  show "bit (push_bit 16 (drop_bit (16 + k) w) OR take_bit 16 (drop_bit k w)) n = bit (drop_bit k w) n"
    by (cases "n < 16")
       (auto simp: bit_or_iff bit_push_bit_iff bit_take_bit_iff bit_drop_bit_eq add.assoc ac_simps dest: bit_imp_le_length)
qed

lemma groups_word: "word_of_bytes (group_bytes (ipv6_groups w)) = w"
proof -
  have o: "of_nat (unat (take_bit 16 (drop_bit k w))) = take_bit 16 (drop_bit k w)" for k by simp
  have z: "drop_bit (16 + 112) w = 0" by (rule bit_word_eqI) (auto simp: bit_drop_bit_eq dest: bit_imp_le_length)
  show ?thesis
    unfolding word_of_bytes_def word_of_group_bytes ipv6_groups_def
    using shift_group[of 112 w] shift_group[of 96 w] shift_group[of 80 w] shift_group[of 64 w] shift_group[of 48 w]
      shift_group[of 32 w] shift_group[of 16 w] shift_group[of 0 w] z
    by (simp add: o)
qed

lemma hex_digit_val: "d < 16 \<Longrightarrow> hex_val (hex_digit_char d) = Some d"
  by (simp add: hex_val_def hex_digit_char_def digit_char_of is_digit_char_def Let_def)

lemma hex_digits_nonempty [simp]: "hex_digits n \<noteq> []"
  by (subst hex_digits.simps) simp

lemma hex_digits_all: "list_all (\<lambda>c. hex_val c \<noteq> None) (hex_digits n)"
proof (induction n rule: hex_digits.induct)
  case (1 n)
  then show ?case by (subst hex_digits.simps) (auto simp: hex_digit_val)
qed

lemma hex_group_digits:
  "hex_group (hex_digits g @ t) acc n = hex_group t (acc * 16 ^ length (hex_digits g) + g) (n + length (hex_digits g))"
proof (induction g arbitrary: t rule: hex_digits.induct)
  case (1 g)
  show ?case
  proof (cases "g < 16")
    case True
    then show ?thesis by (simp add: hex_digits.simps[of g] hex_digit_val)
  next
    case False
    have "hex_group (hex_digits g @ t) acc n
        = hex_group (hex_digits (g div 16) @ hex_digit_char (g mod 16) # t) acc n"
      using False by (subst hex_digits.simps) simp
    also have "\<dots> = hex_group t ((acc * 16 ^ length (hex_digits (g div 16)) + g div 16) * 16 + g mod 16)
        (n + length (hex_digits (g div 16)) + 1)"
      using 1[OF False, of "hex_digit_char (g mod 16) # t"] by (simp add: hex_digit_val)
    also have "(acc * 16 ^ length (hex_digits (g div 16)) + g div 16) * 16 + g mod 16
        = acc * 16 ^ (length (hex_digits (g div 16)) + 1) + g"
      by (simp add: algebra_simps)
    also have "length (hex_digits (g div 16)) + 1 = length (hex_digits g)"
      using False by (subst (2) hex_digits.simps) simp
    finally show ?thesis using \<open>length (hex_digits (g div 16)) + 1 = length (hex_digits g)\<close>
      by (simp only: add.assoc)
  qed
qed

lemma hex_digits_len: "g < 16 ^ Suc k \<Longrightarrow> length (hex_digits g) \<le> Suc k"
proof (induction k arbitrary: g)
  case 0
  then show ?case by (simp add: hex_digits.simps)
next
  case (Suc k)
  have "g div 16 < 16 ^ Suc k" using Suc.prems by (simp add: div_less_iff_less_mult mult.commute)
  from Suc.IH[OF this] show ?case by (subst hex_digits.simps) simp
qed

lemma hex_group_text:
  assumes "g < 65536" "t = [] \<or> hd t = CHR '':''"
  shows "hex_group (hex_digits g @ t) 0 0 = (g, length (hex_digits g), t)"
    and "length (hex_digits g) \<le> 4"
proof -
  have "hex_val (CHR '':'') = None" by code_simp
  then show "hex_group (hex_digits g @ t) 0 0 = (g, length (hex_digits g), t)"
    using assms(2) hex_group_digits[of g t 0 0] by (cases t) auto
  show "length (hex_digits g) \<le> 4" using hex_digits_len[of g 3] assms(1) by simp
qed

text \<open>The steps of the reading loop over one group.\<close>

lemma ipv6_loop_last:
  assumes "g < 65536" "length bs < 16"
  shows "ipv6_loop (hex_digits g) bs ell = Some (bs @ [g div 256, g mod 256], ell, [])"
  using hex_group_text[OF assms(1), of "[]"] assms(2)
  by (subst ipv6_loop.simps) (simp add: Let_def)

lemma ipv6_loop_group:
  assumes "g < 65536" "length bs < 16" "t \<noteq> []" "hd t \<noteq> CHR '':''"
  shows "ipv6_loop (hex_digits g @ CHR '':'' # t) bs ell = ipv6_loop t (bs @ [g div 256, g mod 256]) ell"
  using hex_group_text[OF assms(1), of "CHR '':'' # t"] assms(2-)
  by (subst ipv6_loop.simps) (simp add: Let_def)

lemma ipv6_loop_gap:
  assumes "g < 65536" "length bs < 16"
  shows "ipv6_loop (hex_digits g @ CHR '':'' # CHR '':'' # t) bs None
    = (if t = [] then Some (bs @ [g div 256, g mod 256], Some (length bs + 2), [])
       else ipv6_loop t (bs @ [g div 256, g mod 256]) (Some (length bs + 2)))"
  using hex_group_text[OF assms(1), of "CHR '':'' # CHR '':'' # t"] assms(2-)
  by (subst ipv6_loop.simps) (simp add: Let_def)

lemma hex_digits_hd: "hd (hex_digits g @ t) \<noteq> CHR '':''"
proof -
  have "hex_val (CHR '':'') = None" by code_simp
  then show ?thesis using hex_digits_all[of g] by (cases "hex_digits g") auto
qed

abbreviation groups_text :: "nat list \<Rightarrow> string" where
  "groups_text gs \<equiv> join '':'' (map hex_digits gs)"

lemma groups_text_start: "gs \<noteq> [] \<Longrightarrow> groups_text gs \<noteq> [] \<and> hd (groups_text gs @ t) \<noteq> CHR '':''"
  using hex_digits_hd by (cases gs; cases "tl gs") auto

lemma ipv6_loop_groups:
  "\<lbrakk> gs \<noteq> []; list_all (\<lambda>g. g < 65536) gs; length bs + 2 * length gs \<le> 16 \<rbrakk> \<Longrightarrow>
     ipv6_loop (groups_text gs) bs ell = Some (bs @ group_bytes gs, ell, [])"
proof (induction gs arbitrary: bs)
  case (Cons g gs)
  show ?case
  proof (cases gs)
    case Nil
    then show ?thesis using Cons.prems by (simp add: ipv6_loop_last)
  next
    case (Cons h hs)
    then have n: "groups_text gs \<noteq> []" "hd (groups_text gs) \<noteq> CHR '':''"
      using groups_text_start[of gs "[]"] by auto
    have "ipv6_loop (groups_text (g # gs)) bs ell = ipv6_loop (groups_text gs) (bs @ [g div 256, g mod 256]) ell"
      using ipv6_loop_group[of g bs "groups_text gs" ell] n Cons.prems Cons by simp
    also have "\<dots> = Some (bs @ group_bytes (g # gs), ell, [])"
      using Cons.IH[of "bs @ [g div 256, g mod 256]"] Cons.prems Cons by simp
    finally show ?thesis .
  qed
qed simp

lemma ipv6_loop_groups_gap:
  "\<lbrakk> gs \<noteq> []; list_all (\<lambda>g. g < 65536) gs; length bs + 2 * length gs \<le> 16 \<rbrakk> \<Longrightarrow>
     ipv6_loop (groups_text gs @ CHR '':'' # CHR '':'' # t) bs None
     = (if t = [] then Some (bs @ group_bytes gs, Some (length bs + 2 * length gs), [])
        else ipv6_loop t (bs @ group_bytes gs) (Some (length bs + 2 * length gs)))"
proof (induction gs arbitrary: bs)
  case (Cons g gs)
  show ?case
  proof (cases gs)
    case Nil
    then show ?thesis using Cons.prems by (simp add: ipv6_loop_gap)
  next
    case (Cons h hs)
    have n: "hd (groups_text gs @ CHR '':'' # CHR '':'' # t) \<noteq> CHR '':''"
      using groups_text_start[of gs "CHR '':'' # CHR '':'' # t"] Cons by auto
    show ?thesis
      using ipv6_loop_group[of g bs "groups_text gs @ CHR '':'' # CHR '':'' # t" None] n Cons.prems Cons
        Cons.IH[of "bs @ [g div 256, g mod 256]"] by simp
  qed
qed simp

text \<open>The run that is left out of the text.\<close>

lemma longest_zeros_ok:
  assumes "longest_zeros gs is best = Some (a, b)"
    and "\<And>x y. best = Some (x, y) \<Longrightarrow> 2 \<le> y - x \<and> y - x = zero_run gs x"
  shows "2 \<le> b - a \<and> b - a = zero_run gs a"
  using assms
proof (induction gs "is" best rule: longest_zeros.induct)
  case (2 gs i "is" best)
  show ?case
  proof (rule 2(1)[OF refl])
    show "longest_zeros gs is (if 2 \<le> zero_run gs i \<and> (case best of None \<Rightarrow> 0 | Some (a, b) \<Rightarrow> b - a) < zero_run gs i
        then Some (i, i + zero_run gs i) else best) = Some (a, b)"
      using 2(2) by (simp add: Let_def)
  qed (use 2(3) in \<open>auto split: if_splits\<close>)
qed auto

lemma zero_run_split:
  "drop i gs = replicate (zero_run gs i) 0 @ drop (i + zero_run gs i) gs"
proof -
  have "takeWhile (\<lambda>g. g = (0::nat)) xs = replicate (length (takeWhile (\<lambda>g. g = 0) xs)) 0" for xs
    by (induction xs) auto
  then have "takeWhile (\<lambda>g. g = 0) (drop i gs) = replicate (zero_run gs i) 0" unfolding zero_run_def .
  moreover have "dropWhile (\<lambda>g. g = 0) (drop i gs) = drop (i + zero_run gs i) gs"
    unfolding zero_run_def by (simp add: dropWhile_eq_drop add.commute)
  ultimately show ?thesis using takeWhile_dropWhile_id[of "\<lambda>g. g = 0" "drop i gs"] by simp
qed

lemma groups_text_no_special:
  "\<lbrakk> c \<in> set (groups_text gs) \<rbrakk> \<Longrightarrow> c = CHR '':'' \<or> hex_val c \<noteq> None"
proof (induction gs)
  case (Cons g gs)
  then show ?case
    using hex_digits_all[of g] by (cases gs) (auto simp: list_all_iff)
qed simp

lemma ipv6_text_chars: "\<forall>c \<in> set (ipv6_text w). c = CHR '':'' \<or> hex_val c \<noteq> None"
  unfolding ipv6_text_def Let_def
  by (auto split: option.splits dest!: groups_text_no_special)

lemma ipv6_text_has_colon: "CHR '':'' \<in> set (ipv6_text w)"
proof -
  obtain a b c where "ipv6_groups w = a # b # c" by (simp add: ipv6_groups_def)
  then show ?thesis unfolding ipv6_text_def Let_def by (auto split: option.splits)
qed

lemma hex_val_special: "hex_val (CHR ''.'') = None" "hex_val (CHR ''%'') = None"
  by code_simp+

lemma hex_not_special: "c = CHR '':'' \<or> hex_val c \<noteq> None \<Longrightarrow> c \<noteq> CHR ''.'' \<and> c \<noteq> CHR ''%''"
  using hex_val_special by fastforce

lemma find_first_of:
  "\<lbrakk> \<And>c. c \<in> set s \<Longrightarrow> P c \<Longrightarrow> c = x; x \<in> set s; P x \<rbrakk> \<Longrightarrow> List.find P s = Some x"
proof (induction s)
  case (Cons c s)
  show ?case
  proof (cases "P c")
    case True
    with Cons.prems(1)[of c] have "c = x" by simp
    with True show ?thesis by simp
  next
    case False
    with Cons.prems(2,3) have "x \<in> set s" by auto
    from Cons.IH[OF _ this Cons.prems(3)] Cons.prems(1) have "List.find P s = Some x" by (meson list.set_intros(2))
    with False show ?thesis by simp
  qed
qed simp

lemma find_hex_colon:
  assumes "\<forall>c \<in> set s. c = CHR '':'' \<or> hex_val c \<noteq> None" "CHR '':'' \<in> set s"
  shows "List.find (\<lambda>c. c = CHR ''.'' \<or> c = CHR '':'' \<or> c = CHR ''%'') s = Some (CHR '':'')"
proof (rule find_first_of)
  fix c assume "c \<in> set s" "c = CHR ''.'' \<or> c = CHR '':'' \<or> c = CHR ''%''"
  then show "c = CHR '':''" using assms(1) hex_not_special[of c] by metis
next
  show "CHR '':'' \<in> set s" by (rule assms(2))
qed simp

lemma parse_ipv6_text: "parse_ipv6 (ipv6_text w) = Some (IPv6 w [])"
proof -
  let ?gs = "ipv6_groups w"
  have nopct: "cut (ipv6_text w) ''%'' = None"
    unfolding cut_char_None using ipv6_text_chars[of w] hex_not_special by blast
  have pre: "has_prefix s ''::'' \<longleftrightarrow> (\<exists>t. s = ''::'' @ t)" for s by (rule has_prefix_iff)
  show ?thesis
  proof (cases "longest_zeros ?gs [0..<8] None")
    case None
    then have t: "ipv6_text w = groups_text ?gs" by (simp add: ipv6_text_def)
    have ne: "?gs \<noteq> []" by (simp add: ipv6_groups_def)
    have "\<not> has_prefix (groups_text ?gs) ''::''"
      using groups_text_start[OF ne, of "[]"] by (auto simp: pre)
    moreover have "ipv6_loop (groups_text ?gs) [] None = Some (group_bytes ?gs, None, [])"
      using ipv6_loop_groups[OF ne groups_small, of "[]"] by simp
    ultimately show ?thesis
      using nopct unfolding parse_ipv6_def t by (simp add: groups_word)
  next
    case (Some r)
    obtain a b where r: "r = (a, b)" by fastforce
    define pre where "pre = take a ?gs"
    define post where "post = drop b ?gs"
    have run: "2 \<le> b - a" "b - a = zero_run ?gs a"
      using longest_zeros_ok[OF Some[unfolded r]] by auto
    have "b = a + zero_run ?gs a" using run by linarith
    then have gs: "?gs = pre @ replicate (b - a) 0 @ post"
      using zero_run_split[of a ?gs] run(2) append_take_drop_id[of a ?gs] unfolding pre_def post_def by metis
    then have len: "length pre + (b - a) + length post = 8" using groups_len[of w]
      by (metis add.assoc length_append length_replicate)
    have small: "list_all (\<lambda>g. g < 65536) pre" "list_all (\<lambda>g. g < 65536) post"
      using groups_small[of w] by (simp_all add: gs)
    have t: "ipv6_text w = groups_text pre @ ''::'' @ groups_text post"
      using Some by (simp add: ipv6_text_def r pre_def post_def Let_def)
    have word: "word_of_bytes (group_bytes pre @ replicate (16 - 2 * (length pre + length post)) 0 @ group_bytes post) = w"
    proof -
      have "2 * (b - a) = 16 - 2 * (length pre + length post)" using len by simp
      then have "group_bytes ?gs = group_bytes pre @ replicate (16 - 2 * (length pre + length post)) 0 @ group_bytes post"
        by (subst gs) (simp only: group_bytes_append group_bytes_zeros)
      then show ?thesis using groups_word[of w] by simp
    qed
    have post_empty: "groups_text post = [] \<longleftrightarrow> post = []" using groups_text_start[of post "[]"] by auto
    have short: "length (group_bytes pre @ group_bytes post) < 16"
      "16 - length (group_bytes pre @ group_bytes post) = 16 - 2 * (length pre + length post)"
      using len run(1) by simp_all
    have fin: "parse_ipv6 (ipv6_text w) = Some (IPv6 w [])"
      if "ipv6_loop (if lead then drop 2 (ipv6_text w) else ipv6_text w) [] (if lead then Some 0 else None)
          = Some (group_bytes pre @ group_bytes post, Some (length (group_bytes pre)), [])"
        and "has_prefix (ipv6_text w) ''::'' = lead" "lead \<Longrightarrow> drop 2 (ipv6_text w) \<noteq> []" for lead
      using that nopct short(1) word unfolding parse_ipv6_def short(2) by (cases lead) (simp_all only: Let_def, simp_all add: short)
    show ?thesis
    proof (cases "pre = []")
      case True
      show ?thesis
      proof (cases "post = []")
        case True
        have zero: "foldl (\<lambda>w b. push_bit 8 w OR of_nat b) (0 :: 128 word) (replicate n 0) = 0" for n
          by (induction n) auto
        show ?thesis using True \<open>pre = []\<close> nopct word zero unfolding parse_ipv6_def t word_of_bytes_def
          by simp
      next
        case False
        have "length post \<le> 8" using len by linarith
        then show ?thesis
          using fin[of True] ipv6_loop_groups[OF False small(2), of "[]" "Some 0"] post_empty False True
          by (simp add: t)
      qed
    next
      case False
      have "\<not> has_prefix (groups_text pre @ ''::'' @ groups_text post) ''::''"
        using groups_text_start[OF False, of "''::'' @ groups_text post"] by (auto simp: pre)
      moreover have "ipv6_loop (groups_text pre @ ''::'' @ groups_text post) [] None
          = Some (group_bytes pre @ group_bytes post, Some (2 * length pre), [])"
        using ipv6_loop_groups_gap[OF False small(1), of "[]" "groups_text post"] len
          ipv6_loop_groups[OF _ small(2), of "group_bytes pre" "Some (2 * length pre)"] post_empty
        by (cases "post = []") auto
      ultimately show ?thesis using fin[of False] by (simp add: t)
    qed
  qed
qed

text \<open>An address without a zone that is not IPv4-mapped is read back from its text.\<close>

lemma ipv4_text_dot:
  "List.find (\<lambda>c. c = CHR ''.'' \<or> c = CHR '':'' \<or> c = CHR ''%'') (ipv4_text w) = Some (CHR ''.'')"
proof -
  have "list_all is_digit_char ds \<Longrightarrow>
      List.find (\<lambda>c. c = CHR ''.'' \<or> c = CHR '':'' \<or> c = CHR ''%'') (ds @ CHR ''.'' # t) = Some (CHR ''.'')" for ds t
  proof (induction ds)
    case (Cons d ds)
    have "\<not> is_digit_char (CHR ''.'')" "\<not> is_digit_char (CHR '':'')" "\<not> is_digit_char (CHR ''%'')" by code_simp+
    then show ?case using Cons by auto
  qed simp
  then show ?thesis by (simp add: ipv4_text_def ipv4_octets_def nat_digits_all_digit)
qed

theorem parse_addr_text:
  assumes "addr_zone a = []" "\<not> addr_is4in6 a"
  shows "parse_addr (addr_text a) = Some a"
proof (cases a)
  case (IPv4 w)
  then show ?thesis using ipv4_text_dot[of w] parse_ipv4_text[of w] by (simp add: parse_addr_def addr_text_def)
next
  case (IPv6 w z)
  then show ?thesis
    using assms find_hex_colon[OF ipv6_text_chars ipv6_text_has_colon, of w] parse_ipv6_text[of w]
    by (simp add: parse_addr_def addr_text_def addr_zone_def)
qed

text \<open>The text of an address has no slash, no comma and no white space.\<close>

lemma ipv4_text_chars: "c \<in> set (ipv4_text w) \<Longrightarrow> is_digit_char c \<or> c = CHR ''.''"
proof -
  have "c \<in> set (nat_digits n) \<Longrightarrow> is_digit_char c" for n
    using nat_digits_all_digit[of n] by (auto simp: list_all_iff)
  then show "c \<in> set (ipv4_text w) \<Longrightarrow> is_digit_char c \<or> c = CHR ''.''"
    by (auto simp: ipv4_text_def ipv4_octets_def)
qed

definition text_char :: "char \<Rightarrow> bool" where
  "text_char c \<longleftrightarrow> hex_val c \<noteq> None \<or> c \<in> {CHR '':'', CHR ''.''}"

lemma addr_text_chars: "addr_zone a = [] \<Longrightarrow> list_all text_char (addr_text a)"
proof -
  assume z: "addr_zone a = []"
  have d: "is_digit_char c \<Longrightarrow> hex_val c \<noteq> None" for c by (simp add: hex_val_def Let_def)
  have 4: "list_all text_char (ipv4_text w)" for w
    using ipv4_text_chars[of _ w] d by (auto simp: list_all_iff text_char_def)
  have 6: "list_all text_char (ipv6_text w)" for w
    using ipv6_text_chars[of w] by (auto simp: list_all_iff text_char_def)
  have m: "list_all text_char ''::ffff:''" by code_simp
  show ?thesis using z 4 6 m by (auto simp: addr_text_def addr_zone_def split: ip_addr.splits)
qed

text \<open>A prefix in range that is not IPv4-mapped is read back from its text.\<close>

lemma text_char_not_slash: "\<not> text_char (CHR ''/'')" "\<not> text_char (CHR ''%'')"
  by code_simp+

lemma cut_last_slash: "CHR ''/'' \<notin> set b \<Longrightarrow> cut_last (CHR ''/'') (a @ CHR ''/'' # b) = Some (a, b)"
  using cut_char_before[of "CHR ''/''" "rev b" "rev a"] by (simp add: cut_last_def)

lemma nat_digits_no_slash: "CHR ''/'' \<notin> set (nat_digits n)"
proof
  assume "CHR ''/'' \<in> set (nat_digits n)"
  then have "is_digit_char (CHR ''/'')" using nat_digits_all_digit[of n] by (auto simp: list_all_iff)
  then show False by code_simp
qed

lemma nat_digits_hd_0: "hd (nat_digits n) = CHR ''0'' \<Longrightarrow> n = 0"
proof (induction n rule: nat_digits.induct)
  case (1 n)
  show ?case
  proof (cases "n < 10")
    case True
    then show ?thesis using 1(2) digit_0 digit_char_inj[of n 0] by (simp add: nat_digits_1)
  next
    case False
    then have "hd (nat_digits n) = hd (nat_digits (n div 10))"
      by (subst nat_digits.simps) simp
    then show ?thesis using 1 False by auto
  qed
qed

theorem parse_prefix_text:
  assumes "prefix_ok p" "\<not> addr_is4in6 (p_addr p)"
  shows "parse_prefix (prefix_text p) = Some p"
proof -
  let ?b = "nat_digits (p_bits p)"
  have bits: "p_bits p \<le> 128" using assms(1) by (auto simp: prefix_ok_def addr_bit_len_def split: if_splits)
  have lead: "\<not> (1 < length ?b \<and> (hd ?b = CHR ''0'' \<or> \<not> is_digit_char (hd ?b)))"
  proof -
    have "is_digit_char (hd ?b)" using nat_digits_all_digit[of "p_bits p"] by (cases ?b) auto
    moreover have "p_bits p = 0 \<Longrightarrow> length ?b = 1" by (simp add: nat_digits_1)
    ultimately show ?thesis using nat_digits_hd_0[of "p_bits p"] by auto
  qed
  have at: "atoi ?b = Some (int (p_bits p))" using bits by (intro atoi_nat_digits) (simp add: max_int64_def)
  have pf: "prefix_from (p_addr p) (p_bits p) = p"
    using assms(1) by (cases "p_addr p"; cases p) (auto simp: prefix_from_def prefix_ok_def addr_zone_def)
  show ?thesis
    using assms lead at pf parse_addr_text[of "p_addr p"] cut_last_slash[OF nat_digits_no_slash]
    by (simp add: parse_prefix_def prefix_text_def prefix_ok_def)
qed

end
