(* ===== verification/List_Setting.thy ===== *)
theory List_Setting
  imports Check_Times Netip_Text
begin

text \<open>
  The settings that hold a list (\<^verbatim>\<open>listSetting\<close> of modules/settings.go): how an
  entry is normalized, how the lines of the input are collected, and the four
  settings of this kind. The locale \<open>list_setting\<close> states what every one of them
  promises of its normal form; its lemmas give the round trip of a saved list.
\<close>

section \<open>Entries\<close>

text \<open>
  The bytes of the first rune of a string: a well-formed UTF-8 sequence, else the
  one byte that Go decodes as U+FFFD.
\<close>

definition cont_byte :: "nat \<Rightarrow> bool" where
  "cont_byte n \<longleftrightarrow> 128 \<le> n \<and> n \<le> 191"

definition rune_len :: "string \<Rightarrow> nat" where
  "rune_len s =
     (let b = (\<lambda>i. if i < length s then (of_char (s ! i) :: nat) else 0); n = b 0
      in if 194 \<le> n \<and> n \<le> 223 \<and> cont_byte (b 1) then 2
         else if 224 \<le> n \<and> n \<le> 239 \<and> cont_byte (b 1) \<and> (n = 224 \<longrightarrow> 160 \<le> b 1) \<and> (n = 237 \<longrightarrow> b 1 \<le> 159)
                 \<and> cont_byte (b 2) then 3
         else if 240 \<le> n \<and> n \<le> 244 \<and> cont_byte (b 1) \<and> (n = 240 \<longrightarrow> 144 \<le> b 1) \<and> (n = 244 \<longrightarrow> b 1 \<le> 143)
                 \<and> cont_byte (b 2) \<and> cont_byte (b 3) then 4
         else 1)"

lemma rune_len_pos: "0 < rune_len s"
  by (simp add: rune_len_def Let_def)

text \<open>The runes of a string, each as the bytes it is written back with.\<close>

function runes :: "string \<Rightarrow> string list" where
  "runes [] = []"
| "runes (c # cs) =
     (let n = rune_len (c # cs)
      in (if n = 1 \<and> 128 \<le> (of_char c :: nat) then [CHR 0xEF, CHR 0xBF, CHR 0xBD] else take n (c # cs))
         # runes (drop n (c # cs)))"
  by pat_completeness auto
termination
  by (relation "measure length") (auto simp: rune_len_pos)

definition clip_entry :: "string \<Rightarrow> string" where
  "clip_entry s = (let r = runes s in if 64 < length r then concat (take 64 r) @ ''...'' else s)"

definition list_entry_invalid :: "string \<Rightarrow> string \<Rightarrow> string \<Rightarrow> nat \<Rightarrow> string \<Rightarrow> go_error" where
  "list_entry_invalid key setting what line v =
     Keyed key (setting @ '': entry '' @ nat_digits line @ '' ('' @ go_quote (clip_entry v) @ '') is not '' @ what)"

definition max_sending_source_entries :: nat where "max_sending_source_entries = 500"
definition max_dns_check_resolvers :: nat where "max_dns_check_resolvers = 10"

definition sending_source_too_many :: "string \<Rightarrow> go_error" where
  "sending_source_too_many setting =
     Keyed ''validation.sendingSource.tooMany''
       (setting @ '' accepts at most '' @ nat_digits max_sending_source_entries @ '' entries'')"

section \<open>Normal forms\<close>

definition usable_ip :: "ip_addr \<Rightarrow> bool" where
  "usable_ip a \<longleftrightarrow> addr_zone a = [] \<and> \<not> addr_is_loopback a \<and> \<not> addr_is_unspecified a \<and> \<not> addr_is4in6 a"

definition normalize_ip_or_prefix :: "bool \<Rightarrow> string \<Rightarrow> string option" where
  "normalize_ip_or_prefix want6 s =
     (if contains s ''/'' then
        (case parse_prefix s of
           None \<Rightarrow> None
         | Some p0 \<Rightarrow>
             (let p = prefix_masked p0
              in if \<not> usable_ip (p_addr p) \<or> (\<not> addr_is4 (p_addr p)) \<noteq> want6 then None
                 else if prefix_is_single p then Some (addr_text (p_addr p)) else Some (prefix_text p)))
      else case parse_addr s of
          None \<Rightarrow> None
        | Some a \<Rightarrow> if \<not> usable_ip a \<or> (\<not> addr_is4 a) \<noteq> want6 then None else Some (addr_text a))"

definition valid_host_label :: "string \<Rightarrow> bool" where
  "valid_host_label l \<longleftrightarrow>
     \<not> (l = '''' \<or> 63 < length l \<or> hd l = CHR ''-'' \<or> last l = CHR ''-'')
     \<and> list_all (\<lambda>c. is_alnum_char c \<or> c = CHR ''-'') l"

definition normalize_source_host :: "string \<Rightarrow> string option" where
  "normalize_source_host s =
     (let h = trim_suffix s ''.''; labels = split_char (CHR ''.'') h; low = to_lower h
      in if h = '''' \<or> 253 < length h then None
         else if \<not> list_all valid_host_label labels then None
         else if list_all is_digit_char (last labels) then None
         else if low = ''localhost'' \<or> has_suffix low ''.localhost'' \<or> low = ''localhost.localdomain'' then None
         else Some low)"

definition normalize_resolver :: "string \<Rightarrow> string option" where
  "normalize_resolver s =
     (case parse_addr s of None \<Rightarrow> None | Some a \<Rightarrow> if usable_ip a then Some (addr_text a) else None)"

section \<open>Collecting the entries\<close>

record list_setting =
  ls_key :: string
  ls_max :: nat
  ls_normalize :: "string \<Rightarrow> string option"
  ls_invalid :: "nat \<Rightarrow> string \<Rightarrow> go_error"
  ls_too_many :: go_error

text \<open>The trimmed entries with their 1-based lines; blank lines count but are skipped.\<close>

definition newline :: char where "newline = CHR 10"

fun number_entries :: "nat \<Rightarrow> string list \<Rightarrow> (nat \<times> string) list" where
  "number_entries line [] = []"
| "number_entries line (raw # raws) =
     (let s = trim_space raw; rest = number_entries (line + 1) raws
      in if s \<noteq> '''' then (line + 1, s) # rest else rest)"

definition split_list_entries :: "string list \<Rightarrow> (nat \<times> string) list" where
  "split_list_entries inputs = number_entries 0 (concat (map (split_char newline) inputs))"

fun collect_loop :: "list_setting \<Rightarrow> bool \<Rightarrow> (nat \<times> string) list \<Rightarrow> string list \<Rightarrow> go_error + string list" where
  "collect_loop ls strict [] out = Inr out"
| "collect_loop ls strict ((line, v) # es) out =
     (case ls_normalize ls v of
        None \<Rightarrow> if strict then Inl (ls_invalid ls line v) else collect_loop ls strict es out
      | Some n \<Rightarrow> collect_loop ls strict es (if n \<in> set out then out else out @ [n]))"

definition collect_list :: "list_setting \<Rightarrow> string list \<Rightarrow> bool \<Rightarrow> go_error + string list" where
  "collect_list ls inputs strict =
     (case collect_loop ls strict (split_list_entries inputs) [] of
        Inl e \<Rightarrow> Inl e
      | Inr out \<Rightarrow>
          if ls_max ls < length out then (if strict then Inl (ls_too_many ls) else Inr (take (ls_max ls) out))
          else Inr out)"

definition parse_list :: "list_setting \<Rightarrow> string list \<Rightarrow> go_error + string list" where
  "parse_list ls entries = collect_list ls entries True"

definition list_text :: "string list \<Rightarrow> string" where
  "list_text list = join [newline] list"

section \<open>The list settings\<close>

definition sending_source_ipv4_setting :: list_setting where
  "sending_source_ipv4_setting =
     \<lparr>ls_key = ''sending_source_ipv4'', ls_max = max_sending_source_entries,
      ls_normalize = normalize_ip_or_prefix False,
      ls_invalid = list_entry_invalid ''validation.sendingSource.ipv4Invalid'' ''sending_source_ipv4''
        ''an IPv4 address or CIDR (loopback and 0.0.0.0 are not accepted)'',
      ls_too_many = sending_source_too_many ''sending_source_ipv4''\<rparr>"

definition sending_source_ipv6_setting :: list_setting where
  "sending_source_ipv6_setting =
     \<lparr>ls_key = ''sending_source_ipv6'', ls_max = max_sending_source_entries,
      ls_normalize = normalize_ip_or_prefix True,
      ls_invalid = list_entry_invalid ''validation.sendingSource.ipv6Invalid'' ''sending_source_ipv6''
        ''an IPv6 address or CIDR (loopback, ::, zones and IPv4-mapped addresses are not accepted)'',
      ls_too_many = sending_source_too_many ''sending_source_ipv6''\<rparr>"

definition sending_source_hosts_setting :: list_setting where
  "sending_source_hosts_setting =
     \<lparr>ls_key = ''sending_source_hosts'', ls_max = max_sending_source_entries,
      ls_normalize = normalize_source_host,
      ls_invalid = list_entry_invalid ''validation.sendingSource.hostInvalid'' ''sending_source_hosts''
        ''a host name (letters, digits and hyphens; IP addresses and localhost are not accepted)'',
      ls_too_many = sending_source_too_many ''sending_source_hosts''\<rparr>"

definition dns_check_resolvers_setting :: list_setting where
  "dns_check_resolvers_setting =
     \<lparr>ls_key = ''dns_check_resolvers'', ls_max = max_dns_check_resolvers,
      ls_normalize = normalize_resolver,
      ls_invalid = list_entry_invalid ''validation.dnsCheck.resolverInvalid'' ''dns_check_resolvers''
        ''the IP address of a resolver (no port or CIDR; loopback and unspecified addresses are not accepted)'',
      ls_too_many = Keyed ''validation.dnsCheck.resolversTooMany''
        (''dns_check_resolvers accepts at most '' @ nat_digits max_dns_check_resolvers @ '' resolvers'')\<rparr>"

section \<open>The contract of a list setting\<close>

text \<open>
  A normal form is printable text that is its own normal form: it survives the
  trimming and splitting of a saved value.
\<close>

locale list_contract =
  fixes normal :: "string \<Rightarrow> string option"
  assumes normal_idem: "normal e = Some n \<Longrightarrow> normal n = Some n"
    and normal_text: "normal e = Some n \<Longrightarrow> n \<noteq> [] \<and> list_all plain_char n"
begin

definition settled :: "string list \<Rightarrow> bool" where
  "settled out \<longleftrightarrow> distinct out \<and> (\<forall>n \<in> set out. normal n = Some n)"

lemma settled_trim: "\<lbrakk> settled out; n \<in> set out \<rbrakk> \<Longrightarrow> trim_space n = n \<and> n \<noteq> [] \<and> newline \<notin> set n"
proof -
  assume "settled out" "n \<in> set out"
  then have "list_all plain_char n" "n \<noteq> []" using normal_text[of n n] by (auto simp: settled_def)
  moreover have "\<not> plain_char newline" by code_simp
  ultimately show ?thesis using trim_space_plain by (auto simp: list_all_iff)
qed

lemma collect_loop_settled:
  assumes "ls_normalize ls = normal" "collect_loop ls strict es out = Inr r" "settled out"
  shows "settled r"
  using assms(2,3)
proof (induction es arbitrary: out)
  case (Cons e es)
  obtain line v where e: "e = (line, v)" by fastforce
  show ?case
  proof (cases "normal v")
    case None
    then show ?thesis using Cons assms(1) by (auto simp: e split: if_splits)
  next
    case (Some n)
    have "settled (if n \<in> set out then out else out @ [n])"
      using Cons.prems(2) normal_idem[OF Some] by (auto simp: settled_def)
    then show ?thesis using Cons.IH Cons.prems(1) assms(1) Some by (simp add: e)
  qed
qed simp

lemma collect_list_settled:
  assumes n: "ls_normalize ls = normal" and c: "collect_list ls inputs strict = Inr r"
  shows "settled r \<and> length r \<le> ls_max ls"
proof -
  from c obtain out where l: "collect_loop ls strict (split_list_entries inputs) [] = Inr out"
    and r: "r = (if ls_max ls < length out then take (ls_max ls) out else out)"
    by (auto simp: collect_list_def split: sum.splits if_splits)
  have "settled out" using collect_loop_settled[OF n l] by (simp add: settled_def)
  then have "settled r" unfolding r settled_def by (auto dest: in_set_takeD)
  then show ?thesis using r by auto
qed

lemma collect_loop_same:
  assumes n: "ls_normalize ls = normal"
  shows "settled (out @ xs) \<Longrightarrow> collect_loop ls strict (number_entries k xs) out = Inr (out @ xs)"
proof (induction xs arbitrary: out k)
  case (Cons x xs)
  have "trim_space x = x" "x \<noteq> []" using settled_trim[OF Cons.prems, of x] by auto
  moreover have "normal x = Some x" "x \<notin> set out" using Cons.prems by (auto simp: settled_def)
  ultimately show ?case using Cons.IH[of "out @ [x]" "k + 1"] Cons.prems n by (simp add: Let_def)
qed simp

text \<open>A list in normal form within the bound is read back from its text as it is.\<close>

lemma collect_list_text:
  assumes "ls_normalize ls = normal" "settled xs" "length xs \<le> ls_max ls"
  shows "collect_list ls [list_text xs] strict = Inr xs"
proof (cases "xs = []")
  case True
  have "trim_space [] = []" by code_simp
  then show ?thesis by (simp add: True collect_list_def split_list_entries_def list_text_def Let_def)
next
  case False
  have "split_char newline (list_text xs) = xs"
    using split_char_join[OF False, of newline] settled_trim[OF assms(2)] by (auto simp: list_text_def)
  then show ?thesis using collect_loop_same[OF assms(1), of "[]" xs strict 0] assms(2,3)
    by (simp add: collect_list_def split_list_entries_def)
qed

lemma parse_list_roundtrip:
  assumes "ls_normalize ls = normal" "parse_list ls entries = Inr xs"
  shows "collect_list ls [list_text xs] strict = Inr xs"
  using collect_list_settled[OF assms(1)] assms collect_list_text unfolding parse_list_def by blast

end

section \<open>The settings keep the contract\<close>

lemma text_char_plain: "text_char c \<Longrightarrow> plain_char c"
  by (auto simp: text_char_def hex_val_def plain_char_def is_digit_char_def Let_def split: if_splits)

lemma addr_text_nonempty: "addr_text a \<noteq> []"
proof (cases a)
  case (IPv4 w)
  then show ?thesis using ipv4_text_dot[of w] by (auto simp: addr_text_def)
next
  case (IPv6 w z)
  then show ?thesis using ipv6_text_has_colon[of w] by (auto simp: addr_text_def)
qed

lemma addr_text_plain: "addr_zone a = [] \<Longrightarrow> list_all plain_char (addr_text a)"
  using addr_text_chars text_char_plain by (auto simp: list_all_iff)

lemma prefix_text_plain: "addr_zone (p_addr p) = [] \<Longrightarrow> list_all plain_char (prefix_text p)"
proof -
  assume "addr_zone (p_addr p) = []"
  moreover have "list_all plain_char (nat_digits n)" for n
    using nat_digits_all_digit[of n] digit_plain by (auto simp: list_all_iff)
  moreover have "plain_char (CHR ''/'')" by code_simp
  ultimately show ?thesis using addr_text_plain by (simp add: prefix_text_def)
qed

lemma contains_slash: "contains s ''/'' \<longleftrightarrow> CHR ''/'' \<in> set s"
  by (simp add: contains_def cut_char_None)

lemma addr_text_no_slash: "addr_zone a = [] \<Longrightarrow> CHR ''/'' \<notin> set (addr_text a)"
  using addr_text_chars text_char_not_slash by (auto simp: list_all_iff)

lemma normalize_ip_idem:
  assumes "normalize_ip_or_prefix want6 s = Some n"
  shows "normalize_ip_or_prefix want6 n = Some n \<and> n \<noteq> [] \<and> list_all plain_char n"
proof -
  have addr: "normalize_ip_or_prefix want6 (addr_text a) = Some (addr_text a) \<and> addr_text a \<noteq> []
      \<and> list_all plain_char (addr_text a)" if "usable_ip a" "(\<not> addr_is4 a) = want6" for a
    using that parse_addr_text[of a] addr_text_no_slash[of a] addr_text_nonempty[of a] addr_text_plain[of a]
    by (simp add: normalize_ip_or_prefix_def contains_slash usable_ip_def)
  show ?thesis
  proof (cases "contains s ''/''")
    case False
    with assms have c: "(case parse_addr s of None \<Rightarrow> None
        | Some a \<Rightarrow> if \<not> usable_ip a \<or> (\<not> addr_is4 a) \<noteq> want6 then None else Some (addr_text a)) = Some n"
      by (simp only: normalize_ip_or_prefix_def if_False)
    then obtain a where "parse_addr s = Some a" by (cases "parse_addr s") simp_all
    with c have "usable_ip a" "(\<not> addr_is4 a) = want6" "n = addr_text a" by (simp_all split: if_splits)
    with addr[of a] show ?thesis by simp
  next
    case True
    with assms have c: "(case parse_prefix s of None \<Rightarrow> None
         | Some p0 \<Rightarrow>
             (let p = prefix_masked p0
              in if \<not> usable_ip (p_addr p) \<or> (\<not> addr_is4 (p_addr p)) \<noteq> want6 then None
                 else if prefix_is_single p then Some (addr_text (p_addr p)) else Some (prefix_text p))) = Some n"
      by (simp only: normalize_ip_or_prefix_def if_True)
    then obtain p0 where p0: "parse_prefix s = Some p0" by (cases "parse_prefix s") simp_all
    with c have u: "usable_ip (p_addr (prefix_masked p0))" "(\<not> addr_is4 (p_addr (prefix_masked p0))) = want6"
      and n: "n = (if prefix_is_single (prefix_masked p0) then addr_text (p_addr (prefix_masked p0))
                   else prefix_text (prefix_masked p0))"
      by (simp_all add: Let_def split: if_splits)
    let ?p = "prefix_masked p0"
    show ?thesis
    proof (cases "prefix_is_single ?p")
      case True
      then show ?thesis using addr[OF u] by (simp add: n)
    next
      case False
      have "parse_prefix (prefix_text ?p) = Some ?p"
        using parse_prefix_text prefix_masked_ok[OF parse_prefix_ok[OF p0]] u(1) by (simp add: usable_ip_def)
      moreover have "CHR ''/'' \<in> set (prefix_text ?p)" by (simp add: prefix_text_def)
      ultimately have "normalize_ip_or_prefix want6 (prefix_text ?p) = Some (prefix_text ?p)"
        using u False by (auto simp: normalize_ip_or_prefix_def contains_slash prefix_masked_idem Let_def)
      moreover have "prefix_text ?p \<noteq> []" by (simp add: prefix_text_def)
      ultimately show ?thesis using False u(1) prefix_text_plain by (simp add: n usable_ip_def)
    qed
  qed
qed

interpretation ip_list: list_contract "normalize_ip_or_prefix want6" for want6
  using normalize_ip_idem by unfold_locales blast+

interpretation resolver_list: list_contract normalize_resolver
proof
  fix e n assume "normalize_resolver e = Some n"
  then obtain a where a: "usable_ip a" "n = addr_text a"
    by (auto simp: normalize_resolver_def split: option.splits if_splits)
  then have "parse_addr n = Some a" using parse_addr_text[of a] by (simp add: usable_ip_def)
  then show "normalize_resolver n = Some n" using a by (simp add: normalize_resolver_def)
  show "n \<noteq> [] \<and> list_all plain_char n" using a addr_text_nonempty addr_text_plain by (simp add: usable_ip_def)
qed

text \<open>Host names: lower-casing ASCII text twice changes nothing more.\<close>

definition ascii_char :: "char \<Rightarrow> bool" where
  "ascii_char c \<longleftrightarrow> (of_char c :: nat) < 128"

lemma to_lower_ascii: "list_all ascii_char s \<Longrightarrow> to_lower s = map lower_char s"
  by (induction s rule: to_lower.induct) (auto simp: ascii_char_def)

lemma lower_char_ascii: "ascii_char c \<Longrightarrow> ascii_char (lower_char c)"
  by (auto simp: ascii_char_def lower_char_def is_upper_char_def)

lemma lower_char_idem: "lower_char (lower_char c) = lower_char c"
  by (auto simp: lower_char_def is_upper_char_def)

lemma lower_char_alnum: "is_alnum_char c \<Longrightarrow> is_alnum_char (lower_char c)"
  by (auto simp: lower_char_def is_alnum_char_def is_upper_char_def is_lower_char_def is_digit_char_def)

lemma lower_char_digit: "is_digit_char (lower_char c) \<longleftrightarrow> is_digit_char c"
  by (auto simp: lower_char_def is_upper_char_def is_digit_char_def)

lemma lower_char_fixed: "\<not> is_upper_char c \<Longrightarrow> lower_char c = c"
  by (simp add: lower_char_def)

lemma alnum_ascii: "is_alnum_char c \<Longrightarrow> ascii_char c \<and> plain_char c"
  by (auto simp: ascii_char_def plain_char_def is_alnum_char_def is_upper_char_def is_lower_char_def is_digit_char_def)

lemma special_chars:
  "lower_char c = CHR ''-'' \<longleftrightarrow> c = CHR ''-''" "lower_char c = CHR ''.'' \<longleftrightarrow> c = CHR ''.''"
proof -
  have "of_char (lower_char c) = (of_char (CHR ''-'') :: nat) \<longleftrightarrow> of_char c = (of_char (CHR ''-'') :: nat)"
    "of_char (lower_char c) = (of_char (CHR ''.'') :: nat) \<longleftrightarrow> of_char c = (of_char (CHR ''.'') :: nat)"
    by (auto simp: lower_char_def is_upper_char_def)
  then show "lower_char c = CHR ''-'' \<longleftrightarrow> c = CHR ''-''" "lower_char c = CHR ''.'' \<longleftrightarrow> c = CHR ''.''" 
    by (metis of_char_eq_iff)+
qed

lemma split_char_map:
  "\<lbrakk> \<And>c. f c = x \<longleftrightarrow> c = x \<rbrakk> \<Longrightarrow> split_char x (map f s) = map (map f) (split_char x s)"
  by (induction s) (auto split: list.splits)

lemma valid_host_label_lower: "valid_host_label l \<Longrightarrow> valid_host_label (map lower_char l)"
  by (auto simp: valid_host_label_def list_all_iff hd_map last_map special_chars lower_char_alnum)

lemma host_chars:
  assumes "list_all valid_host_label (split_char (CHR ''.'') h)" "c \<in> set h"
  shows "is_alnum_char c \<or> c = CHR ''-'' \<or> c = CHR ''.''"
proof -
  have "set (join [CHR ''.''] ws) \<subseteq> insert (CHR ''.'') (\<Union>w \<in> set ws. set w)" for ws
  proof (induction ws)
    case (Cons w ws)
    then show ?case by (cases ws) auto
  qed simp
  from this[of "split_char (CHR ''.'') h"] assms(2) have "c = CHR ''.'' \<or> (\<exists>w \<in> set (split_char (CHR ''.'') h). c \<in> set w)"
    by (auto simp: join_split_char)
  then show ?thesis using assms(1) by (auto simp: list_all_iff valid_host_label_def)
qed

lemma trim_suffix_last_label:
  assumes "list_all valid_host_label (split_char (CHR ''.'') h)"
  shows "trim_suffix h ''.'' = h"
proof -
  have "\<not> has_suffix h ''.''"
  proof
    assume "has_suffix h ''.''"
    then obtain g where g: "h = g @ ''.''"
      unfolding has_suffix_def has_prefix_iff by (metis rev_append rev_rev_ident rev_is_rev_conv)
    have "split_char (CHR ''.'') (g @ ''.'') = split_char (CHR ''.'') g @ [[]]"
      by (induction g) (auto split: list.splits)
    then show False using assms by (simp add: g valid_host_label_def)
  qed
  then show ?thesis by (simp add: trim_suffix_def)
qed

interpretation host_list: list_contract normalize_source_host
proof
  fix e n assume e: "normalize_source_host e = Some n"
  define h where "h = trim_suffix e ''.''"
  from e have h: "h \<noteq> ''''" "length h \<le> 253"
    "list_all valid_host_label (split_char (CHR ''.'') h)" "\<not> list_all is_digit_char (last (split_char (CHR ''.'') h))"
    "\<not> (to_lower h = ''localhost'' \<or> has_suffix (to_lower h) ''.localhost'' \<or> to_lower h = ''localhost.localdomain'')"
    "n = to_lower h"
    unfolding normalize_source_host_def Let_def h_def[symmetric] by (simp_all only: split: if_splits) (simp_all)
  have asc: "list_all ascii_char h" and pl: "list_all plain_char h"
  proof -
    have "ascii_char (CHR ''-'')" "plain_char (CHR ''-'')" "ascii_char (CHR ''.'')" "plain_char (CHR ''.'')" by code_simp+
    then show "list_all ascii_char h" "list_all plain_char h"
      using host_chars[OF h(3)] alnum_ascii by (auto simp: list_all_iff)
  qed
  have n: "n = map lower_char h" using h(6) to_lower_ascii[OF asc] by simp
  have lab: "split_char (CHR ''.'') n = map (map lower_char) (split_char (CHR ''.'') h)"
    unfolding n by (rule split_char_map) (rule special_chars(2))
  have valid: "list_all valid_host_label (split_char (CHR ''.'') n)"
    using h(3) valid_host_label_lower unfolding lab by (auto simp: list_all_iff)
  have low: "to_lower n = n"
  proof -
    have "list_all ascii_char n" using asc lower_char_ascii by (auto simp: n list_all_iff)
    from to_lower_ascii[OF this] show ?thesis by (simp add: n lower_char_idem)
  qed
  have dig: "\<not> list_all is_digit_char (last (split_char (CHR ''.'') n))"
    using h(4) unfolding lab by (simp add: last_map list_all_iff lower_char_digit)
  show "normalize_source_host n = Some n"
    using h(1,2) h(5)[folded h(6)] valid dig low trim_suffix_last_label[OF valid]
    unfolding normalize_source_host_def Let_def by (simp add: n)
  have "list_all plain_char n"
  proof -
    have "\<And>c. c \<in> set n \<Longrightarrow> is_alnum_char c \<or> c = CHR ''-'' \<or> c = CHR ''.''" using host_chars[OF valid] by blast
    moreover have "plain_char (CHR ''-'')" "plain_char (CHR ''.'')" by code_simp+
    ultimately show ?thesis using alnum_ascii by (auto simp: list_all_iff)
  qed
  then show "n \<noteq> [] \<and> list_all plain_char n" using h(1) by (simp add: n)
qed

end
