(* ===== verification/Categories.thy ===== *)
theory Categories
  imports Prelude
begin

text \<open>
  The categories of a group and their re-check days (modules/constants.go,
  modules/mailengine/recheck.go): the known categories, the default number of
  days per category, and the lookup in the configured days.
\<close>

definition category_ip_blocked :: string where "category_ip_blocked = ''ip_blocked''"
definition category_rate_limited :: string where "category_rate_limited = ''rate_limited''"
definition category_sender_blocked :: string where "category_sender_blocked = ''sender_blocked''"
definition category_auth_failure :: string where "category_auth_failure = ''auth_failure''"
definition category_content_rejected :: string where "category_content_rejected = ''content_rejected''"
definition category_message_too_large :: string where "category_message_too_large = ''message_too_large''"
definition category_server_config :: string where "category_server_config = ''server_config''"
definition category_dns_resolver_failure :: string where "category_dns_resolver_failure = ''dns_resolver_failure''"
definition category_dns_lookup_failure :: string where "category_dns_lookup_failure = ''dns_lookup_failure''"
definition category_unknown_failure :: string where "category_unknown_failure = ''unknown_failure''"
definition category_user_unknown :: string where "category_user_unknown = ''user_unknown''"
definition category_mailbox_full :: string where "category_mailbox_full = ''mailbox_full''"
definition category_mailbox_disabled :: string where "category_mailbox_disabled = ''mailbox_disabled''"
definition category_domain_not_found :: string where "category_domain_not_found = ''domain_not_found''"
definition category_dns_failure_external :: string where "category_dns_failure_external = ''dns_failure_external''"
definition category_delivery_delay :: string where "category_delivery_delay = ''delivery_delay''"
definition category_dmarc_spf_missing :: string where "category_dmarc_spf_missing = ''dmarc_spf_missing''"
definition category_dmarc_dkim_failed :: string where "category_dmarc_dkim_failed = ''dmarc_dkim_failed''"
definition category_dmarc_not_authenticated :: string where
  "category_dmarc_not_authenticated = ''dmarc_not_authenticated''"

lemmas category_defs = category_ip_blocked_def category_rate_limited_def category_sender_blocked_def
  category_auth_failure_def category_content_rejected_def category_message_too_large_def
  category_server_config_def category_dns_resolver_failure_def category_dns_lookup_failure_def
  category_unknown_failure_def category_user_unknown_def category_mailbox_full_def
  category_mailbox_disabled_def category_domain_not_found_def category_dns_failure_external_def
  category_delivery_delay_def category_dmarc_spf_missing_def category_dmarc_dkim_failed_def
  category_dmarc_not_authenticated_def

definition known_categories :: "string list" where
  "known_categories =
     [category_ip_blocked, category_rate_limited, category_sender_blocked, category_auth_failure, category_content_rejected,
      category_message_too_large, category_server_config, category_dns_resolver_failure, category_dns_lookup_failure,
      category_unknown_failure,
      category_dmarc_spf_missing, category_dmarc_dkim_failed, category_dmarc_not_authenticated,
      category_user_unknown, category_mailbox_full, category_mailbox_disabled, category_domain_not_found,
      category_dns_failure_external,
      category_delivery_delay]"

definition is_known_category :: "string \<Rightarrow> bool" where
  "is_known_category s \<longleftrightarrow> s \<in> set known_categories"

section \<open>Re-check days (recheck.go)\<close>

definition min_recheck_days :: int where "min_recheck_days = 1"
definition max_recheck_days :: int where "max_recheck_days = 365"

definition default_recheck_table :: "(string \<times> int) list" where
  "default_recheck_table =
     [(category_ip_blocked, 14), (category_sender_blocked, 14), (category_rate_limited, 7), (category_unknown_failure, 7),
      (category_dmarc_spf_missing, 7), (category_dmarc_dkim_failed, 7), (category_dmarc_not_authenticated, 7),
      (category_user_unknown, 7), (category_mailbox_full, 7), (category_mailbox_disabled, 7),
      (category_domain_not_found, 7), (category_delivery_delay, 7), (category_dns_failure_external, 7),
      (category_dns_lookup_failure, 3), (category_auth_failure, 3), (category_content_rejected, 3),
      (category_message_too_large, 3), (category_server_config, 3), (category_dns_resolver_failure, 3)]"

definition default_recheck_days :: "string \<Rightarrow> int" where
  "default_recheck_days c = (case map_of default_recheck_table c of Some d \<Rightarrow> d | None \<Rightarrow> 7)"

text \<open>\<^verbatim>\<open>RecheckDays.For\<close>.\<close>

definition recheck_days_for :: "(string \<rightharpoonup> int) \<Rightarrow> string \<Rightarrow> int" where
  "recheck_days_for r c =
     (case r c of Some d \<Rightarrow> if min_recheck_days \<le> d then d else default_recheck_days c
                | None \<Rightarrow> default_recheck_days c)"

lemma known_categories_distinct: "distinct known_categories"
  by code_simp

lemma default_recheck_days_bounds:
  "min_recheck_days \<le> default_recheck_days c" "default_recheck_days c \<le> max_recheck_days"
proof -
  have "list_all (\<lambda>(c, d). min_recheck_days \<le> d \<and> d \<le> max_recheck_days) default_recheck_table" by code_simp
  then have "map_of default_recheck_table c = Some d \<Longrightarrow> min_recheck_days \<le> d \<and> d \<le> max_recheck_days" for d
    by (auto simp: list_all_iff dest: map_of_SomeD)
  then show "min_recheck_days \<le> default_recheck_days c" "default_recheck_days c \<le> max_recheck_days"
    by (auto simp: default_recheck_days_def min_recheck_days_def max_recheck_days_def split: option.splits)
qed

text \<open>A group is always re-checked at least one day after its state change.\<close>

lemma recheck_days_for_pos: "min_recheck_days \<le> recheck_days_for r c"
  using default_recheck_days_bounds(1) by (simp add: recheck_days_for_def split: option.splits)

end
