(* ===== verification/Agent_Check.thy ===== *)
theory Agent_Check
  imports Job_Manager
begin

text \<open>
  The agent providers as the settings see them (modules/agent/registry.go,
  model.go and reasoning.go): the registry the providers add themselves to, the
  launch command of a provider, and the checks of a model name and a reasoning
  level. The two optional interfaces \<^verbatim>\<open>ModelSelector\<close> and \<^verbatim>\<open>ReasoningSelector\<close> are
  option fields of a provider. What the providers themselves answer (their
  command, models and levels) is data of the record; whether a command is on the
  PATH of the machine is a parameter.
\<close>

section \<open>Providers and their registry (registry.go)\<close>

record model_selector =
  ms_option :: string
  ms_args :: "string \<Rightarrow> string list"
  ms_models :: "string list"

record reasoning_selector =
  rs_option :: string
  rs_args :: "string \<Rightarrow> string list"
  rs_levels :: "(string \<times> string list) list"   \<comment> \<open>a Go map: one entry a model\<close>

record provider =
  pv_name :: string
  pv_label :: string
  pv_command :: "string list"
  pv_model :: "model_selector option"
  pv_reasoning :: "reasoning_selector option"

record registry =
  rg_list :: "provider list"
  rg_by_name :: "string \<rightharpoonup> provider"

definition empty_registry :: registry where
  "empty_registry = \<lparr>rg_list = [], rg_by_name = Map.empty\<rparr>"

text \<open>The first provider of a name is removed from the list.\<close>

fun remove_named :: "string \<Rightarrow> provider list \<Rightarrow> provider list" where
  "remove_named n [] = []"
| "remove_named n (p # ps) = (if pv_name p = n then ps else p # remove_named n ps)"

text \<open>None is the panic of an empty name.\<close>

definition register_provider :: "provider \<Rightarrow> registry \<Rightarrow> registry option" where
  "register_provider p r =
     (if pv_name p = '''' then None
      else let kept = (if rg_by_name r (pv_name p) \<noteq> None then remove_named (pv_name p) (rg_list r) else rg_list r)
        in Some \<lparr>rg_list = sort_key pv_name (kept @ [p]), rg_by_name = (rg_by_name r)(pv_name p \<mapsto> p)\<rparr>)"

definition default_provider :: string where "default_provider = ''codex''"

definition lookup_provider :: "registry \<Rightarrow> string \<Rightarrow> provider option" where
  "lookup_provider r n = rg_by_name r (if n = '''' then default_provider else n)"

definition command_available :: "(string \<Rightarrow> bool) \<Rightarrow> string list \<Rightarrow> bool" where
  "command_available on_path argv = (case argv of [] \<Rightarrow> False | c # _ \<Rightarrow> on_path c)"

definition is_valid_provider :: "registry \<Rightarrow> string \<Rightarrow> bool" where
  "is_valid_provider r n \<longleftrightarrow> rg_by_name r n \<noteq> None"

definition provider_available :: "registry \<Rightarrow> (string \<Rightarrow> bool) \<Rightarrow> string \<Rightarrow> bool" where
  "provider_available r on_path n =
     (case rg_by_name r n of None \<Rightarrow> False | Some p \<Rightarrow> command_available on_path (pv_command p))"

section \<open>Models (model.go)\<close>

definition max_model_length :: nat where "max_model_length = 100"

text \<open>\<^verbatim>\<open>modelRe\<close>.\<close>

definition model_matches :: "string \<Rightarrow> bool" where
  "model_matches s \<longleftrightarrow>
     s \<noteq> [] \<and> is_alnum_char (hd s) \<and>
     list_all (\<lambda>c. is_alnum_char c \<or> c \<in> set ''._:/@+-'') (tl s)"

definition validate_model :: "string \<Rightarrow> go_error option" where
  "validate_model model =
     (if model = '''' then None
      else if max_model_length < length model \<or> \<not> model_matches model
      then Some (Keyed ''validation.agent.modelInvalid''
        ''agent model must be at most 100 characters of letters, digits and . _ : / @ + - (starting with a letter or digit)'')
      else None)"

definition provider_command :: "provider \<Rightarrow> string \<Rightarrow> string \<Rightarrow> string list" where
  "provider_command p model reasoning =
     (let m = trim_space model; l = trim_space reasoning
      in pv_command p
         @ (case pv_model p of None \<Rightarrow> [] | Some s \<Rightarrow> if m \<noteq> '''' then ms_args s m else [])
         @ (case pv_reasoning p of None \<Rightarrow> [] | Some s \<Rightarrow> if l \<noteq> '''' then rs_args s l else []))"

definition model_info :: "provider \<Rightarrow> string \<times> string list" where
  "model_info p = (case pv_model p of None \<Rightarrow> ('''', []) | Some s \<Rightarrow> (ms_option s, ms_models s))"

definition provider_supports_model :: "registry \<Rightarrow> string \<Rightarrow> bool" where
  "provider_supports_model r n =
     (case lookup_provider r n of None \<Rightarrow> False | Some p \<Rightarrow> pv_model p \<noteq> None)"

section \<open>Reasoning levels (reasoning.go)\<close>

definition max_reasoning_length :: nat where "max_reasoning_length = 20"

text \<open>\<^verbatim>\<open>reasoningRe\<close>.\<close>

definition reasoning_matches :: "string \<Rightarrow> bool" where
  "reasoning_matches s \<longleftrightarrow> s \<noteq> [] \<and> list_all is_lower_char s"

definition validate_reasoning_effort :: "string \<Rightarrow> go_error option" where
  "validate_reasoning_effort level =
     (if level = '''' then None
      else if max_reasoning_length < length level \<or> \<not> reasoning_matches level
      then Some (Keyed ''validation.agent.reasoningInvalid'' ''agent reasoning effort must be at most 20 lower-case letters'')
      else None)"

text \<open>The levels of every model, the models by name, each level once.\<close>

fun add_levels :: "string list \<Rightarrow> string list \<Rightarrow> string list" where
  "add_levels [] out = out"
| "add_levels (l # ls) out = add_levels ls (if l \<in> set out then out else out @ [l])"

definition union_levels :: "(string \<times> string list) list \<Rightarrow> string list" where
  "union_levels known =
     fold (\<lambda>n out. add_levels (case map_of known n of None \<Rightarrow> [] | Some ls \<Rightarrow> ls) out) (sort (map fst known)) []"

text \<open>The levels a level is checked against: none when nothing is known.\<close>

definition accepted_levels :: "reasoning_selector \<Rightarrow> string \<Rightarrow> string list" where
  "accepted_levels s model =
     (if model \<noteq> '''' then (case map_of (rs_levels s) model of None \<Rightarrow> [] | Some ls \<Rightarrow> ls)
      else union_levels (rs_levels s))"

definition check_reasoning_effort :: "registry \<Rightarrow> string \<Rightarrow> string \<Rightarrow> string \<Rightarrow> go_error option" where
  "check_reasoning_effort r prov model level =
     (let level = trim_space level
      in case validate_reasoning_effort level of
           Some e \<Rightarrow> Some e
         | None \<Rightarrow>
             if level = '''' then None
             else case lookup_provider r prov of
                 None \<Rightarrow> Some (Keyed ''validation.agent.providerUnknown'' (''unknown agent provider '' @ go_quote prov))
               | Some p \<Rightarrow>
                   (case pv_reasoning p of
                      None \<Rightarrow> Some (Keyed ''validation.agent.reasoningUnsupported''
                        (''agent provider '' @ go_quote (pv_name p) @ '' does not accept a reasoning effort''))
                    | Some s \<Rightarrow>
                        (let model = trim_space model; accepted = accepted_levels s model
                         in if accepted = [] \<or> level \<in> set accepted then None
                            else if model = ''''
                            then Some (Keyed ''validation.agent.reasoningInvalid''
                              (''agent reasoning effort '' @ go_quote level @ '' is not accepted by any known model (accepted: ''
                               @ join '', '' accepted @ '')''))
                            else Some (Keyed ''validation.agent.reasoningInvalid''
                              (''agent reasoning effort '' @ go_quote level @ '' is not accepted by model '' @ go_quote model
                               @ '' (accepted: '' @ join '', '' accepted @ '')'')))))"

definition reasoning_info :: "provider \<Rightarrow> string \<times> (string \<times> string list) list" where
  "reasoning_info p = (case pv_reasoning p of None \<Rightarrow> ('''', []) | Some s \<Rightarrow> (rs_option s, rs_levels s))"

definition provider_supports_reasoning :: "registry \<Rightarrow> string \<Rightarrow> bool" where
  "provider_supports_reasoning r n =
     (case lookup_provider r n of None \<Rightarrow> False | Some p \<Rightarrow> pv_reasoning p \<noteq> None)"

section \<open>Facts\<close>

text \<open>The list holds the providers of the map, each name once, in name order.\<close>

definition registry_ok :: "registry \<Rightarrow> bool" where
  "registry_ok r \<longleftrightarrow>
     sorted (map pv_name (rg_list r)) \<and> distinct (map pv_name (rg_list r)) \<and>
     (\<forall>n. rg_by_name r n = List.find (\<lambda>p. pv_name p = n) (rg_list r)) \<and>
     (\<forall>p \<in> set (rg_list r). pv_name p \<noteq> '''')"

lemma empty_registry_ok: "registry_ok empty_registry"
  by (simp add: registry_ok_def empty_registry_def)

lemma remove_named_filter:
  "distinct (map pv_name ps) \<Longrightarrow> remove_named n ps = filter (\<lambda>p. pv_name p \<noteq> n) ps"
  by (induction ps) (auto simp: filter_id_conv image_iff intro!: sym[OF filter_True])

lemma find_distinct:
  "distinct (map f xs) \<Longrightarrow> List.find (\<lambda>x. f x = k) xs = Some x \<longleftrightarrow> x \<in> set xs \<and> f x = k"
  by (induction xs) (auto simp: image_iff)

lemma option_eqI: "(\<And>x. a = Some x \<longleftrightarrow> b = Some x) \<Longrightarrow> a = b"
  by (cases a; cases b) auto

text \<open>Registering keeps the registry in order, whatever was registered before.\<close>

lemma register_provider_ok:
  assumes ok: "registry_ok r" and reg: "register_provider p r = Some r'"
  shows "registry_ok r'"
proof -
  let ?kept = "filter (\<lambda>q. pv_name q \<noteq> pv_name p) (rg_list r)"
  from ok have d: "distinct (map pv_name (rg_list r))"
    and m: "\<And>n. rg_by_name r n = List.find (\<lambda>q. pv_name q = n) (rg_list r)"
    and ne: "\<forall>q \<in> set (rg_list r). pv_name q \<noteq> ''''"
    by (simp_all add: registry_ok_def)
  have kept: "(if rg_by_name r (pv_name p) \<noteq> None then remove_named (pv_name p) (rg_list r) else rg_list r) = ?kept"
    by (auto simp: m remove_named_filter[OF d] find_None_iff2 intro!: sym[OF filter_True])
  have r': "r' = \<lparr>rg_list = sort_key pv_name (?kept @ [p]), rg_by_name = (rg_by_name r)(pv_name p \<mapsto> p)\<rparr>"
    and pn: "pv_name p \<noteq> ''''"
    using reg unfolding register_provider_def kept by (auto simp: Let_def split: if_splits)
  have dk: "distinct (map pv_name (?kept @ [p]))"
    using d by (auto simp: distinct_map inj_on_def)
  have ds: "distinct (map pv_name (sort_key pv_name (?kept @ [p])))"
    using dk by (metis distinct_map distinct_sort set_sort)
  have "((rg_by_name r)(pv_name p \<mapsto> p)) n = List.find (\<lambda>q. pv_name q = n) (sort_key pv_name (?kept @ [p]))" for n
    by (rule option_eqI)
       (auto simp: find_distinct[OF ds] find_distinct[OF d] m)
  then show ?thesis
    unfolding registry_ok_def r' using ds ne pn by auto
qed

lemma union_levels_distinct_aux:
  "distinct out \<Longrightarrow> distinct (add_levels ls out) \<and> set (add_levels ls out) = set out \<union> set ls"
  by (induction ls arbitrary: out) auto

lemma union_levels_set:
  "distinct (map fst known) \<Longrightarrow>
     distinct (union_levels known) \<and> set (union_levels known) = (\<Union>(m, ls) \<in> set known. set ls)"
proof -
  assume d: "distinct (map fst known)"
  let ?f = "\<lambda>n out. add_levels (case map_of known n of None \<Rightarrow> [] | Some ls \<Rightarrow> ls) out"
  let ?ls = "\<lambda>n. case map_of known n of None \<Rightarrow> [] | Some ls \<Rightarrow> ls"
  have f: "distinct out \<Longrightarrow> distinct (fold ?f ns out) \<and> set (fold ?f ns out) = set out \<union> (\<Union>n \<in> set ns. set (?ls n))" for ns out
  proof (induction ns arbitrary: out)
    case (Cons n ns)
    from Cons.IH[of "?f n out"] union_levels_distinct_aux[OF Cons.prems, of "?ls n"] show ?case by auto
  qed simp
  have "(\<Union>n \<in> fst ` set known. set (?ls n)) = (\<Union>(m, ls) \<in> set known. set ls)"
    using d by (force simp: split: option.splits dest: map_of_SomeD)
  then show ?thesis using f[of "[]" "sort (map fst known)"] by (simp add: union_levels_def)
qed

end
