(* ===== verification/Settings.thy ===== *)
theory Settings
  imports List_Setting Categories Agent_Check "HOL-Library.AList"
begin

text \<open>
  The settings (modules/settings.go, modules/settingslock.go): reading a setting
  with its default, the checks of every setting, the changes a request gathers
  (\<^verbatim>\<open>SettingsUpdate\<close>) and the functions that save them. Log lines are left out.

  A reader is \<open>store \<Rightarrow> 'a \<times> store\<close>: it cannot fail (a failed read counts as no
  row) but uses up the schedule of failures. The settings lock makes each saving
  function one atomic step, which is how they are modelled. A Go map argument
  (re-check days per category) is an association list with distinct keys in the
  order in which the map happens to be walked.
\<close>

type_synonym 'a reader = "store \<Rightarrow> 'a \<times> store"

definition act_read :: "'a reader \<Rightarrow> 'a act" where
  "act_read f s = (case f s of (x, t) \<Rightarrow> (Inr x, t))"

section \<open>Keys and defaults (constants.go)\<close>

definition setting_web_listen :: string where "setting_web_listen = ''web_listen''"
definition setting_web_port :: string where "setting_web_port = ''web_port''"
definition setting_check_times :: string where "setting_check_times = ''check_times''"
definition setting_agent_provider :: string where "setting_agent_provider = ''agent_provider''"
definition setting_agent_model :: string where "setting_agent_model = ''agent_model''"
definition setting_agent_reasoning :: string where "setting_agent_reasoning = ''agent_reasoning_effort''"
definition setting_agent_enabled :: string where "setting_agent_enabled = ''agent_enabled''"
definition setting_agent_keep_days :: string where "setting_agent_keep_days = ''agent_keep_days''"
definition setting_mail_keep_days :: string where "setting_mail_keep_days = ''mail_keep_days''"
definition setting_cookie_ttl_hours :: string where "setting_cookie_ttl_hours = ''cookie_ttl_hours''"
definition setting_workers :: string where "setting_workers = ''workers''"
definition setting_recheck_days :: string where "setting_recheck_days = ''recheck_days''"
definition setting_cleanup_time :: string where "setting_cleanup_time = ''cleanup_time''"
definition setting_cleanup_last_run_date :: string where "setting_cleanup_last_run_date = ''cleanup_last_run_date''"
definition setting_agent_limited_until :: string where "setting_agent_limited_until = ''agent_limited_until''"
definition setting_dns_check_enabled :: string where "setting_dns_check_enabled = ''dns_check_enabled''"
definition setting_dns_check_resolvers :: string where "setting_dns_check_resolvers = ''dns_check_resolvers''"
definition setting_dns_check_system_only :: string where
  "setting_dns_check_system_only = ''dns_check_system_resolver_only''"

definition default_web_listen_addr :: string where "default_web_listen_addr = ''0.0.0.0''"
definition default_web_port :: int where "default_web_port = 9790"
definition default_cookie_ttl_hours :: int where "default_cookie_ttl_hours = 720"
definition default_agent_keep_days :: int where "default_agent_keep_days = 30"
definition min_agent_keep_days :: int where "min_agent_keep_days = 1"
definition max_agent_keep_days :: int where "max_agent_keep_days = 365"
definition default_mail_keep_days :: int where "default_mail_keep_days = 180"
definition min_mail_keep_days :: int where "min_mail_keep_days = 1"
definition max_mail_keep_days :: int where "max_mail_keep_days = 3650"

definition default_dns_check_resolvers :: "string list" where
  "default_dns_check_resolvers = [''1.1.1.1'', ''8.8.8.8'', ''9.9.9.9'']"

section \<open>Reading with a default\<close>

definition resolve_str :: "string \<Rightarrow> string \<Rightarrow> string \<Rightarrow> string reader" where
  "resolve_str key arg fallback s =
     (if arg \<noteq> '''' then (arg, s)
      else case get_setting key s of (saved, t) \<Rightarrow> (if saved \<noteq> '''' then saved else fallback, t))"

definition resolve_int :: "string \<Rightarrow> int \<Rightarrow> int \<Rightarrow> int reader" where
  "resolve_int key arg fallback s =
     (if arg \<noteq> 0 then (arg, s)
      else case get_setting key s of (saved, t) \<Rightarrow>
          (if saved = '''' then fallback
           else case atoi saved of Some v \<Rightarrow> if 0 < v then v else fallback | None \<Rightarrow> fallback, t))"

definition resolve_bool :: "string \<Rightarrow> bool \<Rightarrow> bool reader" where
  "resolve_bool key fallback s =
     (case get_setting key s of (v, t) \<Rightarrow> (if v = ''1'' then True else if v = ''0'' then False else fallback, t))"

text \<open>A value that is read with its presence and parsed; the default when it is absent, unreadable or invalid.\<close>

definition resolve_parsed :: "string \<Rightarrow> (string \<Rightarrow> go_error + 'a) \<Rightarrow> 'a \<Rightarrow> 'a reader" where
  "resolve_parsed key parse fallback s =
     (case get_setting_strict key s of
        (Inl _, t) \<Rightarrow> (fallback, t)
      | (Inr (saved, found), t) \<Rightarrow>
          (if \<not> found then fallback else case parse saved of Inl _ \<Rightarrow> fallback | Inr x \<Rightarrow> x, t))"

definition resolve_web_listen :: "string \<Rightarrow> string reader" where
  "resolve_web_listen arg = resolve_str setting_web_listen arg default_web_listen_addr"

definition resolve_web_port :: "int \<Rightarrow> int reader" where
  "resolve_web_port arg = resolve_int setting_web_port arg default_web_port"

definition resolve_cookie_ttl_hours :: "int reader" where
  "resolve_cookie_ttl_hours = resolve_int setting_cookie_ttl_hours 0 default_cookie_ttl_hours"

definition parse_web_listen :: "string \<Rightarrow> go_error + string" where
  "parse_web_listen raw =
     (let s0 = trim_space raw
      in if s0 = '''' then Inr default_web_listen_addr
         else let s = (if has_prefix s0 ''['' \<and> has_suffix s0 '']'' then take (length s0 - 2) (drop 1 s0) else s0)
           in if parse_addr s \<noteq> None then Inr s
              else let h = trim_suffix s ''.''
                in if h \<noteq> '''' \<and> length h \<le> 253 \<and> list_all valid_host_label (split_char (CHR ''.'') h) then Inr h
                   else Inl (Keyed ''validation.connection.hostInvalid''
                     (''web_listen '' @ go_quote s @ '' must be an IP address or a host name'')))"

section \<open>Writing\<close>

text \<open>\<^verbatim>\<open>persistLocked\<close> and \<^verbatim>\<open>persistOrLog\<close>, whose error is only logged.\<close>

definition persist_locked :: "string \<Rightarrow> string \<Rightarrow> bool \<Rightarrow> unit act" where
  "persist_locked key v is_default = persist_setting key v is_default"

definition persist_or_log :: "string \<Rightarrow> string \<Rightarrow> bool \<Rightarrow> store \<Rightarrow> store" where
  "persist_or_log key v is_default s = snd (persist_locked key v is_default s)"

definition save_server_settings :: "string \<Rightarrow> int \<Rightarrow> store \<Rightarrow> store" where
  "save_server_settings listen port s =
     persist_or_log setting_web_port (itoa port) (port = default_web_port)
       (persist_or_log setting_web_listen listen (listen = default_web_listen_addr) s)"

text \<open>
  \<^verbatim>\<open>UpdateSettings\<close>: \<open>fill\<close> gathers the writes and may hand out a value; nothing is
  written when it fails.
\<close>

definition update_settings :: "(setting_write list \<Rightarrow> (setting_write list \<times> 'a) act) \<Rightarrow> 'a act" where
  "update_settings fill =
     act_bind (fill []) (\<lambda>(u, x). act_bind (persist_settings u) (\<lambda>_. act_return x))"

definition upd_set :: "string \<Rightarrow> string \<Rightarrow> bool \<Rightarrow> setting_write list \<Rightarrow> setting_write list" where
  "upd_set key v is_default u = u @ [\<lparr>sw_key = key, sw_value = v, sw_default = is_default\<rparr>]"

section \<open>Workers\<close>

definition parse_workers :: "string \<Rightarrow> go_error + int" where
  "parse_workers s =
     (case atoi (trim_space s) of
        Some n \<Rightarrow> if n < 1 \<or> max_workers < n
                  then Inl (Keyed ''validation.common.numberOutOfRange''
                         (''workers must be an integer between 1 and '' @ itoa max_workers)) else Inr n
      | None \<Rightarrow> Inl (Keyed ''validation.common.numberOutOfRange''
                      (''workers must be an integer between 1 and '' @ itoa max_workers)))"

definition resolve_workers :: "int reader" where
  "resolve_workers s = (case resolve_int setting_workers 0 default_workers s of (n, t) \<Rightarrow> (clamp_workers n, t))"

definition upd_workers :: "int \<Rightarrow> setting_write list \<Rightarrow> setting_write list" where
  "upd_workers n u = (let n' = clamp_workers n in upd_set setting_workers (itoa n') (n' = default_workers) u)"

definition save_workers :: "int \<Rightarrow> unit act" where
  "save_workers n = update_settings (\<lambda>u. act_return (upd_workers n u, ()))"

section \<open>The agent\<close>

definition agent_provider_empty :: go_error where
  "agent_provider_empty = Keyed ''validation.agent.providerUnknown'' ''agent provider must not be empty''"

definition resolve_agent_provider :: "string reader" where
  "resolve_agent_provider = resolve_str setting_agent_provider '''' default_provider"

definition resolve_agent_model :: "string reader" where
  "resolve_agent_model s =
     (case get_setting setting_agent_model s of (v, t) \<Rightarrow>
        (let model = trim_space v in if validate_model model \<noteq> None then '''' else model, t))"

definition resolve_agent_reasoning :: "string reader" where
  "resolve_agent_reasoning s =
     (case get_setting setting_agent_reasoning s of (v, t) \<Rightarrow>
        (let level = trim_space v in if validate_reasoning_effort level \<noteq> None then '''' else level, t))"

definition check_agent_settings :: "registry \<Rightarrow> string \<Rightarrow> string \<Rightarrow> string \<Rightarrow> go_error option" where
  "check_agent_settings reg provider model level =
     (case validate_model (trim_space model) of
        Some e \<Rightarrow> Some e
      | None \<Rightarrow> check_reasoning_effort reg provider model level)"

text \<open>
  The combination a change gives with the saved one (None = unchanged): another
  provider clears the model and the level it does not set.
\<close>

definition merge_agent_settings :: "string option \<Rightarrow> string option \<Rightarrow> string option \<Rightarrow> string \<Rightarrow> string \<Rightarrow> string
    \<Rightarrow> go_error + string \<times> string \<times> string" where
  "merge_agent_settings provider model level fp fm fl =
     (let name = (case provider of None \<Rightarrow> fp | Some p \<Rightarrow> trim_space p);
          cleared = (name \<noteq> fp);
          m = (case model of Some m \<Rightarrow> trim_space m | None \<Rightarrow> if cleared then '''' else fm);
          l = (case level of Some l \<Rightarrow> trim_space l | None \<Rightarrow> if cleared then '''' else fl)
      in if provider \<noteq> None \<and> name = '''' then Inl agent_provider_empty else Inr (name, m, l))"

definition agent_writes :: "string \<Rightarrow> string \<Rightarrow> string \<Rightarrow> setting_write list \<Rightarrow> setting_write list" where
  "agent_writes p m l u =
     upd_set setting_agent_reasoning l (l = '''')
       (upd_set setting_agent_model m (m = '''')
         (upd_set setting_agent_provider p (p = default_provider) u))"

definition upd_agent_settings :: "registry \<Rightarrow> string option \<Rightarrow> string option \<Rightarrow> string option \<Rightarrow> setting_write list
    \<Rightarrow> setting_write list act" where
  "upd_agent_settings reg provider model level u =
     act_bind (act_read resolve_agent_provider) (\<lambda>fp.
     act_bind (act_read resolve_agent_model) (\<lambda>fm.
     act_bind (act_read resolve_agent_reasoning) (\<lambda>fl.
       case merge_agent_settings provider model level fp fm fl of
         Inl e \<Rightarrow> act_fail e
       | Inr (p, m, l) \<Rightarrow>
           (case check_agent_settings reg p m l of
              Some e \<Rightarrow> act_fail e
            | None \<Rightarrow> act_return (agent_writes p m l u)))))"

definition save_agent_settings :: "registry \<Rightarrow> string option \<Rightarrow> string option \<Rightarrow> string option \<Rightarrow> unit act" where
  "save_agent_settings reg provider model level =
     update_settings (\<lambda>u. act_bind (upd_agent_settings reg provider model level u) (\<lambda>u'. act_return (u', ())))"

definition set_agent_provider :: "string \<Rightarrow> unit act" where
  "set_agent_provider raw =
     (let name = trim_space raw
      in if name = '''' then act_fail agent_provider_empty
         else update_settings (\<lambda>u. act_bind (act_read resolve_agent_provider) (\<lambda>cur.
                act_return (upd_set setting_agent_provider name (name = default_provider)
                  (if name \<noteq> cur then upd_set setting_agent_reasoning '''' True (upd_set setting_agent_model '''' True u)
                   else u), ()))))"

definition set_agent_model :: "registry \<Rightarrow> string \<Rightarrow> unit act" where
  "set_agent_model reg raw =
     (let model = trim_space raw
      in case validate_model model of
           Some e \<Rightarrow> act_fail e
         | None \<Rightarrow>
             act_bind (act_read resolve_agent_provider) (\<lambda>p.
             act_bind (act_read resolve_agent_reasoning) (\<lambda>l.
               case check_agent_settings reg p model l of
                 Some e \<Rightarrow> act_fail e
               | None \<Rightarrow> persist_setting setting_agent_model model (model = ''''))))"

definition set_agent_reasoning :: "registry \<Rightarrow> string \<Rightarrow> unit act" where
  "set_agent_reasoning reg raw =
     (let level = trim_space raw
      in act_bind (act_read resolve_agent_provider) (\<lambda>p.
         act_bind (act_read resolve_agent_model) (\<lambda>m.
           case check_agent_settings reg p m level of
             Some e \<Rightarrow> act_fail e
           | None \<Rightarrow> persist_setting setting_agent_reasoning level (level = ''''))))"

definition resolve_agent_enabled :: "bool reader" where
  "resolve_agent_enabled s = (case get_setting setting_agent_enabled s of (v, t) \<Rightarrow> (v \<noteq> ''0'', t))"

definition upd_agent_enabled :: "bool \<Rightarrow> setting_write list \<Rightarrow> setting_write list" where
  "upd_agent_enabled enabled u = upd_set setting_agent_enabled ''0'' enabled u"

definition set_agent_enabled :: "bool \<Rightarrow> unit act" where
  "set_agent_enabled enabled = update_settings (\<lambda>u. act_return (upd_agent_enabled enabled u, ()))"

section \<open>Retentions\<close>

definition agent_keep_days_invalid :: go_error where
  "agent_keep_days_invalid = Keyed ''validation.common.numberOutOfRange''
     (''agent_keep_days must be an integer between '' @ itoa min_agent_keep_days @ '' and '' @ itoa max_agent_keep_days)"

definition validate_agent_keep_days :: "int \<Rightarrow> go_error option" where
  "validate_agent_keep_days n =
     (if n < min_agent_keep_days \<or> max_agent_keep_days < n then Some agent_keep_days_invalid else None)"

definition parse_agent_keep_days :: "string \<Rightarrow> go_error + int" where
  "parse_agent_keep_days s =
     (case atoi (trim_space s) of
        None \<Rightarrow> Inl agent_keep_days_invalid
      | Some n \<Rightarrow> (case validate_agent_keep_days n of Some e \<Rightarrow> Inl e | None \<Rightarrow> Inr n))"

definition resolve_agent_keep_days :: "int reader" where
  "resolve_agent_keep_days s =
     (case resolve_int setting_agent_keep_days 0 default_agent_keep_days s of (n, t) \<Rightarrow>
        (if validate_agent_keep_days n \<noteq> None then default_agent_keep_days else n, t))"

definition upd_agent_keep_days :: "int \<Rightarrow> setting_write list \<Rightarrow> go_error + setting_write list" where
  "upd_agent_keep_days n u =
     (case validate_agent_keep_days n of
        Some e \<Rightarrow> Inl e
      | None \<Rightarrow> Inr (upd_set setting_agent_keep_days (itoa n) (n = default_agent_keep_days) u))"


definition save_agent_keep_days :: "int \<Rightarrow> unit act" where
  "save_agent_keep_days n =
     update_settings (\<lambda>u. act_bind (act_of (upd_agent_keep_days n u)) (\<lambda>u'. act_return (u', ())))"

definition mail_keep_days_invalid :: go_error where
  "mail_keep_days_invalid = Keyed ''validation.common.numberOutOfRange''
     (''mail_keep_days must be an integer between '' @ itoa min_mail_keep_days @ '' and '' @ itoa max_mail_keep_days)"

definition validate_mail_keep_days :: "int \<Rightarrow> go_error option" where
  "validate_mail_keep_days n =
     (if n < min_mail_keep_days \<or> max_mail_keep_days < n then Some mail_keep_days_invalid else None)"

definition parse_mail_keep_days :: "string \<Rightarrow> go_error + int" where
  "parse_mail_keep_days s =
     (case atoi (trim_space s) of
        None \<Rightarrow> Inl mail_keep_days_invalid
      | Some n \<Rightarrow> (case validate_mail_keep_days n of Some e \<Rightarrow> Inl e | None \<Rightarrow> Inr n))"

definition resolve_mail_keep_days :: "int reader" where
  "resolve_mail_keep_days s =
     (case resolve_int setting_mail_keep_days 0 default_mail_keep_days s of (n, t) \<Rightarrow>
        (if validate_mail_keep_days n \<noteq> None then default_mail_keep_days else n, t))"

definition upd_mail_keep_days :: "int \<Rightarrow> setting_write list \<Rightarrow> go_error + setting_write list" where
  "upd_mail_keep_days n u =
     (case validate_mail_keep_days n of
        Some e \<Rightarrow> Inl e
      | None \<Rightarrow> Inr (upd_set setting_mail_keep_days (itoa n) (n = default_mail_keep_days) u))"

definition save_mail_keep_days :: "int \<Rightarrow> unit act" where
  "save_mail_keep_days n =
     update_settings (\<lambda>u. act_bind (act_of (upd_mail_keep_days n u)) (\<lambda>u'. act_return (u', ())))"

section \<open>Re-check days\<close>

definition recheck_days_invalid :: "string \<Rightarrow> go_error" where
  "recheck_days_invalid c = Keyed ''validation.common.numberOutOfRange''
     (''recheck days of '' @ c @ '' must be an integer between '' @ itoa min_recheck_days @ '' and '' @ itoa max_recheck_days)"

fun validate_recheck_days :: "(string \<times> int) list \<Rightarrow> go_error option" where
  "validate_recheck_days [] = None"
| "validate_recheck_days ((c, n) # ds) =
     (if \<not> is_known_category c
      then Some (invalid_request (''unknown category '' @ go_quote c @ '' in recheck_days''))
      else if n < min_recheck_days \<or> max_recheck_days < n then Some (recheck_days_invalid c)
      else validate_recheck_days ds)"

text \<open>One "category=days" pair, trimmed and not empty.\<close>

definition parse_recheck_part :: "string \<Rightarrow> (string \<times> int) option" where
  "parse_recheck_part part =
     (case cut part ''='' of
        None \<Rightarrow> None
      | Some (c, v) \<Rightarrow> (case atoi (trim_space v) of None \<Rightarrow> None | Some n \<Rightarrow> Some (trim_space c, n)))"

fun recheck_days_loop :: "string list \<Rightarrow> (string \<times> int) list \<Rightarrow> go_error + (string \<times> int) list" where
  "recheck_days_loop [] days = Inr days"
| "recheck_days_loop (raw # raws) days =
     (let part = trim_space raw
      in if part = '''' then recheck_days_loop raws days
         else case parse_recheck_part part of
             None \<Rightarrow> Inl (invalid_request (''invalid recheck_days entry '' @ go_quote part
                       @ '' (use category=days, comma-separated)''))
           | Some (c, n) \<Rightarrow> recheck_days_loop raws (AList.update c n days))"

definition parse_recheck_days :: "string \<Rightarrow> go_error + (string \<times> int) list" where
  "parse_recheck_days s =
     (case recheck_days_loop (split_char (CHR '','') s) [] of
        Inl e \<Rightarrow> Inl e
      | Inr days \<Rightarrow> (case validate_recheck_days days of Some e \<Rightarrow> Inl e | None \<Rightarrow> Inr days))"

definition default_recheck_map :: "string \<rightharpoonup> int" where
  "default_recheck_map = map_of (map (\<lambda>c. (c, default_recheck_days c)) known_categories)"

definition resolve_recheck_days :: "(string \<rightharpoonup> int) reader" where
  "resolve_recheck_days s =
     (case get_setting setting_recheck_days s of (saved, t) \<Rightarrow>
        (if saved = '''' then default_recheck_map
         else case parse_recheck_days saved of Inl _ \<Rightarrow> default_recheck_map
                | Inr parsed \<Rightarrow> default_recheck_map ++ map_of parsed, t))"

definition format_recheck_days :: "(string \<rightharpoonup> int) \<Rightarrow> string" where
  "format_recheck_days days =
     join '','' (concat (map (\<lambda>c. case days c of
        Some n \<Rightarrow> if n \<noteq> default_recheck_days c then [c @ ''='' @ itoa n] else []
      | None \<Rightarrow> []) known_categories))"

definition upd_recheck_days :: "(string \<times> int) list \<Rightarrow> setting_write list \<Rightarrow> setting_write list act" where
  "upd_recheck_days days u =
     (case validate_recheck_days days of
        Some e \<Rightarrow> act_fail e
      | None \<Rightarrow>
          act_bind (act_read resolve_recheck_days) (\<lambda>saved.
            let v = format_recheck_days (saved ++ map_of days)
            in act_return (upd_set setting_recheck_days v (v = '''') u)))"

definition save_recheck_days :: "(string \<times> int) list \<Rightarrow> unit act" where
  "save_recheck_days days =
     update_settings (\<lambda>u. act_bind (upd_recheck_days days u) (\<lambda>u'. act_return (u', ())))"

section \<open>Times of day\<close>

definition resolve_cleanup_time :: "string reader" where
  "resolve_cleanup_time = resolve_parsed setting_cleanup_time parse_cleanup_time default_cleanup_time"

definition upd_cleanup_time :: "string \<Rightarrow> setting_write list \<Rightarrow> go_error + setting_write list \<times> string" where
  "upd_cleanup_time s u =
     (case parse_cleanup_time s of
        Inl e \<Rightarrow> Inl e
      | Inr t \<Rightarrow> Inr (upd_set setting_cleanup_time t (t = default_cleanup_time) u, t))"

definition save_cleanup_time :: "string \<Rightarrow> string act" where
  "save_cleanup_time s = update_settings (\<lambda>u. act_of (upd_cleanup_time s u))"

definition resolve_check_times :: "string list reader" where
  "resolve_check_times =
     resolve_parsed setting_check_times (\<lambda>v. parse_check_times [v]) default_check_time_list"

definition upd_check_times :: "string list \<Rightarrow> setting_write list \<Rightarrow> setting_write list" where
  "upd_check_times ts u =
     (let v = format_check_times ts in upd_set setting_check_times v (v = default_check_times) u)"

definition save_check_times :: "string list \<Rightarrow> unit act" where
  "save_check_times ts = update_settings (\<lambda>u. act_return (upd_check_times ts u, ()))"

section \<open>List settings\<close>

definition upd_list :: "list_setting \<Rightarrow> string list \<Rightarrow> setting_write list \<Rightarrow> go_error + setting_write list" where
  "upd_list ls entries u =
     (case parse_list ls entries of
        Inl e \<Rightarrow> Inl e
      | Inr list \<Rightarrow> (let v = list_text list in Inr (upd_set (ls_key ls) v (v = '''') u)))"

definition save_list :: "list_setting \<Rightarrow> string list \<Rightarrow> unit act" where
  "save_list ls entries =
     update_settings (\<lambda>u. act_bind (act_of (upd_list ls entries u)) (\<lambda>u'. act_return (u', ())))"

definition resolve_saved :: "list_setting \<Rightarrow> string list reader" where
  "resolve_saved ls s =
     (case get_setting (ls_key ls) s of (v, t) \<Rightarrow>
        (case collect_list ls [v] False of Inr list \<Rightarrow> list | Inl _ \<Rightarrow> [], t))"

section \<open>Sending sources\<close>

record sending_source_settings =
  ss_ipv4 :: "string list"
  ss_ipv6 :: "string list"
  ss_hosts :: "string list"
  ss_mailbox_hosts :: "string list"
  ss_mailboxes_without_host :: "string list"

fun add_hosts :: "string list \<Rightarrow> string list \<Rightarrow> string list" where
  "add_hosts [] out = out"
| "add_hosts (h # hs) out = add_hosts hs (if h \<in> set out then out else out @ [h])"

definition all_hosts :: "sending_source_settings \<Rightarrow> string list" where
  "all_hosts src = add_hosts (ss_hosts src @ ss_mailbox_hosts src) []"

definition mailboxes_without_host :: "mailbox list \<Rightarrow> string list" where
  "mailboxes_without_host ms =
     map mb_address (filter (\<lambda>m. normalize_source_host (trim_space (mb_smtp_host m)) = None) ms)"

fun mailbox_hosts_loop :: "mailbox list \<Rightarrow> string list \<Rightarrow> string list" where
  "mailbox_hosts_loop [] out = out"
| "mailbox_hosts_loop (m # ms) out =
     (let raw = trim_space (mb_smtp_host m)
      in if raw = '''' then mailbox_hosts_loop ms out
         else case normalize_source_host raw of
             None \<Rightarrow> mailbox_hosts_loop ms out
           | Some h \<Rightarrow> mailbox_hosts_loop ms (if h \<in> set out then out else out @ [h]))"

definition sending_source_mailbox_hosts :: "mailbox list \<Rightarrow> string list" where
  "sending_source_mailbox_hosts ms = mailbox_hosts_loop ms []"

definition sending_sources_of :: "mailbox list \<Rightarrow> sending_source_settings reader" where
  "sending_sources_of ms s =
     (case resolve_saved sending_source_ipv4_setting s of (v4, s1) \<Rightarrow>
      case resolve_saved sending_source_ipv6_setting s1 of (v6, s2) \<Rightarrow>
      case resolve_saved sending_source_hosts_setting s2 of (hosts, s3) \<Rightarrow>
        (\<lparr>ss_ipv4 = v4, ss_ipv6 = v6, ss_hosts = hosts, ss_mailbox_hosts = sending_source_mailbox_hosts ms,
          ss_mailboxes_without_host = (if hosts = [] then mailboxes_without_host ms else [])\<rparr>, s3))"

definition resolve_sending_sources :: "sending_source_settings act" where
  "resolve_sending_sources =
     act_try list_mailboxes (\<lambda>r. case r of
        Inl e \<Rightarrow> act_fail (Wrapped ''failed to list the mailboxes'' e)
      | Inr ms \<Rightarrow> act_read (sending_sources_of ms))"

section \<open>The verification of DNS lookup failures\<close>

record dns_check_config =
  dc_enabled :: bool
  dc_resolvers :: "string list"
  dc_system_only :: bool

definition resolve_dns_check_resolvers :: "string list reader" where
  "resolve_dns_check_resolvers =
     resolve_parsed setting_dns_check_resolvers (\<lambda>v. collect_list dns_check_resolvers_setting [v] False)
       default_dns_check_resolvers"

definition resolve_dns_check :: "dns_check_config reader" where
  "resolve_dns_check s =
     (case resolve_bool setting_dns_check_enabled True s of (en, s1) \<Rightarrow>
      case resolve_dns_check_resolvers s1 of (rs, s2) \<Rightarrow>
      case resolve_bool setting_dns_check_system_only False s2 of (so, s3) \<Rightarrow>
        (\<lparr>dc_enabled = en, dc_resolvers = rs, dc_system_only = so\<rparr>, s3))"

definition dns_check_no_resolver :: go_error where
  "dns_check_no_resolver = Keyed ''validation.dnsCheck.noResolver''
     ''dns_check_resolvers must list at least one resolver while dns_check_enabled is on and dns_check_system_resolver_only is off''"

definition validate_dns_check :: "bool \<Rightarrow> bool \<Rightarrow> string list \<Rightarrow> go_error option" where
  "validate_dns_check enabled system_only rs =
     (if enabled \<and> \<not> system_only \<and> rs = [] then Some dns_check_no_resolver else None)"

definition check_dns_check_settings :: "bool option \<Rightarrow> string list option \<Rightarrow> bool option \<Rightarrow> dns_check_config act" where
  "check_dns_check_settings enabled rs system_only =
     act_bind (act_read resolve_dns_check) (\<lambda>cfg0.
       let en = (case enabled of Some b \<Rightarrow> b | None \<Rightarrow> dc_enabled cfg0);
           so = (case system_only of Some b \<Rightarrow> b | None \<Rightarrow> dc_system_only cfg0)
       in case (case rs of None \<Rightarrow> Inr (dc_resolvers cfg0) | Some es \<Rightarrow> parse_list dns_check_resolvers_setting es) of
            Inl e \<Rightarrow> act_fail e
          | Inr list \<Rightarrow>
              (case validate_dns_check en so list of
                 Some e \<Rightarrow> act_fail e
               | None \<Rightarrow> act_return \<lparr>dc_enabled = en, dc_resolvers = list, dc_system_only = so\<rparr>))"

definition upd_dns_check :: "bool option \<Rightarrow> string list option \<Rightarrow> bool option \<Rightarrow> setting_write list
    \<Rightarrow> (setting_write list \<times> dns_check_config) act" where
  "upd_dns_check enabled rs system_only u =
     act_bind (check_dns_check_settings enabled rs system_only) (\<lambda>cfg.
       let u1 = (if enabled = None then u else upd_set setting_dns_check_enabled ''0'' (dc_enabled cfg) u);
           u2 = (if rs = None then u1
                 else upd_set setting_dns_check_resolvers (list_text (dc_resolvers cfg))
                        (dc_resolvers cfg = default_dns_check_resolvers) u1);
           u3 = (if system_only = None then u2
                 else upd_set setting_dns_check_system_only ''1'' (\<not> dc_system_only cfg) u2)
       in act_return (u3, cfg))"

definition save_dns_check :: "bool option \<Rightarrow> string list option \<Rightarrow> bool option \<Rightarrow> dns_check_config act" where
  "save_dns_check enabled rs system_only = update_settings (upd_dns_check enabled rs system_only)"

section \<open>The end of the agent's usage limit\<close>

text \<open>
  \<^verbatim>\<open>time.Parse(time.RFC3339, v)\<close>: date and time with optional fractional seconds
  (kept to nanoseconds) and "Z" or an offset.
\<close>

definition parse_fraction :: "string \<Rightarrow> int \<times> string" where
  "parse_fraction s =
     (if 2 \<le> length s \<and> hd s \<in> {CHR ''.'', CHR '',''} \<and> is_digit_char (s ! 1)
      then let ds = takeWhile is_digit_char (tl s); kept = take 9 ds
        in (int (digits_val 0 kept) * 10 ^ (9 - length kept), drop (length ds) (tl s))
      else (0, s))"

definition parse_offset :: "string \<Rightarrow> int option" where
  "parse_offset s =
     (if s = ''Z'' then Some 0
      else case s of
          [] \<Rightarrow> None
        | c # r \<Rightarrow>
            (if c \<noteq> CHR ''+'' \<and> c \<noteq> CHR ''-'' then None
             else case two_digits r of None \<Rightarrow> None | Some (h, r1) \<Rightarrow>
              (case skip_char (CHR '':'') r1 of None \<Rightarrow> None | Some r2 \<Rightarrow>
              (case two_digits r2 of None \<Rightarrow> None | Some (m, r3) \<Rightarrow>
                 if r3 \<noteq> [] \<or> 24 < h \<or> 60 < m then None
                 else Some ((if c = CHR ''-'' then - 1 else 1) * (h * 3600 + m * 60))))))"

definition parse_rfc3339 :: "string \<Rightarrow> time option" where
  "parse_rfc3339 s =
     (case two_digits s of None \<Rightarrow> None | Some (y1, s1) \<Rightarrow>
      (case two_digits s1 of None \<Rightarrow> None | Some (y2, s2) \<Rightarrow>
      (case skip_char (CHR ''-'') s2 of None \<Rightarrow> None | Some s3 \<Rightarrow>
      (case two_digits s3 of None \<Rightarrow> None | Some (mo, s4) \<Rightarrow>
      (case skip_char (CHR ''-'') s4 of None \<Rightarrow> None | Some s5 \<Rightarrow>
      (case two_digits s5 of None \<Rightarrow> None | Some (d, s6) \<Rightarrow>
      (case skip_char (CHR ''T'') s6 of None \<Rightarrow> None | Some s7 \<Rightarrow>
      (case one_or_two_digits s7 of None \<Rightarrow> None | Some (h, s8) \<Rightarrow>
      (case skip_char (CHR '':'') s8 of None \<Rightarrow> None | Some s9 \<Rightarrow>
      (case two_digits s9 of None \<Rightarrow> None | Some (mi, s10) \<Rightarrow>
      (case skip_char (CHR '':'') s10 of None \<Rightarrow> None | Some s11 \<Rightarrow>
      (case two_digits s11 of None \<Rightarrow> None | Some (sec, s12) \<Rightarrow>
        (let y = y1 * 100 + y2; (ns, s13) = parse_fraction s12
         in case parse_offset s13 of None \<Rightarrow> None | Some off \<Rightarrow>
            if 1 \<le> mo \<and> mo \<le> 12 \<and> h < 24 \<and> mi < 60 \<and> sec < 60 \<and> 1 \<le> d \<and> d \<le> days_in_month y mo
            then Some ((days_of_date y mo d * 86400 + h * 3600 + mi * 60 + sec - off) * nanos_per_second + ns)
            else None)))))))))))))"

definition resolve_agent_limited_until :: "time option reader" where
  "resolve_agent_limited_until s =
     (case get_setting setting_agent_limited_until s of (v, t) \<Rightarrow>
        (if trim_space v = '''' then None else parse_rfc3339 (trim_space v), t))"

definition set_agent_limited_until :: "time \<Rightarrow> unit act" where
  "set_agent_limited_until until =
     persist_locked setting_agent_limited_until (format_rfc3339_utc until) (until = zero_time)"

end
