(* ===== verification/Settings_Properties.thy ===== *)
theory Settings_Properties
  imports Settings Job_Properties
begin

text \<open>
  Properties of the settings. The locale \<open>settings_reader\<close> is the contract of a
  reader: it changes no row, and without failures its value depends on the
  settings table alone, as the pure function \<open>val\<close> of the table. Every reader of
  the settings is interpreted, so the properties are proved on tables.
\<close>

section \<open>Readers\<close>

locale settings_reader =
  fixes read :: "'a reader" and val :: "(string \<rightharpoonup> string) \<Rightarrow> 'a"
  assumes rows: "read s = (x, t) \<Longrightarrow> same_rows s t"
    and no_faults: "faults s = [] \<Longrightarrow> read s = (val (settings s), s)"
begin

lemma act_read_rows: "act_read read s = (r, t) \<Longrightarrow> same_rows s t \<and> (\<exists>x. r = Inr x)"
  using rows by (auto simp: act_read_def split: prod.splits)

lemma act_read_no_faults: "faults s = [] \<Longrightarrow> act_read read s = (Inr (val (settings s)), s)"
  using no_faults by (simp add: act_read_def)

end

definition text_of :: "string \<Rightarrow> (string \<rightharpoonup> string) \<Rightarrow> string" where
  "text_of key m = (case m key of None \<Rightarrow> '''' | Some v \<Rightarrow> v)"

definition str_of :: "string \<Rightarrow> string \<Rightarrow> (string \<rightharpoonup> string) \<Rightarrow> string" where
  "str_of key fallback m = (let v = text_of key m in if v \<noteq> '''' then v else fallback)"

definition int_of_setting :: "string \<Rightarrow> int \<Rightarrow> (string \<rightharpoonup> string) \<Rightarrow> int" where
  "int_of_setting key fallback m =
     (let v = text_of key m
      in if v = '''' then fallback else case atoi v of Some n \<Rightarrow> if 0 < n then n else fallback | None \<Rightarrow> fallback)"

definition bool_of :: "string \<Rightarrow> bool \<Rightarrow> (string \<rightharpoonup> string) \<Rightarrow> bool" where
  "bool_of key fallback m = (let v = text_of key m in if v = ''1'' then True else if v = ''0'' then False else fallback)"

definition parsed_of :: "string \<Rightarrow> (string \<Rightarrow> go_error + 'a) \<Rightarrow> 'a \<Rightarrow> (string \<rightharpoonup> string) \<Rightarrow> 'a" where
  "parsed_of key parse fallback m =
     (case m key of None \<Rightarrow> fallback | Some v \<Rightarrow> (case parse v of Inl _ \<Rightarrow> fallback | Inr x \<Rightarrow> x))"

definition model_of :: "(string \<rightharpoonup> string) \<Rightarrow> string" where
  "model_of m = (let v = trim_space (text_of setting_agent_model m) in if validate_model v \<noteq> None then '''' else v)"

definition reasoning_of :: "(string \<rightharpoonup> string) \<Rightarrow> string" where
  "reasoning_of m =
     (let v = trim_space (text_of setting_agent_reasoning m) in if validate_reasoning_effort v \<noteq> None then '''' else v)"

definition recheck_of :: "(string \<rightharpoonup> string) \<Rightarrow> (string \<rightharpoonup> int)" where
  "recheck_of m =
     (let v = text_of setting_recheck_days m
      in if v = '''' then default_recheck_map
         else case parse_recheck_days v of Inl _ \<Rightarrow> default_recheck_map | Inr p \<Rightarrow> default_recheck_map ++ map_of p)"

definition list_of :: "list_setting \<Rightarrow> (string \<rightharpoonup> string) \<Rightarrow> string list" where
  "list_of ls m = (case collect_list ls [text_of (ls_key ls) m] False of Inr l \<Rightarrow> l | Inl _ \<Rightarrow> [])"

abbreviation resolvers_of :: "(string \<rightharpoonup> string) \<Rightarrow> string list" where
  "resolvers_of \<equiv> parsed_of setting_dns_check_resolvers (\<lambda>v. collect_list dns_check_resolvers_setting [v] False)
     default_dns_check_resolvers"

definition dns_config_of :: "(string \<rightharpoonup> string) \<Rightarrow> dns_check_config" where
  "dns_config_of m = \<lparr>dc_enabled = bool_of setting_dns_check_enabled True m, dc_resolvers = resolvers_of m,
     dc_system_only = bool_of setting_dns_check_system_only False m\<rparr>"

lemma get_setting_val: "faults s = [] \<Longrightarrow> get_setting k s = (text_of k (settings s), s)"
  by (simp add: get_setting_no_faults text_of_def)

lemma get_setting_strict_rows: "get_setting_strict k s = (r, t) \<Longrightarrow> same_rows s t"
  unfolding get_setting_strict_def act_try_def
  by (auto split: prod.splits sum.splits go_error.splits simp: act_fail_def act_return_def dest: query_row_same_rows)

lemma get_setting_strict_val:
  "faults s = [] \<Longrightarrow> get_setting_strict k s
     = (Inr (case settings s k of None \<Rightarrow> ('''', False) | Some v \<Rightarrow> (v, True)), s)"
  by (simp add: get_setting_strict_def act_try_def query_row_no_faults act_fail_def act_return_def split: option.splits)

interpretation str_reader: settings_reader "resolve_str key '''' fallback" "str_of key fallback" for key fallback
  by unfold_locales
     (auto simp: resolve_str_def str_of_def get_setting_val Let_def split: prod.splits dest: get_setting_same_rows)

interpretation int_reader: settings_reader "resolve_int key 0 fallback" "int_of_setting key fallback" for key fallback
  by unfold_locales
     (auto simp: resolve_int_def int_of_setting_def get_setting_val Let_def split: prod.splits dest: get_setting_same_rows)

interpretation bool_reader: settings_reader "resolve_bool key fallback" "bool_of key fallback" for key fallback
  by unfold_locales
     (auto simp: resolve_bool_def bool_of_def get_setting_val Let_def split: prod.splits dest: get_setting_same_rows)

interpretation parsed_reader: settings_reader "resolve_parsed key parse fallback" "parsed_of key parse fallback"
  for key parse fallback
proof
  show "resolve_parsed key parse fallback s = (x, t) \<Longrightarrow> same_rows s t" for s x t
    by (auto simp: resolve_parsed_def split: prod.splits sum.splits dest: get_setting_strict_rows)
  show "faults s = [] \<Longrightarrow> resolve_parsed key parse fallback s = (parsed_of key parse fallback (settings s), s)" for s
    by (simp add: resolve_parsed_def parsed_of_def get_setting_strict_val split: option.splits sum.splits)
qed

interpretation model_reader: settings_reader resolve_agent_model model_of
  by unfold_locales
     (auto simp: resolve_agent_model_def model_of_def get_setting_val Let_def split: prod.splits dest: get_setting_same_rows)

interpretation reasoning_reader: settings_reader resolve_agent_reasoning reasoning_of
  by unfold_locales
     (auto simp: resolve_agent_reasoning_def reasoning_of_def get_setting_val Let_def split: prod.splits
       dest: get_setting_same_rows)

interpretation recheck_reader: settings_reader resolve_recheck_days recheck_of
  by unfold_locales
     (auto simp: resolve_recheck_days_def recheck_of_def get_setting_val Let_def split: prod.splits
       dest: get_setting_same_rows)

interpretation list_reader: settings_reader "resolve_saved ls" "list_of ls" for ls
  by unfold_locales
     (auto simp: resolve_saved_def list_of_def get_setting_val Let_def split: prod.splits dest: get_setting_same_rows)

interpretation dns_reader: settings_reader resolve_dns_check dns_config_of
proof
  show "resolve_dns_check s = (x, t) \<Longrightarrow> same_rows s t" for s x t
    by (auto simp: resolve_dns_check_def resolve_dns_check_resolvers_def split: prod.splits
        dest!: bool_reader.rows parsed_reader.rows intro: same_rows_trans)
  show "faults s = [] \<Longrightarrow> resolve_dns_check s = (dns_config_of (settings s), s)" for s
    by (simp add: resolve_dns_check_def resolve_dns_check_resolvers_def dns_config_of_def
        bool_reader.no_faults parsed_reader.no_faults)
qed

section \<open>Saving\<close>

lemma persist_settings_failed: "persist_settings ws s = (Inl e, t) \<Longrightarrow> same_rows s t"
  by (auto simp: persist_settings_def act_return_def split: if_splits dest: transaction_failed)

lemma persist_settings_ok:
  assumes "persist_settings ws s = (Inr x, t)"
  shows "settings t = apply_writes ws (settings s) \<and> jobs t = jobs s \<and> mailboxes t = mailboxes s"
proof (cases "ws = []")
  case True
  then show ?thesis using assms by (auto simp: persist_settings_def act_return_def)
next
  case False
  then obtain u v where "same_rows s u" "persist_writes ws u = (Inr x, v)" "same_rows v t"
    using transaction_ok[of "persist_writes ws" s x t] assms by (auto simp: persist_settings_def)
  then show ?thesis using persist_writes_ok[of ws u x v] by (auto simp: same_rowsD)
qed

text \<open>A saving function is all or nothing, whatever statements fail.\<close>

lemma update_settings_cases:
  assumes "update_settings fill s = (r, t)"
    and "\<And>r' t'. fill [] s = (r', t') \<Longrightarrow> same_rows s t'"
  obtains (failed) e where "r = Inl e" "same_rows s t"
  | (saved) u x s1 where "fill [] s = (Inr (u, x), s1)" "r = Inr x" "settings t = apply_writes u (settings s)"
      "jobs t = jobs s" "mailboxes t = mailboxes s"
proof (cases "fill [] s")
  case (Pair r' s1)
  then have sr: "same_rows s s1" by (rule assms(2))
  show thesis
  proof (cases r')
    case (Inl e)
    then show thesis using assms(1) Pair sr failed[of e] by (auto simp: update_settings_def act_bind_def)
  next
    case (Inr ux)
    obtain u x where ux: "ux = (u, x)" by fastforce
    obtain p s2 where p: "persist_settings u s1 = (p, s2)" by fastforce
    show thesis
    proof (cases p)
      case (Inl e)
      then show thesis using assms(1) Pair Inr ux p sr failed persist_settings_failed[of u s1 e s2] same_rows_trans
        by (auto simp: update_settings_def act_bind_def)
    next
      case (Inr y)
      then have "settings s2 = apply_writes u (settings s1) \<and> jobs s2 = jobs s1 \<and> mailboxes s2 = mailboxes s1"
        using persist_settings_ok p by blast
      then show thesis using assms(1) Pair \<open>r' = Inr ux\<close> ux p Inr saved[of u x s1] same_rowsD[OF sr]
        by (auto simp: update_settings_def act_bind_def act_return_def)
    qed
  qed
qed

lemma persist_setting_no_faults:
  "faults s = [] \<Longrightarrow> persist_setting k v d s = (Inr (), s\<lparr>settings := (settings s)(k := (if d then None else Some v))\<rparr>)"
  by (simp add: persist_setting_def delete_setting_def set_setting_def exec_def stmt_no_faults)

lemma persist_writes_no_faults:
  "faults s = [] \<Longrightarrow> persist_writes ws s = (Inr (), s\<lparr>settings := apply_writes ws (settings s)\<rparr>)"
  by (induction ws arbitrary: s) (simp_all add: act_return_def act_try_def persist_setting_no_faults)

lemma persist_settings_no_faults:
  "faults s = [] \<Longrightarrow> persist_settings ws s = (Inr (), s\<lparr>settings := apply_writes ws (settings s)\<rparr>)"
  by (simp add: persist_settings_def act_return_def transaction_def query_no_faults act_bind_def persist_writes_no_faults)

lemma update_settings_no_faults:
  assumes "faults s = []" "fill [] s = (Inr (u, x), s)"
  shows "update_settings fill s = (Inr x, s\<lparr>settings := apply_writes u (settings s)\<rparr>)"
  using assms by (simp add: update_settings_def act_bind_def act_return_def persist_settings_no_faults)

lemma update_settings_fill_failed:
  "fill [] s = (Inl e, t) \<Longrightarrow> update_settings fill s = (Inl e, t)"
  by (simp add: update_settings_def act_bind_def)

text \<open>The writes of one change in order, each key once: what a key holds afterwards.\<close>

lemma apply_upd_set [simp]:
  "apply_writes (upd_set k v d u) m = (apply_writes u m)(k := (if d then None else Some v))"
proof -
  have "apply_writes (xs @ ys) m = apply_writes ys (apply_writes xs m)" for xs ys
    by (induction xs arbitrary: m) auto
  then show ?thesis by (simp add: upd_set_def)
qed

section \<open>The saved combination of the DNS settings\<close>

text \<open>The combination a change asks for, on a table.\<close>

definition dns_change :: "bool option \<Rightarrow> string list option \<Rightarrow> bool option \<Rightarrow> dns_check_config \<Rightarrow> go_error + dns_check_config" where
  "dns_change en rs so cfg =
     (case (case rs of None \<Rightarrow> Inr (dc_resolvers cfg) | Some es \<Rightarrow> parse_list dns_check_resolvers_setting es) of
        Inl e \<Rightarrow> Inl e
      | Inr list \<Rightarrow>
          (let c = \<lparr>dc_enabled = (case en of Some b \<Rightarrow> b | None \<Rightarrow> dc_enabled cfg), dc_resolvers = list,
                    dc_system_only = (case so of Some b \<Rightarrow> b | None \<Rightarrow> dc_system_only cfg)\<rparr>
           in case validate_dns_check (dc_enabled c) (dc_system_only c) list of Some e \<Rightarrow> Inl e | None \<Rightarrow> Inr c))"

lemma check_dns_no_faults:
  "faults s = [] \<Longrightarrow> check_dns_check_settings en rs so s = (dns_change en rs so (dns_config_of (settings s)), s)"
  by (simp add: check_dns_check_settings_def act_bind_def dns_reader.act_read_no_faults dns_change_def Let_def
      act_fail_def act_return_def split: option.splits sum.splits)

definition dns_writes :: "bool option \<Rightarrow> string list option \<Rightarrow> bool option \<Rightarrow> dns_check_config \<Rightarrow> (string \<rightharpoonup> string) \<Rightarrow> (string \<rightharpoonup> string)" where
  "dns_writes en rs so c m =
     (let m1 = (if en = None then m else m(setting_dns_check_enabled := (if dc_enabled c then None else Some ''0'')));
          m2 = (if rs = None then m1
                else m1(setting_dns_check_resolvers := (if dc_resolvers c = default_dns_check_resolvers then None
                        else Some (list_text (dc_resolvers c)))))
      in if so = None then m2
         else m2(setting_dns_check_system_only := (if dc_system_only c then Some ''1'' else None)))"

lemma save_dns_no_faults:
  assumes "faults s = []"
  shows "save_dns_check en rs so s =
    (case dns_change en rs so (dns_config_of (settings s)) of
       Inl e \<Rightarrow> (Inl e, s)
     | Inr c \<Rightarrow> (Inr c, s\<lparr>settings := dns_writes en rs so c (settings s)\<rparr>))"
proof (cases "dns_change en rs so (dns_config_of (settings s))")
  case (Inl e)
  then have "upd_dns_check en rs so [] s = (Inl e, s)"
    using assms by (simp add: upd_dns_check_def act_bind_def check_dns_no_faults)
  then show ?thesis using Inl by (simp add: save_dns_check_def update_settings_fill_failed)
next
  case (Inr c)
  then have "\<exists>u. upd_dns_check en rs so [] s = (Inr (u, c), s) \<and> apply_writes u (settings s) = dns_writes en rs so c (settings s)"
    using assms by (auto simp: upd_dns_check_def act_bind_def act_return_def check_dns_no_faults Let_def dns_writes_def)
  then obtain u where u: "upd_dns_check en rs so [] s = (Inr (u, c), s)"
    "apply_writes u (settings s) = dns_writes en rs so c (settings s)" by blast
  show ?thesis using update_settings_no_faults[of s "upd_dns_check en rs so" u c, OF assms u(1)] Inr u(2)
    by (simp add: save_dns_check_def)
qed

lemma dns_keys_distinct:
  "setting_dns_check_enabled \<noteq> setting_dns_check_resolvers" "setting_dns_check_enabled \<noteq> setting_dns_check_system_only"
  "setting_dns_check_resolvers \<noteq> setting_dns_check_system_only"
  by (simp_all add: setting_dns_check_enabled_def setting_dns_check_resolvers_def setting_dns_check_system_only_def)

lemmas dns_keys [simp] = dns_keys_distinct dns_keys_distinct[symmetric]

lemma dns_resolvers_contract:
  "ls_normalize dns_check_resolvers_setting = normalize_resolver" "ls_max dns_check_resolvers_setting = 10"
  by (simp_all add: dns_check_resolvers_setting_def max_dns_check_resolvers_def)

lemma dns_change_settled:
  assumes "dns_change en rs so cfg = Inr c" "rs \<noteq> None"
  shows "collect_list dns_check_resolvers_setting [list_text (dc_resolvers c)] False = Inr (dc_resolvers c)"
proof -
  from assms obtain es where "parse_list dns_check_resolvers_setting es = Inr (dc_resolvers c)"
    by (auto simp: dns_change_def Let_def split: option.splits sum.splits)
  then show ?thesis by (rule resolver_list.parse_list_roundtrip[OF dns_resolvers_contract(1)])
qed

text \<open>What was saved is what is read.\<close>

lemma dns_writes_read_back:
  assumes c: "dns_change en rs so (dns_config_of m) = Inr c"
  shows "dns_config_of (dns_writes en rs so c m) = c"
proof -
  have e: "en = None \<Longrightarrow> dc_enabled c = bool_of setting_dns_check_enabled True m"
    and s: "so = None \<Longrightarrow> dc_system_only c = bool_of setting_dns_check_system_only False m"
    and r: "rs = None \<Longrightarrow> dc_resolvers c = resolvers_of m"
    using c by (auto simp: dns_change_def Let_def dns_config_of_def split: option.splits sum.splits)
  have "bool_of setting_dns_check_enabled True (dns_writes en rs so c m) = dc_enabled c"
    using e by (cases "en = None") (auto simp: dns_writes_def Let_def bool_of_def text_of_def)
  moreover have "bool_of setting_dns_check_system_only False (dns_writes en rs so c m) = dc_system_only c"
    using s by (cases "so = None") (auto simp: dns_writes_def Let_def bool_of_def text_of_def)
  moreover have "resolvers_of (dns_writes en rs so c m) = dc_resolvers c"
    using r dns_change_settled[OF c]
    by (cases "rs = None") (auto simp: dns_writes_def Let_def parsed_of_def)
  ultimately show ?thesis by (simp add: dns_config_of_def)
qed



text \<open>A read that fails while the change is checked lets the settings be saved in a combination
  the validation refuses: the resolvers saved as an empty list count as the default list, so the
  limitation to the system resolver is switched off although no resolver is left.\<close>

definition no_resolver_db :: store where
  "no_resolver_db = demo_db\<lparr>settings := [setting_dns_check_resolvers \<mapsto> '''', setting_dns_check_system_only \<mapsto> ''1''],
     faults := [None, Some ''database is locked'']\<rparr>"

theorem dns_fault_saves_refused:
  "fst (save_dns_check None None (Some False) no_resolver_db)
     = Inr \<lparr>dc_enabled = True, dc_resolvers = default_dns_check_resolvers, dc_system_only = False\<rparr>
   \<and> fst (resolve_dns_check (snd (save_dns_check None None (Some False) no_resolver_db)))
     = \<lparr>dc_enabled = True, dc_resolvers = [], dc_system_only = False\<rparr>
   \<and> validate_dns_check True False [] = Some dns_check_no_resolver"
  by (intro conjI; code_simp)

section \<open>All or nothing\<close>

lemma upd_dns_check_rows: "upd_dns_check en rs so u s = (r, t) \<Longrightarrow> same_rows s t"
  unfolding upd_dns_check_def check_dns_check_settings_def act_bind_def
  by (auto simp: Let_def act_fail_def act_return_def split: prod.splits sum.splits option.splits
      dest!: dns_reader.act_read_rows)

lemma upd_agent_settings_rows: "upd_agent_settings reg p m l u s = (r, t) \<Longrightarrow> same_rows s t"
  unfolding upd_agent_settings_def resolve_agent_provider_def act_bind_def
  by (auto simp: act_fail_def act_return_def split: prod.splits sum.splits option.splits
      dest!: str_reader.act_read_rows model_reader.act_read_rows reasoning_reader.act_read_rows
      intro: same_rows_trans)


section \<open>The agent settings\<close>

lemma valid_model_plain: "\<lbrakk> validate_model v = None \<rbrakk> \<Longrightarrow> list_all plain_char v"
proof -
  assume v: "validate_model v = None"
  have "list_all plain_char ''._:/@+-''" by code_simp
  then have "is_alnum_char c \<or> c \<in> set ''._:/@+-'' \<Longrightarrow> plain_char c" for c
    using alnum_ascii by (auto simp: list_all_iff)
  then show ?thesis using v
    by (cases v) (auto simp: validate_model_def model_matches_def list_all_iff split: if_splits)
qed

lemma agent_keys [simp]:
  "setting_agent_provider \<noteq> setting_agent_model" "setting_agent_provider \<noteq> setting_agent_reasoning"
  "setting_agent_model \<noteq> setting_agent_reasoning" "setting_agent_model \<noteq> setting_agent_provider"
  "setting_agent_reasoning \<noteq> setting_agent_provider" "setting_agent_reasoning \<noteq> setting_agent_model"
  by (simp_all add: setting_agent_provider_def setting_agent_model_def setting_agent_reasoning_def)

definition agent_of :: "(string \<rightharpoonup> string) \<Rightarrow> string \<times> string \<times> string" where
  "agent_of m = (str_of setting_agent_provider default_provider m, model_of m, reasoning_of m)"

lemma merge_trimmed:
  assumes "merge_agent_settings p m l fp fm fl = Inr (p', m', l')"
    and "trim_space fm = fm" "trim_space fl = fl" "fp \<noteq> ''''"
  shows "trim_space m' = m' \<and> trim_space l' = l' \<and> p' \<noteq> ''''"
proof -
  have "trim_space [] = []" by code_simp
  then show ?thesis using assms
    by (auto simp: merge_agent_settings_def Let_def trim_space_idem split: option.splits if_splits)
qed

lemma saved_agent_trimmed:
  "trim_space (model_of m) = model_of m" "trim_space (reasoning_of m) = reasoning_of m"
  "str_of setting_agent_provider default_provider m \<noteq> ''''"
proof -
  have "trim_space [] = []" "default_provider \<noteq> ''''" by code_simp+
  then show "trim_space (model_of m) = model_of m" "trim_space (reasoning_of m) = reasoning_of m"
    "str_of setting_agent_provider default_provider m \<noteq> ''''"
    by (auto simp: model_of_def reasoning_of_def str_of_def Let_def trim_space_idem)
qed

lemma check_agent_valid:
  assumes "check_agent_settings reg p m l = None"
  shows "validate_model (trim_space m) = None \<and> validate_reasoning_effort (trim_space l) = None"
  using assms by (auto simp: check_agent_settings_def check_reasoning_effort_def Let_def split: option.splits)

lemma agent_writes_read_back:
  assumes "trim_space m' = m'" "trim_space l' = l'" "p' \<noteq> ''''" "validate_model m' = None" "validate_reasoning_effort l' = None"
  shows "agent_of (apply_writes (agent_writes p' m' l' []) m) = (p', m', l')"
proof -
  have e: "trim_space [] = []" by code_simp
  show ?thesis using assms e
    by (auto simp: agent_of_def agent_writes_def str_of_def model_of_def reasoning_of_def text_of_def Let_def)
qed


definition demo_registry :: registry where
  "demo_registry = \<lparr>rg_list = [], rg_by_name = [''codex'' \<mapsto>
     \<lparr>pv_name = ''codex'', pv_label = ''Codex'', pv_command = [''codex''], pv_model = None,
      pv_reasoning = Some \<lparr>rs_option = ''-c'', rs_args = (\<lambda>l. [''-c'', l]), rs_levels = [(''m1'', [''low'', ''high''])]\<rparr>\<rparr>]\<rparr>"


section \<open>Times, lists and counts\<close>

lemma default_check_times_ok: "default_check_time_list = [''06:00'', ''12:00'', ''18:00'']"
  by code_simp

lemma default_check_times_text: "format_check_times ts = default_check_times \<Longrightarrow> \<lbrakk> list_all clock_ok ts \<rbrakk> \<Longrightarrow> sorted ts \<Longrightarrow> distinct ts
    \<Longrightarrow> ts = default_check_time_list"
  using parse_check_times_format[of ts] by (simp add: default_check_time_list_def)

text \<open>C29: The check times are read back as they were given: times accepted from any input are, once
  saved, the times the scheduler reads, sorted and without repeats; no row is kept for the default
  times, and an empty list (no automatic check) is kept as such.\<close>

theorem check_times_read_back:
  assumes "faults s = []" "parse_check_times inputs = Inr ts"
  shows "\<exists>t. save_check_times ts s = (Inr (), t) \<and> resolve_check_times t = (ts, t)
    \<and> sorted ts \<and> distinct ts \<and> list_all clock_ok ts
    \<and> (settings t setting_check_times = None \<longleftrightarrow> ts = [''06:00'', ''12:00'', ''18:00''])"
proof -
  have ok: "sorted ts" "distinct ts" "list_all clock_ok ts" using parse_check_times_ok[OF assms(2)] by simp_all
  let ?t = "s\<lparr>settings := (settings s)(setting_check_times :=
      (if format_check_times ts = default_check_times then None else Some (format_check_times ts)))\<rparr>"
  have sv: "save_check_times ts s = (Inr (), ?t)"
    using update_settings_no_faults[OF assms(1), of "\<lambda>u. act_return (upd_check_times ts u, ())" "upd_check_times ts []" "()"]
    by (simp add: save_check_times_def act_return_def upd_check_times_def Let_def)
  have d: "format_check_times ts = default_check_times \<longleftrightarrow> ts = default_check_time_list"
    using default_check_times_text[OF _ ok(3,1,2)]
    by (auto simp: default_check_times_ok format_check_times_def default_check_times_def)
  have v: "parsed_of setting_check_times (\<lambda>v. parse_check_times [v]) default_check_time_list (settings ?t) = ts"
    using d parse_check_times_format[OF ok] by (auto simp: parsed_of_def)
  have "resolve_check_times ?t = (parsed_of setting_check_times (\<lambda>v. parse_check_times [v]) default_check_time_list (settings ?t), ?t)"
    unfolding resolve_check_times_def by (rule parsed_reader.no_faults) (simp add: assms(1))
  then have "resolve_check_times ?t = (ts, ?t)" unfolding v .
  then show ?thesis using sv ok d by (intro exI[of _ ?t]) (simp add: default_check_times_ok)
qed

theorem check_times_read_back_witness:
  "\<exists>t. save_check_times [''06:00'', ''18:30''] demo_db = (Inr (), t) \<and> resolve_check_times t = ([''06:00'', ''18:30''], t)"
proof -
  have "faults demo_db = []" "parse_check_times [''18:30, 6:00'', ''06:00''] = Inr [''06:00'', ''18:30'']" by code_simp+
  from check_times_read_back[OF this] show ?thesis by blast
qed

lemma list_setting_contracts:
  "ls_normalize sending_source_ipv4_setting = normalize_ip_or_prefix False"
  "ls_normalize sending_source_ipv6_setting = normalize_ip_or_prefix True"
  "ls_normalize sending_source_hosts_setting = normalize_source_host"
  by (simp_all add: sending_source_ipv4_setting_def sending_source_ipv6_setting_def sending_source_hosts_setting_def)

lemma parse_list_text_roundtrip:
  assumes "ls \<in> set [sending_source_ipv4_setting, sending_source_ipv6_setting, sending_source_hosts_setting]"
    and "parse_list ls entries = Inr xs"
  shows "collect_list ls [list_text xs] False = Inr xs"
proof -
  from assms(1) consider "ls = sending_source_ipv4_setting" | "ls = sending_source_ipv6_setting"
    | "ls = sending_source_hosts_setting" by auto
  then show ?thesis
  proof cases
    case 1 show ?thesis
      unfolding 1 by (rule ip_list.parse_list_roundtrip[OF list_setting_contracts(1) assms(2)[unfolded 1]])
  next
    case 2 show ?thesis
      unfolding 2 by (rule ip_list.parse_list_roundtrip[OF list_setting_contracts(2) assms(2)[unfolded 2]])
  next
    case 3 show ?thesis
      unfolding 3 by (rule host_list.parse_list_roundtrip[OF list_setting_contracts(3) assms(2)[unfolded 3]])
  qed
qed

lemma parse_list_bounds:
  assumes "ls \<in> set [sending_source_ipv4_setting, sending_source_ipv6_setting, sending_source_hosts_setting]"
    and "parse_list ls entries = Inr xs"
  shows "distinct xs \<and> length xs \<le> 500"
proof -
  have b: "ls_max sending_source_ipv4_setting = 500" "ls_max sending_source_ipv6_setting = 500"
    "ls_max sending_source_hosts_setting = 500"
    by (simp_all add: sending_source_ipv4_setting_def sending_source_ipv6_setting_def sending_source_hosts_setting_def
        max_sending_source_entries_def)
  from assms(1) consider "ls = sending_source_ipv4_setting" | "ls = sending_source_ipv6_setting"
    | "ls = sending_source_hosts_setting" by auto
  then show ?thesis
  proof cases
    case 1 then show ?thesis using assms(2) ip_list.collect_list_settled[OF list_setting_contracts(1)] b
      by (auto simp: parse_list_def ip_list.settled_def)
  next
    case 2 then show ?thesis using assms(2) ip_list.collect_list_settled[OF list_setting_contracts(2)] b
      by (auto simp: parse_list_def ip_list.settled_def)
  next
    case 3 then show ?thesis using assms(2) host_list.collect_list_settled[OF list_setting_contracts(3)] b
      by (auto simp: parse_list_def host_list.settled_def)
  qed
qed

text \<open>C30: A list of sending sources is read back as it was normalized: the entries accepted from any
  input are, once saved one per line, the list every reader gets, at most 500 and without repeats
  (addresses, networks and host names in their canonical text).\<close>

theorem sending_sources_read_back:
  assumes "faults s = []"
    and "ls \<in> set [sending_source_ipv4_setting, sending_source_ipv6_setting, sending_source_hosts_setting]"
    and "parse_list ls entries = Inr xs"
  shows "\<exists>t. save_list ls entries s = (Inr (), t) \<and> resolve_saved ls t = (xs, t) \<and> distinct xs \<and> length xs \<le> 500"
proof -
  let ?t = "s\<lparr>settings := (settings s)(ls_key ls := (if list_text xs = '''' then None else Some (list_text xs)))\<rparr>"
  have "upd_list ls entries [] = Inr (upd_set (ls_key ls) (list_text xs) (list_text xs = '''') [])"
    using assms(3) by (simp add: upd_list_def Let_def)
  then have sv: "save_list ls entries s = (Inr (), ?t)"
    using update_settings_no_faults[OF assms(1), of "\<lambda>u. act_bind (act_of (upd_list ls entries u)) (\<lambda>u'. act_return (u', ()))"
        "upd_set (ls_key ls) (list_text xs) (list_text xs = '''') []" "()"]
    by (simp add: save_list_def act_bind_def act_of_def act_return_def)
  have "text_of (ls_key ls) (settings ?t) = list_text xs" by (simp add: text_of_def)
  then have "list_of ls (settings ?t) = xs"
    using parse_list_text_roundtrip[OF assms(2,3)] unfolding list_of_def by simp
  then have "resolve_saved ls ?t = (xs, ?t)" using list_reader.no_faults[of ?t ls] assms(1) by simp
  then show ?thesis using sv parse_list_bounds[OF assms(2,3)] by blast
qed

theorem sending_sources_read_back_witness:
  "\<exists>t. save_list sending_source_hosts_setting [''Mail.Example.JP.''] demo_db = (Inr (), t)
    \<and> resolve_saved sending_source_hosts_setting t = ([''mail.example.jp''], t)"
proof -
  have "faults demo_db = []" by code_simp
  moreover have "sending_source_hosts_setting
      \<in> set [sending_source_ipv4_setting, sending_source_ipv6_setting, sending_source_hosts_setting]" by simp
  moreover have "parse_list sending_source_hosts_setting [''Mail.Example.JP.''] = Inr [''mail.example.jp'']" by code_simp
  ultimately show ?thesis using sending_sources_read_back by blast
qed

section \<open>Re-check days\<close>

lemma known_category_text:
  "c \<in> set known_categories \<Longrightarrow> list_all plain_char c \<and> CHR ''='' \<notin> set c \<and> CHR '','' \<notin> set c \<and> c \<noteq> []"
proof -
  have "list_all (\<lambda>c. list_all plain_char c \<and> CHR ''='' \<notin> set c \<and> CHR '','' \<notin> set c \<and> c \<noteq> []) known_categories"
    by code_simp
  then show "c \<in> set known_categories \<Longrightarrow> ?thesis" by (simp add: list_all_iff)
qed

lemma itoa_text: "0 \<le> n \<Longrightarrow> list_all plain_char (itoa n) \<and> CHR '','' \<notin> set (itoa n)"
proof -
  assume "0 \<le> n"
  then have "list_all is_digit_char (itoa n)" by (simp add: itoa_def nat_digits_all_digit)
  moreover have "\<not> is_digit_char (CHR '','')" by code_simp
  ultimately show ?thesis using digit_plain by (auto simp: list_all_iff)
qed

lemma parse_recheck_part_format:
  assumes "c \<in> set known_categories" "min_recheck_days \<le> n" "n \<le> max_recheck_days"
  shows "parse_recheck_part (c @ ''='' @ itoa n) = Some (c, n)"
    and "trim_space (c @ ''='' @ itoa n) = c @ ''='' @ itoa n"
    and "CHR '','' \<notin> set (c @ ''='' @ itoa n)"
proof -
  have b: "0 \<le> n" "min_int64 \<le> n" "n \<le> max_int64"
    using assms(2,3) by (auto simp: min_recheck_days_def max_recheck_days_def min_int64_def max_int64_def)
  note c = known_category_text[OF assms(1)]
  have pe: "plain_char (CHR ''='')" by code_simp
  have "cut (c @ ''='' @ itoa n) ''='' = Some (c, itoa n)"
    using cut_char_before[of "CHR ''=''" c "itoa n"] c by simp
  moreover have "trim_space (itoa n) = itoa n" "trim_space c = c" using c itoa_text[OF b(1)] trim_space_plain by auto
  ultimately show "parse_recheck_part (c @ ''='' @ itoa n) = Some (c, n)"
    using atoi_itoa[OF b(2,3)] by (simp add: parse_recheck_part_def)
  show "trim_space (c @ ''='' @ itoa n) = c @ ''='' @ itoa n"
    using c itoa_text[OF b(1)] pe by (intro trim_space_plain) simp
  show "CHR '','' \<notin> set (c @ ''='' @ itoa n)" using c itoa_text[OF b(1)] by auto
qed

definition days_in_bounds :: "(string \<rightharpoonup> int) \<Rightarrow> bool" where
  "days_in_bounds r \<longleftrightarrow> (\<forall>c n. r c = Some n \<longrightarrow> min_recheck_days \<le> n \<and> n \<le> max_recheck_days)"

definition changed_days :: "(string \<rightharpoonup> int) \<Rightarrow> string list \<Rightarrow> (string \<times> int) list" where
  "changed_days r cs = concat (map (\<lambda>c. case r c of
     Some n \<Rightarrow> if n \<noteq> default_recheck_days c then [(c, n)] else [] | None \<Rightarrow> []) cs)"

lemma changed_days_set:
  "set (changed_days r cs) = {(c, n). c \<in> set cs \<and> r c = Some n \<and> n \<noteq> default_recheck_days c}"
  by (induction cs) (auto simp: changed_days_def split: option.splits)

lemma changed_days_distinct: "distinct cs \<Longrightarrow> distinct (map fst (changed_days r cs))"
proof (induction cs)
  case (Cons c cs)
  have "c \<notin> fst ` set (changed_days r cs)" using Cons.prems by (auto simp: changed_days_set)
  then show ?case using Cons by (auto simp: changed_days_def split: option.splits)
qed (simp add: changed_days_def)

lemma format_recheck_changed:
  "format_recheck_days r = join '','' (map (\<lambda>(c, n). c @ ''='' @ itoa n) (changed_days r known_categories))"
proof -
  have "concat (map (\<lambda>c. case r c of Some n \<Rightarrow> if n \<noteq> default_recheck_days c then [c @ ''='' @ itoa n] else []
      | None \<Rightarrow> []) cs) = map (\<lambda>(c, n). c @ ''='' @ itoa n) (changed_days r cs)" for cs
    by (induction cs) (auto simp: changed_days_def split: option.splits)
  then show ?thesis by (simp add: format_recheck_days_def)
qed

lemma recheck_days_loop_formatted:
  assumes "\<forall>(c, n) \<in> set ps. c \<in> set known_categories \<and> min_recheck_days \<le> n \<and> n \<le> max_recheck_days"
    and "distinct (map fst (days @ ps))"
  shows "recheck_days_loop (map (\<lambda>(c, n). c @ ''='' @ itoa n) ps) days = Inr (days @ ps)"
  using assms
proof (induction ps arbitrary: days)
  case (Cons p ps)
  obtain c n where p: "p = (c, n)" by fastforce
  then have cn: "c \<in> set known_categories" "min_recheck_days \<le> n" "n \<le> max_recheck_days" using Cons.prems(1) by auto
  have "c \<notin> fst ` set days" using Cons.prems(2) by (auto simp: p)
  then have "AList.update c n days = days @ [(c, n)]"
    by (induction days) auto
  moreover have "c @ ''='' @ itoa n \<noteq> ''''" by simp
  ultimately show ?case using Cons parse_recheck_part_format[OF cn] by (simp add: p Let_def)
qed simp

lemma validate_recheck_days_ok:
  "validate_recheck_days ps = None \<longleftrightarrow>
     (\<forall>(c, n) \<in> set ps. c \<in> set known_categories \<and> min_recheck_days \<le> n \<and> n \<le> max_recheck_days)"
  by (induction ps rule: validate_recheck_days.induct) (auto simp: is_known_category_def)

lemma parse_format_recheck:
  assumes "days_in_bounds r"
  shows "parse_recheck_days (format_recheck_days r) = Inr (changed_days r known_categories)"
proof -
  let ?ps = "changed_days r known_categories"
  have b: "\<forall>(c, n) \<in> set ?ps. c \<in> set known_categories \<and> min_recheck_days \<le> n \<and> n \<le> max_recheck_days"
    using assms by (auto simp: changed_days_set days_in_bounds_def)
  have l: "recheck_days_loop (map (\<lambda>(c, n). c @ ''='' @ itoa n) ?ps) [] = Inr ?ps"
    using recheck_days_loop_formatted[OF b, of "[]"] changed_days_distinct[OF known_categories_distinct] by simp
  have "recheck_days_loop (split_char (CHR '','') (format_recheck_days r)) [] = Inr ?ps"
  proof (cases "?ps = []")
    case True
    have "trim_space [] = []" by code_simp
    then show ?thesis by (simp add: format_recheck_changed True)
  next
    case False
    have "split_char (CHR '','') (format_recheck_days r) = map (\<lambda>(c, n). c @ ''='' @ itoa n) ?ps"
      unfolding format_recheck_changed
    proof (rule split_char_join)
      show "\<forall>w \<in> set (map (\<lambda>(c, n). c @ ''='' @ itoa n) ?ps). CHR '','' \<notin> set w"
        using b parse_recheck_part_format(3) by (auto simp del: append.simps append_Cons)
    qed (use False in simp)
    then show ?thesis using l by simp
  qed
  moreover have "validate_recheck_days ?ps = None" using b validate_recheck_days_ok by blast
  ultimately show ?thesis by (simp add: parse_recheck_days_def)
qed

lemma default_recheck_map_val:
  "default_recheck_map c = (if c \<in> set known_categories then Some (default_recheck_days c) else None)"
proof -
  have "map_of (map (\<lambda>c. (c, f c)) cs) c = (if c \<in> set cs then Some (f c) else None)" for f :: "string \<Rightarrow> int" and cs
    by (induction cs) auto
  then show ?thesis by (simp add: default_recheck_map_def)
qed

lemma changed_days_recover:
  assumes "dom r = set known_categories"
  shows "default_recheck_map ++ map_of (changed_days r known_categories) = r"
proof
  fix c
  have d: "distinct (map fst (changed_days r known_categories))"
    by (rule changed_days_distinct[OF known_categories_distinct])
  show "(default_recheck_map ++ map_of (changed_days r known_categories)) c = r c"
  proof (cases "map_of (changed_days r known_categories) c")
    case None
    then have "\<forall>n. (c, n) \<notin> set (changed_days r known_categories)" using d by (metis map_of_is_SomeI option.distinct(1))
    then show ?thesis using assms None by (cases "r c") (auto simp: changed_days_set default_recheck_map_val map_add_def)
  next
    case (Some n)
    then have "(c, n) \<in> set (changed_days r known_categories)" by (rule map_of_SomeD)
    then show ?thesis using Some by (auto simp: changed_days_set map_add_def)
  qed
qed

lemma recheck_of_ok: "days_in_bounds (recheck_of m) \<and> dom (recheck_of m) = set known_categories"
proof -
  have d: "days_in_bounds default_recheck_map" "dom default_recheck_map = set known_categories"
    using default_recheck_days_bounds by (auto simp: days_in_bounds_def default_recheck_map_val split: if_splits)
  have "days_in_bounds (default_recheck_map ++ map_of p) \<and> dom (default_recheck_map ++ map_of p) = set known_categories"
    if "parse_recheck_days v = Inr p" for v p
  proof -
    have "validate_recheck_days p = None" using that by (auto simp: parse_recheck_days_def split: sum.splits option.splits)
    then have v: "\<And>c n. map_of p c = Some n \<Longrightarrow> c \<in> set known_categories \<and> min_recheck_days \<le> n \<and> n \<le> max_recheck_days"
      by (fastforce simp: validate_recheck_days_ok dest: map_of_SomeD)
    then show ?thesis using d by (fastforce simp: days_in_bounds_def map_add_def split: option.splits)
  qed
  then show ?thesis using d by (auto simp: recheck_of_def Let_def split: sum.splits)
qed



section \<open>Counts\<close>

lemma int_of_setting_saved:
  assumes "0 < n" "n \<le> max_int64"
  shows "int_of_setting k fb (m(k := (if n = d then None else Some (itoa n)))) = (if n = d then fb else n)"
proof -
  have "itoa n \<noteq> ''''" using assms by (auto simp: itoa_def)
  moreover have "atoi (itoa n) = Some n" using assms by (intro atoi_itoa) (auto simp: min_int64_def)
  ultimately show ?thesis using assms by (simp add: int_of_setting_def text_of_def Let_def)
qed

text \<open>The retentions and the worker count are read back as saved: a value within its bounds is
  read back, the worker count clamped to 1..16, and a row is kept only for a value that differs from
  the default, so that a later default takes effect by itself.\<close>

theorem counts_read_back:
  assumes "faults s = []"
  shows "(validate_mail_keep_days n = None \<longrightarrow>
      (\<exists>t. save_mail_keep_days n s = (Inr (), t) \<and> resolve_mail_keep_days t = (n, t)
        \<and> (settings t setting_mail_keep_days = None \<longleftrightarrow> n = default_mail_keep_days)))
    \<and> (validate_agent_keep_days n = None \<longrightarrow>
      (\<exists>t. save_agent_keep_days n s = (Inr (), t) \<and> resolve_agent_keep_days t = (n, t)
        \<and> (settings t setting_agent_keep_days = None \<longleftrightarrow> n = default_agent_keep_days)))
    \<and> (\<exists>t. save_workers n s = (Inr (), t) \<and> resolve_workers t = (clamp_workers n, t)
        \<and> (settings t setting_workers = None \<longleftrightarrow> clamp_workers n = default_workers))"
proof -
  let ?put = "\<lambda>k n d. s\<lparr>settings := (settings s)(k := (if n = d then None else Some (itoa n)))\<rparr>"
  have put: "resolve_int k 0 d (?put k n d) = (n, ?put k n d)" if "0 < n" "n \<le> max_int64" for k n d
  proof -
    have "int_of_setting k d (settings (?put k n d)) = n" using int_of_setting_saved[OF that, of k d "settings s" d] by simp
    moreover have "resolve_int k 0 d (?put k n d) = (int_of_setting k d (settings (?put k n d)), ?put k n d)"
      by (rule int_reader.no_faults) (simp add: assms)
    ultimately show ?thesis by simp
  qed
  have mail: "save_mail_keep_days n s = (Inr (), ?put setting_mail_keep_days n default_mail_keep_days)"
    if "validate_mail_keep_days n = None"
    using that update_settings_no_faults[OF assms, of "\<lambda>u. act_bind (act_of (upd_mail_keep_days n u)) (\<lambda>u'. act_return (u', ()))"
        "upd_set setting_mail_keep_days (itoa n) (n = default_mail_keep_days) []" "()"]
    by (simp add: save_mail_keep_days_def act_bind_def act_of_def act_return_def upd_mail_keep_days_def)
  have agent: "save_agent_keep_days n s = (Inr (), ?put setting_agent_keep_days n default_agent_keep_days)"
    if "validate_agent_keep_days n = None"
    using that update_settings_no_faults[OF assms, of "\<lambda>u. act_bind (act_of (upd_agent_keep_days n u)) (\<lambda>u'. act_return (u', ()))"
        "upd_set setting_agent_keep_days (itoa n) (n = default_agent_keep_days) []" "()"]
    by (simp add: save_agent_keep_days_def act_bind_def act_of_def act_return_def upd_agent_keep_days_def)
  have workers: "save_workers n s = (Inr (), ?put setting_workers (clamp_workers n) default_workers)"
    using update_settings_no_faults[OF assms, of "\<lambda>u. act_return (upd_workers n u, ())"
        "upd_set setting_workers (itoa (clamp_workers n)) (clamp_workers n = default_workers) []" "()"]
    by (simp add: save_workers_def act_return_def upd_workers_def Let_def)
  have wb: "0 < clamp_workers n" "clamp_workers n \<le> max_int64" "clamp_workers (clamp_workers n) = clamp_workers n"
    by (auto simp: clamp_workers_def default_workers_def max_workers_def max_int64_def)
  have mb: "0 < n \<and> n \<le> max_int64" if "validate_mail_keep_days n = None"
    using that by (auto simp: validate_mail_keep_days_def min_mail_keep_days_def max_mail_keep_days_def max_int64_def split: if_splits)
  have ab: "0 < n \<and> n \<le> max_int64" if "validate_agent_keep_days n = None"
    using that by (auto simp: validate_agent_keep_days_def min_agent_keep_days_def max_agent_keep_days_def max_int64_def split: if_splits)
  have "\<exists>t. save_mail_keep_days n s = (Inr (), t) \<and> resolve_mail_keep_days t = (n, t)
        \<and> (settings t setting_mail_keep_days = None \<longleftrightarrow> n = default_mail_keep_days)" if v: "validate_mail_keep_days n = None"
    using mail[OF v] put[of n setting_mail_keep_days default_mail_keep_days] mb[OF v] v
    by (intro exI[of _ "?put setting_mail_keep_days n default_mail_keep_days"]) (simp add: resolve_mail_keep_days_def)
  moreover have "\<exists>t. save_agent_keep_days n s = (Inr (), t) \<and> resolve_agent_keep_days t = (n, t)
        \<and> (settings t setting_agent_keep_days = None \<longleftrightarrow> n = default_agent_keep_days)" if v: "validate_agent_keep_days n = None"
    using agent[OF v] put[of n setting_agent_keep_days default_agent_keep_days] ab[OF v] v
    by (intro exI[of _ "?put setting_agent_keep_days n default_agent_keep_days"]) (simp add: resolve_agent_keep_days_def)
  moreover have "\<exists>t. save_workers n s = (Inr (), t) \<and> resolve_workers t = (clamp_workers n, t)
        \<and> (settings t setting_workers = None \<longleftrightarrow> clamp_workers n = default_workers)"
    using workers put[OF wb(1,2), of setting_workers default_workers] wb(3)
    by (intro exI[of _ "?put setting_workers (clamp_workers n) default_workers"]) (simp add: resolve_workers_def)
  ultimately show ?thesis by blast
qed

theorem counts_read_back_witness:
  "\<exists>t. save_mail_keep_days 30 demo_db = (Inr (), t) \<and> resolve_mail_keep_days t = (30, t)"
proof -
  have "faults demo_db = []" "validate_mail_keep_days 30 = None" by code_simp+
  then show ?thesis using counts_read_back[of demo_db 30] by blast
qed

section \<open>Times of day\<close>



text \<open>A check time may carry signs: contrary to the documented forms HH:MM and H:MM, an hour or a
  minute of one digit is accepted with a plus sign, and the hour 0 with a minus sign.\<close>

theorem check_time_with_signs:
  "parse_check_times [''+6:+5,-0:30''] = Inr [''00:30'', ''06:05'']"
  by code_simp

text \<open>The registry of providers stays in order: whatever providers register, by whatever name, the
  list holds one provider a name, sorted by name, and the lookup by name finds exactly those.\<close>

theorem registry_in_order:
  assumes "fold (\<lambda>p r. Option.bind r (register_provider p)) ps (Some empty_registry) = Some r"
  shows "sorted (map pv_name (rg_list r)) \<and> distinct (map pv_name (rg_list r))
    \<and> (\<forall>n. rg_by_name r n = List.find (\<lambda>p. pv_name p = n) (rg_list r)) \<and> \<not> is_valid_provider r ''''"
proof -
  have "fold (\<lambda>p r. Option.bind r (register_provider p)) ps r0 = Some r \<Longrightarrow> (\<And>q. r0 = Some q \<Longrightarrow> registry_ok q)
      \<Longrightarrow> registry_ok r" for r0
  proof (induction ps arbitrary: r0)
    case (Cons p ps)
    have "registry_ok q" if "Option.bind r0 (register_provider p) = Some q" for q
      using that Cons.prems(2) register_provider_ok by (cases r0) auto
    then show ?case using Cons.IH[of "Option.bind r0 (register_provider p)"] Cons.prems(1) by simp
  qed simp
  from this[OF assms] empty_registry_ok have ok: "registry_ok r" by blast
  then have "List.find (\<lambda>p. pv_name p = '''') (rg_list r) = None"
    by (auto simp: registry_ok_def find_None_iff2)
  with ok show ?thesis by (auto simp: registry_ok_def is_valid_provider_def)
qed

theorem registry_in_order_witness:
  "\<exists>r. fold (\<lambda>p r. Option.bind r (register_provider p))
      [\<lparr>pv_name = n, pv_label = '''', pv_command = [], pv_model = None, pv_reasoning = None\<rparr>. n \<leftarrow> [''b'', ''a'', ''b'']]
      (Some empty_registry) = Some r \<and> map pv_name (rg_list r) = [''a'', ''b''] \<and> \<not> is_valid_provider r ''''"
proof -
  let ?ps = "[\<lparr>pv_name = n, pv_label = '''', pv_command = [], pv_model = None, pv_reasoning = None\<rparr>. n \<leftarrow> [''b'', ''a'', ''b'']]"
  have m: "map_option (map pv_name \<circ> rg_list) (fold (\<lambda>p r. Option.bind r (register_provider p)) ?ps (Some empty_registry))
      = Some [''a'', ''b'']" by code_simp
  then obtain r where r: "fold (\<lambda>p r. Option.bind r (register_provider p)) ?ps (Some empty_registry) = Some r"
    by (cases "fold (\<lambda>p r. Option.bind r (register_provider p)) ?ps (Some empty_registry)") auto
  then have "map pv_name (rg_list r) = [''a'', ''b'']" using m by simp
  moreover have "\<not> is_valid_provider r ''''" using registry_in_order[OF r] by (elim conjE)
  ultimately show ?thesis using r by (intro exI[of _ r] conjI)
qed

end
