(* ===== verification/Users.thy ===== *)
theory Users
  imports Db
begin

text \<open>
  The users table (models/user.go): who can log in, with the notification
  address and the preferences. The lemmas give the two guards of the table:
  identifiers and user names are unique, and no write makes two users share an
  address (rows that shared one before the rule existed may keep it).
\<close>

section \<open>Reading\<close>

definition err_email_taken :: go_error where
  "err_email_taken = Keyed ''validation.user.emailTaken'' ''email address is already used by another user''"

definition default_language :: string where "default_language = ''ja''"
definition default_timezone :: string where "default_timezone = ''Asia/Tokyo''"
definition default_theme :: string where "default_theme = ''auto''"

definition or_default :: "string \<Rightarrow> string \<Rightarrow> string" where
  "or_default d s = (if s = '''' then d else s)"

definition apply_preference_defaults :: "user \<Rightarrow> user" where
  "apply_preference_defaults u =
     u\<lparr>u_language := or_default default_language (u_language u),
       u_timezone := or_default default_timezone (u_timezone u),
       u_theme := or_default default_theme (u_theme u)\<rparr>"

definition list_users :: "user list act" where
  "list_users = query (\<lambda>s. sort_key u_username (users s))"

definition get_user_by_id :: "int \<Rightarrow> user act" where
  "get_user_by_id i = query_row (\<lambda>s. List.find (\<lambda>u. u_id u = i) (users s))"

text \<open>The oldest user of an address; the empty address finds none.\<close>

definition get_user_by_email :: "string \<Rightarrow> user act" where
  "get_user_by_email email =
     query_row (\<lambda>s. case sort_key u_id (filter (\<lambda>u. u_email u = email \<and> u_email u \<noteq> '''') (users s)) of
                      [] \<Rightarrow> None | u # _ \<Rightarrow> Some u)"

definition get_user_by_username :: "string \<Rightarrow> user act" where
  "get_user_by_username name = query_row (\<lambda>s. List.find (\<lambda>u. u_username u = name) (users s))"

definition count_users :: "nat act" where
  "count_users = query (\<lambda>s. length (users s))"

definition count_admins :: "nat act" where
  "count_admins = query (\<lambda>s. length (filter (\<lambda>u. u_role u = ''admin'') (users s)))"

fun list_users_by_ids :: "int list \<Rightarrow> user list act" where
  "list_users_by_ids [] = act_return []"
| "list_users_by_ids (i # is) =
     act_try (get_user_by_id i) (\<lambda>r. case r of
        Inl NoRows \<Rightarrow> list_users_by_ids is
      | Inl e \<Rightarrow> act_fail e
      | Inr u \<Rightarrow> act_bind (list_users_by_ids is) (\<lambda>us. act_return (u # us)))"

section \<open>Writing\<close>

definition has_address :: "string \<Rightarrow> user list \<Rightarrow> bool" where
  "has_address email us \<longleftrightarrow> list_ex (\<lambda>u. u_email u = email) us"

text \<open>
  \<^verbatim>\<open>InsertUser\<close>: one statement that inserts nothing when the address is taken;
  the column username is UNIQUE. None is \<open>RowsAffected() = 0\<close>.
\<close>

definition username_conflict :: go_error where
  "username_conflict = DbFault ''UNIQUE constraint failed: users.username''"

definition insert_user_row :: "user \<Rightarrow> store \<Rightarrow> (go_error + user) \<times> store" where
  "insert_user_row u s =
     (if u_email u \<noteq> '''' \<and> has_address (u_email u) (users s) then (Inl err_email_taken, s)
      else if list_ex (\<lambda>r. u_username r = u_username u) (users s) then (Inl username_conflict, s)
      else let u' = u\<lparr>u_id := next_user s\<rparr>
           in (Inr u', s\<lparr>users := users s @ [u'\<lparr>u_last_login_at := None\<rparr>], next_user := next_user s + 1\<rparr>))"

definition insert_user :: "time \<Rightarrow> user \<Rightarrow> user act" where
  "insert_user now u =
     act_bind (stmt (insert_user_row ((apply_preference_defaults u)\<lparr>u_created_at := now, u_updated_at := now\<rparr>)))
       (\<lambda>r. case r of Inl e \<Rightarrow> act_fail e | Inr u' \<Rightarrow> act_return u')"

text \<open>
  The guarded update of \<^verbatim>\<open>UpdateUser\<close> and \<^verbatim>\<open>UpdateUserProfile\<close>: a row changes when
  its address stays, is cleared, or is no other user's.
\<close>

definition may_take :: "user list \<Rightarrow> int \<Rightarrow> string \<Rightarrow> user \<Rightarrow> bool" where
  "may_take us i email u \<longleftrightarrow> u_id u = i
     \<and> (u_email u = email \<or> email = '''' \<or> \<not> list_ex (\<lambda>r. u_email r = email \<and> u_id r \<noteq> i) us)"

definition update_rows :: "int \<Rightarrow> string \<Rightarrow> (user \<Rightarrow> user) \<Rightarrow> store \<Rightarrow> nat \<times> store" where
  "update_rows i email f s =
     (length (filter (may_take (users s) i email) (users s)),
      s\<lparr>users := map (\<lambda>u. if may_take (users s) i email u then (f u)\<lparr>u_email := email\<rparr> else u) (users s)\<rparr>)"

definition email_update_result :: "int \<Rightarrow> nat \<Rightarrow> unit act" where
  "email_update_result i n =
     (if 0 < n then act_return ()
      else act_try (get_user_by_id i) (\<lambda>r. case r of
             Inl NoRows \<Rightarrow> act_return ()
           | Inl e \<Rightarrow> act_fail e
           | Inr _ \<Rightarrow> act_fail err_email_taken))"

definition set_profile :: "time \<Rightarrow> string \<Rightarrow> string \<Rightarrow> string \<Rightarrow> string \<Rightarrow> user \<Rightarrow> user" where
  "set_profile now name lang tz theme u =
     u\<lparr>u_display_name := name, u_language := or_default default_language lang,
       u_timezone := or_default default_timezone tz, u_theme := or_default default_theme theme,
       u_updated_at := now\<rparr>"

definition update_user :: "time \<Rightarrow> int \<Rightarrow> string \<Rightarrow> string \<Rightarrow> string \<Rightarrow> string \<Rightarrow> string \<Rightarrow> string \<Rightarrow> unit act" where
  "update_user now i name email lang tz theme role =
     act_bind (stmt (update_rows i email (\<lambda>u. (set_profile now name lang tz theme u)\<lparr>u_role := role\<rparr>)))
       (email_update_result i)"

definition update_user_profile :: "time \<Rightarrow> int \<Rightarrow> string \<Rightarrow> string \<Rightarrow> string \<Rightarrow> string \<Rightarrow> string \<Rightarrow> unit act" where
  "update_user_profile now i name email lang tz theme =
     act_bind (stmt (update_rows i email (set_profile now name lang tz theme))) (email_update_result i)"

definition update_user_password :: "time \<Rightarrow> int \<Rightarrow> string \<Rightarrow> unit act" where
  "update_user_password now i h =
     exec (\<lambda>s. s\<lparr>users := map (\<lambda>u. if u_id u = i then u\<lparr>u_password_hash := h, u_updated_at := now\<rparr> else u) (users s)\<rparr>)"

definition touch_user_login :: "time \<Rightarrow> int \<Rightarrow> unit act" where
  "touch_user_login now i =
     exec (\<lambda>s. s\<lparr>users := map (\<lambda>u. if u_id u = i then u\<lparr>u_last_login_at := Some now\<rparr> else u) (users s)\<rparr>)"

definition delete_user :: "int \<Rightarrow> unit act" where
  "delete_user i = exec (\<lambda>s. s\<lparr>users := filter (\<lambda>u. u_id u \<noteq> i) (users s)\<rparr>)"

text \<open>One write to the table, whatever its outcome.\<close>

inductive user_step :: "store \<Rightarrow> store \<Rightarrow> bool" where
  us_insert: "insert_user now u s = (r, t) \<Longrightarrow> user_step s t"
| us_update: "update_user now i name email lang tz theme role s = (r, t) \<Longrightarrow> user_step s t"
| us_profile: "update_user_profile now i name email lang tz theme s = (r, t) \<Longrightarrow> user_step s t"
| us_password: "update_user_password now i h s = (r, t) \<Longrightarrow> user_step s t"
| us_touch: "touch_user_login now i s = (r, t) \<Longrightarrow> user_step s t"
| us_delete: "delete_user i s = (r, t) \<Longrightarrow> user_step s t"

section \<open>What the writes keep\<close>

definition users_ok :: "store \<Rightarrow> bool" where
  "users_ok s \<longleftrightarrow> distinct (map u_id (users s)) \<and> distinct (map u_username (users s))
     \<and> list_all (\<lambda>u. u_id u < next_user s) (users s)"

text \<open>The pairs of users that share an address.\<close>

definition sharing :: "user list \<Rightarrow> (int \<times> int \<times> string) set" where
  "sharing us = {(i, j, e). i \<noteq> j \<and> e \<noteq> '''' \<and> (\<exists>u \<in> set us. u_id u = i \<and> u_email u = e)
      \<and> (\<exists>u \<in> set us. u_id u = j \<and> u_email u = e)}"

text \<open>A state after a change of the users: nothing else moves.\<close>

definition users_changed :: "(user list \<Rightarrow> user list) \<Rightarrow> store \<Rightarrow> store \<Rightarrow> bool" where
  "users_changed f s t \<longleftrightarrow> users t = f (users s) \<and> next_user t = next_user s"

lemma users_ok_same: "same_rows s t \<Longrightarrow> users_ok t = users_ok s"
  by (simp add: users_ok_def same_rowsD)

lemma same_rows_users: "same_rows s (t :: store) \<Longrightarrow> users t = users s \<and> next_user t = next_user s"
  by (simp add: same_rowsD)

text \<open>A write of rows in place that keeps the keys.\<close>

lemma users_ok_map:
  assumes "users_ok s" and "users t = map g (users s)" and "next_user t = next_user s"
    and "\<And>u. u_id (g u) = u_id u \<and> u_username (g u) = u_username u"
  shows "users_ok t"
  using assms by (simp add: users_ok_def list_all_iff comp_def)

lemma users_ok_filter:
  "users_ok s \<Longrightarrow> users t = filter P (users s) \<Longrightarrow> next_user t = next_user s \<Longrightarrow> users_ok t"
  by (auto simp: users_ok_def list_all_iff distinct_map_filter)

lemma sharing_map:
  assumes "\<And>u. u_id (g u) = u_id u \<and> u_email (g u) = u_email u"
  shows "sharing (map g us) = sharing us"
  using assms by (auto simp: sharing_def)

lemma sharing_filter: "sharing (filter P us) \<subseteq> sharing us"
  by (auto simp: sharing_def)

lemma exec_cases:
  assumes "exec f s = (r, t)"
  obtains "same_rows s t" | u where "same_rows s u" "t = f u"
  using assms unfolding exec_def by (cases rule: stmt_cases[of "\<lambda>s. ((), f s)" s]) auto

lemma email_update_result_rows: "email_update_result i n s = (r, t) \<Longrightarrow> same_rows s t"
  unfolding email_update_result_def get_user_by_id_def act_try_def
  by (auto split: if_splits prod.splits sum.splits go_error.splits simp: act_return_def act_fail_def
      dest: query_row_same_rows)

lemma guarded_update_cases:
  assumes "act_bind (stmt (update_rows i email f)) (email_update_result i) s = (r, t)"
  obtains (same) "same_rows s t"
  | (changed) "users t = users (snd (update_rows i email f s))" "next_user t = next_user s"
proof (cases rule: stmt_cases[of "update_rows i email f" s])
  case (fault msg t')
  with assms same show thesis by (auto simp: act_bind_def)
next
  case (ok v)
  with assms have "email_update_result i (fst (update_rows i email f v)) (snd (update_rows i email f v)) = (r, t)"
    by (simp add: act_bind_def)
  note e = same_rows_users[OF email_update_result_rows[OF this]]
  from ok(1) have "users v = users s" "next_user v = next_user s" by (simp_all add: same_rowsD)
  with e show thesis by (intro changed) (simp_all add: update_rows_def)
qed

lemma sharing_update_rows: "sharing (users (snd (update_rows i email f s))) \<subseteq> sharing (users s)"
  if "\<And>u. u_id (f u) = u_id u" for f
proof
  fix x assume "x \<in> sharing (users (snd (update_rows i email f s)))"
  then obtain a b e where x: "x = (a, b, e)" "a \<noteq> b" "e \<noteq> ''''"
    and ex: "\<exists>u \<in> set (users (snd (update_rows i email f s))). u_id u = a \<and> u_email u = e"
      "\<exists>u \<in> set (users (snd (update_rows i email f s))). u_id u = b \<and> u_email u = e"
    by (auto simp: sharing_def)
  let ?us = "users s"
  let ?g = "\<lambda>u. if may_take ?us i email u then (f u)\<lparr>u_email := email\<rparr> else u"
  have old: "(\<exists>u \<in> set ?us. u_id u = k \<and> u_email u = e) \<or>
      (k = i \<and> e = email \<and> (\<exists>u \<in> set ?us. may_take ?us i email u \<and> u_email u \<noteq> email))"
    if "\<exists>u \<in> set (users (snd (update_rows i email f s))). u_id u = k \<and> u_email u = e" for k
  proof -
    from that obtain u where u: "u \<in> set ?us" "u_id (?g u) = k" "u_email (?g u) = e"
      by (auto simp: update_rows_def)
    show ?thesis
    proof (cases "may_take ?us i email u \<and> u_email u \<noteq> email")
      case True
      then have "u_id u = i" by (simp add: may_take_def)
      with True u \<open>\<And>u. u_id (f u) = u_id u\<close> show ?thesis by auto
    next
      case False
      then have "u_id (?g u) = u_id u" "u_email (?g u) = u_email u"
        using \<open>\<And>u. u_id (f u) = u_id u\<close> by auto
      with u show ?thesis by metis
    qed
  qed
  have clash: False if "\<exists>u \<in> set ?us. u_id u = k \<and> u_email u = email"
      "\<exists>u \<in> set ?us. may_take ?us i email u \<and> u_email u \<noteq> email" "k \<noteq> i" "email \<noteq> ''''" for k
    using that by (auto simp: may_take_def list_ex_iff)
  from old[OF ex(1)] old[OF ex(2)] x clash[of a] clash[of b] show "x \<in> sharing ?us"
    by (auto simp: sharing_def)
qed

lemma users_ok_update_rows:
  assumes "users_ok s" "users t = users (snd (update_rows i email f s))" "next_user t = next_user s"
    and "\<And>u. u_id (f u) = u_id u \<and> u_username (f u) = u_username u"
  shows "users_ok t"
proof (rule users_ok_map[OF assms(1)])
  show "users t = map (\<lambda>u. if may_take (users s) i email u then (f u)\<lparr>u_email := email\<rparr> else u) (users s)"
    using assms(2) by (simp add: update_rows_def)
qed (simp_all add: assms)

lemma sharing_append:
  "u_email u = '''' \<or> \<not> has_address (u_email u) us \<Longrightarrow> sharing (us @ [u]) = sharing us"
  by (auto simp: sharing_def has_address_def list_ex_iff)

lemma insert_user_cases:
  assumes "insert_user now u s = (r, t)"
  obtains (same) "same_rows s t"
  | (added) w where "users t = users s @ [w]" "next_user t = next_user s + 1" "u_id w = next_user s"
      "u_email w = '''' \<or> \<not> has_address (u_email w) (users s)" "u_username w = u_username u"
      "\<not> list_ex (\<lambda>r. u_username r = u_username u) (users s)"
proof (cases rule: stmt_cases[of "insert_user_row ((apply_preference_defaults u)\<lparr>u_created_at := now, u_updated_at := now\<rparr>)" s])
  case (fault msg t')
  with assms same show thesis by (auto simp: insert_user_def act_bind_def)
next
  case (ok v)
  note v = same_rows_users[OF ok(1)]
  let ?u = "(apply_preference_defaults u)\<lparr>u_created_at := now, u_updated_at := now\<rparr>"
  have t: "t = snd (insert_user_row ?u v)" using assms ok(2)
    by (auto simp: insert_user_def act_bind_def act_fail_def act_return_def split: sum.splits)
  have n: "u_username (apply_preference_defaults u) = u_username u" by (simp add: apply_preference_defaults_def)
  show thesis
  proof (cases "(u_email ?u \<noteq> '''' \<and> has_address (u_email ?u) (users v)) \<or> list_ex (\<lambda>r. u_username r = u_username u) (users v)")
    case True
    then have "t = v" unfolding t insert_user_row_def by (auto simp: n)
    with same ok(1) show thesis by simp
  next
    case False
    then have "t = v\<lparr>users := users v @ [?u\<lparr>u_id := next_user v, u_last_login_at := None\<rparr>], next_user := next_user v + 1\<rparr>"
      unfolding t insert_user_row_def by (auto simp: n Let_def)
    with False v show thesis
      by (intro added[of "?u\<lparr>u_id := next_user v, u_last_login_at := None\<rparr>"]) (auto simp: n)
  qed
qed

lemma user_step_keeps:
  assumes "user_step s t"
  shows "(users_ok s \<longrightarrow> users_ok t) \<and> sharing (users t) \<subseteq> sharing (users s)"
  using assms
proof (cases rule: user_step.cases)
  case (us_insert now u r)
  from us_insert show ?thesis
  proof (cases rule: insert_user_cases)
    case (added w)
    then show ?thesis by (auto simp: users_ok_def list_all_iff list_ex_iff sharing_append)
  qed (simp add: users_ok_same same_rows_users)
next
  case (us_update now i name email lang tz theme role r)
  let ?f = "\<lambda>u. (set_profile now name lang tz theme u)\<lparr>u_role := role\<rparr>"
  from us_update have "act_bind (stmt (update_rows i email ?f)) (email_update_result i) s = (r, t)"
    by (simp add: update_user_def)
  then show ?thesis
  proof (cases rule: guarded_update_cases)
    case changed
    have "users_ok t" if "users_ok s"
      by (rule users_ok_update_rows[OF that changed]) (simp add: set_profile_def)
    then show ?thesis using sharing_update_rows[of ?f i email s] changed by (simp add: set_profile_def)
  qed (simp add: users_ok_same same_rows_users)
next
  case (us_profile now i name email lang tz theme r)
  let ?f = "set_profile now name lang tz theme"
  from us_profile have "act_bind (stmt (update_rows i email ?f)) (email_update_result i) s = (r, t)"
    by (simp add: update_user_profile_def)
  then show ?thesis
  proof (cases rule: guarded_update_cases)
    case changed
    have "users_ok t" if "users_ok s"
      by (rule users_ok_update_rows[OF that changed]) (simp add: set_profile_def)
    then show ?thesis using sharing_update_rows[of ?f i email s] changed by (simp add: set_profile_def)
  qed (simp add: users_ok_same same_rows_users)
next
  case (us_password now i h r)
  from us_password[unfolded update_user_password_def] show ?thesis
  proof (cases rule: exec_cases)
    case (2 v)
    then show ?thesis
      by (auto simp: users_ok_def list_all_iff comp_def if_distrib cong: if_cong intro!: sharing_map[THEN equalityD1] simp: same_rowsD)
  qed (simp add: users_ok_same same_rows_users)
next
  case (us_touch now i r)
  from us_touch[unfolded touch_user_login_def] show ?thesis
  proof (cases rule: exec_cases)
    case (2 v)
    then show ?thesis
      by (auto simp: users_ok_def list_all_iff comp_def if_distrib cong: if_cong intro!: sharing_map[THEN equalityD1] simp: same_rowsD)
  qed (simp add: users_ok_same same_rows_users)
next
  case (us_delete i r)
  from us_delete[unfolded delete_user_def] show ?thesis
  proof (cases rule: exec_cases)
    case (2 v)
    then show ?thesis using sharing_filter[of "\<lambda>u. u_id u \<noteq> i" "users s"] users_ok_filter[of s t "\<lambda>u. u_id u \<noteq> i"]
      by (simp add: same_rowsD)
  qed (simp add: users_ok_same same_rows_users)
qed

end
