(* ===== verification/Auth.thy ===== *)
theory Auth
  imports Users List_Setting
begin

text \<open>
  Accounts and logins (modules/auth.go, and the login handler of
  workers/handlers_auth.go): the checks of the fields of an account, creating and
  changing one, the check of a login, and the limiter of failed logins.

  bcrypt and the time zone database are third-party code and data: \<open>bc_hash\<close> and
  \<open>bc_matches\<close> stand for \<^verbatim>\<open>GenerateFromPassword\<close> and \<^verbatim>\<open>CompareHashAndPassword\<close>,
  \<open>tz_known\<close> tells which zone names \<^verbatim>\<open>time.LoadLocation\<close> loads. The comparison with
  a fixed hash for an unknown login only costs time and is left out.
\<close>

section \<open>Checks\<close>

record account_env =
  bc_hash :: "string \<Rightarrow> go_error + string"
  bc_matches :: "string \<Rightarrow> string \<Rightarrow> bool"
  tz_known :: "string \<Rightarrow> bool"

definition role_admin :: string where "role_admin = ''admin''"
definition role_user :: string where "role_user = ''user''"
definition password_min_length :: nat where "password_min_length = 8"
definition max_display_name_length :: nat where "max_display_name_length = 128"

definition username_char :: "char \<Rightarrow> bool" where
  "username_char c \<longleftrightarrow> is_alnum_char c \<or> c \<in> set ''_.-''"

definition username_matches :: "string \<Rightarrow> bool" where
  "username_matches s \<longleftrightarrow> 1 \<le> length s \<and> length s \<le> 64 \<and> list_all username_char s"

definition validate_username :: "string \<Rightarrow> go_error option" where
  "validate_username s =
     (if username_matches s then None
      else Some (Keyed ''validation.user.usernameInvalid'' ''username must be 1-64 characters of [A-Za-z0-9_.-]''))"

definition validate_role :: "string \<Rightarrow> go_error option" where
  "validate_role r =
     (if r \<noteq> role_admin \<and> r \<noteq> role_user
      then Some (invalid_request (''role must be '' @ go_quote role_admin @ '' or '' @ go_quote role_user)) else None)"

definition validate_password :: "string \<Rightarrow> go_error option" where
  "validate_password p =
     (if length (runes p) < password_min_length
      then Some (Keyed ''validation.user.passwordTooShort''
             (''password must be at least '' @ nat_digits password_min_length @ '' characters''))
      else if 72 < length p
      then Some (Keyed ''validation.user.passwordTooLong'' ''password must be 72 bytes or fewer (bcrypt limit)'')
      else None)"

definition normalize_timezone :: "account_env \<Rightarrow> string \<Rightarrow> go_error + string" where
  "normalize_timezone env raw =
     (let tz = trim_space raw
      in if tz = '''' then Inr default_timezone
         else if \<not> tz_known env tz \<or> tz = ''Local''
           then Inl (Keyed ''validation.user.timezoneInvalid''
                  (''invalid timezone '' @ go_quote tz @ '' (use an IANA name such as Asia/Tokyo)''))
         else Inr tz)"

definition known_languages :: "string list" where "known_languages = [''ja'', ''en'']"
definition known_themes :: "string list" where "known_themes = [''auto'', ''light'', ''dark'']"

definition normalize_language :: "string \<Rightarrow> go_error + string" where
  "normalize_language raw =
     (let lang = to_lower (trim_space raw)
      in if lang = '''' then Inr default_language
         else if lang \<notin> set known_languages
           then Inl (Keyed ''validation.user.languageInvalid''
                  (''invalid language '' @ go_quote lang @ '' (use '' @ join '' or '' known_languages @ '')''))
         else Inr lang)"

definition normalize_theme :: "string \<Rightarrow> go_error + string" where
  "normalize_theme raw =
     (let theme = to_lower (trim_space raw)
      in if theme = '''' then Inr default_theme
         else if theme \<notin> set known_themes
           then Inl (Keyed ''validation.user.themeInvalid''
                  (''invalid theme '' @ go_quote theme @ '' (use '' @ join '', '' known_themes @ '')''))
         else Inr theme)"

definition err_display_name :: go_error where
  "err_display_name = Keyed ''validation.common.displayNameTooLong''
     (''display name must be '' @ nat_digits max_display_name_length @ '' characters or fewer'')"

definition normalize_display_name :: "string \<Rightarrow> string \<Rightarrow> go_error + string" where
  "normalize_display_name username raw =
     (let name = trim_space raw; name = (if name = '''' then username else name)
      in if max_display_name_length < length (runes name) then Inl err_display_name else Inr name)"

definition username_taken :: "string \<Rightarrow> go_error" where
  "username_taken name = Keyed ''validation.user.usernameTaken'' (''user '' @ go_quote name @ '' already exists'')"

section \<open>Accounts\<close>

record new_user =
  nu_username :: string
  nu_display_name :: string
  nu_email :: string
  nu_language :: string
  nu_timezone :: string
  nu_theme :: string
  nu_password :: string
  nu_role :: string

text \<open>The row of a new account, all fields checked in the code's order; the password is not hashed yet.\<close>

definition new_user_row :: "account_env \<Rightarrow> new_user \<Rightarrow> go_error + user" where
  "new_user_row env n =
     (let username = trim_space (nu_username n); role = (if nu_role n = '''' then role_user else nu_role n)
      in case validate_username username of Some e \<Rightarrow> Inl e | None \<Rightarrow>
        (case validate_role role of Some e \<Rightarrow> Inl e | None \<Rightarrow>
        (case validate_password (nu_password n) of Some e \<Rightarrow> Inl e | None \<Rightarrow>
        (case normalize_display_name username (nu_display_name n) of Inl e \<Rightarrow> Inl e | Inr name \<Rightarrow>
        (case normalize_email (nu_email n) of Inl e \<Rightarrow> Inl e | Inr email \<Rightarrow>
        (case normalize_language (nu_language n) of Inl e \<Rightarrow> Inl e | Inr lang \<Rightarrow>
        (case normalize_timezone env (nu_timezone n) of Inl e \<Rightarrow> Inl e | Inr tz \<Rightarrow>
        (case normalize_theme (nu_theme n) of Inl e \<Rightarrow> Inl e | Inr theme \<Rightarrow>
           Inr \<lparr>u_id = 0, u_username = username, u_display_name = name, u_email = email, u_language = lang,
                u_timezone = tz, u_theme = theme, u_password_hash = '''', u_role = role, u_created_at = 0,
                u_updated_at = 0, u_last_login_at = None\<rparr>))))))))"

text \<open>The second half of \<^verbatim>\<open>CreateUserFrom\<close>: the name is free, the password is hashed, the row is inserted.\<close>

definition create_checked_user :: "account_env \<Rightarrow> time \<Rightarrow> string \<Rightarrow> user \<Rightarrow> user act" where
  "create_checked_user env now password u =
     act_try (get_user_by_username (u_username u)) (\<lambda>r. case r of
        Inr _ \<Rightarrow> act_fail (username_taken (u_username u))
      | Inl NoRows \<Rightarrow>
          act_bind (act_of (bc_hash env password)) (\<lambda>h.
          act_try (insert_user now (u\<lparr>u_password_hash := h\<rparr>)) (\<lambda>r2. case r2 of
             Inl e \<Rightarrow> act_fail (if contains (err_text e) ''UNIQUE constraint failed: users.username''
                                then username_taken (u_username u) else e)
           | Inr u' \<Rightarrow> act_return u'))
      | Inl e \<Rightarrow> act_fail e)"

definition create_user_from :: "account_env \<Rightarrow> time \<Rightarrow> new_user \<Rightarrow> user act" where
  "create_user_from env now n =
     act_bind (act_of (new_user_row env n)) (create_checked_user env now (nu_password n))"

record profile_input =
  pi_display_name :: "string option"
  pi_email :: "string option"
  pi_language :: "string option"
  pi_timezone :: "string option"
  pi_theme :: "string option"

definition given :: "'a option \<Rightarrow> 'b \<Rightarrow> ('a \<Rightarrow> go_error + 'b) \<Rightarrow> go_error + 'b" where
  "given v old f = (case v of None \<Rightarrow> Inr old | Some x \<Rightarrow> f x)"

definition apply_profile :: "account_env \<Rightarrow> user \<Rightarrow> profile_input \<Rightarrow> go_error + string \<times> string \<times> string \<times> string \<times> string" where
  "apply_profile env u p =
     (case given (pi_display_name p) (u_display_name u) (normalize_display_name (u_username u)) of Inl e \<Rightarrow> Inl e | Inr name \<Rightarrow>
     (case given (pi_email p) (u_email u) normalize_email of Inl e \<Rightarrow> Inl e | Inr email \<Rightarrow>
     (case given (pi_language p) (u_language u) normalize_language of Inl e \<Rightarrow> Inl e | Inr lang \<Rightarrow>
     (case given (pi_timezone p) (u_timezone u) (normalize_timezone env) of Inl e \<Rightarrow> Inl e | Inr tz \<Rightarrow>
     (case given (pi_theme p) (u_theme u) normalize_theme of Inl e \<Rightarrow> Inl e | Inr theme \<Rightarrow>
        Inr (name, email, lang, tz, theme))))))"

definition update_profile :: "account_env \<Rightarrow> time \<Rightarrow> user \<Rightarrow> profile_input \<Rightarrow> unit act" where
  "update_profile env now u p =
     (case apply_profile env u p of
        Inl e \<Rightarrow> act_fail e
      | Inr (name, email, lang, tz, theme) \<Rightarrow> update_user_profile now (u_id u) name email lang tz theme)"

definition verify_password :: "account_env \<Rightarrow> user \<Rightarrow> string \<Rightarrow> bool" where
  "verify_password env u p = bc_matches env (u_password_hash u) p"

definition change_password :: "account_env \<Rightarrow> time \<Rightarrow> int \<Rightarrow> string \<Rightarrow> unit act" where
  "change_password env now i p =
     act_bind (act_check (validate_password p)) (\<lambda>_.
     act_bind (act_of (bc_hash env p)) (\<lambda>h. update_user_password now i h))"

definition err_invalid_credentials :: go_error where
  "err_invalid_credentials = Keyed ''result.session.loginFailed'' ''invalid credentials''"

definition authenticate_user :: "account_env \<Rightarrow> string \<Rightarrow> string \<Rightarrow> user act" where
  "authenticate_user env raw password =
     (let login = trim_space raw
      in act_try (if contains login ''@'' then get_user_by_email (to_lower login) else get_user_by_username login)
           (\<lambda>r. case r of
              Inl NoRows \<Rightarrow> act_fail err_invalid_credentials
            | Inl e \<Rightarrow> act_fail e
            | Inr u \<Rightarrow> if verify_password env u password then act_return u else act_fail err_invalid_credentials))"

text \<open>\<^verbatim>\<open>isLastAdmin\<close> (workers/handlers_users.go).\<close>

definition is_last_admin :: "user \<Rightarrow> bool act" where
  "is_last_admin u =
     (if u_role u \<noteq> role_admin then act_return False
      else act_bind count_admins (\<lambda>n. act_return (n \<le> 1)))"

section \<open>The limiter of failed logins\<close>

text \<open>\<open>lr_lock_until\<close> is None for the zero time.\<close>

record login_record =
  lr_failures :: nat
  lr_lock :: int
  lr_lock_until :: "time option"
  lr_seen :: time

record login_limiter =
  ll_records :: "string \<rightharpoonup> login_record"
  ll_ops :: nat

definition login_failures_before_lock :: nat where "login_failures_before_lock = 5"
definition login_lock_initial :: int where "login_lock_initial = 30 * nanos_per_second"
definition login_lock_max :: int where "login_lock_max = 15 * 60 * nanos_per_second"
definition login_record_ttl :: int where "login_record_ttl = 3600 * nanos_per_second"
definition login_records_prune_every :: nat where "login_records_prune_every = 256"

definition new_login_limiter :: login_limiter where
  "new_login_limiter = \<lparr>ll_records = (\<lambda>_. None), ll_ops = 0\<rparr>"

definition login_key :: "string \<Rightarrow> string \<Rightarrow> string" where
  "login_key ip username = ip @ [CHR 0x00] @ to_lower (trim_space username)"

definition blocked :: "time \<Rightarrow> string \<Rightarrow> login_limiter \<Rightarrow> int option" where
  "blocked now key l =
     (case ll_records l key of
        None \<Rightarrow> None
      | Some r \<Rightarrow> (case lr_lock_until r of
            None \<Rightarrow> None
          | Some t \<Rightarrow> let remaining = t - now in if remaining \<le> 0 then None else Some remaining))"

definition prune_locked :: "time \<Rightarrow> login_limiter \<Rightarrow> login_limiter" where
  "prune_locked now l =
     (let l1 = l\<lparr>ll_ops := ll_ops l + 1\<rparr>
      in if ll_ops l1 mod login_records_prune_every \<noteq> 0 then l1
         else l1\<lparr>ll_records := (\<lambda>k. case ll_records l k of
                   Some r \<Rightarrow> if lr_seen r < now - login_record_ttl then None else Some r
                 | None \<Rightarrow> None)\<rparr>)"

definition next_lock :: "int \<Rightarrow> int" where
  "next_lock lock =
     (if lock = 0 then login_lock_initial
      else if login_lock_max < lock * 2 then login_lock_max else lock * 2)"

text \<open>\<^verbatim>\<open>Fail\<close> at \<open>now\<close> (the pruning before it reads the clock at \<open>prune_now\<close>): the wait now in force.\<close>

definition fail_login :: "time \<Rightarrow> time \<Rightarrow> string \<Rightarrow> login_limiter \<Rightarrow> int \<times> login_limiter" where
  "fail_login prune_now now key l0 =
     (let l = prune_locked prune_now l0;
          r0 = (case ll_records l key of None \<Rightarrow> \<lparr>lr_failures = 0, lr_lock = 0, lr_lock_until = None, lr_seen = 0\<rparr>
                                       | Some r \<Rightarrow> r);
          r1 = r0\<lparr>lr_seen := now, lr_failures := lr_failures r0 + 1, lr_lock_until := None\<rparr>
      in if lr_failures r1 < login_failures_before_lock
         then (0, l\<lparr>ll_records := (ll_records l)(key \<mapsto> r1)\<rparr>)
         else let lock = next_lock (lr_lock r1)
              in (lock, l\<lparr>ll_records := (ll_records l)(key \<mapsto> r1\<lparr>lr_lock := lock, lr_lock_until := Some (now + lock)\<rparr>)\<rparr>))"

definition reset_login :: "string \<Rightarrow> login_limiter \<Rightarrow> login_limiter" where
  "reset_login key l = l\<lparr>ll_records := (ll_records l)(key := None)\<rparr>"

section \<open>The login handler\<close>

datatype login_reply = BadRequest | TooMany int | Unauthorized | InternalError | LoggedIn user

text \<open>
  \<^verbatim>\<open>handleLogin\<close> once the body is decoded: \<open>t1\<close> to \<open>t3\<close> are the clock of \<^verbatim>\<open>Blocked\<close> and
  of \<^verbatim>\<open>Fail\<close>, \<open>t4\<close> the one of the recorded login. Answering and the session cookie are left out.
\<close>

definition handle_login :: "account_env \<Rightarrow> time \<times> time \<times> time \<times> time \<Rightarrow> string \<Rightarrow> string \<Rightarrow> string
    \<Rightarrow> login_limiter \<Rightarrow> store \<Rightarrow> login_reply \<times> login_limiter \<times> store" where
  "handle_login env ts ip raw password l s =
     (case ts of (t1, t2, t3, t4) \<Rightarrow>
        let name = trim_space raw; key = login_key ip name
        in if name = '''' \<or> password = '''' then (BadRequest, l, s)
           else case blocked t1 key l of
               Some wait \<Rightarrow> (TooMany wait, l, s)
             | None \<Rightarrow>
                 (case authenticate_user env name password s of
                    (Inl e, s1) \<Rightarrow>
                      if e = err_invalid_credentials then (Unauthorized, snd (fail_login t2 t3 key l), s1)
                      else (InternalError, l, s1)
                  | (Inr u, s1) \<Rightarrow> (LoggedIn u, reset_login key l, snd (touch_user_login t4 (u_id u) s1))))"

end
