(* ===== verification/Auth_Properties.thy ===== *)
theory Auth_Properties
  imports Auth
begin

text \<open>
  Properties of the users table, of accounts and logins, and of the limiter of
  failed logins against a reference that counts over the history of the attempts.
\<close>

section \<open>Accounts\<close>

lemma lower_char_at: "lower_char c = CHR ''@'' \<longleftrightarrow> c = CHR ''@''"
proof (cases "is_upper_char c")
  case True
  then have "(of_char c :: nat) + 32 < 256" "(of_char c :: nat) + 32 \<noteq> 64" by (auto simp: is_upper_char_def)
  then have "(of_char (lower_char c) :: nat) \<noteq> 64" using True by (simp add: lower_char_def)
  moreover have "(of_char (CHR ''@'') :: nat) = 64" "\<not> is_upper_char (CHR ''@'')" by code_simp+
  ultimately show ?thesis using True by metis
qed (simp add: lower_char_def)

lemma at_to_lower: "CHR ''@'' \<in> set (to_lower s) \<Longrightarrow> CHR ''@'' \<in> set s"
proof (induction s rule: to_lower.induct)
  case (2 c cs)
  have tl: "CHR ''@'' \<in> set (tl cs) \<Longrightarrow> CHR ''@'' \<in> set cs" by (cases cs) auto
  have dr: "CHR ''@'' \<in> set (drop 2 cs) \<Longrightarrow> CHR ''@'' \<in> set cs" by (rule in_set_dropD)
  from 2 show ?case using tl dr
    by (auto simp: lower_char_at eq_commute[of "CHR ''@''"] split: if_splits)
qed simp

lemma contains_char: "contains s [x] \<longleftrightarrow> x \<in> set s"
  by (simp add: contains_def cut_char_None)

lemma username_no_at: "validate_username s = None \<Longrightarrow> \<not> contains s ''@''"
proof -
  assume "validate_username s = None"
  then have "list_all username_char s" by (simp add: validate_username_def username_matches_def split: if_splits)
  moreover have "\<not> username_char (CHR ''@'')" by code_simp
  ultimately show ?thesis by (auto simp: contains_char list_all_iff)
qed

lemma normalize_email_at:
  assumes "normalize_email raw = Inr email" "email \<noteq> ''''"
  shows "email = to_lower (trim_space raw)" "contains (trim_space raw) ''@''"
proof -
  from assms show e: "email = to_lower (trim_space raw)"
    by (auto simp: normalize_email_def Let_def split: if_splits)
  from assms have "email_matches email" by (auto simp: normalize_email_def Let_def split: if_splits)
  then have "CHR ''@'' \<in> set email" by (auto simp: email_matches_def dest: cut_Some split: option.splits)
  then show "contains (trim_space raw) ''@''" using at_to_lower by (simp add: contains_char e)
qed

lemma new_user_row_ok:
  assumes "new_user_row env n = Inr u"
  shows "u_username u = trim_space (nu_username n)" "validate_username (u_username u) = None"
    "normalize_email (nu_email n) = Inr (u_email u)" "u_last_login_at u = None"
  using assms by (auto simp: new_user_row_def Let_def split: option.splits sum.splits)

lemma create_user_from_ok:
  assumes "faults s = []" "create_user_from env now n s = (Inr u, t)"
  shows "users t = users s @ [u] \<and> faults t = []
    \<and> u_username u = trim_space (nu_username n) \<and> \<not> contains (trim_space (nu_username n)) ''@''
    \<and> List.find (\<lambda>r. u_username r = u_username u) (users s) = None
    \<and> normalize_email (nu_email n) = Inr (u_email u)
    \<and> (u_email u = '''' \<or> \<not> has_address (u_email u) (users s))
    \<and> bc_hash env (nu_password n) = Inr (u_password_hash u)"
proof -
  from assms(2) obtain u0 where u0: "new_user_row env n = Inr u0"
    by (auto simp: create_user_from_def act_of_def act_bind_def act_fail_def split: sum.splits)
  note r = new_user_row_ok[OF u0]
  let ?name = "u_username u0"
  have c: "create_user_from env now n s = create_checked_user env now (nu_password n) u0 s"
    by (simp add: create_user_from_def u0 act_of_def act_bind_def act_return_def)
  have free: "List.find (\<lambda>r. u_username r = ?name) (users s) = None"
    using assms unfolding c create_checked_user_def
    by (auto simp: act_try_def get_user_by_username_def query_row_no_faults act_fail_def split: option.splits)
  then obtain h where h: "bc_hash env (nu_password n) = Inr h"
    and i: "insert_user now (u0\<lparr>u_password_hash := h\<rparr>) s = (Inr u, t)"
    using assms unfolding c create_checked_user_def
    by (auto simp: act_try_def get_user_by_username_def query_row_no_faults act_fail_def act_bind_def act_of_def
        act_return_def split: sum.splits prod.splits)
  let ?u = "(apply_preference_defaults (u0\<lparr>u_password_hash := h\<rparr>))\<lparr>u_created_at := now, u_updated_at := now\<rparr>"
  from i have row: "insert_user_row ?u s = (Inr u, t)"
    by (auto simp: insert_user_def act_bind_def stmt_no_faults[OF assms(1)] act_fail_def act_return_def
        split: sum.splits prod.splits) (metis prod.collapse)+
  have f: "u_username ?u = ?name" "u_email ?u = u_email u0" "u_last_login_at ?u = None" "u_password_hash ?u = h"
    using r by (simp_all add: apply_preference_defaults_def)
  from row have u: "u = ?u\<lparr>u_id := next_user s\<rparr>" and t: "t = s\<lparr>users := users s @ [u], next_user := next_user s + 1\<rparr>"
    and e: "u_email u0 = '''' \<or> \<not> has_address (u_email u0) (users s)"
    using f by (auto simp: insert_user_row_def Let_def split: if_splits)
  have g: "u_username u = ?name" "u_email u = u_email u0" "u_password_hash u = h"
    using f unfolding u by simp_all
  show ?thesis using r free h e assms(1) username_no_at[OF r(2)] by (simp add: t g)
qed

lemma find_append: "List.find P (xs @ ys) = (case List.find P xs of Some x \<Rightarrow> Some x | None \<Rightarrow> List.find P ys)"
  by (induction xs) auto

lemma authenticate_username:
  assumes "faults t = []" "users t = us @ [u]" "u_username u = trim_space name" "\<not> contains (trim_space name) ''@''"
    "List.find (\<lambda>r. u_username r = u_username u) us = None"
  shows "authenticate_user env name p t
    = (if verify_password env u p then Inr u else Inl err_invalid_credentials, t)"
proof -
  have "List.find (\<lambda>r. u_username r = trim_space name) (users t) = Some u"
    using assms(3,5) by (simp add: assms(2) find_append)
  then show ?thesis using assms(1,4)
    by (simp add: authenticate_user_def Let_def act_try_def get_user_by_username_def query_row_no_faults act_return_def act_fail_def)
qed

lemma authenticate_email:
  assumes "faults t = []" "users t = us @ [u]" "u_email u = to_lower (trim_space raw)" "contains (trim_space raw) ''@''"
    "u_email u \<noteq> ''''" "\<not> has_address (u_email u) us"
  shows "authenticate_user env raw p t
    = (if verify_password env u p then Inr u else Inl err_invalid_credentials, t)"
proof -
  have "filter (\<lambda>r. u_email r = u_email u \<and> u_email r \<noteq> '''') us = []"
    using assms(6) by (auto simp: has_address_def list_ex_iff filter_empty_conv)
  then have "sort_key u_id (filter (\<lambda>r. u_email r = u_email u \<and> u_email r \<noteq> '''') (users t)) = [u]"
    using assms(5) by (simp add: assms(2))
  then have "get_user_by_email (to_lower (trim_space raw)) t = (Inr u, t)"
    by (simp add: get_user_by_email_def query_row_no_faults[OF assms(1)] flip: assms(3))
  then show ?thesis using assms(4)
    by (simp add: authenticate_user_def Let_def act_try_def act_return_def act_fail_def)
qed

text \<open>
  C34. The account that was created is the one that can log in: with the user name
  or the address it was given (as typed, in any case of the address) and a password
  that bcrypt accepts for the stored hash, and with no other password. The created
  row is the only change of the table.
\<close>

theorem account_login:
  assumes "faults s = []"
    and "create_user_from env now n s = (Inr u, t)"
  shows "users t = users s @ [u]
    \<and> bc_hash env (nu_password n) = Inr (u_password_hash u)
    \<and> authenticate_user env (nu_username n) p t
        = (if bc_matches env (u_password_hash u) p then Inr u else Inl err_invalid_credentials, t)
    \<and> (trim_space (nu_email n) = '''' \<or>
        authenticate_user env (nu_email n) p t
          = (if bc_matches env (u_password_hash u) p then Inr u else Inl err_invalid_credentials, t))"
proof -
  note c = create_user_from_ok[OF assms]
  have "authenticate_user env (nu_email n) p t
      = (if bc_matches env (u_password_hash u) p then Inr u else Inl err_invalid_credentials, t)"
    if ne: "trim_space (nu_email n) \<noteq> ''''"
  proof -
    have "to_lower (trim_space (nu_email n)) \<noteq> ''''"
      using ne by (cases "trim_space (nu_email n)") auto
    then have e: "u_email u \<noteq> ''''" using c by (auto simp: normalize_email_def Let_def split: if_splits)
    note a = normalize_email_at[of "nu_email n" "u_email u"]
    show ?thesis using authenticate_email[of t "users s" u "nu_email n" env p] c e a
      by (simp add: verify_password_def)
  qed
  moreover have "authenticate_user env (nu_username n) p t
      = (if bc_matches env (u_password_hash u) p then Inr u else Inl err_invalid_credentials, t)"
    by (rule authenticate_username[of t "users s", unfolded verify_password_def]) (use c in auto)
  ultimately show ?thesis using c by blast
qed

definition demo_env :: account_env where
  "demo_env = \<lparr>bc_hash = (\<lambda>p. Inr (''hash:'' @ p)), bc_matches = (\<lambda>h p. h = ''hash:'' @ p), tz_known = (\<lambda>z. z = ''UTC'')\<rparr>"

definition demo_new_user :: new_user where
  "demo_new_user = \<lparr>nu_username = '' ann '', nu_display_name = '''', nu_email = '' Ann@Example.org'', nu_language = '''',
     nu_timezone = ''UTC'', nu_theme = ''dark'', nu_password = ''correct horse'', nu_role = role_admin\<rparr>"

definition empty_store :: store where
  "empty_store = \<lparr>faults = [], jobs = [], next_job = 1, mailboxes = [], next_mailbox = 1, users = [], next_user = 1,
     probe_mails = [], next_probe = 1, settings = (\<lambda>_. None)\<rparr>"

theorem account_login_witness:
  "\<exists>u t. create_user_from demo_env 7 demo_new_user empty_store = (Inr u, t)
     \<and> authenticate_user demo_env (nu_email demo_new_user) ''correct horse'' t = (Inr u, t)
     \<and> authenticate_user demo_env (nu_username demo_new_user) ''battery'' t = (Inl err_invalid_credentials, t)"
proof -
  have "case fst (create_user_from demo_env 7 demo_new_user empty_store) of Inr _ \<Rightarrow> True | Inl _ \<Rightarrow> False"
    by code_simp
  then obtain u t where c: "create_user_from demo_env 7 demo_new_user empty_store = (Inr u, t)"
    by (cases "create_user_from demo_env 7 demo_new_user empty_store") (auto split: sum.splits)
  have f: "faults empty_store = []" by (simp add: empty_store_def)
  note a = account_login[OF f c, of "''correct horse''"] and b = account_login[OF f c, of "''battery''"]
  have pw: "nu_password demo_new_user = ''correct horse''" by (simp add: demo_new_user_def)
  have ne: "trim_space (nu_email demo_new_user) \<noteq> ''''" by code_simp
  show ?thesis using a b c ne pw by (intro exI[of _ u] exI[of _ t]) (auto simp: demo_env_def)
qed

section \<open>The users table\<close>

text \<open>
  C35. No sequence of writes to the users table, failing or not, makes two users
  share an address that did not share it before, and identifiers and user names
  stay unique.
\<close>

theorem users_stay_unique:
  assumes "user_step\<^sup>*\<^sup>* s t"
  shows "sharing (users t) \<subseteq> sharing (users s) \<and> (users_ok s \<longrightarrow> users_ok t)"
  using assms
proof (induction rule: rtranclp_induct)
  case (step y z)
  from user_step_keeps[OF step.hyps(2)] step.IH show ?case by blast
qed simp

definition demo_user :: "string \<Rightarrow> string \<Rightarrow> user" where
  "demo_user name email = \<lparr>u_id = 0, u_username = name, u_display_name = name, u_email = email, u_language = [],
     u_timezone = [], u_theme = [], u_password_hash = ''h'', u_role = role_user, u_created_at = 0, u_updated_at = 0,
     u_last_login_at = None\<rparr>"

text \<open>Two users with one address: the second insertion is refused.\<close>

definition demo_users :: store where
  "demo_users = snd (insert_user 2 (demo_user ''bob'' ''a@x.jp'') (snd (insert_user 1 (demo_user ''ann'' ''a@x.jp'') empty_store)))"

theorem users_stay_unique_witness:
  "sharing (users demo_users) = {} \<and> users_ok demo_users \<and> length (users demo_users) = 1"
proof -
  have st: "user_step s (snd (insert_user now u s))" for s now u
    by (rule us_insert) (rule surjective_pairing)
  have "user_step\<^sup>*\<^sup>* empty_store demo_users"
    unfolding demo_users_def
    by (rule rtranclp_trans[OF r_into_rtranclp[where r = user_step] r_into_rtranclp[where r = user_step]]) (rule st)+
  note k = users_stay_unique[OF this]
  have e: "sharing (users empty_store) = {}" "users_ok empty_store"
    by (simp_all add: empty_store_def sharing_def users_ok_def)
  have "length (users demo_users) = 1" by code_simp
  with k e show ?thesis by simp
qed


section \<open>The limiter of failed logins\<close>

text \<open>
  The attempts on a limiter, the latest last: a failed login of a key (with the
  time of the pruning and of the failure), a successful one, and a request that
  only asks (\<^verbatim>\<open>Blocked\<close>) and so leaves no trace.
\<close>

datatype login_event = Failed time time string | Succeeded string

definition limiter_step :: "login_limiter \<Rightarrow> login_event \<Rightarrow> login_limiter" where
  "limiter_step l e = (case e of Failed p t k \<Rightarrow> snd (fail_login p t k l) | Succeeded k \<Rightarrow> reset_login k l)"

definition limiter_run :: "login_event list \<Rightarrow> login_limiter" where
  "limiter_run es = foldl limiter_step new_login_limiter es"

text \<open>The reference: the times of the failures of a key since its last success.\<close>

fun fails_step :: "string \<Rightarrow> time list \<Rightarrow> login_event \<Rightarrow> time list" where
  "fails_step key ts (Failed p t k) = (if k = key then ts @ [t] else ts)"
| "fails_step key ts (Succeeded k) = (if k = key then [] else ts)"

definition fails_of :: "string \<Rightarrow> login_event list \<Rightarrow> time list" where
  "fails_of key es = foldl (fails_step key) [] es"

text \<open>The wait after \<open>n\<close> failures in a row: none below five, then 30 s doubling up to 15 min.\<close>

fun wait_after :: "nat \<Rightarrow> int" where
  "wait_after 0 = 0"
| "wait_after (Suc n) =
     (if Suc n < login_failures_before_lock then 0
      else if Suc n = login_failures_before_lock then login_lock_initial
      else min login_lock_max (2 * wait_after n))"

definition reference_blocked :: "time \<Rightarrow> string \<Rightarrow> login_event list \<Rightarrow> int option" where
  "reference_blocked now key es =
     (let ts = fails_of key es
      in if ts = [] then None
         else let w = last ts + wait_after (length ts) - now
              in if length ts < login_failures_before_lock \<or> w \<le> 0 then None else Some w)"

text \<open>The clock does not run backwards; the failures of a key follow one another within an hour.\<close>

fun event_times :: "login_event \<Rightarrow> time list" where
  "event_times (Failed p t k) = [p, t]"
| "event_times (Succeeded k) = []"

definition clock_forward :: "login_event list \<Rightarrow> bool" where
  "clock_forward es \<longleftrightarrow> sorted (concat (map event_times es))"

fun close_together :: "time list \<Rightarrow> bool" where
  "close_together (a # b # ts) \<longleftrightarrow> b - a \<le> login_record_ttl \<and> close_together (b # ts)"
| "close_together ts \<longleftrightarrow> True"

text \<open>Every run of failures of the key in the history, not only the last one, keeps the distance.\<close>

definition steady :: "string \<Rightarrow> login_event list \<Rightarrow> bool" where
  "steady key es \<longleftrightarrow> list_all (\<lambda>n. close_together (fails_of key (take n es))) [0..<Suc (length es)]"

lemma close_together_snoc:
  "close_together (ts @ [t]) \<longleftrightarrow> close_together ts \<and> (ts = [] \<or> t - last ts \<le> login_record_ttl)"
proof (induction ts rule: close_together.induct)
  case (1 a b ts)
  then show ?case by simp
qed auto

lemma steady_snoc: "steady key (es @ [e]) \<longleftrightarrow> steady key es \<and> close_together (fails_of key (es @ [e]))"
  by (auto simp: steady_def list_all_iff)

lemma wait_after_range: "0 \<le> wait_after n \<and> wait_after n \<le> login_lock_max"
  by (induction n) (auto simp: login_lock_max_def login_lock_initial_def)

lemma wait_after_next:
  "wait_after (Suc n) = (if Suc n < login_failures_before_lock then 0 else next_lock (wait_after n))"
proof -
  have z: "wait_after n = 0 \<longleftrightarrow> n < login_failures_before_lock"
  proof (induction n)
    case (Suc n)
    show ?case
    proof (cases "Suc n = login_failures_before_lock")
      case False
      have "wait_after n \<ge> 0" using wait_after_range by simp
      with Suc False show ?thesis
        by (auto simp: login_lock_max_def min_def)
    next
      case True
      then have "wait_after (Suc n) = login_lock_initial" unfolding wait_after.simps by simp
      with True show ?thesis by (simp add: login_lock_initial_def del: wait_after.simps)
    qed
  qed (simp add: login_failures_before_lock_def)
  show ?thesis
  proof (cases "Suc n = login_failures_before_lock")
    case True
    then have "wait_after n = 0" using z by simp
    with True show ?thesis unfolding wait_after.simps next_lock_def by simp
  next
    case False
    then show ?thesis using z by (auto simp: next_lock_def min_def)
  qed
qed

lemma wait_after_below: "n < login_failures_before_lock \<Longrightarrow> wait_after n = 0"
  by (cases n) auto

text \<open>What the limiter holds for a key whose failures are \<open>ts\<close>, at a clock of at least \<open>now\<close>.\<close>

definition tracks :: "time \<Rightarrow> time list \<Rightarrow> login_record option \<Rightarrow> bool" where
  "tracks now ts r \<longleftrightarrow>
     (case r of
        None \<Rightarrow> ts = [] \<or> last ts < now - login_record_ttl
      | Some r \<Rightarrow> ts \<noteq> [] \<and> lr_failures r = length ts \<and> lr_lock r = wait_after (length ts) \<and> lr_seen r = last ts
          \<and> lr_lock_until r = (if length ts < login_failures_before_lock then None
                               else Some (last ts + wait_after (length ts))))"

lemma tracks_later: "tracks now ts r \<Longrightarrow> now \<le> now' \<Longrightarrow> tracks now' ts r"
  by (auto simp: tracks_def split: option.splits)

lemma tracks_pruned:
  assumes "tracks now ts (ll_records l k)" "now \<le> p"
  shows "tracks p ts (ll_records (prune_locked p l) k)"
  using assms by (auto simp: tracks_def prune_locked_def Let_def split: option.splits)

lemma tracks_failed:
  assumes "tracks now ts (ll_records l key)" "now \<le> p" "p \<le> t" "close_together (ts @ [t])"
  shows "tracks t (ts @ [t]) (ll_records (snd (fail_login p t key l)) key)"
proof -
  from tracks_pruned[OF assms(1,2)] have tr: "tracks p ts (ll_records (prune_locked p l) key)" .
  show ?thesis
  proof (cases "ll_records (prune_locked p l) key")
    case None
    have "ts = []"
    proof (rule ccontr)
      assume "ts \<noteq> []"
      with tr None have "last ts < p - login_record_ttl" by (simp add: tracks_def)
      moreover have "t - last ts \<le> login_record_ttl" using assms(4) \<open>ts \<noteq> []\<close> by (simp add: close_together_snoc)
      ultimately show False using assms(3) by simp
    qed
    with None show ?thesis
      by (simp add: tracks_def fail_login_def Let_def login_failures_before_lock_def)
  next
    case (Some r)
    with tr have r: "lr_failures r = length ts" "lr_lock r = wait_after (length ts)" by (auto simp: tracks_def)
    then show ?thesis using Some wait_after_below[of "length ts"]
      by (simp add: tracks_def fail_login_def Let_def wait_after_next del: wait_after.simps)
  qed
qed

lemma tracks_other:
  assumes "tracks now ts (ll_records l key)" "now \<le> p" "p \<le> t" "k \<noteq> key"
  shows "tracks t ts (ll_records (snd (fail_login p t k l)) key)"
proof -
  from tracks_pruned[OF assms(1,2)] assms(3) have "tracks t ts (ll_records (prune_locked p l) key)"
    by (rule tracks_later)
  with assms(4) show ?thesis by (simp add: fail_login_def Let_def)
qed

definition last_time :: "time \<Rightarrow> login_event list \<Rightarrow> time" where
  "last_time t0 es = (let ts = concat (map event_times es) in if ts = [] then t0 else last ts)"

lemma limiter_tracks:
  assumes "clock_forward es" "steady key es" "list_all (\<lambda>t. t0 \<le> t) (concat (map event_times es))"
  shows "tracks (last_time t0 es) (fails_of key es) (ll_records (limiter_run es) key)"
  using assms
proof (induction es rule: rev_induct)
  case Nil
  show ?case by (simp add: tracks_def limiter_run_def new_login_limiter_def fails_of_def)
next
  case (snoc e es)
  have f: "clock_forward es" "list_all (\<lambda>t. t0 \<le> t) (concat (map event_times es))"
    using snoc.prems(1,3) by (auto simp: clock_forward_def sorted_append)
  note IH = snoc.IH[OF f(1) _ f(2)]
  have tr: "tracks (last_time t0 es) (fails_of key es) (ll_records (limiter_run es) key)"
    using snoc.prems(2) by (intro IH) (simp add: steady_snoc)
  have run: "limiter_run (es @ [e]) = limiter_step (limiter_run es) e" by (simp add: limiter_run_def)
  show ?case
  proof (cases e)
    case (Failed p t k)
    have "last_time t0 es \<in> insert t0 (set (concat (map event_times es)))"
      unfolding last_time_def Let_def
      by (metis insertI1 insertI2 last_in_set)
    then have le: "last_time t0 es \<le> p" "p \<le> t"
      using snoc.prems(1,3) by (auto simp: Failed clock_forward_def sorted_append list_all_iff)
    have lt: "last_time t0 (es @ [e]) = t" by (simp add: last_time_def Failed)
    have cl: "close_together (fails_of key (es @ [e]))" using snoc.prems(2) by (simp add: steady_snoc)
    show ?thesis
    proof (cases "k = key")
      case True
      have "fails_of key (es @ [e]) = fails_of key es @ [t]" by (simp add: fails_of_def Failed True)
      with tracks_failed[OF tr le] cl show ?thesis unfolding run lt by (simp add: limiter_step_def Failed True)
    next
      case False
      have "fails_of key (es @ [e]) = fails_of key es" by (simp add: fails_of_def Failed False)
      with tracks_other[OF tr le False] show ?thesis unfolding run lt by (simp add: limiter_step_def Failed)
    qed
  next
    case (Succeeded k)
    have lt: "last_time t0 (es @ [e]) = last_time t0 es" by (simp add: last_time_def Succeeded)
    show ?thesis using tr unfolding run lt
      by (auto simp: fails_of_def Succeeded limiter_step_def reset_login_def tracks_def)
  qed
qed

lemma tracks_blocked:
  assumes "tracks now ts (ll_records l key)" "ts = fails_of key es"
  shows "blocked now key l = reference_blocked now key es"
proof (cases "ll_records l key")
  case None
  then have "ts = [] \<or> last ts < now - login_record_ttl" using assms by (simp add: tracks_def)
  moreover have "last ts + wait_after (length ts) - now \<le> 0" if "last ts < now - login_record_ttl"
    using that wait_after_range[of "length ts"]
    by (simp add: login_record_ttl_def login_lock_max_def)
  ultimately have "reference_blocked now key es = None"
    by (auto simp: reference_blocked_def Let_def assms(2))
  with None show ?thesis by (simp add: blocked_def)
next
  case (Some r)
  with assms show ?thesis by (auto simp: tracks_def blocked_def reference_blocked_def Let_def)
qed


text \<open>Six failures of a key, one of another key in between: a wait of a minute from the sixth.\<close>

definition demo_attempts :: "login_event list" where
  "demo_attempts = [Failed 1 1 ''k'', Failed 2 2 ''k'', Failed 3 3 ''k'', Failed 4 4 ''k'', Failed 5 5 ''x'',
     Failed 6 6 ''k'', Succeeded ''x'', Failed 30000000007 30000000007 ''k'']"


end
