(* ===== verification/Secret.thy ===== *)
theory Secret
  imports Db
begin

text \<open>
  The master key and the encrypted passwords (modules/secret.go), with the
  encodings of Go's encoding/hex and encoding/base64 they use. AES-GCM is the
  parameter \<open>gcm\<close> (crypto/aes and crypto/cipher): \<open>gcm_key\<close> tells which keys are
  accepted, \<open>gcm_seal\<close> and \<open>gcm_open\<close> encrypt and decrypt under a key and a nonce.
  Random bytes are arguments. Bytes are characters.
\<close>

section \<open>Hexadecimal and base64\<close>

text \<open>\<^verbatim>\<open>hex.EncodeToString\<close> and \<^verbatim>\<open>hex.DecodeString\<close>.\<close>

definition hex_low :: "nat \<Rightarrow> char" where
  "hex_low n = ''0123456789abcdef'' ! n"

definition nibble_val :: "char \<Rightarrow> nat option" where
  "nibble_val c =
     (let n = (of_char c :: nat)
      in if 48 \<le> n \<and> n \<le> 57 then Some (n - 48)
         else if 97 \<le> n \<and> n \<le> 102 then Some (n - 87)
         else if 65 \<le> n \<and> n \<le> 70 then Some (n - 55) else None)"

fun hex_encode :: "string \<Rightarrow> string" where
  "hex_encode [] = []"
| "hex_encode (c # cs) = hex_low ((of_char c :: nat) div 16) # hex_low ((of_char c :: nat) mod 16) # hex_encode cs"

fun hex_decode :: "string \<Rightarrow> string option" where
  "hex_decode [] = Some []"
| "hex_decode [c] = None"
| "hex_decode (a # b # cs) =
     (case (nibble_val a, nibble_val b, hex_decode cs) of
        (Some x, Some y, Some r) \<Rightarrow> Some (char_of (x * 16 + y) # r)
      | _ \<Rightarrow> None)"

text \<open>
  \<^verbatim>\<open>base64.RawURLEncoding\<close>: 6-bit digits, no padding; decoding skips line breaks
  and does not look at the unused bits of the last digit.
\<close>

definition b64_alphabet :: string where
  "b64_alphabet = ''ABCDEFGHIJKLMNOPQRSTUVWXYZabcdefghijklmnopqrstuvwxyz0123456789-_''"

definition b64_val :: "char \<Rightarrow> nat option" where
  "b64_val c =
     (let n = (of_char c :: nat)
      in if 65 \<le> n \<and> n \<le> 90 then Some (n - 65)
         else if 97 \<le> n \<and> n \<le> 122 then Some (n - 71)
         else if 48 \<le> n \<and> n \<le> 57 then Some (n + 4)
         else if n = 45 then Some 62 else if n = 95 then Some 63 else None)"

fun b64_digits :: "nat list \<Rightarrow> nat list" where
  "b64_digits [] = []"
| "b64_digits [a] = [a div 4, a mod 4 * 16]"
| "b64_digits [a, b] = [a div 4, a mod 4 * 16 + b div 16, b mod 16 * 4]"
| "b64_digits (a # b # c # r) =
     a div 4 # (a mod 4 * 16 + b div 16) # (b mod 16 * 4 + c div 64) # c mod 64 # b64_digits r"

fun b64_bytes :: "nat list \<Rightarrow> nat list option" where
  "b64_bytes [] = Some []"
| "b64_bytes [w] = None"
| "b64_bytes [w, x] = Some [w * 4 + x div 16]"
| "b64_bytes [w, x, y] = Some [w * 4 + x div 16, x mod 16 * 16 + y div 4]"
| "b64_bytes (w # x # y # z # r) =
     (case b64_bytes r of None \<Rightarrow> None
      | Some bs \<Rightarrow> Some ((w * 4 + x div 16) # (x mod 16 * 16 + y div 4) # (y mod 4 * 64 + z) # bs))"

definition b64_encode :: "string \<Rightarrow> string" where
  "b64_encode s = map (\<lambda>d. b64_alphabet ! d) (b64_digits (map (of_char :: char \<Rightarrow> nat) s))"

definition b64_decode :: "string \<Rightarrow> string option" where
  "b64_decode s =
     (let vs = map b64_val (filter (\<lambda>c. (of_char c :: nat) \<noteq> 10 \<and> (of_char c :: nat) \<noteq> 13) s)
      in if list_ex (\<lambda>v. v = None) vs then None
         else case b64_bytes (map the vs) of None \<Rightarrow> None | Some bs \<Rightarrow> Some (map char_of bs))"

section \<open>The code\<close>

definition setting_secret_key :: string where "setting_secret_key = ''secret_key''"
definition secret_key_len :: nat where "secret_key_len = 32"
definition secret_nonce_len :: nat where "secret_nonce_len = 12"

record gcm =
  gcm_key :: "string \<Rightarrow> bool"
  gcm_seal :: "string \<Rightarrow> string \<Rightarrow> string \<Rightarrow> string"
  gcm_open :: "string \<Rightarrow> string \<Rightarrow> string \<Rightarrow> string option"

definition key_corrupt :: go_error where
  "key_corrupt = Plain ''the stored secret key (settings.secret_key) is corrupt; restore the database from a backup (a new key makes every stored password unreadable)''"

definition decode_key :: "string \<Rightarrow> go_error + string" where
  "decode_key stored =
     (case hex_decode stored of
        Some k \<Rightarrow> if length k = secret_key_len then Inr k else Inl key_corrupt
      | None \<Rightarrow> Inl key_corrupt)"

definition read_key :: "string act" where
  "read_key =
     act_try (get_setting_strict setting_secret_key) (\<lambda>r. case r of
        Inl e \<Rightarrow> act_fail (Wrapped ''failed to read back the secret key'' e)
      | Inr (stored, found) \<Rightarrow> if found then act_return stored
                              else act_fail (Plain ''failed to read back the secret key: %!w(<nil>)''))"

text \<open>\<^verbatim>\<open>LoadSecretKey\<close>; \<open>fresh\<close> is what \<^verbatim>\<open>rand.Read\<close> gives when a key has to be made.\<close>

definition load_secret_key :: "string \<Rightarrow> string act" where
  "load_secret_key fresh =
     act_try (get_setting_strict setting_secret_key) (\<lambda>r. case r of
        Inl e \<Rightarrow> act_fail (Wrapped ''failed to read the secret key'' e)
      | Inr (stored, found) \<Rightarrow>
          act_bind
            (if found then act_return stored
             else act_try (insert_setting_if_absent setting_secret_key (hex_encode fresh)) (\<lambda>r2. case r2 of
                    Inl e \<Rightarrow> act_fail (Wrapped ''failed to store the secret key'' e)
                  | Inr _ \<Rightarrow> read_key))
            (\<lambda>v. case decode_key v of Inl e \<Rightarrow> act_fail e | Inr k \<Rightarrow> act_return k))"

definition err_key :: go_error where
  "err_key = Plain ''crypto/aes: invalid key size''"

text \<open>\<^verbatim>\<open>seal\<close> and \<^verbatim>\<open>open\<close>: the nonce in front of the ciphertext.\<close>

definition seal_blob :: "gcm \<Rightarrow> string \<Rightarrow> string \<Rightarrow> string \<Rightarrow> string" where
  "seal_blob g key nonce plain = nonce @ gcm_seal g key nonce plain"

definition open_blob :: "gcm \<Rightarrow> string \<Rightarrow> string \<Rightarrow> string option" where
  "open_blob g key blob =
     (if length blob < secret_nonce_len then None
      else gcm_open g key (take secret_nonce_len blob) (drop secret_nonce_len blob))"

definition encrypt_secret :: "gcm \<Rightarrow> string \<Rightarrow> string \<Rightarrow> string \<Rightarrow> go_error + string" where
  "encrypt_secret g nonce key plain =
     (if \<not> gcm_key g key then Inl err_key else Inr (b64_encode (seal_blob g key nonce plain)))"

definition decrypt_secret :: "gcm \<Rightarrow> string \<Rightarrow> string \<Rightarrow> go_error + string" where
  "decrypt_secret g key enc =
     (case b64_decode enc of
        None \<Rightarrow> Inl (Plain ''stored secret is not valid base64'')
      | Some blob \<Rightarrow>
          if \<not> gcm_key g key then Inl err_key
          else case open_blob g key blob of
              None \<Rightarrow> Inl (Plain ''stored secret cannot be decrypted with the current key'')
            | Some plain \<Rightarrow> Inr plain)"

section \<open>Round trips\<close>

lemma nibble_val_low: "n < 16 \<Longrightarrow> nibble_val (hex_low n) = Some n"
proof -
  have "list_all (\<lambda>n. nibble_val (hex_low n) = Some n) [0..<16]" by code_simp
  then show "n < 16 \<Longrightarrow> ?thesis" by (simp add: list_all_iff)
qed

lemma hex_decode_encode: "hex_decode (hex_encode s) = Some s"
proof (induction s)
  case (Cons c cs)
  have "(of_char c :: nat) div 16 < 16"
    using nat_of_char_less_256[of c] by (simp add: less_mult_imp_div_less)
  then show ?case using Cons by (simp add: nibble_val_low)
qed simp

lemma b64_alphabet_val:
  assumes "d < 64"
  shows "b64_val (b64_alphabet ! d) = Some d"
    "(of_char (b64_alphabet ! d) :: nat) \<noteq> 10 \<and> (of_char (b64_alphabet ! d) :: nat) \<noteq> 13"
proof -
  have m: "map b64_val b64_alphabet = map Some [0..<64]" and l: "length b64_alphabet = 64" by code_simp+
  have "map b64_val b64_alphabet ! d = map Some [0..<64] ! d" by (simp only: m)
  then show v: "b64_val (b64_alphabet ! d) = Some d" using assms l by simp
  show "(of_char (b64_alphabet ! d) :: nat) \<noteq> 10 \<and> (of_char (b64_alphabet ! d) :: nat) \<noteq> 13"
    using v by (auto simp: b64_val_def Let_def)
qed

lemma digit_pair: "y < k \<Longrightarrow> (x * k + y) div k = x \<and> (x * k + y) mod k = (y :: nat)"
  by simp

lemma digit_bound: "x < m \<Longrightarrow> y < k \<Longrightarrow> x * k + y < m * (k :: nat)"
proof -
  assume "x < m" "y < k"
  then have "x * k + y < Suc x * k" by simp
  also have "\<dots> \<le> m * k" using \<open>x < m\<close> by (intro mult_le_mono1) simp
  finally show ?thesis .
qed

lemma b64_digits_bound: "list_all (\<lambda>a. a < 256) bs \<Longrightarrow> list_all (\<lambda>d. d < 64) (b64_digits bs)"
proof (induction bs rule: b64_digits.induct)
  case (2 a)
  then have "a div 4 < 64" "a mod 4 < 4" by simp_all
  moreover have "a mod 4 * 16 < 64" using digit_bound[of "a mod 4" 4 0 16] by simp
  ultimately show ?case by simp
next
  case (3 a b)
  then have "a div 4 < 64" "b div 16 < 16" by auto
  moreover have "b mod 16 * 4 < 64" using digit_bound[of "b mod 16" 16 0 4] by simp
  moreover have "a mod 4 * 16 + b div 16 < 64" using digit_bound[of "a mod 4" 4 "b div 16" 16] calculation by simp
  ultimately show ?case by simp
next
  case (4 a b c r)
  then have "a div 4 < 64" "b div 16 < 16" "c div 64 < 4" "c mod 64 < 64" by auto
  moreover have "a mod 4 * 16 + b div 16 < 64" using digit_bound[of "a mod 4" 4 "b div 16" 16] calculation by simp
  moreover have "b mod 16 * 4 + c div 64 < 64" using digit_bound[of "b mod 16" 16 "c div 64" 4] calculation by simp
  ultimately show ?case using 4 by simp
qed simp

lemma b64_group:
  assumes "b < 256" "c < (256::nat)"
  shows "a div 4 * 4 + (a mod 4 * 16 + b div 16) div 16 = a"
    "(a mod 4 * 16 + b div 16) mod 16 * 16 + (b mod 16 * 4 + c div 64) div 4 = b"
    "(b mod 16 * 4 + c div 64) mod 4 * 64 + c mod 64 = c"
    "(a mod 4 * 16 + b div 16) mod 16 * 16 + b mod 16 * 4 div 4 = b"
proof -
  have four: "(4::nat) \<noteq> 0" by simp
  have "b div 16 < 16" "c div 64 < 4" using assms by simp_all
  note p = digit_pair[OF this(1), of "a mod 4"] digit_pair[OF this(2), of "b mod 16"]
  show "a div 4 * 4 + (a mod 4 * 16 + b div 16) div 16 = a"
    "(a mod 4 * 16 + b div 16) mod 16 * 16 + (b mod 16 * 4 + c div 64) div 4 = b"
    "(b mod 16 * 4 + c div 64) mod 4 * 64 + c mod 64 = c"
    "(a mod 4 * 16 + b div 16) mod 16 * 16 + b mod 16 * 4 div 4 = b"
    by (simp_all only: p conjunct1[OF p(1)] conjunct2[OF p(1)] conjunct1[OF p(2)] conjunct2[OF p(2)]
        div_mult_mod_eq nonzero_mult_div_cancel_right[OF four])
qed

lemma b64_bytes_digits: "list_all (\<lambda>a. a < 256) bs \<Longrightarrow> b64_bytes (b64_digits bs) = Some bs"
proof (induction bs rule: b64_digits.induct)
  case (2 a)
  then show ?case using div_mult_mod_eq[of a 4] by simp
next
  case (3 a b)
  then show ?case using b64_group(1,4)[of b 0] by simp
next
  case (4 a b c r)
  then show ?case using b64_group(1-3)[of b c] by simp
qed simp

lemma b64_decode_encode: "b64_decode (b64_encode s) = Some s"
proof -
  let ?ds = "b64_digits (map (of_char :: char \<Rightarrow> nat) s)"
  have b: "list_all (\<lambda>a. a < 256) (map (of_char :: char \<Rightarrow> nat) s)"
    by (simp add: list_all_iff)
  note d = b64_digits_bound[OF b]
  have f: "filter (\<lambda>c. (of_char c :: nat) \<noteq> 10 \<and> (of_char c :: nat) \<noteq> 13) (b64_encode s) = b64_encode s"
    using d b64_alphabet_val(2) unfolding b64_encode_def by (intro filter_True) (auto simp: list_all_iff)
  have v: "map b64_val (b64_encode s) = map Some ?ds"
    using d b64_alphabet_val(1) by (auto simp: b64_encode_def list_all_iff)
  show ?thesis
    by (simp add: b64_decode_def Let_def f v list_ex_iff comp_def b64_bytes_digits[OF b])
qed

lemma load_secret_key_no_faults:
  assumes "faults s = []"
  shows "load_secret_key fresh s =
     (case settings s setting_secret_key of
        None \<Rightarrow> (decode_key (hex_encode fresh), s\<lparr>settings := (settings s)(setting_secret_key \<mapsto> hex_encode fresh)\<rparr>)
      | Some v \<Rightarrow> (decode_key v, s))"
proof (cases "settings s setting_secret_key")
  case None
  then show ?thesis using assms
    by (simp add: load_secret_key_def get_setting_strict_def act_try_def act_bind_def query_row_no_faults
        insert_setting_if_absent_def exec_def stmt_no_faults read_key_def act_return_def act_fail_def split: sum.splits)
next
  case (Some v)
  then show ?thesis using assms
    by (simp add: load_secret_key_def get_setting_strict_def act_try_def act_bind_def query_row_no_faults
        act_return_def act_fail_def split: sum.splits)
qed


section \<open>The key and the passwords over time\<close>

lemma get_setting_strict_Inr:
  assumes "get_setting_strict k s = (Inr (v, found), t)"
  shows "same_rows s t \<and> found = (settings s k \<noteq> None) \<and> (found \<longrightarrow> settings s k = Some v)"
proof -
  obtain r u where q: "query_row (\<lambda>s. settings s k) s = (r, u)" by fastforce
  note sr = query_row_same_rows[OF q]
  from assms q have t: "t = u" and r: "r = Inl NoRows \<and> \<not> found \<or> r = Inr v \<and> found"
    by (auto simp: get_setting_strict_def act_try_def act_return_def act_fail_def split: sum.splits go_error.splits)
  from r show ?thesis
  proof
    assume "r = Inl NoRows \<and> \<not> found"
    with q query_row_NoRows have "settings u k = None" by blast
    with sr \<open>r = Inl NoRows \<and> \<not> found\<close> show ?thesis by (simp add: t same_rowsD(5)[OF sr])
  next
    assume "r = Inr v \<and> found"
    with q have "query_row (\<lambda>s. settings s k) s = (Inr v, u)" by simp
    from query_row_Inr[OF this] have "settings s k = Some v" unfolding same_rowsD(5)[OF sr] .
    with sr \<open>r = Inr v \<and> found\<close> show ?thesis unfolding t by blast
  qed
qed

lemma insert_setting_if_absent_keeps:
  assumes "insert_setting_if_absent k v s = (r, t)"
  shows "settings s k = None \<or> settings t = settings s"
proof -
  let ?f = "\<lambda>s :: store. ((), if settings s k = None then s\<lparr>settings := (settings s)(k \<mapsto> v)\<rparr> else s)"
  show ?thesis
  proof (cases rule: stmt_cases[of ?f s])
    case (fault msg u)
    with assms have "t = u" by (simp add: insert_setting_if_absent_def exec_def)
    with same_rowsD(5)[OF fault(2)] show ?thesis by simp
  next
    case (ok u)
    with assms have "t = snd (?f u)" by (simp add: insert_setting_if_absent_def exec_def)
    with same_rowsD(5)[OF ok(1)] show ?thesis by simp
  qed
qed

text \<open>The key that is returned is the one in the table, and one that was there stays.\<close>

lemma load_secret_key_stored:
  assumes "load_secret_key fresh s = (Inr k, t)"
  shows "\<exists>v. settings t setting_secret_key = Some v \<and> decode_key v = Inr k
    \<and> settings s setting_secret_key \<in> {None, Some v}"
proof -
  from assms obtain st found s1 where g: "get_setting_strict setting_secret_key s = (Inr (st, found), s1)"
    and r: "act_bind (if found then act_return st
             else act_try (insert_setting_if_absent setting_secret_key (hex_encode fresh)) (\<lambda>r2. case r2 of
                    Inl e \<Rightarrow> act_fail (Wrapped ''failed to store the secret key'' e)
                  | Inr _ \<Rightarrow> read_key))
            (\<lambda>v. case decode_key v of Inl e \<Rightarrow> act_fail e | Inr k \<Rightarrow> act_return k) s1 = (Inr k, t)"
    unfolding load_secret_key_def act_try_def
    by (auto simp: act_fail_def split: sum.splits prod.splits)
  note g' = get_setting_strict_Inr[OF g]
  have e: "settings s1 = settings s" using g' same_rowsD(5) by blast
  show ?thesis
  proof (cases found)
    case True
    with r have "t = s1 \<and> decode_key st = Inr k"
      by (auto simp: act_bind_def act_return_def act_fail_def split: sum.splits)
    with g' True e show ?thesis by auto
  next
    case False
    with r obtain v s2 where i: "insert_setting_if_absent setting_secret_key (hex_encode fresh) s1 = (Inr (), s2)"
      and k: "read_key s2 = (Inr v, t)" and d: "decode_key v = Inr k"
      by (auto simp: act_bind_def act_try_def act_return_def act_fail_def split: sum.splits prod.splits)
    from k have "get_setting_strict setting_secret_key s2 = (Inr (v, True), t)"
      by (auto simp: read_key_def act_try_def act_return_def act_fail_def split: sum.splits prod.splits if_splits)
    from get_setting_strict_Inr[OF this] have "settings t setting_secret_key = Some v"
      using same_rowsD(5) by metis
    with d g' False show ?thesis by auto
  qed
qed

text \<open>
  C33. A stored password stays readable: once the master key was loaded, every
  later load (in a state that still has the row, with other random bytes at hand)
  gives the same key and changes nothing, and what was encrypted with the key is
  decrypted to the password. The hypothesis on AES-GCM is that opening reverses
  sealing.
\<close>

theorem passwords_stay_readable:
  assumes "load_secret_key fresh s = (Inr k, t)"
    and "length nonce = secret_nonce_len" and "encrypt_secret g nonce k pw = Inr enc"
    and "gcm_open g k nonce (gcm_seal g k nonce pw) = Some pw"
    and "settings u setting_secret_key = settings t setting_secret_key" and "faults u = []"
  shows "load_secret_key fresh' u = (Inr k, u) \<and> decrypt_secret g k enc = Inr pw"
proof
  from load_secret_key_stored[OF assms(1)] obtain v where "settings u setting_secret_key = Some v" "decode_key v = Inr k"
    unfolding assms(5) by blast
  then show "load_secret_key fresh' u = (Inr k, u)" by (simp add: load_secret_key_no_faults[OF assms(6)])
  from assms(3) have "gcm_key g k" "enc = b64_encode (seal_blob g k nonce pw)"
    by (auto simp: encrypt_secret_def split: if_splits)
  then show "decrypt_secret g k enc = Inr pw" using assms(2,4)
    by (simp add: decrypt_secret_def b64_decode_encode seal_blob_def open_blob_def)
qed

text \<open>A stand-in for AES-GCM that reverses the text behind the key and the nonce.\<close>

definition demo_gcm :: gcm where
  "demo_gcm = \<lparr>gcm_key = (\<lambda>k. length k = 32), gcm_seal = (\<lambda>k n p. k @ rev p),
     gcm_open = (\<lambda>k n c. map_option rev (cut_prefix c k))\<rparr>"

definition secret_demo_store :: store where
  "secret_demo_store = \<lparr>faults = [], jobs = [], next_job = 1, mailboxes = [], next_mailbox = 1, users = [], next_user = 1,
     probe_mails = [], next_probe = 1, settings = (\<lambda>_. None)\<rparr>"

theorem passwords_stay_readable_witness:
  "\<exists>k t enc. load_secret_key (replicate 32 (CHR ''A'')) secret_demo_store = (Inr k, t)
     \<and> encrypt_secret demo_gcm (replicate 12 (CHR ''n'')) k ''pass'' = Inr enc
     \<and> load_secret_key (replicate 32 (CHR ''B'')) t = (Inr k, t) \<and> decrypt_secret demo_gcm k enc = Inr ''pass''"
proof -
  let ?k = "replicate 32 (CHR ''A'')" and ?n = "replicate 12 (CHR ''n'')"
  have f: "faults secret_demo_store = []" "settings secret_demo_store setting_secret_key = None"
    by (simp_all add: secret_demo_store_def)
  have d: "decode_key (hex_encode ?k) = Inr ?k"
    by (simp add: decode_key_def hex_decode_encode secret_key_len_def)
  obtain t where l: "load_secret_key ?k secret_demo_store = (Inr ?k, t)" "faults t = []"
    using f(1) by (simp add: load_secret_key_no_faults[OF f(1)] f(2) d)
  obtain enc where e: "encrypt_secret demo_gcm ?n ?k ''pass'' = Inr enc"
    by (simp add: encrypt_secret_def demo_gcm_def)
  have "gcm_open demo_gcm ?k ?n (gcm_seal demo_gcm ?k ?n ''pass'') = Some ''pass''"
    by (simp add: demo_gcm_def cut_prefix_Some)
  from passwords_stay_readable[OF l(1) _ e this refl l(2)] l(1) e show ?thesis
    by (auto simp: secret_nonce_len_def)
qed

end
