(* ===== verification/Notify_Settings.thy ===== *)
theory Notify_Settings
  imports Auth Settings Secret
begin

text \<open>
  The notification settings (modules/notify.go; the SMTP configuration of
  modules/smtp.go): reading them, their checks, the change that keeps the stored
  SMTP password with the server it was saved for, the configuration of a test
  mail, and the base URL of links. The mail templates and the delivery are left
  out.

  \<^verbatim>\<open>net/url\<close> is the parameter \<open>url_parse\<close>: scheme, host, raw query and fragment of
  a URL, None for an error of \<^verbatim>\<open>url.Parse\<close>.
\<close>

section \<open>Keys and defaults\<close>

definition setting_smtp_host :: string where "setting_smtp_host = ''smtp_host''"
definition setting_smtp_port :: string where "setting_smtp_port = ''smtp_port''"
definition setting_smtp_security :: string where "setting_smtp_security = ''smtp_security''"
definition setting_smtp_username :: string where "setting_smtp_username = ''smtp_username''"
definition setting_smtp_password_enc :: string where "setting_smtp_password_enc = ''smtp_password_enc''"
definition setting_smtp_from :: string where "setting_smtp_from = ''smtp_from''"
definition setting_public_base_url :: string where "setting_public_base_url = ''public_base_url''"
definition setting_notify_enabled :: string where "setting_notify_enabled = ''notify_enabled''"
definition setting_notify_time :: string where "setting_notify_time = ''notify_time''"
definition setting_notify_interval :: string where "setting_notify_interval = ''notify_interval_days''"
definition setting_notify_user_ids :: string where "setting_notify_user_ids = ''notify_user_ids''"
definition setting_notify_last_sent :: string where "setting_notify_last_sent = ''notify_last_sent_at''"

definition security_ssl :: string where "security_ssl = ''ssl''"
definition security_starttls :: string where "security_starttls = ''starttls''"
definition security_none :: string where "security_none = ''none''"

definition default_smtp_port :: int where "default_smtp_port = 587"
definition default_smtp_security :: string where "default_smtp_security = security_starttls"
definition default_notify_times :: string where "default_notify_times = ''09:00,17:00''"
definition default_notify_interval_days :: int where "default_notify_interval_days = 1"
definition min_notify_interval_days :: int where "min_notify_interval_days = 1"
definition max_notify_interval_days :: int where "max_notify_interval_days = 7"
definition notify_max_recipients :: nat where "notify_max_recipients = 100"

section \<open>The SMTP configuration\<close>

record smtp_config =
  sc_host :: string
  sc_port :: int
  sc_security :: string
  sc_username :: string
  sc_password :: string
  sc_from :: string

definition smtp_configured :: "smtp_config \<Rightarrow> bool" where
  "smtp_configured c \<longleftrightarrow> trim_space (sc_host c) \<noteq> '''' \<and> trim_space (sc_from c) \<noteq> ''''"

definition validate_smtp_security :: "string \<Rightarrow> go_error option" where
  "validate_smtp_security s =
     (if s \<in> {security_ssl, security_starttls, security_none} then None
      else Some (invalid_request (''smtp_security must be '' @ security_ssl @ '', '' @ security_starttls @ '' or '' @ security_none)))"

record notify_settings =
  nt_smtp :: smtp_config
  nt_password_set :: bool
  nt_public_base_url :: string
  nt_enabled :: bool
  nt_times :: "string list"
  nt_interval :: int
  nt_user_ids :: "int list"
  nt_last_sent :: "time option"

section \<open>Checks\<close>

fun notify_user_ids_loop :: "string list \<Rightarrow> int list \<Rightarrow> int list" where
  "notify_user_ids_loop [] out = out"
| "notify_user_ids_loop (raw # raws) out =
     (let part = trim_space raw
      in if part = '''' then notify_user_ids_loop raws out
         else case atoi part of
             None \<Rightarrow> notify_user_ids_loop raws out
           | Some i \<Rightarrow> notify_user_ids_loop raws (if i \<le> 0 \<or> i \<in> set out then out else out @ [i]))"

definition parse_notify_user_ids :: "string \<Rightarrow> int list" where
  "parse_notify_user_ids s = sort (notify_user_ids_loop (split_char (CHR '','') s) [])"

definition format_notify_user_ids :: "int list \<Rightarrow> string" where
  "format_notify_user_ids ids = join '','' (map itoa ids)"

definition default_notify_time_list :: "string list" where
  "default_notify_time_list = (case parse_check_times [default_notify_times] of Inl _ \<Rightarrow> [] | Inr ts \<Rightarrow> ts)"

definition parse_notify_times :: "string list \<Rightarrow> go_error + string list" where
  "parse_notify_times inputs =
     (case parse_check_times inputs of
        Inl _ \<Rightarrow> Inl (err_time (''invalid notify_time '' @ go_quote (trim_space (join '','' inputs))
                   @ '' (use HH:MM times, 00:00-23:59, separated by commas)''))
      | Inr ts \<Rightarrow> Inr (if ts = [] then default_notify_time_list else ts))"

definition validate_notify_interval :: "int \<Rightarrow> go_error option" where
  "validate_notify_interval n =
     (if n < min_notify_interval_days \<or> max_notify_interval_days < n
      then Some (Keyed ''validation.common.numberOutOfRange''
             (''notify_interval_days must be between '' @ itoa min_notify_interval_days @ '' and '' @ itoa max_notify_interval_days))
      else None)"

fun notify_users_loop :: "int list \<Rightarrow> int list \<Rightarrow> int list act" where
  "notify_users_loop [] out = act_return out"
| "notify_users_loop (i # is) out =
     (if i \<le> 0 then act_fail (Keyed ''validation.notification.recipientNotFound'' (''invalid user id '' @ itoa i))
      else if i \<in> set out then notify_users_loop is out
      else act_try (get_user_by_id i) (\<lambda>r. case r of
             Inl NoRows \<Rightarrow> act_fail (Keyed ''validation.notification.recipientNotFound'' (''user '' @ itoa i @ '' not found''))
           | Inl e \<Rightarrow> act_fail e
           | Inr _ \<Rightarrow> notify_users_loop is (out @ [i])))"

definition validate_notify_user_ids :: "int list \<Rightarrow> int list act" where
  "validate_notify_user_ids ids =
     (if notify_max_recipients < length ids
      then act_fail (Keyed ''validation.notification.recipientsTooMany''
             (''at most '' @ nat_digits notify_max_recipients @ '' recipients can be selected''))
      else act_bind (notify_users_loop ids []) (\<lambda>out. act_return (sort out)))"

record url =
  url_scheme :: string
  url_host :: string
  url_raw_query :: string
  url_fragment :: string

definition trim_right_char :: "char \<Rightarrow> string \<Rightarrow> string" where
  "trim_right_char c s = rev (dropWhile (\<lambda>x. x = c) (rev s))"

definition normalize_public_base_url :: "(string \<Rightarrow> url option) \<Rightarrow> string \<Rightarrow> go_error + string" where
  "normalize_public_base_url url_parse raw =
     (let s = trim_right_char (CHR ''/'') (trim_space raw);
          bad = Inl (Keyed ''validation.common.urlFormat'' ''public_base_url must be an absolute http or https URL'')
      in if s = '''' then Inr ''''
         else case url_parse s of
             None \<Rightarrow> bad
           | Some u \<Rightarrow>
               if (url_scheme u \<noteq> ''http'' \<and> url_scheme u \<noteq> ''https'') \<or> url_host u = '''' then bad
               else if url_raw_query u \<noteq> '''' \<or> url_fragment u \<noteq> ''''
                 then Inl (Keyed ''validation.notification.publicUrlQuery'' ''public_base_url must not carry a query or fragment'')
               else Inr s)"

section \<open>Reading\<close>

definition read_text :: "string \<Rightarrow> string act" where
  "read_text key = act_read (get_setting key)"

definition resolve_notify_times :: "string list reader" where
  "resolve_notify_times s =
     (case get_setting setting_notify_time s of (saved, t) \<Rightarrow>
        (case parse_notify_times [saved] of Inl _ \<Rightarrow> default_notify_time_list | Inr ts \<Rightarrow> ts, t))"

text \<open>A saved security mode or interval that is not valid counts as the default.\<close>

definition valid_security :: "string \<Rightarrow> string \<Rightarrow> string" where
  "valid_security fallback sec = (if validate_smtp_security sec \<noteq> None then fallback else sec)"

definition valid_interval :: "int \<Rightarrow> int" where
  "valid_interval n = (if validate_notify_interval n \<noteq> None then default_notify_interval_days else n)"

text \<open>The stored secret \<open>enc\<close>, decrypted when the key is given.\<close>

definition stored_password :: "gcm \<Rightarrow> string \<Rightarrow> string option \<Rightarrow> string \<Rightarrow> go_error + string" where
  "stored_password g what key enc =
     (case key of
        None \<Rightarrow> Inr ''''
      | Some k \<Rightarrow> if enc = '''' then Inr ''''
                  else case decrypt_secret g k enc of Inl e \<Rightarrow> Inl (Wrapped what e) | Inr p \<Rightarrow> Inr p)"

definition resolve_notification_settings :: "gcm \<Rightarrow> string option \<Rightarrow> notify_settings act" where
  "resolve_notification_settings g key =
     act_bind (read_text setting_smtp_host) (\<lambda>host.
     act_bind (act_read (resolve_int setting_smtp_port 0 default_smtp_port)) (\<lambda>port.
     act_bind (act_read (resolve_str setting_smtp_security '''' default_smtp_security)) (\<lambda>sec.
     act_bind (read_text setting_smtp_username) (\<lambda>username.
     act_bind (read_text setting_smtp_from) (\<lambda>from.
     act_bind (read_text setting_public_base_url) (\<lambda>base.
     act_bind (read_text setting_notify_enabled) (\<lambda>enabled.
     act_bind (act_read resolve_notify_times) (\<lambda>ts.
     act_bind (act_read (resolve_int setting_notify_interval 0 default_notify_interval_days)) (\<lambda>interval.
     act_bind (read_text setting_notify_user_ids) (\<lambda>ids.
     act_bind (read_text setting_smtp_password_enc) (\<lambda>enc.
     act_bind (act_of (stored_password g ''SMTP password'' key enc)) (\<lambda>password.
     act_bind (read_text setting_notify_last_sent) (\<lambda>raw.
       act_return
         \<lparr>nt_smtp = \<lparr>sc_host = host, sc_port = port, sc_security = valid_security default_smtp_security sec,
                     sc_username = username, sc_password = password, sc_from = from\<rparr>,
          nt_password_set = (enc \<noteq> ''''), nt_public_base_url = base, nt_enabled = (enabled = ''1''), nt_times = ts,
          nt_interval = valid_interval interval, nt_user_ids = parse_notify_user_ids ids,
          nt_last_sent = (if raw = '''' then None else parse_rfc3339 raw)\<rparr>)))))))))))))"

section \<open>Changing\<close>

record notify_input =
  ni_host :: "string option"
  ni_port :: "int option"
  ni_security :: "string option"
  ni_username :: "string option"
  ni_password :: "string option"
  ni_clear_password :: bool
  ni_from :: "string option"
  ni_public_base_url :: "string option"
  ni_enabled :: "bool option"
  ni_times :: "string list option"
  ni_interval :: "int option"
  ni_user_ids :: "int list option"

definition err_smtp_port :: go_error where
  "err_smtp_port = Keyed ''validation.common.numberOutOfRange'' ''smtp_port must be between 1 and 65535''"

definition err_smtp_password_required :: go_error where
  "err_smtp_password_required = Keyed ''validation.connection.passwordRequiredOnChange''
     ''smtp_password is required when the connection settings change''"

definition err_smtp_password_missing :: go_error where
  "err_smtp_password_missing = Keyed ''validation.connection.passwordRequired''
     ''smtp_password is required with smtp_username''"

definition err_notify_smtp_required :: go_error where
  "err_notify_smtp_required = Keyed ''validation.notification.smtpRequired''
     ''notifications need the SMTP host and the sender address''"

definition setting_write_of :: "string \<Rightarrow> string \<Rightarrow> bool \<Rightarrow> setting_write" where
  "setting_write_of key v is_default = \<lparr>sw_key = key, sw_value = v, sw_default = is_default\<rparr>"

text \<open>One field of a change: nothing without it, else its check and its writes.\<close>

definition field :: "'a option \<Rightarrow> ('a \<Rightarrow> go_error + setting_write list) \<Rightarrow> go_error + setting_write list" where
  "field v f = (case v of None \<Rightarrow> Inr [] | Some x \<Rightarrow> f x)"

fun all_fields :: "(go_error + setting_write list) list \<Rightarrow> go_error + setting_write list" where
  "all_fields [] = Inr []"
| "all_fields (Inl e # fs) = Inl e"
| "all_fields (Inr ws # fs) = (case all_fields fs of Inl e \<Rightarrow> Inl e | Inr vs \<Rightarrow> Inr (ws @ vs))"

definition contains_any :: "string \<Rightarrow> string \<Rightarrow> bool" where
  "contains_any s chars \<longleftrightarrow> list_ex (\<lambda>c. c \<in> set chars) s"

definition normal_security :: "string \<Rightarrow> string \<Rightarrow> string" where
  "normal_security fallback raw = (let sec = to_lower (trim_space raw) in if sec = '''' then fallback else sec)"

definition host_field :: "string \<Rightarrow> go_error + setting_write list" where
  "host_field raw =
     (let host = trim_space raw
      in if contains_any host ('' /@'' @ [CHR 0x5C])
         then Inl (Keyed ''validation.connection.hostInvalid'' ''smtp_host must be a host name or IP address'')
         else Inr [setting_write_of setting_smtp_host host (host = '''')])"

definition port_field :: "int \<Rightarrow> go_error + setting_write list" where
  "port_field n =
     (if n < 1 \<or> 65535 < n then Inl err_smtp_port
      else Inr [setting_write_of setting_smtp_port (itoa n) (n = default_smtp_port)])"

definition security_field :: "string \<Rightarrow> go_error + setting_write list" where
  "security_field raw =
     (let sec = normal_security default_smtp_security raw
      in case validate_smtp_security sec of
           Some e \<Rightarrow> Inl e
         | None \<Rightarrow> Inr [setting_write_of setting_smtp_security sec (sec = default_smtp_security)])"

definition username_field :: "string \<Rightarrow> go_error + setting_write list" where
  "username_field raw = (let name = trim_space raw in Inr [setting_write_of setting_smtp_username name (name = '''')])"

definition username_after :: "notify_settings \<Rightarrow> notify_input \<Rightarrow> string" where
  "username_after saved inp = (case ni_username inp of None \<Rightarrow> sc_username (nt_smtp saved) | Some raw \<Rightarrow> trim_space raw)"

definition password_given :: "string option \<Rightarrow> bool" where
  "password_given p \<longleftrightarrow> p \<noteq> None \<and> p \<noteq> Some ''''"

text \<open>The writes of the password, and whether one is missing.\<close>

definition password_field :: "gcm \<Rightarrow> string \<Rightarrow> string option \<Rightarrow> notify_settings \<Rightarrow> notify_input
    \<Rightarrow> go_error + setting_write list" where
  "password_field g nonce key saved inp =
     (if username_after saved inp = '''' then
        Inr (if nt_password_set saved then [setting_write_of setting_smtp_password_enc '''' True] else [])
      else if password_given (ni_password inp) then
        (case key of
           None \<Rightarrow> Inl (Plain ''the master key is required to store the SMTP password'')
         | Some k \<Rightarrow> (case encrypt_secret g nonce k (the (ni_password inp)) of
              Inl e \<Rightarrow> Inl e
            | Inr enc \<Rightarrow> Inr [setting_write_of setting_smtp_password_enc enc False]))
      else Inr [])"

definition password_missing :: "notify_settings \<Rightarrow> notify_input \<Rightarrow> bool" where
  "password_missing saved inp \<longleftrightarrow> username_after saved inp \<noteq> '''' \<and> \<not> password_given (ni_password inp)
     \<and> (ni_clear_password inp \<or> (\<not> nt_password_set saved \<and> ni_username inp \<noteq> None))"

definition from_field :: "string \<Rightarrow> go_error + setting_write list" where
  "from_field raw =
     (case normalize_email raw of
        Inl e \<Rightarrow> Inl (Wrapped ''smtp_from'' e)
      | Inr from \<Rightarrow> Inr [setting_write_of setting_smtp_from from (from = '''')])"

definition base_url_field :: "(string \<Rightarrow> url option) \<Rightarrow> string \<Rightarrow> go_error + setting_write list" where
  "base_url_field url_parse raw =
     (case normalize_public_base_url url_parse raw of
        Inl e \<Rightarrow> Inl e
      | Inr base \<Rightarrow> Inr [setting_write_of setting_public_base_url base (base = '''')])"

definition enabled_field :: "bool \<Rightarrow> go_error + setting_write list" where
  "enabled_field b = Inr [setting_write_of setting_notify_enabled ''1'' (\<not> b)]"

text \<open>Notifications are on after the change only with an SMTP host and a sender.\<close>

definition smtp_required :: "notify_settings \<Rightarrow> notify_input \<Rightarrow> go_error + setting_write list" where
  "smtp_required saved inp =
     (let enabled = (case ni_enabled inp of None \<Rightarrow> nt_enabled saved | Some b \<Rightarrow> b);
          host = (case ni_host inp of None \<Rightarrow> sc_host (nt_smtp saved) | Some raw \<Rightarrow> trim_space raw);
          from = (case ni_from inp of None \<Rightarrow> sc_from (nt_smtp saved)
                  | Some raw \<Rightarrow> (case normalize_email raw of Inr f \<Rightarrow> f | Inl _ \<Rightarrow> ''''))
      in if enabled \<and> (host = '''' \<or> from = '''') then Inl err_notify_smtp_required else Inr [])"

definition times_field :: "string list \<Rightarrow> go_error + setting_write list" where
  "times_field inputs =
     (case parse_notify_times inputs of
        Inl e \<Rightarrow> Inl e
      | Inr ts \<Rightarrow> (let v = format_check_times ts in Inr [setting_write_of setting_notify_time v (v = default_notify_times)]))"

definition interval_field :: "int \<Rightarrow> go_error + setting_write list" where
  "interval_field n =
     (case validate_notify_interval n of
        Some e \<Rightarrow> Inl e
      | None \<Rightarrow> Inr [setting_write_of setting_notify_interval (itoa n) (n = default_notify_interval_days)])"

definition users_field :: "int list option \<Rightarrow> setting_write list act" where
  "users_field v =
     (case v of
        None \<Rightarrow> act_return []
      | Some ids \<Rightarrow> act_bind (validate_notify_user_ids ids) (\<lambda>out.
          let v = format_notify_user_ids out in act_return [setting_write_of setting_notify_user_ids v (v = '''')]))"

definition differs :: "'a option \<Rightarrow> ('a \<Rightarrow> 'b) \<Rightarrow> 'b \<Rightarrow> bool" where
  "differs v f old \<longleftrightarrow> (case v of None \<Rightarrow> False | Some x \<Rightarrow> f x \<noteq> old)"

definition smtp_connection_changed :: "notify_settings \<Rightarrow> notify_input \<Rightarrow> bool" where
  "smtp_connection_changed saved inp \<longleftrightarrow>
     differs (ni_host inp) trim_space (sc_host (nt_smtp saved))
     \<or> differs (ni_port inp) (\<lambda>n. n) (sc_port (nt_smtp saved))
     \<or> differs (ni_security inp) (normal_security default_smtp_security) (sc_security (nt_smtp saved))
     \<or> differs (ni_username inp) trim_space (sc_username (nt_smtp saved))"

text \<open>The fields in the code's order, up to the recipients, which are looked up.\<close>

definition notify_writes :: "gcm \<Rightarrow> (string \<Rightarrow> url option) \<Rightarrow> string \<Rightarrow> string option \<Rightarrow> notify_settings \<Rightarrow> notify_input
    \<Rightarrow> go_error + setting_write list" where
  "notify_writes g url_parse nonce key saved inp =
     all_fields [field (ni_host inp) host_field, field (ni_port inp) port_field, field (ni_security inp) security_field,
       field (ni_username inp) username_field, password_field g nonce key saved inp,
       field (ni_from inp) from_field, field (ni_public_base_url inp) (base_url_field url_parse),
       field (ni_enabled inp) enabled_field, smtp_required saved inp,
       field (ni_times inp) times_field, field (ni_interval inp) interval_field]"

definition save_notification_settings :: "gcm \<Rightarrow> (string \<Rightarrow> url option) \<Rightarrow> string \<Rightarrow> string option \<Rightarrow> notify_input
    \<Rightarrow> unit act" where
  "save_notification_settings g url_parse nonce key inp =
     act_bind (resolve_notification_settings g None) (\<lambda>saved.
     act_bind (act_of (notify_writes g url_parse nonce key saved inp)) (\<lambda>ws.
     act_bind (users_field (ni_user_ids inp)) (\<lambda>us.
       if password_missing saved inp then act_fail err_smtp_password_missing
       else if username_after saved inp \<noteq> '''' \<and> \<not> password_given (ni_password inp) \<and> nt_password_set saved
               \<and> smtp_connection_changed saved inp
         then act_fail err_smtp_password_required
       else persist_settings (ws @ us))))"

definition set_notify_last_sent :: "time \<Rightarrow> unit act" where
  "set_notify_last_sent t = set_setting setting_notify_last_sent (format_rfc3339_utc t)"

section \<open>A test mail, links and recipients\<close>

record smtp_test_input =
  ti_host :: "string option"
  ti_port :: "int option"
  ti_security :: "string option"
  ti_username :: "string option"
  ti_password :: "string option"
  ti_from :: "string option"

text \<open>The configuration with the values of the request, the password not set yet.\<close>

definition test_config :: "smtp_config \<Rightarrow> smtp_test_input \<Rightarrow> go_error + smtp_config" where
  "test_config saved inp =
     (case given (ti_port inp) (sc_port saved) (\<lambda>n. if n < 1 \<or> 65535 < n then Inl err_smtp_port else Inr n) of
        Inl e \<Rightarrow> Inl e
      | Inr port \<Rightarrow>
     (case given (ti_security inp) (sc_security saved) (\<lambda>raw. let sec = normal_security default_smtp_security raw
              in case validate_smtp_security sec of Some e \<Rightarrow> Inl e | None \<Rightarrow> Inr sec) of
        Inl e \<Rightarrow> Inl e
      | Inr sec \<Rightarrow>
     (case given (ti_from inp) (sc_from saved)
             (\<lambda>raw. case normalize_email raw of Inl e \<Rightarrow> Inl (Wrapped ''smtp_from'' e) | Inr f \<Rightarrow> Inr f) of
        Inl e \<Rightarrow> Inl e
      | Inr from \<Rightarrow>
          Inr \<lparr>sc_host = (case ti_host inp of None \<Rightarrow> sc_host saved | Some h \<Rightarrow> trim_space h), sc_port = port,
               sc_security = sec,
               sc_username = (case ti_username inp of None \<Rightarrow> sc_username saved | Some n \<Rightarrow> trim_space n),
               sc_password = '''', sc_from = from\<rparr>)))"

definition smtp_config_for_test :: "gcm \<Rightarrow> string option \<Rightarrow> smtp_test_input \<Rightarrow> smtp_config act" where
  "smtp_config_for_test g key inp =
     act_bind (resolve_notification_settings g key) (\<lambda>saved.
     act_bind (act_of (test_config (nt_smtp saved) inp)) (\<lambda>cfg.
       if sc_username cfg = '''' then act_return cfg
       else if password_given (ti_password inp) then act_return (cfg\<lparr>sc_password := the (ti_password inp)\<rparr>)
       else if \<not> nt_password_set saved then act_fail err_smtp_password_missing
       else if \<not> (sc_host cfg = sc_host (nt_smtp saved) \<and> sc_port cfg = sc_port (nt_smtp saved)
                 \<and> sc_security cfg = sc_security (nt_smtp saved) \<and> sc_username cfg = sc_username (nt_smtp saved))
         then act_fail err_smtp_password_required
       else act_return (cfg\<lparr>sc_password := sc_password (nt_smtp saved)\<rparr>)))"

definition base_url_for :: "notify_settings option \<Rightarrow> string \<Rightarrow> int \<Rightarrow> string" where
  "base_url_for s listen port =
     (if s \<noteq> None \<and> nt_public_base_url (the s) \<noteq> '''' then nt_public_base_url (the s)
      else let host = (if listen \<in> {'''', ''0.0.0.0'', ''::'', ''[::]''} then ''localhost'' else listen);
               host = (if contains host '':'' \<and> \<not> has_prefix host ''['' then ''['' @ host @ '']'' else host);
               port = (if port \<le> 0 then default_web_port else port)
           in ''http://'' @ host @ '':'' @ itoa port)"

definition effective_base_url :: "notify_settings option \<Rightarrow> string act" where
  "effective_base_url s =
     act_bind (act_read (resolve_web_listen '''')) (\<lambda>listen.
     act_bind (act_read (resolve_web_port 0)) (\<lambda>port. act_return (base_url_for s listen port)))"

fun recipient_addresses :: "user list \<Rightarrow> string list \<Rightarrow> string list" where
  "recipient_addresses [] out = out"
| "recipient_addresses (u # us) out =
     recipient_addresses us (if u_email u = '''' \<or> u_email u \<in> set out then out else out @ [u_email u])"

definition notification_recipients :: "notify_settings \<Rightarrow> (user list \<times> string list) act" where
  "notification_recipients s =
     act_bind (list_users_by_ids (nt_user_ids s)) (\<lambda>us. act_return (us, recipient_addresses us []))"

end
