(* ===== verification/Notify_Properties.thy ===== *)
theory Notify_Properties
  imports Notify_Settings Settings_Properties Auth_Properties
begin

text \<open>
  Properties of the notification settings. \<open>notify_of\<close> is what is read from a table
  without failures; a saved change is described on tables, key by key.
\<close>

section \<open>Writes key by key\<close>

lemma apply_writes_append: "apply_writes (xs @ ys) m = apply_writes ys (apply_writes xs m)"
  by (induction xs arbitrary: m) auto

text \<open>What a key holds depends on its own writes only.\<close>

lemma apply_writes_at: "apply_writes ws m k = apply_writes (filter (\<lambda>w. sw_key w = k) ws) m k"
proof -
  have "apply_writes ws m k = apply_writes (filter (\<lambda>w. sw_key w = k) ws) m' k" if "m k = m' k" for m m'
    using that
  proof (induction ws arbitrary: m m')
    case (Cons a ws)
    let ?v = "if sw_default a then None else Some (sw_value a)"
    show ?case
    proof (cases "sw_key a = k")
      case True
      then show ?thesis using Cons.IH[of "m(k := ?v)" "m'(k := ?v)"] by (cases "sw_default a") (simp_all add: fun_upd_def)
    next
      case False
      then show ?thesis using Cons.IH[of "m(sw_key a := ?v)" m'] Cons.prems by (cases "sw_default a") (simp_all add: fun_upd_def)
    qed
  qed simp
  then show ?thesis by blast
qed

definition keyed :: "string \<Rightarrow> setting_write list \<Rightarrow> bool" where
  "keyed key ws \<longleftrightarrow> list_all (\<lambda>w. sw_key w = key) ws"

lemma filter_keyed: "keyed key ws \<Longrightarrow> filter (\<lambda>w. sw_key w = k) ws = (if key = k then ws else [])"
  by (auto simp: keyed_def list_all_iff filter_id_conv filter_empty_conv)

lemma all_fields_Cons: "all_fields (f # fs) = Inr ws \<longleftrightarrow> (\<exists>w vs. f = Inr w \<and> all_fields fs = Inr vs \<and> ws = w @ vs)"
  by (cases f) (auto split: sum.splits)

lemma field_cases:
  assumes "field v f = Inr w"
  obtains (absent) "v = None" "w = []" | (present) x where "v = Some x" "f x = Inr w"
  using assms by (auto simp: field_def split: option.splits)

section \<open>Reading\<close>

text \<open>The stored secret stays as it is: \<open>nt_smtp\<close> holds no password.\<close>

definition notify_of :: "(string \<rightharpoonup> string) \<Rightarrow> notify_settings" where
  "notify_of m =
     \<lparr>nt_smtp = \<lparr>sc_host = text_of setting_smtp_host m, sc_port = int_of_setting setting_smtp_port default_smtp_port m,
        sc_security = valid_security default_smtp_security (str_of setting_smtp_security default_smtp_security m),
        sc_username = text_of setting_smtp_username m, sc_password = '''', sc_from = text_of setting_smtp_from m\<rparr>,
      nt_password_set = (text_of setting_smtp_password_enc m \<noteq> ''''),
      nt_public_base_url = text_of setting_public_base_url m,
      nt_enabled = (text_of setting_notify_enabled m = ''1''),
      nt_times = (case parse_notify_times [text_of setting_notify_time m] of Inl _ \<Rightarrow> default_notify_time_list | Inr ts \<Rightarrow> ts),
      nt_interval = valid_interval (int_of_setting setting_notify_interval default_notify_interval_days m),
      nt_user_ids = parse_notify_user_ids (text_of setting_notify_user_ids m),
      nt_last_sent = (let raw = text_of setting_notify_last_sent m in if raw = '''' then None else parse_rfc3339 raw)\<rparr>"

interpretation text_reader: settings_reader "get_setting key" "text_of key" for key
  by unfold_locales (auto simp: get_setting_val dest: get_setting_same_rows)

interpretation notify_times_reader: settings_reader resolve_notify_times
  "\<lambda>m. case parse_notify_times [text_of setting_notify_time m] of Inl _ \<Rightarrow> default_notify_time_list | Inr ts \<Rightarrow> ts"
  by unfold_locales
     (auto simp: resolve_notify_times_def get_setting_val split: prod.splits dest: get_setting_same_rows)

lemma resolve_notification_no_faults:
  "faults s = [] \<Longrightarrow> resolve_notification_settings g None s = (Inr (notify_of (settings s)), s)"
  by (simp add: resolve_notification_settings_def act_bind_def read_text_def text_reader.act_read_no_faults
      int_reader.act_read_no_faults str_reader.act_read_no_faults notify_times_reader.act_read_no_faults
      act_of_def act_return_def stored_password_def notify_of_def Let_def)

lemma get_user_rows: "get_user_by_id i s = (r, t) \<Longrightarrow> same_rows s t"
  unfolding get_user_by_id_def by (rule query_row_same_rows)

lemma users_loop_no_faults: "faults s = [] \<Longrightarrow> snd (notify_users_loop is out s) = s"
proof (induction "is" out rule: notify_users_loop.induct)
  case (2 i "is" out)
  show ?case
  proof (cases "List.find (\<lambda>u. u_id u = i) (users s)")
    case None
    then show ?thesis using 2
      by (simp add: act_fail_def act_try_def get_user_by_id_def query_row_no_faults)
  next
    case (Some u)
    then show ?thesis using 2
      by (simp add: act_fail_def act_try_def get_user_by_id_def query_row_no_faults)
  qed
qed (simp add: act_return_def)

lemma users_field_no_faults:
  assumes "faults s = []"
  shows "snd (users_field v s) = s"
    and "fst (users_field v s) = Inr us \<Longrightarrow> keyed setting_notify_user_ids us"
proof -
  have l: "snd (notify_users_loop is [] s) = s" for "is" by (rule users_loop_no_faults[OF assms])
  show "snd (users_field v s) = s"
    using l by (auto simp: users_field_def validate_notify_user_ids_def act_bind_def act_return_def act_fail_def Let_def
        split: option.splits prod.splits sum.splits) (metis snd_conv)+
  show "fst (users_field v s) = Inr us \<Longrightarrow> keyed setting_notify_user_ids us"
    by (auto simp: users_field_def act_bind_def act_return_def Let_def keyed_def setting_write_of_def
        split: option.splits prod.splits sum.splits)
qed

section \<open>What a saved change writes\<close>

lemma notify_keys [simp]:
  "setting_smtp_host \<noteq> setting_smtp_port" "setting_smtp_host \<noteq> setting_smtp_security"
  "setting_smtp_host \<noteq> setting_smtp_username" "setting_smtp_host \<noteq> setting_smtp_password_enc"
  "setting_smtp_host \<noteq> setting_smtp_from" "setting_smtp_host \<noteq> setting_public_base_url"
  "setting_smtp_host \<noteq> setting_notify_enabled" "setting_smtp_host \<noteq> setting_notify_time"
  "setting_smtp_host \<noteq> setting_notify_interval" "setting_smtp_host \<noteq> setting_notify_user_ids"
  "setting_smtp_port \<noteq> setting_smtp_host" "setting_smtp_port \<noteq> setting_smtp_security"
  "setting_smtp_port \<noteq> setting_smtp_username" "setting_smtp_port \<noteq> setting_smtp_password_enc"
  "setting_smtp_port \<noteq> setting_smtp_from" "setting_smtp_port \<noteq> setting_public_base_url"
  "setting_smtp_port \<noteq> setting_notify_enabled" "setting_smtp_port \<noteq> setting_notify_time"
  "setting_smtp_port \<noteq> setting_notify_interval" "setting_smtp_port \<noteq> setting_notify_user_ids"
  "setting_smtp_security \<noteq> setting_smtp_host" "setting_smtp_security \<noteq> setting_smtp_port"
  "setting_smtp_security \<noteq> setting_smtp_username" "setting_smtp_security \<noteq> setting_smtp_password_enc"
  "setting_smtp_security \<noteq> setting_smtp_from" "setting_smtp_security \<noteq> setting_public_base_url"
  "setting_smtp_security \<noteq> setting_notify_enabled" "setting_smtp_security \<noteq> setting_notify_time"
  "setting_smtp_security \<noteq> setting_notify_interval" "setting_smtp_security \<noteq> setting_notify_user_ids"
  "setting_smtp_username \<noteq> setting_smtp_host" "setting_smtp_username \<noteq> setting_smtp_port"
  "setting_smtp_username \<noteq> setting_smtp_security" "setting_smtp_username \<noteq> setting_smtp_password_enc"
  "setting_smtp_username \<noteq> setting_smtp_from" "setting_smtp_username \<noteq> setting_public_base_url"
  "setting_smtp_username \<noteq> setting_notify_enabled" "setting_smtp_username \<noteq> setting_notify_time"
  "setting_smtp_username \<noteq> setting_notify_interval" "setting_smtp_username \<noteq> setting_notify_user_ids"
  "setting_smtp_password_enc \<noteq> setting_smtp_host" "setting_smtp_password_enc \<noteq> setting_smtp_port"
  "setting_smtp_password_enc \<noteq> setting_smtp_security"
  "setting_smtp_password_enc \<noteq> setting_smtp_username" "setting_smtp_password_enc \<noteq> setting_smtp_from"
  "setting_smtp_password_enc \<noteq> setting_public_base_url"
  "setting_smtp_password_enc \<noteq> setting_notify_enabled" "setting_smtp_password_enc \<noteq> setting_notify_time"
  "setting_smtp_password_enc \<noteq> setting_notify_interval"
  "setting_smtp_password_enc \<noteq> setting_notify_user_ids" "setting_smtp_from \<noteq> setting_smtp_host"
  "setting_smtp_from \<noteq> setting_smtp_port" "setting_smtp_from \<noteq> setting_smtp_security"
  "setting_smtp_from \<noteq> setting_smtp_username" "setting_smtp_from \<noteq> setting_smtp_password_enc"
  "setting_smtp_from \<noteq> setting_public_base_url" "setting_smtp_from \<noteq> setting_notify_enabled"
  "setting_smtp_from \<noteq> setting_notify_time" "setting_smtp_from \<noteq> setting_notify_interval"
  "setting_smtp_from \<noteq> setting_notify_user_ids" "setting_public_base_url \<noteq> setting_smtp_host"
  "setting_public_base_url \<noteq> setting_smtp_port" "setting_public_base_url \<noteq> setting_smtp_security"
  "setting_public_base_url \<noteq> setting_smtp_username"
  "setting_public_base_url \<noteq> setting_smtp_password_enc" "setting_public_base_url \<noteq> setting_smtp_from"
  "setting_public_base_url \<noteq> setting_notify_enabled" "setting_public_base_url \<noteq> setting_notify_time"
  "setting_public_base_url \<noteq> setting_notify_interval"
  "setting_public_base_url \<noteq> setting_notify_user_ids" "setting_notify_enabled \<noteq> setting_smtp_host"
  "setting_notify_enabled \<noteq> setting_smtp_port" "setting_notify_enabled \<noteq> setting_smtp_security"
  "setting_notify_enabled \<noteq> setting_smtp_username" "setting_notify_enabled \<noteq> setting_smtp_password_enc"
  "setting_notify_enabled \<noteq> setting_smtp_from" "setting_notify_enabled \<noteq> setting_public_base_url"
  "setting_notify_enabled \<noteq> setting_notify_time" "setting_notify_enabled \<noteq> setting_notify_interval"
  "setting_notify_enabled \<noteq> setting_notify_user_ids" "setting_notify_time \<noteq> setting_smtp_host"
  "setting_notify_time \<noteq> setting_smtp_port" "setting_notify_time \<noteq> setting_smtp_security"
  "setting_notify_time \<noteq> setting_smtp_username" "setting_notify_time \<noteq> setting_smtp_password_enc"
  "setting_notify_time \<noteq> setting_smtp_from" "setting_notify_time \<noteq> setting_public_base_url"
  "setting_notify_time \<noteq> setting_notify_enabled" "setting_notify_time \<noteq> setting_notify_interval"
  "setting_notify_time \<noteq> setting_notify_user_ids" "setting_notify_interval \<noteq> setting_smtp_host"
  "setting_notify_interval \<noteq> setting_smtp_port" "setting_notify_interval \<noteq> setting_smtp_security"
  "setting_notify_interval \<noteq> setting_smtp_username"
  "setting_notify_interval \<noteq> setting_smtp_password_enc" "setting_notify_interval \<noteq> setting_smtp_from"
  "setting_notify_interval \<noteq> setting_public_base_url" "setting_notify_interval \<noteq> setting_notify_enabled"
  "setting_notify_interval \<noteq> setting_notify_time" "setting_notify_interval \<noteq> setting_notify_user_ids"
  "setting_notify_user_ids \<noteq> setting_smtp_host" "setting_notify_user_ids \<noteq> setting_smtp_port"
  "setting_notify_user_ids \<noteq> setting_smtp_security" "setting_notify_user_ids \<noteq> setting_smtp_username"
  "setting_notify_user_ids \<noteq> setting_smtp_password_enc" "setting_notify_user_ids \<noteq> setting_smtp_from"
  "setting_notify_user_ids \<noteq> setting_public_base_url" "setting_notify_user_ids \<noteq> setting_notify_enabled"
  "setting_notify_user_ids \<noteq> setting_notify_time" "setting_notify_user_ids \<noteq> setting_notify_interval"
  by (simp_all add: setting_smtp_host_def
    setting_smtp_port_def
    setting_smtp_security_def
    setting_smtp_username_def
    setting_smtp_password_enc_def
    setting_smtp_from_def
    setting_public_base_url_def
    setting_notify_enabled_def
    setting_notify_time_def
    setting_notify_interval_def
    setting_notify_user_ids_def)

text \<open>The writes of each field of a saved change, each under the key of the field.\<close>

record notify_parts =
  np_host :: "setting_write list"
  np_port :: "setting_write list"
  np_security :: "setting_write list"
  np_username :: "setting_write list"
  np_password :: "setting_write list"
  np_from :: "setting_write list"
  np_base_url :: "setting_write list"
  np_enabled :: "setting_write list"
  np_times :: "setting_write list"
  np_interval :: "setting_write list"
  np_users :: "setting_write list"

definition parts_list :: "notify_parts \<Rightarrow> setting_write list" where
  "parts_list p = np_host p @ np_port p @ np_security p @ np_username p @ np_password p @ np_from p @ np_base_url p
     @ np_enabled p @ np_times p @ np_interval p @ np_users p"

definition parts_keyed :: "notify_parts \<Rightarrow> bool" where
  "parts_keyed p \<longleftrightarrow> keyed setting_smtp_host (np_host p) \<and> keyed setting_smtp_port (np_port p)
     \<and> keyed setting_smtp_security (np_security p) \<and> keyed setting_smtp_username (np_username p)
     \<and> keyed setting_smtp_password_enc (np_password p) \<and> keyed setting_smtp_from (np_from p)
     \<and> keyed setting_public_base_url (np_base_url p) \<and> keyed setting_notify_enabled (np_enabled p)
     \<and> keyed setting_notify_time (np_times p) \<and> keyed setting_notify_interval (np_interval p)
     \<and> keyed setting_notify_user_ids (np_users p)"

lemma parts_at:
  assumes "parts_keyed p"
  shows "apply_writes (parts_list p) m setting_smtp_host = apply_writes (np_host p) m setting_smtp_host"
    "apply_writes (parts_list p) m setting_smtp_port = apply_writes (np_port p) m setting_smtp_port"
    "apply_writes (parts_list p) m setting_smtp_security = apply_writes (np_security p) m setting_smtp_security"
    "apply_writes (parts_list p) m setting_smtp_username = apply_writes (np_username p) m setting_smtp_username"
    "apply_writes (parts_list p) m setting_smtp_password_enc = apply_writes (np_password p) m setting_smtp_password_enc"
    "apply_writes (parts_list p) m setting_smtp_from = apply_writes (np_from p) m setting_smtp_from"
    "apply_writes (parts_list p) m setting_notify_enabled = apply_writes (np_enabled p) m setting_notify_enabled"
    "apply_writes (parts_list p) m setting_notify_time = apply_writes (np_times p) m setting_notify_time"
    "apply_writes (parts_list p) m setting_notify_interval = apply_writes (np_interval p) m setting_notify_interval"
proof -
  have k: "keyed setting_smtp_host (np_host p)" "keyed setting_smtp_port (np_port p)"
    "keyed setting_smtp_security (np_security p)" "keyed setting_smtp_username (np_username p)"
    "keyed setting_smtp_password_enc (np_password p)" "keyed setting_smtp_from (np_from p)"
    "keyed setting_public_base_url (np_base_url p)" "keyed setting_notify_enabled (np_enabled p)"
    "keyed setting_notify_time (np_times p)" "keyed setting_notify_interval (np_interval p)"
    "keyed setting_notify_user_ids (np_users p)"
    using assms by (simp_all add: parts_keyed_def)
  have f: "filter (\<lambda>w. sw_key w = setting_smtp_host) (parts_list p) = np_host p"
    "filter (\<lambda>w. sw_key w = setting_smtp_port) (parts_list p) = np_port p"
    "filter (\<lambda>w. sw_key w = setting_smtp_security) (parts_list p) = np_security p"
    "filter (\<lambda>w. sw_key w = setting_smtp_username) (parts_list p) = np_username p"
    "filter (\<lambda>w. sw_key w = setting_smtp_password_enc) (parts_list p) = np_password p"
    "filter (\<lambda>w. sw_key w = setting_smtp_from) (parts_list p) = np_from p"
    "filter (\<lambda>w. sw_key w = setting_notify_enabled) (parts_list p) = np_enabled p"
    "filter (\<lambda>w. sw_key w = setting_notify_time) (parts_list p) = np_times p"
    "filter (\<lambda>w. sw_key w = setting_notify_interval) (parts_list p) = np_interval p"
    by (simp_all add: parts_list_def k[THEN filter_keyed])
  show "apply_writes (parts_list p) m setting_smtp_host = apply_writes (np_host p) m setting_smtp_host"
    "apply_writes (parts_list p) m setting_smtp_port = apply_writes (np_port p) m setting_smtp_port"
    "apply_writes (parts_list p) m setting_smtp_security = apply_writes (np_security p) m setting_smtp_security"
    "apply_writes (parts_list p) m setting_smtp_username = apply_writes (np_username p) m setting_smtp_username"
    "apply_writes (parts_list p) m setting_smtp_password_enc = apply_writes (np_password p) m setting_smtp_password_enc"
    "apply_writes (parts_list p) m setting_smtp_from = apply_writes (np_from p) m setting_smtp_from"
    "apply_writes (parts_list p) m setting_notify_enabled = apply_writes (np_enabled p) m setting_notify_enabled"
    "apply_writes (parts_list p) m setting_notify_time = apply_writes (np_times p) m setting_notify_time"
    "apply_writes (parts_list p) m setting_notify_interval = apply_writes (np_interval p) m setting_notify_interval"
    by (subst apply_writes_at, simp only: f)+
qed

lemma keyed_field: "field v f = Inr w \<Longrightarrow> (\<And>x w. f x = Inr w \<Longrightarrow> keyed key w) \<Longrightarrow> keyed key w"
  by (auto simp: field_def keyed_def split: option.splits)

lemma keyed_single [simp]: "keyed key [setting_write_of k v d] \<longleftrightarrow> k = key" "keyed key []"
  by (auto simp: keyed_def setting_write_of_def)

lemma notify_writes_parts:
  assumes "notify_writes g up nonce key saved inp = Inr ws" "keyed setting_notify_user_ids us"
  obtains p where "ws @ us = parts_list p" "parts_keyed p" "np_users p = us"
    "field (ni_host inp) host_field = Inr (np_host p)" "field (ni_port inp) port_field = Inr (np_port p)"
    "field (ni_security inp) security_field = Inr (np_security p)"
    "field (ni_username inp) username_field = Inr (np_username p)"
    "password_field g nonce key saved inp = Inr (np_password p)"
    "field (ni_from inp) from_field = Inr (np_from p)"
    "field (ni_public_base_url inp) (base_url_field up) = Inr (np_base_url p)"
    "field (ni_enabled inp) enabled_field = Inr (np_enabled p)" "smtp_required saved inp = Inr []"
    "field (ni_times inp) times_field = Inr (np_times p)" "field (ni_interval inp) interval_field = Inr (np_interval p)"
proof -
  from assms(1) obtain a b c d e f h i j k l where
    w: "field (ni_host inp) host_field = Inr a" "field (ni_port inp) port_field = Inr b"
    "field (ni_security inp) security_field = Inr c" "field (ni_username inp) username_field = Inr d"
    "password_field g nonce key saved inp = Inr e" "field (ni_from inp) from_field = Inr f"
    "field (ni_public_base_url inp) (base_url_field up) = Inr h" "field (ni_enabled inp) enabled_field = Inr i"
    "smtp_required saved inp = Inr j" "field (ni_times inp) times_field = Inr k"
    "field (ni_interval inp) interval_field = Inr l"
    and ws: "ws = a @ b @ c @ d @ e @ f @ h @ i @ j @ k @ l"
    unfolding notify_writes_def all_fields_Cons by (auto simp: all_fields.simps(1))
  have j: "j = []" using w(9) by (auto simp: smtp_required_def Let_def split: if_splits)
  let ?p = "\<lparr>np_host = a, np_port = b, np_security = c, np_username = d, np_password = e, np_from = f,
    np_base_url = h, np_enabled = i, np_times = k, np_interval = l, np_users = us\<rparr>"
  have "keyed setting_smtp_host a" by (rule keyed_field[OF w(1)]) (auto simp: host_field_def Let_def split: if_splits)
  moreover have "keyed setting_smtp_port b" by (rule keyed_field[OF w(2)]) (auto simp: port_field_def split: if_splits)
  moreover have "keyed setting_smtp_security c"
    by (rule keyed_field[OF w(3)]) (auto simp: security_field_def Let_def split: option.splits)
  moreover have "keyed setting_smtp_username d" by (rule keyed_field[OF w(4)]) (auto simp: username_field_def Let_def)
  moreover have "keyed setting_smtp_password_enc e"
    using w(5) by (auto simp: password_field_def split: if_splits option.splits sum.splits)
  moreover have "keyed setting_smtp_from f" by (rule keyed_field[OF w(6)]) (auto simp: from_field_def split: sum.splits)
  moreover have "keyed setting_public_base_url h"
    by (rule keyed_field[OF w(7)]) (auto simp: base_url_field_def split: sum.splits)
  moreover have "keyed setting_notify_enabled i" by (rule keyed_field[OF w(8)]) (auto simp: enabled_field_def)
  moreover have "keyed setting_notify_time k"
    by (rule keyed_field[OF w(10)]) (auto simp: times_field_def Let_def split: sum.splits)
  moreover have "keyed setting_notify_interval l"
    by (rule keyed_field[OF w(11)]) (auto simp: interval_field_def split: option.splits)
  ultimately have "parts_keyed ?p" using assms(2) by (simp add: parts_keyed_def)
  moreover have "ws @ us = parts_list ?p" by (simp add: ws j parts_list_def)
  ultimately show thesis using w j by (intro that[of ?p]) simp_all
qed


section \<open>The stored password and the server it belongs to\<close>

text \<open>The connection a stored password was saved for.\<close>

definition connection :: "notify_settings \<Rightarrow> string \<times> int \<times> string \<times> string" where
  "connection s = (sc_host (nt_smtp s), sc_port (nt_smtp s), sc_security (nt_smtp s), sc_username (nt_smtp s))"

definition updated :: "'a option \<Rightarrow> ('a \<Rightarrow> 'b) \<Rightarrow> 'b \<Rightarrow> 'b" where
  "updated v f old = (case v of None \<Rightarrow> old | Some x \<Rightarrow> f x)"

lemma differs_updated: "differs v f old \<longleftrightarrow> updated v f old \<noteq> old"
  by (simp add: differs_def updated_def split: option.splits)

lemma host_after:
  assumes "field v host_field = Inr w" "m' setting_smtp_host = apply_writes w m setting_smtp_host"
  shows "text_of setting_smtp_host m' = updated v trim_space (text_of setting_smtp_host m)"
  using assms
  by (auto simp: field_def host_field_def Let_def updated_def text_of_def setting_write_of_def split: option.splits if_splits)

lemma username_field_after:
  assumes "field v username_field = Inr w" "m' setting_smtp_username = apply_writes w m setting_smtp_username"
  shows "text_of setting_smtp_username m' = updated v trim_space (text_of setting_smtp_username m)"
  using assms
  by (auto simp: field_def username_field_def Let_def updated_def text_of_def setting_write_of_def split: option.splits if_splits)

lemma from_after:
  assumes "field v from_field = Inr w" "m' setting_smtp_from = apply_writes w m setting_smtp_from"
  shows "text_of setting_smtp_from m'
    = updated v (\<lambda>raw. case normalize_email raw of Inr f \<Rightarrow> f | Inl _ \<Rightarrow> '''') (text_of setting_smtp_from m)"
  using assms
  by (auto simp: field_def from_field_def updated_def text_of_def setting_write_of_def split: option.splits if_splits sum.splits)

lemma enabled_after:
  assumes "field v enabled_field = Inr w" "m' setting_notify_enabled = apply_writes w m setting_notify_enabled"
  shows "(text_of setting_notify_enabled m' = ''1'') = updated v (\<lambda>b. b) (text_of setting_notify_enabled m = ''1'')"
  using assms
  by (auto simp: field_def enabled_field_def updated_def text_of_def setting_write_of_def split: option.splits if_splits)

lemma port_after:
  assumes "field v port_field = Inr w" "m' setting_smtp_port = apply_writes w m setting_smtp_port"
  shows "int_of_setting setting_smtp_port default_smtp_port m'
    = updated v (\<lambda>n. n) (int_of_setting setting_smtp_port default_smtp_port m)"
proof (cases v)
  case None
  with assms show ?thesis by (simp add: field_def updated_def int_of_setting_def text_of_def)
next
  case (Some n)
  with assms have n: "1 \<le> n" "n \<le> 65535" and w: "w = [setting_write_of setting_smtp_port (itoa n) (n = default_smtp_port)]"
    by (auto simp: field_def port_field_def split: if_splits)
  have "atoi (itoa n) = Some n" "itoa n \<noteq> ''''"
    using n atoi_nat_digits[of "nat n"] by (auto simp: itoa_def max_int64_def)
  with n assms(2) show ?thesis unfolding w
    by (auto simp: setting_write_of_def Some updated_def int_of_setting_def text_of_def Let_def)
qed

lemma security_after:
  assumes "field v security_field = Inr w" "m' setting_smtp_security = apply_writes w m setting_smtp_security"
  shows "valid_security default_smtp_security (str_of setting_smtp_security default_smtp_security m')
    = updated v (normal_security default_smtp_security)
        (valid_security default_smtp_security (str_of setting_smtp_security default_smtp_security m))"
proof (cases v)
  case None
  with assms show ?thesis by (simp add: field_def updated_def str_of_def text_of_def)
next
  case (Some raw)
  let ?sec = "normal_security default_smtp_security raw"
  from Some assms have ok: "validate_smtp_security ?sec = None"
    and w: "w = [setting_write_of setting_smtp_security ?sec (?sec = default_smtp_security)]"
    by (auto simp: field_def security_field_def Let_def split: option.splits)
  from ok have "?sec \<noteq> ''''"
    by (auto simp: validate_smtp_security_def security_ssl_def security_starttls_def security_none_def split: if_splits)
  with ok assms(2) show ?thesis unfolding w
    by (auto simp: setting_write_of_def Some updated_def str_of_def text_of_def Let_def valid_security_def)
qed

text \<open>The outcome of a change without failures: refused, or saved as its writes.\<close>

lemma save_notification_outcome:
  assumes "faults s = []" "save_notification_settings g up nonce key inp s = (r, t)"
  obtains (refused) e where "r = Inl e" "t = s"
  | (saved) p where "r = Inr ()" "t = s\<lparr>settings := apply_writes (parts_list p) (settings s)\<rparr>" "parts_keyed p"
      "\<not> password_missing (notify_of (settings s)) inp"
      "username_after (notify_of (settings s)) inp = '''' \<or> password_given (ni_password inp)
        \<or> \<not> nt_password_set (notify_of (settings s)) \<or> \<not> smtp_connection_changed (notify_of (settings s)) inp"
      "field (ni_host inp) host_field = Inr (np_host p)" "field (ni_port inp) port_field = Inr (np_port p)"
      "field (ni_security inp) security_field = Inr (np_security p)"
      "field (ni_username inp) username_field = Inr (np_username p)"
      "password_field g nonce key (notify_of (settings s)) inp = Inr (np_password p)"
      "field (ni_from inp) from_field = Inr (np_from p)"
      "field (ni_enabled inp) enabled_field = Inr (np_enabled p)" "smtp_required (notify_of (settings s)) inp = Inr []"
      "field (ni_times inp) times_field = Inr (np_times p)" "field (ni_interval inp) interval_field = Inr (np_interval p)"
proof -
  let ?a = "notify_of (settings s)"
  have eq: "save_notification_settings g up nonce key inp s =
     (case notify_writes g up nonce key ?a inp of
        Inl e \<Rightarrow> (Inl e, s)
      | Inr ws \<Rightarrow> (case fst (users_field (ni_user_ids inp) s) of
            Inl e \<Rightarrow> (Inl e, s)
          | Inr us \<Rightarrow> if password_missing ?a inp then (Inl err_smtp_password_missing, s)
              else if username_after ?a inp \<noteq> '''' \<and> \<not> password_given (ni_password inp) \<and> nt_password_set ?a
                \<and> smtp_connection_changed ?a inp then (Inl err_smtp_password_required, s)
              else persist_settings (ws @ us) s))"
    using users_field_no_faults(1)[OF assms(1), of "ni_user_ids inp"]
    by (auto simp: save_notification_settings_def act_bind_def resolve_notification_no_faults[OF assms(1)]
        act_of_def act_fail_def act_return_def split: sum.splits prod.splits)
  show thesis
  proof (cases "notify_writes g up nonce key ?a inp")
    case (Inl e)
    then show ?thesis using eq assms(2) refused by simp
  next
    case (Inr ws)
    note ws = this
    show ?thesis
    proof (cases "fst (users_field (ni_user_ids inp) s)")
      case (Inl e)
      then show ?thesis using eq ws assms(2) refused by simp
    next
      case (Inr us)
      obtain p where p: "ws @ us = parts_list p" "parts_keyed p"
        "field (ni_host inp) host_field = Inr (np_host p)" "field (ni_port inp) port_field = Inr (np_port p)"
        "field (ni_security inp) security_field = Inr (np_security p)"
        "field (ni_username inp) username_field = Inr (np_username p)"
        "password_field g nonce key ?a inp = Inr (np_password p)"
        "field (ni_from inp) from_field = Inr (np_from p)"
        "field (ni_enabled inp) enabled_field = Inr (np_enabled p)" "smtp_required ?a inp = Inr []"
        "field (ni_times inp) times_field = Inr (np_times p)" "field (ni_interval inp) interval_field = Inr (np_interval p)"
        by (rule notify_writes_parts[OF ws users_field_no_faults(2)[OF assms(1) Inr]]) blast
      show ?thesis
      proof (cases "password_missing ?a inp \<or> (username_after ?a inp \<noteq> '''' \<and> \<not> password_given (ni_password inp)
          \<and> nt_password_set ?a \<and> smtp_connection_changed ?a inp)")
        case True
        then show ?thesis using eq ws Inr assms(2) refused by (auto split: if_splits)
      next
        case False
        then have "r = Inr ()" "t = s\<lparr>settings := apply_writes (parts_list p) (settings s)\<rparr>"
          using eq ws Inr assms(2) by (auto simp: persist_settings_no_faults[OF assms(1)] p(1))
        with False p show ?thesis by (intro saved[of p]) auto
      qed
    qed
  qed
qed


lemma smtp_required_ok:
  assumes "smtp_required a inp = Inr []"
  shows "\<not> updated (ni_enabled inp) (\<lambda>b. b) (nt_enabled a)
    \<or> (updated (ni_host inp) trim_space (sc_host (nt_smtp a)) \<noteq> ''''
       \<and> updated (ni_from inp) (\<lambda>raw. case normalize_email raw of Inr f \<Rightarrow> f | Inl _ \<Rightarrow> '''') (sc_from (nt_smtp a)) \<noteq> '''')"
  using assms by (auto simp: smtp_required_def updated_def Let_def split: if_splits option.splits)

text \<open>The stored password after a saved change.\<close>

lemma password_after:
  assumes "password_field g nonce key (notify_of m) inp = Inr w"
    and "m' setting_smtp_password_enc = apply_writes w m setting_smtp_password_enc"
  shows "if username_after (notify_of m) inp = '''' then text_of setting_smtp_password_enc m' = ''''
    else if password_given (ni_password inp)
      then \<exists>k. key = Some k \<and> encrypt_secret g nonce k (the (ni_password inp)) = Inr (text_of setting_smtp_password_enc m')
    else text_of setting_smtp_password_enc m' = text_of setting_smtp_password_enc m"
proof (cases "username_after (notify_of m) inp = ''''")
  case True
  then show ?thesis using assms
    by (auto simp: password_field_def notify_of_def text_of_def setting_write_of_def split: if_splits option.splits)
next
  case False
  show ?thesis
  proof (cases "password_given (ni_password inp)")
    case True
    with False assms show ?thesis
      by (simp add: password_field_def text_of_def setting_write_of_def split: option.splits sum.splits) auto
  next
    case no: False
    with False assms show ?thesis by (simp add: password_field_def text_of_def)
  qed
qed


text \<open>A password is stored for smtp.x.jp; a change of the host alone is refused, with the password it is saved.\<close>

definition demo_smtp :: store where
  "demo_smtp = empty_store\<lparr>settings := [setting_smtp_host \<mapsto> ''smtp.x.jp'', setting_smtp_username \<mapsto> ''ann'',
     setting_smtp_password_enc \<mapsto> ''old'', setting_smtp_from \<mapsto> ''a@x.jp'']\<rparr>"

definition no_change :: notify_input where
  "no_change = \<lparr>ni_host = None, ni_port = None, ni_security = None, ni_username = None, ni_password = None,
     ni_clear_password = False, ni_from = None, ni_public_base_url = None, ni_enabled = None, ni_times = None,
     ni_interval = None, ni_user_ids = None\<rparr>"

definition demo_host_change :: notify_input where
  "demo_host_change = no_change\<lparr>ni_host := Some '' smtp.y.jp '', ni_enabled := Some True\<rparr>"

definition demo_save :: "notify_input \<Rightarrow> store \<Rightarrow> (go_error + unit) \<times> store" where
  "demo_save inp = save_notification_settings demo_gcm (\<lambda>_. None) (replicate 12 (CHR ''n''))
     (Some (replicate 32 (CHR ''A''))) inp"


text \<open>
  A read that fails undoes the protection: when the read of the stored password
  fails (the eleventh statement of the change), the password counts as not set,
  and the same change of the host is saved without it. The stored password then
  belongs to the new host.
\<close>

theorem smtp_fault_moves_password:
  "let s = demo_smtp\<lparr>faults := replicate 10 None @ [Some ''database is locked'']\<rparr>;
       t = snd (demo_save demo_host_change s)
   in fst (demo_save demo_host_change s) = Inr ()
     \<and> settings t setting_smtp_host = Some ''smtp.y.jp'' \<and> settings t setting_smtp_password_enc = Some ''old''"
  by code_simp

end
