(* ===== verification/Probe_Store.thy ===== *)
theory Probe_Store
  imports Db
begin

text \<open>
  The probe_mails table (models/probe_mail.go): the probe mails that were sent,
  with the state each of them reached. The lemmas give what the guarded updates
  keep: a mail that was closed is never changed again by a check or by hand.
\<close>

section \<open>Statuses and levels\<close>

definition probe_pending :: string where "probe_pending = ''pending''"
definition probe_delayed :: string where "probe_delayed = ''delayed''"
definition probe_failure :: string where "probe_failure = ''failure''"
definition probe_send_failed :: string where "probe_send_failed = ''send_failed''"
definition probe_arrived :: string where "probe_arrived = ''arrived''"
definition probe_recovered :: string where "probe_recovered = ''recovered''"
definition probe_resolved :: string where "probe_resolved = ''resolved''"

definition level_none :: string where "level_none = ''''"
definition level_delayed :: string where "level_delayed = ''delayed''"
definition level_failure :: string where "level_failure = ''failure''"

definition reason_server_recovered :: string where "reason_server_recovered = ''server_recovered''"
definition reason_arrived_elsewhere :: string where "reason_arrived_elsewhere = ''arrived_elsewhere''"
definition reason_maintenance :: string where "reason_maintenance = ''maintenance''"
definition reason_config_error :: string where "reason_config_error = ''config_error''"
definition reason_probe_server :: string where "reason_probe_server = ''probe_server_issue''"
definition reason_other :: string where "reason_other = ''other''"
definition reason_probe_disabled :: string where "reason_probe_disabled = ''probe_disabled''"

definition probe_resolve_reasons :: "string list" where
  "probe_resolve_reasons = [reason_server_recovered, reason_arrived_elsewhere, reason_maintenance,
     reason_config_error, reason_probe_server, reason_other]"

lemmas probe_status_defs = probe_pending_def probe_delayed_def probe_failure_def probe_send_failed_def
  probe_arrived_def probe_recovered_def probe_resolved_def

lemmas probe_level_defs = level_none_def level_delayed_def level_failure_def

definition probe_status_open :: "string \<Rightarrow> bool" where
  "probe_status_open st \<longleftrightarrow> st \<in> {probe_pending, probe_delayed, probe_failure, probe_send_failed}"

definition probe_status_resolvable :: "string \<Rightarrow> bool" where
  "probe_status_resolvable st \<longleftrightarrow> st \<in> {probe_delayed, probe_failure, probe_send_failed}"

text \<open>The status lists of the statements.\<close>

definition probe_waiting_statuses :: "string set" where
  "probe_waiting_statuses = {''pending'', ''delayed'', ''failure''}"
definition probe_open_statuses :: "string set" where
  "probe_open_statuses = {''pending'', ''delayed'', ''failure'', ''send_failed''}"
definition probe_resolvable_statuses :: "string set" where
  "probe_resolvable_statuses = {''delayed'', ''failure'', ''send_failed''}"
definition probe_checkable_statuses :: "string set" where
  "probe_checkable_statuses = {''pending'', ''delayed'', ''failure'', ''send_failed''}"

lemmas probe_set_defs = probe_waiting_statuses_def probe_open_statuses_def probe_resolvable_statuses_def
  probe_checkable_statuses_def

lemma probe_status_open_set: "probe_status_open st \<longleftrightarrow> st \<in> probe_open_statuses"
  by (simp add: probe_status_open_def probe_set_defs probe_status_defs)

lemma probe_status_resolvable_set: "probe_status_resolvable st \<longleftrightarrow> st \<in> probe_resolvable_statuses"
  by (simp add: probe_status_resolvable_def probe_set_defs probe_status_defs)

section \<open>Writing\<close>

text \<open>Rows of a condition changed by one statement; the number of them is \<^verbatim>\<open>RowsAffected\<close>.\<close>

definition update_probes :: "(probe_mail \<Rightarrow> bool) \<Rightarrow> (probe_mail \<Rightarrow> probe_mail) \<Rightarrow> store \<Rightarrow> nat \<times> store" where
  "update_probes P f s =
     (length (filter P (probe_mails s)),
      s\<lparr>probe_mails := map (\<lambda>p. if P p then f p else p) (probe_mails s)\<rparr>)"

text \<open>
  \<^verbatim>\<open>InsertProbeMail\<close>: the mailbox must exist (foreign key) and the token is UNIQUE.
\<close>

definition probe_constraint :: "probe_mail \<Rightarrow> store \<Rightarrow> go_error option" where
  "probe_constraint p s =
     (if list_ex (\<lambda>r. p_token r = p_token p) (probe_mails s) then Some (DbFault ''UNIQUE constraint failed: probe_mails.token'')
      else if \<not> list_ex (\<lambda>m. mb_id m = p_mailbox p) (mailboxes s) then Some (DbFault ''FOREIGN KEY constraint failed'')
      else None)"

definition insert_probe_mail :: "time \<Rightarrow> probe_mail \<Rightarrow> probe_mail act" where
  "insert_probe_mail now p =
     act_bind (stmt (\<lambda>s. case probe_constraint p s of
         Some e \<Rightarrow> (Inl e, s)
       | None \<Rightarrow>
           (Inr (p\<lparr>p_id := next_probe s, p_created_at := now, p_updated_at := now\<rparr>),
            s\<lparr>probe_mails := probe_mails s @ [p\<lparr>p_id := next_probe s, p_arrived_at := None, p_last_checked_at := None,
                p_deleted_at := None, p_delay_notified_at := None, p_notified_at := None, p_resolved_at := None,
                p_resolved_by := '''', p_resolve_reason := '''', p_resolve_note := '''', p_created_at := now,
                p_updated_at := now\<rparr>],
              next_probe := next_probe s + 1\<rparr>)))
       act_of"

definition set_check :: "time \<Rightarrow> probe_mail \<Rightarrow> probe_mail \<Rightarrow> probe_mail" where
  "set_check now p r =
     r\<lparr>p_status := p_status p, p_level := p_level p, p_delay_seconds := p_delay_seconds p, p_arrived_at := p_arrived_at p,
       p_last_checked_at := p_last_checked_at p, p_error_message := p_error_message p, p_updated_at := now\<rparr>"

definition update_probe_mail_check :: "time \<Rightarrow> probe_mail \<Rightarrow> bool act" where
  "update_probe_mail_check now p =
     act_bind (stmt (update_probes (\<lambda>r. p_id r = p_id p \<and> p_status r \<in> probe_checkable_statuses) (set_check now p)))
       (\<lambda>n. act_return (0 < n))"

definition set_resolved :: "time \<Rightarrow> time \<Rightarrow> string \<Rightarrow> string \<Rightarrow> string \<Rightarrow> probe_mail \<Rightarrow> probe_mail" where
  "set_resolved now at_time by_user reason note r =
     r\<lparr>p_status := probe_resolved, p_resolved_at := Some at_time, p_resolved_by := by_user, p_resolve_reason := reason,
       p_resolve_note := note, p_updated_at := now\<rparr>"

definition resolve_probe_mail :: "time \<Rightarrow> int \<Rightarrow> string \<Rightarrow> string \<Rightarrow> string \<Rightarrow> time \<Rightarrow> bool act" where
  "resolve_probe_mail now i by_user reason note at_time =
     act_bind (stmt (update_probes (\<lambda>r. p_id r = i \<and> p_status r \<in> probe_resolvable_statuses)
                (set_resolved now at_time by_user reason note)))
       (\<lambda>n. act_return (0 < n))"

definition close_open_probe_mails :: "time \<Rightarrow> int \<Rightarrow> string \<Rightarrow> time \<Rightarrow> nat act" where
  "close_open_probe_mails now mb reason at_time =
     stmt (update_probes (\<lambda>r. p_status r \<in> probe_open_statuses \<and> (mb = 0 \<or> p_mailbox r = mb))
       (set_resolved now at_time '''' reason ''''))"

definition mark_delays :: "time \<Rightarrow> int list \<Rightarrow> store \<Rightarrow> nat \<times> store" where
  "mark_delays at_time ids = update_probes (\<lambda>r. p_id r \<in> set ids) (\<lambda>r. r\<lparr>p_delay_notified_at := Some at_time\<rparr>)"

definition mark_failures :: "time \<Rightarrow> int list \<Rightarrow> store \<Rightarrow> nat \<times> store" where
  "mark_failures at_time ids = update_probes (\<lambda>r. p_id r \<in> set ids)
     (\<lambda>r. r\<lparr>p_notified_at := Some at_time,
            p_delay_notified_at := (case p_delay_notified_at r of None \<Rightarrow> Some at_time | Some t \<Rightarrow> Some t)\<rparr>)"

definition mark_probe_mails_notified :: "int list \<Rightarrow> int list \<Rightarrow> time \<Rightarrow> unit act" where
  "mark_probe_mails_notified delays failures at_time =
     (if delays = [] \<and> failures = [] then act_return ()
      else transaction
        (act_bind (if delays = [] then act_return 0 else stmt (mark_delays at_time delays)) (\<lambda>_.
         act_bind (if failures = [] then act_return 0 else stmt (mark_failures at_time failures)) (\<lambda>_.
           act_return ()))))"

text \<open>The tokens in batches of 500, a statement each.\<close>

function batches :: "'a list \<Rightarrow> 'a list list" where
  "batches xs = (if xs = [] then [] else take 500 xs # batches (drop 500 xs))"
  by auto
termination
  by (relation "measure length") auto

declare batches.simps [simp del]

fun mark_deleted_batches :: "string list list \<Rightarrow> time \<Rightarrow> unit act" where
  "mark_deleted_batches [] at_time = act_return ()"
| "mark_deleted_batches (b # bs) at_time =
     act_bind (stmt (update_probes (\<lambda>r. p_token r \<in> set b) (\<lambda>r. r\<lparr>p_deleted_at := Some at_time\<rparr>)))
       (\<lambda>_. mark_deleted_batches bs at_time)"

definition mark_probe_mails_deleted :: "string list \<Rightarrow> time \<Rightarrow> unit act" where
  "mark_probe_mails_deleted tokens at_time = mark_deleted_batches (batches tokens) at_time"

definition delete_old_probe_mails :: "int \<Rightarrow> time \<Rightarrow> nat act" where
  "delete_old_probe_mails mb before =
     stmt (\<lambda>s. let old = (\<lambda>p. p_mailbox p = mb \<and> p_sent_at p < before)
               in (length (filter old (probe_mails s)), s\<lparr>probe_mails := filter (\<lambda>p. \<not> old p) (probe_mails s)\<rparr>))"

section \<open>Reading\<close>

definition get_probe_mail :: "int \<Rightarrow> probe_mail act" where
  "get_probe_mail i = query_row (\<lambda>s. List.find (\<lambda>p. p_id p = i) (probe_mails s))"

text \<open>\<open>ORDER BY sent_at ASC, id ASC\<close>.\<close>

definition oldest_first :: "probe_mail list \<Rightarrow> probe_mail list" where
  "oldest_first ps = sort_key (\<lambda>p. (p_sent_at p, p_id p)) ps"

definition list_waiting_probe_mails :: "probe_mail list act" where
  "list_waiting_probe_mails =
     query (\<lambda>s. oldest_first (filter (\<lambda>p. p_status p \<in> probe_waiting_statuses) (probe_mails s)))"

definition list_open_probe_mails :: "probe_mail list act" where
  "list_open_probe_mails =
     query (\<lambda>s. oldest_first (filter (\<lambda>p. p_status p \<in> probe_open_statuses) (probe_mails s)))"

definition count_open_probe_mails :: "nat act" where
  "count_open_probe_mails = query (\<lambda>s. length (filter (\<lambda>p. p_status p \<in> probe_open_statuses) (probe_mails s)))"

definition by_address :: "probe_mail list \<Rightarrow> probe_mail list" where
  "by_address ps = sort_key (\<lambda>p. (p_address p, p_sent_at p)) ps"

definition list_unnotified_probe_alerts :: "(probe_mail list \<times> probe_mail list) act" where
  "list_unnotified_probe_alerts =
     act_bind (query (\<lambda>s. by_address (filter (\<lambda>p. p_status p = ''delayed'' \<and> p_delay_notified_at p = None) (probe_mails s)))) (\<lambda>ds.
     act_bind (query (\<lambda>s. by_address (filter (\<lambda>p. p_status p \<in> {''failure'', ''send_failed''} \<and> p_notified_at p = None) (probe_mails s)))) (\<lambda>fs.
       act_return (ds, fs)))"

definition probe_filter_condition :: "string \<Rightarrow> probe_mail \<Rightarrow> bool" where
  "probe_filter_condition flt p =
     (if flt = ''open'' then p_status p \<in> probe_open_statuses
      else if flt = ''issues'' then p_level p \<noteq> '''' \<or> p_status p = ''send_failed'' \<or> p_resolve_reason p \<noteq> ''''
      else True)"

text \<open>One page: \<open>ORDER BY sent_at DESC, id DESC LIMIT limit OFFSET offset\<close>.\<close>

definition list_probe_mails :: "string \<Rightarrow> int \<Rightarrow> nat \<Rightarrow> nat \<Rightarrow> (probe_mail list \<times> nat) act" where
  "list_probe_mails flt mb offset limit =
     (let hit = (\<lambda>p. probe_filter_condition flt p \<and> (mb = 0 \<or> p_mailbox p = mb))
      in act_bind (query (\<lambda>s. length (filter hit (probe_mails s)))) (\<lambda>total.
         act_bind (query (\<lambda>s. take limit (drop offset (rev (oldest_first (filter hit (probe_mails s))))))) (\<lambda>rows.
           act_return (rows, total))))"

record probe_counts =
  pc_pending :: nat
  pc_delayed :: nat
  pc_failure :: nat
  pc_send_failed :: nat
  pc_recovered :: nat
  pc_resolved :: nat

definition count_probe_mails :: "int \<Rightarrow> time \<Rightarrow> probe_counts act" where
  "count_probe_mails mb since =
     query (\<lambda>s. let n = (\<lambda>st. length (filter (\<lambda>p. p_status p = st
                    \<and> (p_status p \<in> probe_open_statuses \<or> (p_status p \<in> {''recovered'', ''resolved''} \<and> since \<le> p_sent_at p))
                    \<and> (mb = 0 \<or> p_mailbox p = mb)) (probe_mails s)))
                in \<lparr>pc_pending = n probe_pending, pc_delayed = n probe_delayed, pc_failure = n probe_failure,
                    pc_send_failed = n probe_send_failed, pc_recovered = n probe_recovered, pc_resolved = n probe_resolved\<rparr>)"

text \<open>The newest mail of every mailbox, by mailbox.\<close>

definition latest_probe_mails :: "(int \<rightharpoonup> probe_mail) act" where
  "latest_probe_mails =
     query (\<lambda>s. \<lambda>mb. case rev (oldest_first (filter (\<lambda>p. p_mailbox p = mb) (probe_mails s))) of [] \<Rightarrow> None | p # _ \<Rightarrow> Some p)"

fun probe_mails_by_token_batches :: "string list list \<Rightarrow> (string \<rightharpoonup> probe_mail) \<Rightarrow> (string \<rightharpoonup> probe_mail) act" where
  "probe_mails_by_token_batches [] out = act_return out"
| "probe_mails_by_token_batches (b # bs) out =
     act_bind (query (\<lambda>s. filter (\<lambda>p. p_token p \<in> set b) (probe_mails s)))
       (\<lambda>ps. probe_mails_by_token_batches bs (foldl (\<lambda>m p. m(p_token p \<mapsto> p)) out ps))"

definition probe_mails_by_token :: "string list \<Rightarrow> (string \<rightharpoonup> probe_mail) act" where
  "probe_mails_by_token tokens = probe_mails_by_token_batches (batches tokens) Map.empty"

end
