(* ===== verification/Probe.thy ===== *)
theory Probe
  imports Notify_Settings Probe_Store
begin

text \<open>
  The delivery probe (modules/probe.go): its settings and the change of them, the
  times of the arrival checks, what a check makes of the probe mails found on the
  probe server, and the recording of a check. SMTP, IMAP and the mails to the
  recipients are left out; durations are integers in nanoseconds.
\<close>

section \<open>Keys and defaults\<close>

definition setting_probe_enabled :: string where "setting_probe_enabled = ''probe_enabled''"
definition setting_probe_address :: string where "setting_probe_address = ''probe_address''"
definition setting_probe_imap_port :: string where "setting_probe_imap_port = ''probe_imap_port''"
definition setting_probe_imap_security :: string where "setting_probe_imap_security = ''probe_imap_security''"
definition setting_probe_imap_username :: string where "setting_probe_imap_username = ''probe_imap_username''"
definition setting_probe_imap_password :: string where "setting_probe_imap_password = ''probe_imap_password_enc''"
definition setting_probe_imap_folder :: string where "setting_probe_imap_folder = ''probe_imap_folder''"
definition setting_probe_send_times :: string where "setting_probe_send_times = ''probe_send_times''"
definition setting_probe_delay_minutes :: string where "setting_probe_delay_minutes = ''probe_delay_minutes''"
definition setting_probe_failure_minutes :: string where "setting_probe_failure_minutes = ''probe_failure_minutes''"
definition setting_probe_last_send_at :: string where "setting_probe_last_send_at = ''probe_last_send_at''"
definition setting_probe_next_check_at :: string where "setting_probe_next_check_at = ''probe_next_check_at''"
definition setting_probe_last_check_at :: string where "setting_probe_last_check_at = ''probe_last_check_at''"
definition setting_probe_last_check_error :: string where "setting_probe_last_check_error = ''probe_last_check_error''"
definition setting_probe_last_delete_error :: string where "setting_probe_last_delete_error = ''probe_last_delete_error''"
definition setting_probe_check_failures :: string where "setting_probe_check_failures = ''probe_check_failures''"
definition setting_probe_failing_since :: string where "setting_probe_failing_since = ''probe_check_failing_since''"
definition setting_probe_unreadable_at :: string where "setting_probe_unreadable_at = ''probe_unreadable_notified_at''"
definition setting_probe_wide_sweep_at :: string where "setting_probe_wide_sweep_at = ''probe_wide_sweep_at''"
definition setting_probe_subject_tag :: string where "setting_probe_subject_tag = ''probe_subject_tag''"

definition default_imap_port :: int where "default_imap_port = 993"
definition default_probe_send_times :: string where "default_probe_send_times = ''07:00,11:00,15:00,19:00''"
definition default_probe_delay_minutes :: int where "default_probe_delay_minutes = 15"
definition default_probe_failure_minutes :: int where "default_probe_failure_minutes = 60"
definition min_probe_minutes :: int where "min_probe_minutes = 1"
definition max_probe_minutes :: int where "max_probe_minutes = 7 * 24 * 60"
definition default_probe_subject_tag :: string where "default_probe_subject_tag = ''MC''"
definition max_probe_send_times :: nat where "max_probe_send_times = 24"
definition min_probe_send_gap_minutes :: int where "min_probe_send_gap_minutes = 15"

abbreviation minute :: int where "minute \<equiv> 60 * nanos_per_second"

definition probe_check_coalesce :: int where "probe_check_coalesce = minute"
definition probe_check_retry_interval :: int where "probe_check_retry_interval = 10 * minute"
definition probe_leftover_min_age :: int where "probe_leftover_min_age = 24 * 60 * minute"

section \<open>The settings\<close>

record probe_conn =
  cn_host :: string
  cn_port :: int
  cn_security :: string
  cn_username :: string
  cn_folder :: string

record probe_settings =
  ps_enabled :: bool
  ps_address :: string
  ps_conn :: probe_conn
  ps_password_set :: bool
  ps_password :: string
  ps_send_times :: "string list"
  ps_delay_minutes :: int
  ps_failure_minutes :: int
  ps_last_send_at :: "time option"
  ps_next_check_at :: "time option"
  ps_last_check_at :: "time option"
  ps_last_check_error :: string
  ps_last_delete_error :: string
  ps_check_failures :: int
  ps_failing_since :: "time option"
  ps_unreadable_at :: "time option"
  ps_subject_tag :: string
  ps_password_enc :: string

definition probe_configured :: "probe_settings \<Rightarrow> bool" where
  "probe_configured s \<longleftrightarrow> ps_address s \<noteq> '''' \<and> cn_host (ps_conn s) \<noteq> '''' \<and> cn_username (ps_conn s) \<noteq> ''''
     \<and> ps_password_set s"

definition probe_delay :: "probe_settings \<Rightarrow> int" where "probe_delay s = ps_delay_minutes s * minute"
definition probe_failure_time :: "probe_settings \<Rightarrow> int" where "probe_failure_time s = ps_failure_minutes s * minute"

definition validate_probe_minutes :: "int \<Rightarrow> go_error option" where
  "validate_probe_minutes n =
     (if n < min_probe_minutes \<or> max_probe_minutes < n
      then Some (Keyed ''validation.common.numberOutOfRange''
             (''the probe thresholds must be between '' @ itoa min_probe_minutes @ '' and '' @ itoa max_probe_minutes @ '' minutes''))
      else None)"

definition subject_tag_char :: "char \<Rightarrow> bool" where
  "subject_tag_char c \<longleftrightarrow> is_alnum_char c \<or> c \<in> set ''._-''"

definition validate_probe_subject_tag :: "string \<Rightarrow> go_error option" where
  "validate_probe_subject_tag tag =
     (if 1 \<le> length tag \<and> length tag \<le> 16 \<and> list_all subject_tag_char tag then None
      else Some (Keyed ''validation.probe.subjectTagInvalid''
             ''probe_subject_tag must be 1 to 16 letters, digits, dots, underscores or hyphens''))"

definition default_probe_send_time_list :: "string list" where
  "default_probe_send_time_list = (case parse_check_times [default_probe_send_times] of Inl _ \<Rightarrow> [] | Inr ts \<Rightarrow> ts)"

definition resolve_probe_send_times :: "string list reader" where
  "resolve_probe_send_times =
     resolve_parsed setting_probe_send_times (\<lambda>v. parse_check_times [v]) default_probe_send_time_list"

definition setting_time :: "string \<Rightarrow> time option reader" where
  "setting_time key s =
     (case get_setting key s of (raw, t) \<Rightarrow> (if raw = '''' then None else parse_rfc3339 raw, t))"

text \<open>The thresholds that hold: within the bounds, the failure after the delay.\<close>

definition valid_delay :: "int \<Rightarrow> int" where
  "valid_delay d = (if validate_probe_minutes d \<noteq> None then default_probe_delay_minutes else d)"

definition valid_failure :: "int \<Rightarrow> int \<Rightarrow> int" where
  "valid_failure d f =
     (if validate_probe_minutes f \<noteq> None \<or> f \<le> d then max default_probe_failure_minutes (d + 1) else f)"

definition resolve_probe_settings :: "gcm \<Rightarrow> string option \<Rightarrow> probe_settings act" where
  "resolve_probe_settings g key =
     act_bind (read_text setting_probe_enabled) (\<lambda>enabled.
     act_bind (read_text setting_probe_address) (\<lambda>address.
     act_bind (read_text setting_probe_address) (\<lambda>_.
     act_bind (read_text setting_probe_imap_host) (\<lambda>host.
     act_bind (act_read (resolve_int setting_probe_imap_port 0 default_imap_port)) (\<lambda>port.
     act_bind (act_read (resolve_str setting_probe_imap_security '''' security_ssl)) (\<lambda>sec.
     act_bind (read_text setting_probe_imap_username) (\<lambda>username.
     act_bind (act_read (resolve_str setting_probe_imap_folder '''' ''INBOX'')) (\<lambda>folder.
     act_bind (act_read resolve_probe_send_times) (\<lambda>ts.
     act_bind (act_read (resolve_int setting_probe_delay_minutes 0 default_probe_delay_minutes)) (\<lambda>delay.
     act_bind (act_read (resolve_int setting_probe_failure_minutes 0 default_probe_failure_minutes)) (\<lambda>failure.
     act_bind (read_text setting_probe_last_check_error) (\<lambda>check_error.
     act_bind (read_text setting_probe_imap_password) (\<lambda>enc.
     act_bind (act_of (stored_password g ''probe IMAP password'' key enc)) (\<lambda>password.
     act_bind (act_read (setting_time setting_probe_last_send_at)) (\<lambda>last_send.
     act_bind (act_read (setting_time setting_probe_next_check_at)) (\<lambda>next_check.
     act_bind (act_read (setting_time setting_probe_last_check_at)) (\<lambda>last_check.
     act_bind (read_text setting_probe_last_delete_error) (\<lambda>delete_error.
     act_bind (act_read (resolve_int setting_probe_check_failures 0 0)) (\<lambda>failures.
     act_bind (act_read (setting_time setting_probe_failing_since)) (\<lambda>since.
     act_bind (act_read (setting_time setting_probe_unreadable_at)) (\<lambda>unreadable.
     act_bind (act_read (resolve_str setting_probe_subject_tag '''' default_probe_subject_tag)) (\<lambda>tag.
       act_return
         \<lparr>ps_enabled = (enabled = ''1''), ps_address = address,
          ps_conn = \<lparr>cn_host = host, cn_port = port, cn_security = valid_security security_ssl sec,
                     cn_username = username, cn_folder = folder\<rparr>,
          ps_password_set = (enc \<noteq> ''''), ps_password = password, ps_send_times = ts,
          ps_delay_minutes = valid_delay delay, ps_failure_minutes = valid_failure (valid_delay delay) failure,
          ps_last_send_at = last_send, ps_next_check_at = next_check, ps_last_check_at = last_check,
          ps_last_check_error = check_error, ps_last_delete_error = delete_error, ps_check_failures = failures,
          ps_failing_since = since, ps_unreadable_at = unreadable,
          ps_subject_tag = (if validate_probe_subject_tag tag \<noteq> None then default_probe_subject_tag else tag),
          ps_password_enc = enc\<rparr>))))))))))))))))))))))"

text \<open>\<^verbatim>\<open>setTime\<close>; the zero time (None) removes the row.\<close>

definition upd_time :: "string \<Rightarrow> time option \<Rightarrow> setting_write list \<Rightarrow> setting_write list" where
  "upd_time key t u =
     (case t of None \<Rightarrow> upd_set key '''' True u | Some t \<Rightarrow> upd_set key (format_rfc3339_utc t) False u)"

section \<open>Changing the settings\<close>

record probe_input =
  pr_enabled :: "bool option"
  pr_address :: "string option"
  pr_host :: "string option"
  pr_port :: "int option"
  pr_security :: "string option"
  pr_username :: "string option"
  pr_password :: "string option"
  pr_folder :: "string option"
  pr_send_times :: "string list option"
  pr_delay_minutes :: "int option"
  pr_failure_minutes :: "int option"
  pr_clear_password :: bool
  pr_subject_tag :: "string option"

definition err_probe_address :: go_error where
  "err_probe_address = Keyed ''validation.common.emailFormat'' ''probe_address is not a valid mail address''"
definition err_probe_password_required :: go_error where
  "err_probe_password_required = Keyed ''validation.connection.passwordRequiredOnChange''
     ''probe_imap_password is required when the connection settings change''"
definition err_probe_not_configured :: go_error where
  "err_probe_not_configured = Keyed ''result.probe.notConfigured''
     ''the probe server (address, IMAP host, username and password) is not set''"
definition err_probe_off_first :: go_error where
  "err_probe_off_first = Keyed ''validation.probe.offFirst''
     ''switch the delivery probe off first (probe_enabled 0; its open probe mails are closed)''"

definition err_probe_port :: go_error where
  "err_probe_port = Keyed ''validation.common.numberOutOfRange'' ''probe_imap_port must be between 1 and 65535''"

text \<open>\<^verbatim>\<open>validIMAPHost\<close> (modules/mailboxes.go); \<^verbatim>\<open>net.ParseIP\<close> takes an address without a zone.\<close>

definition valid_imap_host :: "string \<Rightarrow> bool" where
  "valid_imap_host host \<longleftrightarrow> length host \<le> 253
     \<and> ((case parse_addr host of Some a \<Rightarrow> addr_zone a = [] | None \<Rightarrow> False)
        \<or> \<not> contains_any host ('' /:'' @ [CHR 0x09, CHR 0x0D, CHR 0x0A, CHR 0x5C]))"

definition normalize_probe_folder :: "string \<Rightarrow> go_error + string" where
  "normalize_probe_folder raw =
     (let folder = trim_space raw
      in if contains_any folder [CHR 0x0D, CHR 0x0A]
         then Inl (Keyed ''validation.mailbox.folderInvalid'' ''probe_imap_folder is not a valid folder name'')
         else Inr (if folder = '''' then ''INBOX'' else folder))"

text \<open>
  \<^verbatim>\<open>minProbeSendGap\<close> on normalized times; an entry that is no HH:MM is skipped as
  \<^verbatim>\<open>fmt.Sscanf\<close> would.
\<close>

definition time_minutes :: "string list \<Rightarrow> int list" where
  "time_minutes ts = concat (map (\<lambda>t. case clock_of t of Some (h, m) \<Rightarrow> [h * 60 + m] | None \<Rightarrow> []) ts)"

fun min_gap :: "int list \<Rightarrow> int \<Rightarrow> int" where
  "min_gap (a # b # ms) gap = min_gap (b # ms) (min gap (b - a))"
| "min_gap ms gap = gap"

definition min_probe_send_gap :: "string list \<Rightarrow> int option" where
  "min_probe_send_gap ts =
     (let ms = sort (time_minutes ts)
      in if ms = [] then None else Some (min_gap ms (24 * 60 - last ms + hd ms)))"

definition validate_probe_send_times :: "string list \<Rightarrow> go_error option" where
  "validate_probe_send_times ts =
     (if max_probe_send_times < length ts
      then Some (Keyed ''validation.probe.sendTimesTooMany'' (''at most '' @ nat_digits max_probe_send_times @ '' probe send times''))
      else case min_probe_send_gap ts of
          Some gap \<Rightarrow> if gap < min_probe_send_gap_minutes
            then Some (Keyed ''validation.probe.sendTimesTooClose''
                   (''the probe send times must be at least '' @ itoa min_probe_send_gap_minutes @ '' minutes apart''))
            else None
        | None \<Rightarrow> None)"

text \<open>
  \<^verbatim>\<open>strings.EqualFold\<close> with the foldings that reach ASCII letters (the Kelvin sign
  and the long s).
\<close>

fun fold_text :: "string \<Rightarrow> string" where
  "fold_text [] = []"
| "fold_text (c # cs) =
     (if (of_char c :: nat) = 0xC5 \<and> cs \<noteq> [] \<and> (of_char (hd cs) :: nat) = 0xBF then CHR ''s'' # fold_text (tl cs)
      else if (of_char c :: nat) = 0xE2 \<and> 2 \<le> length cs \<and> (of_char (cs ! 0) :: nat) = 0x84 \<and> (of_char (cs ! 1) :: nat) = 0xAA
        then CHR ''k'' # fold_text (drop 2 cs)
      else lower_char c # fold_text cs)"

definition equal_fold :: "string \<Rightarrow> string \<Rightarrow> bool" where
  "equal_fold a b \<longleftrightarrow> fold_text a = fold_text b"

definition probe_connection_changed :: "probe_conn \<Rightarrow> probe_conn \<Rightarrow> bool" where
  "probe_connection_changed a b \<longleftrightarrow> \<not> equal_fold (cn_host a) (cn_host b) \<or> cn_port a \<noteq> cn_port b
     \<or> cn_security a \<noteq> cn_security b \<or> cn_username a \<noteq> cn_username b"

definition probe_failure_run_reset :: "setting_write list" where
  "probe_failure_run_reset = [setting_write_of setting_probe_check_failures '''' True,
     setting_write_of setting_probe_failing_since '''' True, setting_write_of setting_probe_unreadable_at '''' True,
     setting_write_of setting_probe_last_check_error '''' True]"

text \<open>
  The fields of a change in the code's order: each checks its value, changes the
  settings that will hold and adds its write.
\<close>

definition step :: "'a option \<Rightarrow> ('a \<Rightarrow> 'st \<Rightarrow> go_error + 'st) \<Rightarrow> go_error + 'st \<Rightarrow> go_error + 'st" where
  "step v f r = (case r of Inl e \<Rightarrow> Inl e | Inr st \<Rightarrow> (case v of None \<Rightarrow> Inr st | Some x \<Rightarrow> f x st))"

type_synonym probe_change = "probe_settings \<times> setting_write list"

definition conn_step :: "(probe_conn \<Rightarrow> probe_conn) \<Rightarrow> string \<Rightarrow> string \<Rightarrow> bool \<Rightarrow> probe_change \<Rightarrow> probe_change" where
  "conn_step f key v d st = (case st of (next, ws) \<Rightarrow>
     (next\<lparr>ps_conn := f (ps_conn next)\<rparr>, ws @ [setting_write_of key v d]))"

definition probe_address_step :: "string \<Rightarrow> probe_change \<Rightarrow> go_error + probe_change" where
  "probe_address_step raw st =
     (case normalize_email raw of
        Inl _ \<Rightarrow> Inl err_probe_address
      | Inr a \<Rightarrow> Inr ((fst st)\<lparr>ps_address := a\<rparr>, snd st @ [setting_write_of setting_probe_address a (a = '''')]))"

definition probe_host_step :: "string \<Rightarrow> probe_change \<Rightarrow> go_error + probe_change" where
  "probe_host_step raw st =
     (let host = trim_space raw
      in if host \<noteq> '''' \<and> \<not> valid_imap_host host
         then Inl (Keyed ''validation.connection.hostInvalid'' ''probe_imap_host is not a valid host name'')
         else Inr (conn_step (\<lambda>c. c\<lparr>cn_host := host\<rparr>) setting_probe_imap_host host (host = '''') st))"

definition probe_port_step :: "int \<Rightarrow> probe_change \<Rightarrow> go_error + probe_change" where
  "probe_port_step n st =
     (if n < 1 \<or> 65535 < n then Inl err_probe_port
      else Inr (conn_step (\<lambda>c. c\<lparr>cn_port := n\<rparr>) setting_probe_imap_port (itoa n) (n = default_imap_port) st))"

definition probe_security_step :: "string \<Rightarrow> probe_change \<Rightarrow> go_error + probe_change" where
  "probe_security_step raw st =
     (let sec = normal_security security_ssl raw
      in case validate_smtp_security sec of
           Some e \<Rightarrow> Inl e
         | None \<Rightarrow> Inr (conn_step (\<lambda>c. c\<lparr>cn_security := sec\<rparr>) setting_probe_imap_security sec (sec = security_ssl) st))"

definition probe_username_step :: "string \<Rightarrow> probe_change \<Rightarrow> go_error + probe_change" where
  "probe_username_step raw st =
     (let name = trim_space raw
      in Inr (conn_step (\<lambda>c. c\<lparr>cn_username := name\<rparr>) setting_probe_imap_username name (name = '''') st))"

definition probe_folder_step :: "string \<Rightarrow> probe_change \<Rightarrow> go_error + probe_change" where
  "probe_folder_step raw st =
     (case normalize_probe_folder raw of
        Inl e \<Rightarrow> Inl e
      | Inr folder \<Rightarrow> Inr (conn_step (\<lambda>c. c) setting_probe_imap_folder folder (folder = ''INBOX'') st))"

definition probe_clear_step :: "probe_input \<Rightarrow> probe_change \<Rightarrow> go_error + probe_change" where
  "probe_clear_step inp st =
     (if pr_clear_password inp \<and> \<not> password_given (pr_password inp)
      then Inr ((fst st)\<lparr>ps_password_set := False\<rparr>, snd st @ [setting_write_of setting_probe_imap_password '''' True])
      else Inr st)"

definition probe_password_step :: "gcm \<Rightarrow> string \<Rightarrow> string option \<Rightarrow> string \<Rightarrow> probe_change \<Rightarrow> go_error + probe_change" where
  "probe_password_step g nonce key pw st =
     (if pw = '''' then Inr st
      else case key of
          None \<Rightarrow> Inl (Plain ''the master key is required to store the probe IMAP password'')
        | Some k \<Rightarrow> (case encrypt_secret g nonce k pw of
             Inl e \<Rightarrow> Inl e
           | Inr enc \<Rightarrow> Inr ((fst st)\<lparr>ps_password_set := True\<rparr>,
                            snd st @ [setting_write_of setting_probe_imap_password enc False])))"

definition probe_tag_step :: "string \<Rightarrow> probe_change \<Rightarrow> go_error + probe_change" where
  "probe_tag_step raw st =
     (let tag = trim_space raw
      in case validate_probe_subject_tag tag of
           Some e \<Rightarrow> Inl e
         | None \<Rightarrow> Inr (fst st, snd st @ [setting_write_of setting_probe_subject_tag tag (tag = default_probe_subject_tag)]))"

definition probe_times_step :: "string list \<Rightarrow> probe_change \<Rightarrow> go_error + probe_change" where
  "probe_times_step inputs st =
     (case parse_check_times inputs of
        Inl e \<Rightarrow> Inl e
      | Inr ts \<Rightarrow>
          (case validate_probe_send_times ts of
             Some e \<Rightarrow> Inl e
           | None \<Rightarrow> let v = join '','' ts
               in Inr ((fst st)\<lparr>ps_send_times := ts\<rparr>,
                       snd st @ [setting_write_of setting_probe_send_times v (v = default_probe_send_times)])))"

definition probe_delay_step :: "int \<Rightarrow> probe_change \<Rightarrow> go_error + probe_change" where
  "probe_delay_step n st =
     (case validate_probe_minutes n of
        Some e \<Rightarrow> Inl e
      | None \<Rightarrow> Inr ((fst st)\<lparr>ps_delay_minutes := n\<rparr>,
          snd st @ [setting_write_of setting_probe_delay_minutes (itoa n) (n = default_probe_delay_minutes)]))"

definition probe_failure_step :: "int \<Rightarrow> probe_change \<Rightarrow> go_error + probe_change" where
  "probe_failure_step n st =
     (case validate_probe_minutes n of
        Some e \<Rightarrow> Inl e
      | None \<Rightarrow> Inr ((fst st)\<lparr>ps_failure_minutes := n\<rparr>,
          snd st @ [setting_write_of setting_probe_failure_minutes (itoa n) (n = default_probe_failure_minutes)]))"

definition probe_fields :: "gcm \<Rightarrow> string \<Rightarrow> string option \<Rightarrow> probe_settings \<Rightarrow> probe_input \<Rightarrow> go_error + probe_change" where
  "probe_fields g nonce key saved inp =
     (step (pr_failure_minutes inp) probe_failure_step
     (step (pr_delay_minutes inp) probe_delay_step
     (step (pr_send_times inp) probe_times_step
     (step (pr_subject_tag inp) probe_tag_step
     (step (pr_password inp) (probe_password_step g nonce key)
     (step (Some inp) probe_clear_step
     (step (pr_folder inp) probe_folder_step
     (step (pr_username inp) probe_username_step
     (step (pr_security inp) probe_security_step
     (step (pr_port inp) probe_port_step
     (step (pr_host inp) probe_host_step
     (step (pr_address inp) probe_address_step
       (Inr (saved, []))))))))))))))"

text \<open>The checks of the combination and the writes of the switch and of a run that ends.\<close>

definition probe_combination :: "probe_settings \<Rightarrow> probe_input \<Rightarrow> probe_change \<Rightarrow> go_error + setting_write list" where
  "probe_combination saved inp st =
     (let next = fst st; given_pw = password_given (pr_password inp);
          enabled = (case pr_enabled inp of None \<Rightarrow> ps_enabled saved | Some b \<Rightarrow> b);
          folder_changed = (case pr_folder inp of None \<Rightarrow> False
             | Some raw \<Rightarrow> (case normalize_probe_folder raw of Inr f \<Rightarrow> f | Inl _ \<Rightarrow> '''') \<noteq> cn_folder (ps_conn saved));
          gap_bad = ((pr_send_times inp \<noteq> None \<or> pr_delay_minutes inp \<noteq> None)
             \<and> (case min_probe_send_gap (ps_send_times next) of Some gap \<Rightarrow> gap \<le> ps_delay_minutes next | None \<Rightarrow> False))
      in if ps_failure_minutes next \<le> ps_delay_minutes next
         then Inl (Keyed ''validation.probe.failureNotAfterDelay''
                ''probe_failure_minutes must be longer than probe_delay_minutes'')
         else if gap_bad
         then Inl (Keyed ''validation.probe.delayNotBeforeNextSend''
                (''probe_delay_minutes must be shorter than the shortest gap between the send times (''
                 @ itoa (the (min_probe_send_gap (ps_send_times next))) @ '' minutes)''))
         else if \<not> given_pw \<and> ps_password_set saved \<and> probe_connection_changed (ps_conn saved) (ps_conn next)
         then Inl err_probe_password_required
         else if pr_enabled inp = Some True \<and> \<not> probe_configured next then Inl err_probe_not_configured
         else if enabled \<and> pr_enabled inp = None \<and> \<not> probe_configured next then Inl err_probe_off_first
         else Inr (snd st
           @ (case pr_enabled inp of None \<Rightarrow> [] | Some b \<Rightarrow> [setting_write_of setting_probe_enabled ''1'' (\<not> b)])
           @ (if enabled \<noteq> ps_enabled saved \<or> probe_connection_changed (ps_conn saved) (ps_conn next) \<or> given_pw
                 \<or> pr_clear_password inp \<or> folder_changed
              then probe_failure_run_reset else [])))"

definition upd_probe :: "gcm \<Rightarrow> string \<Rightarrow> string option \<Rightarrow> probe_input \<Rightarrow> setting_write list \<Rightarrow> setting_write list act" where
  "upd_probe g nonce key inp u =
     act_bind (resolve_probe_settings g None) (\<lambda>saved.
     act_bind (act_of (probe_fields g nonce key saved inp)) (\<lambda>st.
     act_bind (act_of (probe_combination saved inp st)) (\<lambda>ws. act_return (u @ ws))))"

text \<open>Closing is best effort: a failure is only logged.\<close>

definition close_open_probes :: "time \<Rightarrow> int \<Rightarrow> store \<Rightarrow> store" where
  "close_open_probes now mb s = snd (close_open_probe_mails now mb reason_probe_disabled now s)"

definition save_probe_settings :: "gcm \<Rightarrow> string \<Rightarrow> string option \<Rightarrow> time \<Rightarrow> probe_input \<Rightarrow> unit act" where
  "save_probe_settings g nonce key now inp =
     act_bind (update_settings (\<lambda>u. act_bind (upd_probe g nonce key inp u) (\<lambda>u'. act_return (u', ())))) (\<lambda>_ s.
       if pr_enabled inp = Some False then (Inr (), close_open_probes now 0 s) else (Inr (), s))"

definition probe_participates :: "mailbox \<Rightarrow> bool" where
  "probe_participates m \<longleftrightarrow> mb_enabled m \<and> mb_probe_enabled m \<and> trim_space (mb_smtp_host m) \<noteq> ''''"

fun close_idle :: "time \<Rightarrow> mailbox list \<Rightarrow> store \<Rightarrow> store" where
  "close_idle now [] s = s"
| "close_idle now (m # ms) s =
     close_idle now ms (if probe_participates m then s else close_open_probes now (mb_id m) s)"

definition close_stale_open_probes :: "gcm \<Rightarrow> time \<Rightarrow> store \<Rightarrow> store" where
  "close_stale_open_probes g now s =
     (case resolve_probe_settings g None s of (r, s1) \<Rightarrow>
        (case r of
           Inr ps \<Rightarrow> if \<not> ps_enabled ps then close_open_probes now 0 s1
                     else (case list_mailboxes s1 of (Inl _, s2) \<Rightarrow> s2 | (Inr ms, s2) \<Rightarrow> close_idle now ms s2)
         | Inl _ \<Rightarrow> (case list_mailboxes s1 of (Inl _, s2) \<Rightarrow> s2 | (Inr ms, s2) \<Rightarrow> close_idle now ms s2)))"

end
