(* ===== verification/Probe_Check.thy ===== *)
theory Probe_Check
  imports Probe
begin

text \<open>
  The arrival check of the delivery probe (modules/probe.go): when the checks
  run, what a check makes of a mail, what the messages on the probe server mean,
  and how the outcome is recorded. The messages found come from the IMAP code and
  are arguments. The lemmas give the schedule of the checks and the state machine
  of a probe mail.
\<close>

section \<open>When the checks run\<close>

text \<open>\<open>last_send\<close> is None when no send is recorded.\<close>

definition next_probe_check_at :: "time option \<Rightarrow> time \<Rightarrow> int \<Rightarrow> int \<Rightarrow> time" where
  "next_probe_check_at last_send checked_at delay failure0 =
     (let failure = (if failure0 \<le> 0 then default_probe_failure_minutes * minute else failure0)
      in case last_send of
           None \<Rightarrow> checked_at + failure
         | Some ls \<Rightarrow>
             (let elapsed = max (checked_at - ls) 0
              in if 0 < delay \<and> delay < failure \<and> (elapsed div delay + 1) * delay < failure
                 then ls + (elapsed div delay + 1) * delay
                 else if elapsed < failure then ls + failure
                 else ls + (elapsed div failure + 1) * failure))"

fun first_moment :: "time \<Rightarrow> time list \<Rightarrow> time option \<Rightarrow> time option" where
  "first_moment now [] first = first"
| "first_moment now (m # ms) first =
     first_moment now ms (if now < m \<and> (case first of None \<Rightarrow> True | Some f \<Rightarrow> m < f) then Some m else first)"

fun coalesce :: "time \<Rightarrow> time list \<Rightarrow> time \<Rightarrow> time" where
  "coalesce first [] at_time = at_time"
| "coalesce first (m # ms) at_time =
     coalesce first ms (if at_time < m \<and> m - first \<le> probe_check_coalesce then m else at_time)"

definition probe_level_check_at :: "time \<Rightarrow> time list \<Rightarrow> time \<Rightarrow> time" where
  "probe_level_check_at next moments now =
     (case first_moment now moments None of
        None \<Rightarrow> next
      | Some first \<Rightarrow>
          if \<not> first < next then next
          else let at_time = coalesce first moments first
               in if at_time < next \<and> next - first \<le> probe_check_coalesce then next else at_time)"

fun double_below :: "nat \<Rightarrow> int \<Rightarrow> int \<Rightarrow> int" where
  "double_below 0 d limit = d"
| "double_below (Suc n) d limit = (if d < limit then double_below n (d * 2) limit else d)"

definition probe_retry_after :: "int \<Rightarrow> int \<Rightarrow> int" where
  "probe_retry_after failures failure =
     (let limit = max failure probe_check_retry_interval
      in min (double_below (nat (failures - 1)) probe_check_retry_interval limit) limit)"

section \<open>What a check makes of a mail\<close>

definition probe_level_for :: "int \<Rightarrow> int \<Rightarrow> int \<Rightarrow> string" where
  "probe_level_for elapsed delay failure =
     (if failure \<le> elapsed then level_failure else if delay \<le> elapsed then level_delayed else level_none)"

definition level_rank :: "string \<Rightarrow> nat" where
  "level_rank l = (if l = level_failure then 2 else if l = level_delayed then 1 else 0)"

definition worse_probe_level :: "string \<Rightarrow> string \<Rightarrow> string" where
  "worse_probe_level a b = (if level_rank a < level_rank b then b else a)"

text \<open>\<^verbatim>\<open>ApplyProbeCheck\<close>; no arrival is None.\<close>

definition apply_probe_check :: "probe_mail \<Rightarrow> time option \<Rightarrow> time \<Rightarrow> int \<Rightarrow> int \<Rightarrow> string \<times> probe_mail" where
  "apply_probe_check p0 arrived now delay failure =
     (let p = p0\<lparr>p_last_checked_at := Some now\<rparr>
      in case arrived of
           Some t \<Rightarrow>
             (let took = max (t - p_sent_at p) 0;
                  level = worse_probe_level (p_level p) (probe_level_for took delay failure)
              in ('''', p\<lparr>p_delay_seconds := took div nanos_per_second, p_arrived_at := Some t, p_level := level,
                         p_status := (if level = level_none then probe_arrived else probe_recovered)\<rparr>))
         | None \<Rightarrow>
             (let elapsed = max (now - p_sent_at p) 0;
                  level = worse_probe_level (p_level p) (probe_level_for elapsed delay failure)
              in (if level \<noteq> p_level p0 then level else '''',
                  p\<lparr>p_delay_seconds := elapsed div nanos_per_second, p_level := level,
                    p_status := (if level = level_failure then probe_failure
                                 else if level = level_delayed then probe_delayed else probe_pending)\<rparr>)))"

definition format_probe_delay :: "int \<Rightarrow> string" where
  "format_probe_delay seconds =
     (let m = seconds div 60
      in if m < 60 then itoa m @ ''m'' else itoa (m div 60) @ ''h'' @ pad_digits 2 (m mod 60) @ ''m'')"

section \<open>The messages on the probe server\<close>

text \<open>\<^verbatim>\<open>mailengine.ProbeMessage\<close>; an unknown arrival time is None.\<close>

record probe_message =
  pm_uid :: nat
  pm_token :: string
  pm_identifier :: string
  pm_from :: string
  pm_received_at :: "time option"

record probe_sort =
  so_arrivals :: "(string \<times> time) list"
  so_remove :: "nat list"
  so_verified :: "(nat \<times> string) list"
  so_unrecorded :: "nat list"
  so_mismatched :: "(string \<times> string) list"

definition empty_sort :: probe_sort where
  "empty_sort = \<lparr>so_arrivals = [], so_remove = [], so_verified = [], so_unrecorded = [], so_mismatched = []\<rparr>"

definition is_verified :: "(string \<rightharpoonup> probe_mail) \<Rightarrow> probe_message \<Rightarrow> bool" where
  "is_verified recorded m \<longleftrightarrow> (case recorded (pm_token m) of None \<Rightarrow> False | Some p \<Rightarrow> equal_fold (p_address p) (pm_from m))"

definition is_leftover :: "(string \<rightharpoonup> probe_mail) \<Rightarrow> string \<Rightarrow> time \<Rightarrow> probe_message \<Rightarrow> bool" where
  "is_leftover recorded tag now m \<longleftrightarrow> pm_identifier m = tag
     \<and> (case pm_received_at m of None \<Rightarrow> False | Some t \<Rightarrow> probe_leftover_min_age \<le> now - t)
     \<and> (case recorded (pm_token m) of None \<Rightarrow> True | Some p \<Rightarrow> \<not> probe_status_open (p_status p))"

definition sort_message :: "(string \<rightharpoonup> probe_mail) \<Rightarrow> string \<Rightarrow> time \<Rightarrow> probe_message \<Rightarrow> probe_sort \<Rightarrow> probe_sort" where
  "sort_message recorded tag now m out =
     (if is_verified recorded m then
        (let at_time = (case pm_received_at m of None \<Rightarrow> now | Some t \<Rightarrow> t);
             arr = (case map_of (so_arrivals out) (pm_token m) of
                      Some prev \<Rightarrow> if at_time < prev then AList.update (pm_token m) at_time (so_arrivals out) else so_arrivals out
                    | None \<Rightarrow> AList.update (pm_token m) at_time (so_arrivals out))
         in out\<lparr>so_arrivals := arr, so_remove := List.insert (pm_uid m) (so_remove out),
                so_verified := AList.update (pm_uid m) (pm_token m) (so_verified out)\<rparr>)
      else
        (let out1 = (if recorded (pm_token m) \<noteq> None
                     then out\<lparr>so_mismatched := AList.update (pm_token m) (pm_from m) (so_mismatched out)\<rparr> else out)
         in if is_leftover recorded tag now m
            then out1\<lparr>so_remove := List.insert (pm_uid m) (so_remove out1),
                      so_unrecorded := List.insert (pm_uid m) (so_unrecorded out1)\<rparr>
            else out1))"

definition sort_probe_messages :: "probe_message list \<Rightarrow> (string \<rightharpoonup> probe_mail) \<Rightarrow> string \<Rightarrow> time \<Rightarrow> probe_sort" where
  "sort_probe_messages found recorded tag now =
     (let out = foldl (\<lambda>out m. sort_message recorded tag now m out) empty_sort found
      in out\<lparr>so_mismatched := filter (\<lambda>(token, _). token \<notin> fst ` set (so_arrivals out)) (so_mismatched out)\<rparr>)"

text \<open>\<^verbatim>\<open>deletedOf\<close>: \<open>left\<close> counts the verified copies of a token that are still there.\<close>

fun deleted_loop :: "probe_sort \<Rightarrow> probe_message list \<Rightarrow> (string \<Rightarrow> int) \<Rightarrow> string list \<Rightarrow> nat \<Rightarrow> string list \<times> nat" where
  "deleted_loop s [] left gone n = (gone, n)"
| "deleted_loop s (m # ms) left gone n =
     (let n' = (if pm_uid m \<in> set (so_unrecorded s) then n + 1 else n)
      in case map_of (so_verified s) (pm_uid m) of
           None \<Rightarrow> deleted_loop s ms left gone n'
         | Some token \<Rightarrow>
             (let left' = left(token := left token - 1)
              in deleted_loop s ms left' (if left' token = 0 then gone @ [token] else gone) n'))"

definition deleted_of :: "probe_sort \<Rightarrow> probe_message list \<Rightarrow> string list \<times> nat" where
  "deleted_of s deleted =
     deleted_loop s deleted (\<lambda>token. int (length (filter (\<lambda>(_, t). t = token) (so_verified s)))) [] 0"

definition probe_sender_mismatch :: "string \<Rightarrow> string \<Rightarrow> string" where
  "probe_sender_mismatch recorded found =
     ''token matched, sender differs ('' @ recorded @ '' vs '' @ (if found = '''' then ''(none)'' else found) @ '')''"

section \<open>Recording what a check found\<close>

record check_result =
  cr_skipped :: string
  cr_checked :: int
  cr_arrived :: int
  cr_recovered :: int
  cr_delayed :: int
  cr_failed :: int
  cr_missing :: int
  cr_deleted :: int
  cr_mismatched :: int
  cr_unrecorded :: int
  cr_delete_error :: string
  cr_next_at :: "time option"
  cr_level_ats :: "time list"

definition empty_result :: check_result where
  "empty_result = \<lparr>cr_skipped = '''', cr_checked = 0, cr_arrived = 0, cr_recovered = 0, cr_delayed = 0, cr_failed = 0,
     cr_missing = 0, cr_deleted = 0, cr_mismatched = 0, cr_unrecorded = 0, cr_delete_error = '''', cr_next_at = None,
     cr_level_ats = []\<rparr>"

text \<open>A waiting mail, with what the server showed of its token.\<close>

definition waiting_error :: "probe_sort \<Rightarrow> probe_mail \<Rightarrow> probe_mail" where
  "waiting_error srt p =
     (if map_of (so_arrivals srt) (p_token p) \<noteq> None then p\<lparr>p_error_message := ''''\<rparr>
      else case map_of (so_mismatched srt) (p_token p) of
          Some found \<Rightarrow> p\<lparr>p_error_message := probe_sender_mismatch (p_address p) found\<rparr>
        | None \<Rightarrow> p)"

definition count_waiting :: "probe_settings \<Rightarrow> string \<Rightarrow> probe_mail \<Rightarrow> check_result \<Rightarrow> check_result" where
  "count_waiting ps new_level p res =
     (if p_status p = probe_arrived then res\<lparr>cr_arrived := cr_arrived res + 1\<rparr>
      else if p_status p = probe_recovered then res\<lparr>cr_recovered := cr_recovered res + 1\<rparr>
      else
        (let r1 = res\<lparr>cr_missing := cr_missing res + 1\<rparr>;
             r2 = (if new_level = level_failure then r1\<lparr>cr_failed := cr_failed r1 + 1\<rparr>
                   else if new_level = level_delayed then r1\<lparr>cr_delayed := cr_delayed r1 + 1\<rparr> else r1)
         in if p_level p = level_none then r2\<lparr>cr_level_ats := cr_level_ats r2 @ [p_sent_at p + probe_delay ps]\<rparr>
            else if p_level p = level_delayed then r2\<lparr>cr_level_ats := cr_level_ats r2 @ [p_sent_at p + probe_failure_time ps]\<rparr>
            else r2))"

fun record_waiting :: "probe_sort \<Rightarrow> time \<Rightarrow> probe_settings \<Rightarrow> probe_mail list \<Rightarrow> check_result \<Rightarrow> check_result act" where
  "record_waiting srt now ps [] res = act_return res"
| "record_waiting srt now ps (p0 # rest) res =
     (case apply_probe_check (waiting_error srt p0) (map_of (so_arrivals srt) (p_token p0)) now
             (probe_delay ps) (probe_failure_time ps) of
        (new_level, p) \<Rightarrow>
          act_bind (update_probe_mail_check now p) (\<lambda>updated.
            record_waiting srt now ps rest
              (if updated then count_waiting ps new_level p res else res\<lparr>cr_checked := cr_checked res - 1\<rparr>)))"

fun record_refused :: "(string \<rightharpoonup> probe_mail) \<Rightarrow> time \<Rightarrow> probe_settings \<Rightarrow> (string \<times> time) list \<Rightarrow> check_result \<Rightarrow> check_result act" where
  "record_refused recorded now ps [] res = act_return res"
| "record_refused recorded now ps ((token, t) # rest) res =
     (case recorded token of
        None \<Rightarrow> record_refused recorded now ps rest res
      | Some p0 \<Rightarrow>
          if p_status p0 \<noteq> probe_send_failed then record_refused recorded now ps rest res
          else act_bind (update_probe_mail_check now (snd (apply_probe_check p0 (Some t) now (probe_delay ps) (probe_failure_time ps))))
                 (\<lambda>updated. record_refused recorded now ps rest
                    (if updated then res\<lparr>cr_recovered := cr_recovered res + 1\<rparr> else res)))"

definition open_mismatches :: "(string \<rightharpoonup> probe_mail) \<Rightarrow> probe_sort \<Rightarrow> int" where
  "open_mismatches recorded srt =
     int (length (filter (\<lambda>(token, _). case recorded token of None \<Rightarrow> False | Some p \<Rightarrow> probe_status_open (p_status p))
       (so_mismatched srt)))"

definition record_probe_arrivals :: "probe_mail list \<Rightarrow> (string \<rightharpoonup> probe_mail) \<Rightarrow> probe_sort \<Rightarrow> time \<Rightarrow> probe_settings
    \<Rightarrow> check_result \<Rightarrow> check_result act" where
  "record_probe_arrivals waiting recorded srt now ps res =
     transaction
       (act_bind (record_waiting srt now ps waiting
            (res\<lparr>cr_mismatched := cr_mismatched res + open_mismatches recorded srt\<rparr>))
          (record_refused recorded now ps (so_arrivals srt)))"

text \<open>\<^verbatim>\<open>probeSettingsMoved\<close>.\<close>

definition probe_settings_moved :: "probe_settings \<Rightarrow> probe_settings \<Rightarrow> bool" where
  "probe_settings_moved a b \<longleftrightarrow> ps_enabled a \<noteq> ps_enabled b \<or> probe_connection_changed (ps_conn a) (ps_conn b)
     \<or> cn_folder (ps_conn a) \<noteq> cn_folder (ps_conn b) \<or> ps_password_enc a \<noteq> ps_password_enc b
     \<or> ps_check_failures a \<noteq> ps_check_failures b"

text \<open>
  \<^verbatim>\<open>recordProbeCheck\<close>: how the check ended, the check that is next, and the writes.
  \<open>mailed\<close> tells whether the mail about an unreadable server reached someone.
\<close>

datatype check_end = CheckOk | Canceled | ServerFailed string | OtherError string

definition check_failures :: "probe_settings option \<Rightarrow> int" where
  "check_failures ps = (case ps of None \<Rightarrow> 1 | Some s \<Rightarrow> ps_check_failures s + 1)"

definition check_failing_since :: "probe_settings option \<Rightarrow> time \<Rightarrow> time" where
  "check_failing_since ps now =
     (case ps of None \<Rightarrow> now | Some s \<Rightarrow> (case ps_failing_since s of None \<Rightarrow> now | Some t \<Rightarrow> t))"

definition next_after_check :: "probe_settings option \<Rightarrow> check_end \<Rightarrow> time \<Rightarrow> time option \<Rightarrow> time option" where
  "next_after_check ps outcome now next =
     (case outcome of
        CheckOk \<Rightarrow> next
      | Canceled \<Rightarrow> Some (now + probe_check_retry_interval)
      | ServerFailed _ \<Rightarrow> Some (now + probe_retry_after (check_failures ps)
            (case ps of None \<Rightarrow> 0 | Some s \<Rightarrow> probe_failure_time s))
      | OtherError _ \<Rightarrow> Some (now + probe_check_retry_interval))"

definition mails_unreadable :: "probe_settings \<Rightarrow> time \<Rightarrow> bool" where
  "mails_unreadable s now \<longleftrightarrow> probe_configured s \<and> ps_unreadable_at s = None
     \<and> probe_failure_time s \<le> now - check_failing_since (Some s) now"

definition run_writes :: "probe_settings option \<Rightarrow> check_end \<Rightarrow> string \<Rightarrow> time \<Rightarrow> bool \<Rightarrow> setting_write list \<Rightarrow> setting_write list" where
  "run_writes ps outcome skipped now mailed u =
     (case outcome of
        Canceled \<Rightarrow> u
      | ServerFailed msg \<Rightarrow>
          (let u1 = upd_time setting_probe_failing_since (Some (check_failing_since ps now))
                     (upd_set setting_probe_check_failures (itoa (check_failures ps)) False
                       (upd_set setting_probe_last_check_error msg False
                         (upd_time setting_probe_last_check_at (Some now) u)))
           in if mailed then upd_time setting_probe_unreadable_at (Some now) u1 else u1)
      | OtherError msg \<Rightarrow> upd_set setting_probe_last_check_error msg False u
      | CheckOk \<Rightarrow>
          if skipped \<noteq> '''' then u @ probe_failure_run_reset
          else upd_time setting_probe_last_check_at (Some now) u @ probe_failure_run_reset)"

definition counts_in_run :: "check_end \<Rightarrow> bool" where
  "counts_in_run outcome = (case outcome of ServerFailed _ \<Rightarrow> True | CheckOk \<Rightarrow> True | _ \<Rightarrow> False)"

definition record_probe_check :: "gcm \<Rightarrow> probe_settings option \<Rightarrow> check_end \<Rightarrow> check_result \<Rightarrow> time \<Rightarrow> bool \<Rightarrow> store \<Rightarrow> store" where
  "record_probe_check g ps outcome res now delivered s =
     (let next = next_after_check ps outcome now (cr_next_at res);
          mailed = (delivered \<and> (case ps of None \<Rightarrow> False | Some p \<Rightarrow> mails_unreadable p now))
      in snd (update_settings (\<lambda>u.
           let u1 = upd_time setting_probe_next_check_at next u;
               u2 = (if outcome = CheckOk \<and> cr_skipped res = ''''
                     then upd_set setting_probe_wide_sweep_at '''' True
                       (upd_set setting_probe_last_delete_error (cr_delete_error res) (cr_delete_error res = '''') u1)
                     else u1)
           in if ps \<noteq> None \<and> counts_in_run outcome
              then act_try (resolve_probe_settings g None) (\<lambda>r. case r of
                     Inl _ \<Rightarrow> act_return (u2, ())
                   | Inr cur \<Rightarrow> act_return (if probe_settings_moved (the ps) cur then u2
                                            else run_writes ps outcome (cr_skipped res) now mailed u2, ()))
              else act_return (run_writes ps outcome (cr_skipped res) now mailed u2, ())) s))"

section \<open>By hand and by the scheduler\<close>

definition skip_probe_no_mailbox :: string where "skip_probe_no_mailbox = ''no enabled mailbox has the send check on''"
definition skip_probe_nothing :: string where "skip_probe_nothing = ''no probe mail is waiting''"

definition err_probe_disabled :: go_error where
  "err_probe_disabled = Keyed ''result.probe.disabled'' ''the delivery probe is off''"
definition err_probe_no_mailbox :: go_error where
  "err_probe_no_mailbox = Keyed ''result.probe.noMailbox'' skip_probe_no_mailbox"
definition err_probe_nothing_open :: go_error where
  "err_probe_nothing_open = Keyed ''result.probe.nothingOpen'' skip_probe_nothing"

definition probe_participant_count :: "nat act" where
  "probe_participant_count = act_bind list_mailboxes (\<lambda>ms. act_return (length (filter probe_participates ms)))"

definition probe_job_refusal :: "gcm \<Rightarrow> string \<Rightarrow> unit act" where
  "probe_job_refusal g kind =
     (if kind \<noteq> job_probe_send \<and> kind \<noteq> job_probe_check then act_return ()
      else act_bind (resolve_probe_settings g None) (\<lambda>ps.
        if \<not> ps_enabled ps then act_fail err_probe_disabled
        else if \<not> probe_configured ps then act_fail err_probe_not_configured
        else if kind = job_probe_send
          then act_bind probe_participant_count (\<lambda>n. if n = 0 then act_fail err_probe_no_mailbox else act_return ())
        else act_bind count_open_probe_mails (\<lambda>n. if n = 0 then act_fail err_probe_nothing_open else act_return ())))"

definition clear_probe_check :: "unit act" where
  "clear_probe_check =
     update_settings (\<lambda>u. act_return (upd_time setting_probe_next_check_at None u @ probe_failure_run_reset, ()))"

definition resolve_probe :: "time \<Rightarrow> int \<Rightarrow> string \<Rightarrow> string \<Rightarrow> string \<Rightarrow> probe_mail act" where
  "resolve_probe now i by_user reason note =
     act_try (get_probe_mail i) (\<lambda>r. case r of
        Inl NoRows \<Rightarrow> act_fail (Keyed ''system.notFound'' ''probe mail not found'')
      | Inl e \<Rightarrow> act_fail e
      | Inr p \<Rightarrow>
          if reason \<notin> set probe_resolve_reasons
          then act_fail (Keyed ''validation.probe.reasonRequired'' ''choose why the probe mail is resolved'')
          else act_bind (resolve_probe_mail now (p_id p) by_user reason (trim_space note) now) (\<lambda>ok.
            if ok then get_probe_mail i
            else act_fail (Keyed ''result.probe.notOpen'' ''only a delayed, failed or unsent probe mail can be resolved'')))"

end
