(* ===== verification/Act_Rules.thy ===== *)
theory Act_Rules
  imports Db
begin

text \<open>
  What every run of an action keeps, whatever statements fail. A relation between
  the store before and after that is reflexive and transitive and does not mind
  used-up failures and rollbacks carries over from the statements to everything
  composed of them; the components instantiate it with their invariants.
\<close>

definition act_keeps :: "('s \<Rightarrow> 's \<Rightarrow> bool) \<Rightarrow> ('s, 'a) action \<Rightarrow> bool" where
  "act_keeps R m \<longleftrightarrow> (\<forall>s r t. m s = (r, t) \<longrightarrow> R s t)"

lemma act_keepsD: "act_keeps R m \<Longrightarrow> m s = (r, t) \<Longrightarrow> R s t"
  by (simp add: act_keeps_def)

locale act_relation =
  fixes R :: "'r db_scheme \<Rightarrow> 'r db_scheme \<Rightarrow> bool"
  assumes idle: "R s s"
    and chain: "\<lbrakk> R s t; R t u \<rbrakk> \<Longrightarrow> R s u"
    and consume: "faults s = x # rest \<Longrightarrow> R s (s\<lparr>faults := rest\<rparr>)"
    and rollback: "R s t \<Longrightarrow> R s (s\<lparr>faults := faults t\<rparr>)"
begin

lemma return: "act_keeps R (act_return x)" and fail: "act_keeps R (act_fail e)"
  and of_result: "act_keeps R (act_of z)" and check: "act_keeps R (act_check c)"
  by (auto simp: act_keeps_def act_return_def act_fail_def act_of_def act_check_def idle split: sum.splits option.splits)

lemma bind: "act_keeps R m \<Longrightarrow> (\<And>x. act_keeps R (f x)) \<Longrightarrow> act_keeps R (act_bind m f)"
  unfolding act_keeps_def act_bind_def by (fastforce split: prod.splits sum.splits intro: chain)

lemma try_rule: "act_keeps R m \<Longrightarrow> (\<And>r. act_keeps R (f r)) \<Longrightarrow> act_keeps R (act_try m f)"
  unfolding act_keeps_def act_try_def Let_def by (fastforce split: prod.splits intro: chain)

lemma stmt_rule: "(\<And>s. R s (snd (f s))) \<Longrightarrow> act_keeps R (stmt f)"
  unfolding act_keeps_def stmt_def
  by (auto split: list.splits option.splits prod.splits simp: Let_def intro: consume)
     (metis snd_conv, metis consume snd_conv chain)

lemma query: "act_keeps R (query f)"
  unfolding query_def by (rule stmt_rule) (simp add: idle)

lemma query_row: "act_keeps R (query_row g)"
  unfolding query_row_def by (intro bind query) (auto intro: return fail split: option.splits)

lemma exec_rule: "(\<And>s. R s (f s)) \<Longrightarrow> act_keeps R (exec f)"
  unfolding exec_def by (rule stmt_rule) simp

lemma transaction:
  assumes "act_keeps R m"
  shows "act_keeps R (transaction m)"
proof -
  let ?b = "act_bind m (\<lambda>x. act_bind (Db.query (\<lambda>_. ())) (\<lambda>_. act_return x))"
  have b: "act_keeps R ?b" by (intro bind assms query return)
  have "R s t" if t: "Db.transaction m s = (r, t)" for s r t
  proof -
    obtain r1 s1 where q: "Db.query (\<lambda>_. ()) s = (r1, s1)" by fastforce
    obtain r2 s2 where b2: "?b s1 = (r2, s2)" by fastforce
    from q act_keepsD[OF query] have 1: "R s s1" by blast
    from b2 act_keepsD[OF b] have 2: "R s1 s2" by blast
    from t q b2 have "t = s1 \<or> t = s1\<lparr>faults := faults s2\<rparr> \<or> t = s2"
      by (auto simp: transaction_def split: sum.splits)
    then show ?thesis using 1 2 rollback[OF 2] chain by blast
  qed
  then show ?thesis by (simp add: act_keeps_def)
qed

lemmas rules = return fail of_result check bind try_rule query query_row transaction

end

text \<open>Actions that write some settings at most, and use up no failure that was not scheduled.\<close>

definition writes_only :: "string set \<Rightarrow> store \<Rightarrow> store \<Rightarrow> bool" where
  "writes_only K s t \<longleftrightarrow>
     jobs t = jobs s \<and> next_job t = next_job s \<and> mailboxes t = mailboxes s \<and> users t = users s
     \<and> probe_mails t = probe_mails s \<and> (faults s = [] \<longrightarrow> faults t = [])
     \<and> (\<forall>k. k \<notin> K \<longrightarrow> settings t k = settings s k)"

lemma writes_only_relation: "act_relation (writes_only K)"
  by unfold_locales (auto simp: writes_only_def)

interpretation writes_only: act_relation "writes_only K" for K
  by (rule writes_only_relation)

lemma writes_only_more: "writes_only K s t \<Longrightarrow> K \<subseteq> L \<Longrightarrow> writes_only L s t"
  by (auto simp: writes_only_def)

lemma persist_setting_writes: "k \<in> K \<Longrightarrow> act_keeps (writes_only K) (persist_setting k v d)"
  unfolding persist_setting_def delete_setting_def set_setting_def
  by (auto intro!: writes_only.exec_rule simp: writes_only_def)

lemma set_setting_writes: "k \<in> K \<Longrightarrow> act_keeps (writes_only K) (set_setting k v)"
  using persist_setting_writes[of k K v False] by (simp add: persist_setting_def)

lemma persist_writes_writes: "sw_key ` set ws \<subseteq> K \<Longrightarrow> act_keeps (writes_only K) (persist_writes ws)"
  by (induction ws) (auto intro!: writes_only.rules persist_setting_writes split: sum.splits)

lemma persist_settings_writes: "sw_key ` set ws \<subseteq> K \<Longrightarrow> act_keeps (writes_only K) (persist_settings ws)"
  unfolding persist_settings_def by (auto intro!: writes_only.rules persist_writes_writes)

lemma get_setting_reads: "get_setting k s = (v, t) \<Longrightarrow> writes_only K s t"
  unfolding get_setting_def get_setting_strict_def
  by (auto split: prod.splits sum.splits go_error.splits
      intro!: writes_only.rules elim!: act_keepsD[rotated])

end
