(* ===== verification/Probe_Properties.thy ===== *)
theory Probe_Properties
  imports Probe_Check Notify_Properties Act_Rules
begin

text \<open>
  Properties of the delivery probe: the life of a probe mail under every write to
  the table, the schedule of the arrival checks, and what may be deleted from the
  probe server.
\<close>

section \<open>Actions that keep closed mails\<close>

definition probes_ok :: "store \<Rightarrow> bool" where
  "probes_ok s \<longleftrightarrow> distinct (map p_id (probe_mails s)) \<and> list_all (\<lambda>p. p_id p < next_probe s) (probe_mails s)"

text \<open>What the closing of a mail fixes.\<close>

definition outcome_of :: "probe_mail \<Rightarrow> string \<times> string \<times> int \<times> time option \<times> string \<times> time option \<times> string \<times> string \<times> string" where
  "outcome_of p = (p_status p, p_level p, p_delay_seconds p, p_arrived_at p, p_error_message p, p_resolved_at p,
     p_resolved_by p, p_resolve_reason p, p_resolve_note p)"

text \<open>Every old mail of the new table was there, and is as it was when it was closed.\<close>

definition kept :: "store \<Rightarrow> store \<Rightarrow> bool" where
  "kept s t \<longleftrightarrow> probes_ok s \<longrightarrow> probes_ok t \<and> next_probe s \<le> next_probe t
     \<and> (\<forall>q \<in> set (probe_mails t). p_id q < next_probe s \<longrightarrow>
          (\<exists>p \<in> set (probe_mails s). p_id p = p_id q \<and> (probe_status_open (p_status p) \<or> outcome_of q = outcome_of p)))"

lemma kept_same: "same_rows s t \<Longrightarrow> kept s t"
  by (auto simp: kept_def probes_ok_def same_rowsD)

lemma kept_refl: "kept s s"
  by (rule kept_same) simp

lemma kept_trans:
  assumes "kept s t" "kept t u"
  shows "kept s u"
  unfolding kept_def
proof
  assume ok: "probes_ok s"
  with assms(1) have t: "probes_ok t" "next_probe s \<le> next_probe t" by (auto simp: kept_def)
  with assms(2) have u: "probes_ok u" "next_probe t \<le> next_probe u" by (auto simp: kept_def)
  have "\<exists>p \<in> set (probe_mails s). p_id p = p_id q \<and> (probe_status_open (p_status p) \<or> outcome_of q = outcome_of p)"
    if q: "q \<in> set (probe_mails u)" "p_id q < next_probe s" for q
  proof -
    from q t(2) assms(2) t(1) obtain p' where p': "p' \<in> set (probe_mails t)" "p_id p' = p_id q"
      "probe_status_open (p_status p') \<or> outcome_of q = outcome_of p'" unfolding kept_def by (meson less_le_trans)
    with q(2) assms(1) ok obtain p where p: "p \<in> set (probe_mails s)" "p_id p = p_id p'"
      "probe_status_open (p_status p) \<or> outcome_of p' = outcome_of p" unfolding kept_def by metis
    have "p_status p' = p_status p" if "outcome_of p' = outcome_of p" using that by (simp add: outcome_of_def)
    with p' p show ?thesis by metis
  qed
  with t u show "probes_ok u \<and> next_probe s \<le> next_probe u
     \<and> (\<forall>q \<in> set (probe_mails u). p_id q < next_probe s \<longrightarrow>
          (\<exists>p \<in> set (probe_mails s). p_id p = p_id q \<and> (probe_status_open (p_status p) \<or> outcome_of q = outcome_of p)))"
    by auto
qed

lemma kept_relation: "act_relation kept"
  by unfold_locales (auto intro: kept_refl kept_trans kept_same)

interpretation kept: act_relation kept
  by (rule kept_relation)

lemma kept_update:
  assumes "\<And>r. P r \<Longrightarrow> probe_status_open (p_status r) \<or> outcome_of (f r) = outcome_of r" "\<And>r. p_id (f r) = p_id r"
  shows "kept s (snd (update_probes P f s))"
proof -
  let ?g = "\<lambda>p. if P p then f p else p"
  have i: "p_id (?g p) = p_id p" for p using assms(2) by simp
  have o': "probe_status_open (p_status p) \<or> outcome_of (?g p) = outcome_of p" for p using assms(1)[of p] by auto
  have m: "map p_id (map ?g ps) = map p_id ps" for ps using i by (induction ps) auto
  have l: "list_all (\<lambda>p. p_id p < n) ps = list_all (\<lambda>i. i < n) (map p_id ps)" for n ps
    by (simp add: list_all_iff)
  have "probes_ok (snd (update_probes P f s))" if "probes_ok s"
    using that unfolding probes_ok_def update_probes_def l by (simp add: m del: map_map list.pred_map)
  moreover have "\<exists>p \<in> set (probe_mails s). p_id p = p_id q \<and> (probe_status_open (p_status p) \<or> outcome_of q = outcome_of p)"
    if "q \<in> set (probe_mails (snd (update_probes P f s)))" for q
  proof -
    from that obtain p where "p \<in> set (probe_mails s)" "q = ?g p" by (auto simp: update_probes_def)
    with i[of p] o'[of p] show ?thesis by (intro bexI[of _ p]) metis+
  qed
  ultimately show ?thesis unfolding kept_def by (simp add: update_probes_def)
qed

lemma kept_filter:
  "probe_mails t = filter P (probe_mails s) \<Longrightarrow> next_probe t = next_probe s \<Longrightarrow> kept s t"
  by (auto simp: kept_def probes_ok_def distinct_map_filter list_all_iff)

lemma probe_keeps_check: "act_keeps kept (update_probe_mail_check now p)"
  unfolding update_probe_mail_check_def
proof (intro kept.bind kept.stmt_rule kept.return kept_update)
  show "probe_status_open (p_status r) \<or> outcome_of (set_check now p r) = outcome_of r"
    if "p_id r = p_id p \<and> p_status r \<in> probe_checkable_statuses" for r
    using that by (simp add: probe_status_open_set probe_set_defs)
  show "p_id (set_check now p r) = p_id r" for r by (simp add: set_check_def)
qed

lemma probe_keeps_waiting: "act_keeps kept (record_waiting srt now ps ws res)"
  by (induction ws arbitrary: res)
     (auto intro!: kept.return kept.bind probe_keeps_check simp del: update_probe_mail_check_def split: prod.splits)

lemma probe_keeps_refused: "act_keeps kept (record_refused recorded now ps as res)"
proof (induction "as" arbitrary: res)
  case (Cons a "as")
  then show ?case
    by (cases a) (auto intro!: kept.bind probe_keeps_check split: option.splits)
qed (simp add: kept.return)

lemma probe_keeps_arrivals: "act_keeps kept (record_probe_arrivals waiting recorded srt now ps res)"
  unfolding record_probe_arrivals_def
  by (intro kept.transaction kept.bind probe_keeps_waiting probe_keeps_refused)

lemma probe_keeps_resolve: "act_keeps kept (resolve_probe_mail now i by_user reason note at_time)"
  unfolding resolve_probe_mail_def
proof (intro kept.bind kept.stmt_rule kept.return kept_update)
  show "probe_status_open (p_status r) \<or> outcome_of (set_resolved now at_time by_user reason note r) = outcome_of r"
    if "p_id r = i \<and> p_status r \<in> probe_resolvable_statuses" for r
    using that by (auto simp: probe_status_open_set probe_set_defs)
  show "p_id (set_resolved now at_time by_user reason note r) = p_id r" for r by (simp add: set_resolved_def)
qed

lemma probe_keeps_resolve_probe: "act_keeps kept (resolve_probe now i by_user reason note)"
  unfolding resolve_probe_def get_probe_mail_def
  by (intro kept.try_rule kept.query_row)
     (auto intro!: kept.fail kept.bind probe_keeps_resolve kept.query_row split: sum.splits go_error.splits)

lemma probe_keeps_close: "act_keeps kept (close_open_probe_mails now mb reason at_time)"
  unfolding close_open_probe_mails_def
proof (intro kept.stmt_rule kept_update)
  show "probe_status_open (p_status r) \<or> outcome_of (set_resolved now at_time '''' reason '''' r) = outcome_of r"
    if "p_status r \<in> probe_open_statuses \<and> (mb = 0 \<or> p_mailbox r = mb)" for r
    using that by (simp add: probe_status_open_set)
  show "p_id (set_resolved now at_time '''' reason '''' r) = p_id r" for r by (simp add: set_resolved_def)
qed

lemma probe_keeps_notified: "act_keeps kept (mark_probe_mails_notified ds fs at_time)"
proof -
  have "act_keeps kept (stmt (mark_delays at_time ds))" "act_keeps kept (stmt (mark_failures at_time fs))"
    unfolding mark_delays_def mark_failures_def
    by (intro kept.stmt_rule kept_update; simp add: outcome_of_def)+
  then show ?thesis unfolding mark_probe_mails_notified_def
    by (auto intro!: kept.return kept.transaction kept.bind)
qed

lemma probe_keeps_deleted: "act_keeps kept (mark_probe_mails_deleted tokens at_time)"
proof -
  have "act_keeps kept (stmt (update_probes (\<lambda>r. p_token r \<in> set b) (\<lambda>r. r\<lparr>p_deleted_at := Some at_time\<rparr>)))" for b
    by (intro kept.stmt_rule kept_update) (simp_all add: outcome_of_def)
  then have "act_keeps kept (mark_deleted_batches bs at_time)" for bs
    by (induction bs) (auto intro!: kept.return kept.bind)
  then show ?thesis by (simp add: mark_probe_mails_deleted_def)
qed

lemma probe_keeps_insert: "act_keeps kept (insert_probe_mail now p)"
  unfolding insert_probe_mail_def
proof (intro kept.bind kept.stmt_rule kept.of_result)
  fix s
  let ?f = "\<lambda>s. case probe_constraint p s of
         Some e \<Rightarrow> (Inl e, s)
       | None \<Rightarrow>
           (Inr (p\<lparr>p_id := next_probe s, p_created_at := now, p_updated_at := now\<rparr>),
            s\<lparr>probe_mails := probe_mails s @ [p\<lparr>p_id := next_probe s, p_arrived_at := None, p_last_checked_at := None,
                p_deleted_at := None, p_delay_notified_at := None, p_notified_at := None, p_resolved_at := None,
                p_resolved_by := '''', p_resolve_reason := '''', p_resolve_note := '''', p_created_at := now,
                p_updated_at := now\<rparr>],
              next_probe := next_probe s + 1\<rparr>)"
  show "kept s (snd (?f s))"
  proof (cases "probe_constraint p s")
    case (Some e)
    then show ?thesis by (simp add: kept_refl)
  next
    case None
    then show ?thesis by (auto simp: kept_def probes_ok_def list_all_iff dest: less_trans)
  qed
qed

lemma probe_keeps_old: "act_keeps kept (delete_old_probe_mails mb before)" and probe_keeps_mailbox: "act_keeps kept (delete_mailbox i)"
  unfolding delete_old_probe_mails_def delete_mailbox_def exec_def
  by (intro kept.stmt_rule; simp add: Let_def; rule kept_filter; simp)+

section \<open>The life of a probe mail\<close>

text \<open>The writes to the table, each with any outcome of its statements.\<close>

inductive probe_step :: "store \<Rightarrow> store \<Rightarrow> bool" where
  pst_insert: "insert_probe_mail now p s = (r, t) \<Longrightarrow> probe_step s t"
| pst_check: "record_probe_arrivals waiting recorded srt now ps res s = (r, t) \<Longrightarrow> probe_step s t"
| pst_resolve: "resolve_probe now i by_user reason note s = (r, t) \<Longrightarrow> probe_step s t"
| pst_close: "close_open_probe_mails now mb reason at_time s = (r, t) \<Longrightarrow> probe_step s t"
| pst_notified: "mark_probe_mails_notified ds fs now s = (r, t) \<Longrightarrow> probe_step s t"
| pst_deleted: "mark_probe_mails_deleted tokens now s = (r, t) \<Longrightarrow> probe_step s t"
| pst_old: "delete_old_probe_mails mb before s = (r, t) \<Longrightarrow> probe_step s t"
| pst_mailbox: "delete_mailbox mb s = (r, t) \<Longrightarrow> probe_step s t"

lemma probe_step_kept: "probe_step s t \<Longrightarrow> kept s t"
  by (induction rule: probe_step.induct)
     (blast intro: act_keepsD[OF probe_keeps_insert] act_keepsD[OF probe_keeps_arrivals] act_keepsD[OF probe_keeps_resolve_probe] act_keepsD[OF probe_keeps_close]
        act_keepsD[OF probe_keeps_notified] act_keepsD[OF probe_keeps_deleted] act_keepsD[OF probe_keeps_old] act_keepsD[OF probe_keeps_mailbox])+

text \<open>
  C38. A probe mail that arrived or was resolved stays as it is: whatever is
  written to the table afterwards, in any order and with any failures (arrival
  checks with mails they read earlier, resolving by hand, switching the probe off,
  alert mails, the cleanup, the deletion of mailboxes), the mail is gone or has the
  status, level, delay, arrival, error and resolution it was closed with; and
  identifiers stay unique.
\<close>

theorem closed_probe_mail_stays:
  assumes "probe_step\<^sup>*\<^sup>* s t" "probes_ok s" "p \<in> set (probe_mails s)" "\<not> probe_status_open (p_status p)"
  shows "probes_ok t \<and> list_all (\<lambda>q. p_id q \<noteq> p_id p \<or> outcome_of q = outcome_of p) (probe_mails t)"
proof -
  from assms(1) have k: "kept s t"
    by (induction rule: rtranclp_induct) (auto intro: kept_refl kept_trans probe_step_kept)
  have "outcome_of q = outcome_of p" if "q \<in> set (probe_mails t)" "p_id q = p_id p" for q
  proof -
    have "p_id q < next_probe s" using assms(2,3) that by (auto simp: probes_ok_def list_all_iff)
    with k assms(2) that obtain p' where p': "p' \<in> set (probe_mails s)" "p_id p' = p_id p"
      "probe_status_open (p_status p') \<or> outcome_of q = outcome_of p'" unfolding kept_def by metis
    from assms(2) p' assms(3) have "p' = p" by (auto simp: probes_ok_def distinct_map inj_on_def)
    with p' assms(4) show ?thesis by simp
  qed
  with k assms(2) show ?thesis by (auto simp: kept_def list_all_iff)
qed

text \<open>A mail that was resolved by hand while a check ran: the check, which found it arrived, leaves it.\<close>

definition demo_probe :: probe_mail where
  "demo_probe = \<lparr>p_id = 1, p_mailbox = 1, p_address = ''a@x.jp'', p_token = ''t1'', p_slot = ''2026-01-01 07:00'', p_manual = False,
     p_subject = ''s'', p_sent_at = 0, p_status = probe_delayed, p_level = level_delayed, p_delay_seconds = 1000,
     p_arrived_at = None, p_last_checked_at = Some 1, p_error_message = '''', p_deleted_at = None,
     p_delay_notified_at = None, p_notified_at = None, p_resolved_at = None, p_resolved_by = '''',
     p_resolve_reason = '''', p_resolve_note = '''', p_created_at = 0, p_updated_at = 0\<rparr>"

definition demo_probes :: store where
  "demo_probes = empty_store\<lparr>probe_mails := [demo_probe], next_probe := 2\<rparr>"

definition demo_resolved :: store where
  "demo_resolved = snd (resolve_probe 5 1 ''ann'' ''maintenance'' '' night '' demo_probes)"

definition demo_checked :: store where
  "demo_checked = snd (record_probe_arrivals [demo_probe] [''t1'' \<mapsto> demo_probe]
     (empty_sort\<lparr>so_arrivals := [(''t1'', 7)]\<rparr>) 9
     (fst (case resolve_probe_settings demo_gcm None empty_store of (Inr ps, u) \<Rightarrow> (ps, u))) empty_result demo_resolved)"

theorem closed_probe_mail_stays_witness:
  "list_all (\<lambda>q. p_status q = probe_resolved \<and> p_resolve_note q = ''night'' \<and> p_arrived_at q = None) (probe_mails demo_checked)
   \<and> length (probe_mails demo_checked) = 1"
proof -
  have st: "probe_step\<^sup>*\<^sup>* demo_resolved demo_checked"
    unfolding demo_checked_def by (intro r_into_rtranclp pst_check) (rule surjective_pairing)
  obtain p where p: "probe_mails demo_resolved = [p]" "p_status p = probe_resolved" "p_resolve_note p = ''night''"
    "p_arrived_at p = None" "p_id p = 1"
  proof -
    have "length (probe_mails demo_resolved) = 1" "p_status (hd (probe_mails demo_resolved)) = probe_resolved"
      "p_resolve_note (hd (probe_mails demo_resolved)) = ''night''" "p_arrived_at (hd (probe_mails demo_resolved)) = None"
      "p_id (hd (probe_mails demo_resolved)) = 1" by code_simp+
    then show thesis by (intro that[of "hd (probe_mails demo_resolved)"]) (auto simp: length_Suc_conv)
  qed
  have ok: "probes_ok demo_resolved" using p by (simp add: probes_ok_def) code_simp
  have "\<not> probe_status_open (p_status p)" unfolding p(2) by code_simp
  from closed_probe_mail_stays[OF st ok _ this] p
  have "list_all (\<lambda>q. p_id q \<noteq> 1 \<or> outcome_of q = outcome_of p) (probe_mails demo_checked)" by simp
  moreover have l: "map p_id (probe_mails demo_checked) = [1]" by code_simp
  ultimately show ?thesis using p by (auto simp: outcome_of_def list_all_iff map_eq_Cons_conv)
qed

end
