(* ===== verification/Calendar.thy ===== *)
theory Calendar
  imports Check_Times
begin

text \<open>
  The calendar of Clock is one to one: a day number is recovered from its date,
  so the texts "2006-01-02" and "2006-01-02 15:04" that the scheduler compares
  tell days and minutes apart.
\<close>

lemma era_fields:
  fixes doe :: int
  assumes d: "0 \<le> doe" "doe < 146097"
  defines "yoe \<equiv> (doe - doe div 1460 + doe div 36524 - doe div 146096) div 365"
  shows "0 \<le> yoe" "yoe < 400"
    "0 \<le> doe - (365 * yoe + yoe div 4 - yoe div 100)" "doe - (365 * yoe + yoe div 4 - yoe div 100) < 366"
proof -
  define a b c r q4 s q100 t where "a = doe div 1460" and "b = doe div 36524" and "c = doe div 146096"
    and "r = (doe - a + b - c) mod 365" and "q4 = yoe div 4" and "s = yoe mod 4"
    and "q100 = yoe div 100" and "t = yoe mod 100"
  have y: "doe - a + b - c = 365 * yoe + r" "0 \<le> r" "r < 365"
    unfolding yoe_def a_def[symmetric] b_def[symmetric] c_def[symmetric] r_def by simp_all
  have a: "1460 * a \<le> doe" "doe < 1460 * a + 1460" and b: "36524 * b \<le> doe" "doe < 36524 * b + 36524"
    and c: "146096 * c \<le> doe" "doe < 146096 * c + 146096"
    unfolding a_def b_def c_def by presburger+
  have q4: "yoe = 4 * q4 + s" "0 \<le> s" "s < 4" and q100: "yoe = 100 * q100 + t" "0 \<le> t" "t < 100"
    unfolding q4_def s_def q100_def t_def by simp_all
  have c01: "c = 0 \<or> c = 1 \<and> doe = 146096" using c d by linarith
  have b04: "0 \<le> b" "b \<le> 4" "b < 4 \<or> doe = 146096" using b d by linarith+
  have a0: "0 \<le> a" using a d by linarith
  show y0: "0 \<le> yoe" using y a b b04 c01 d by linarith
  show y400: "yoe < 400" using y a b b04 c c01 d by linarith
  have a1: "q4 \<le> a" "a \<le> q4 + 1" using a y q4 q100 b04 b c01 y0 y400 by linarith+
  have x: "25 * q100 \<le> q4" "4 * q4 \<le> 100 * q100 + t" using q4 q100 by linarith+
  have b1: "q100 \<le> b" "b \<le> q100 + 1" using b y q4 q100 a1 c01 x by linarith+
  have doy: "doe - (365 * yoe + yoe div 4 - yoe div 100) = r + (a - q4) - (b - q100) + c"
    unfolding q4_def q100_def using y by linarith
  have last: "r = 364" if "b \<noteq> q100"
  proof -
    from that b1 have "b = q100 + 1" by linarith
    then show ?thesis using b y q4 q100 a1 c01 x by linarith
  qed
  have end_era: "b = q100 + 1" if "c = 1"
  proof -
    from that c01 have "doe = 146096" by simp
    then have "b = 4" unfolding b_def by simp
    then show ?thesis using y400 y0 q100 b1 by linarith
  qed
  show "0 \<le> doe - (365 * yoe + yoe div 4 - yoe div 100)" unfolding doy
    using a1 b1 c01 y(2) last by (cases "b = q100") auto
  show "doe - (365 * yoe + yoe div 4 - yoe div 100) < 366" unfolding doy
    using a1 b1 c01 y(3) end_era by auto
qed

text \<open>A day number is recovered from its date, whose month and day are in range.\<close>

lemma month_of_mp:
  fixes doy :: int
  assumes "0 \<le> doy" "doy < 366"
  defines "mp \<equiv> (5 * doy + 2) div 153"
  shows "0 \<le> mp" "mp \<le> 11" "1 \<le> doy - (153 * mp + 2) div 5 + 1" "doy - (153 * mp + 2) div 5 + 1 \<le> 31"
proof -
  define q where "q = (153 * mp + 2) div 5"
  have "153 * mp \<le> 5 * doy + 2" "5 * doy + 2 < 153 * mp + 153" unfolding mp_def by presburger+
  moreover have "5 * q \<le> 153 * mp + 2" "153 * mp + 2 < 5 * q + 5" unfolding q_def by presburger+
  ultimately show "0 \<le> mp" "mp \<le> 11" "1 \<le> doy - (153 * mp + 2) div 5 + 1" "doy - (153 * mp + 2) div 5 + 1 \<le> 31"
    unfolding q_def[symmetric] using assms(1,2) by linarith+
qed

lemma date_of_days_ok:
  assumes "date_of_days z = (y, m, d)"
  shows "1 \<le> m" "m \<le> 12" "1 \<le> d" "d \<le> 31" "days_of_date y m d = z"
proof -
  define doe where "doe = (z + 719468) mod 146097"
  define era where "era = (z + 719468) div 146097"
  define yoe where "yoe = (doe - doe div 1460 + doe div 36524 - doe div 146096) div 365"
  define doy where "doy = doe - (365 * yoe + yoe div 4 - yoe div 100)"
  define mp where "mp = (5 * doy + 2) div 153"
  have doe: "0 \<le> doe" "doe < 146097" unfolding doe_def by simp_all
  note e = era_fields[OF doe, folded yoe_def, folded doy_def]
  note p = month_of_mp[OF e(3,4), folded mp_def]
  have r: "m = (if mp < 10 then mp + 3 else mp - 9)" "d = doy - (153 * mp + 2) div 5 + 1"
      "y = yoe + era * 400 + (if m \<le> 2 then 1 else 0)"
    using assms unfolding date_of_days_def Let_def
      doe_def[symmetric] era_def[symmetric] yoe_def[symmetric] doy_def[symmetric] mp_def[symmetric] by auto
  show "1 \<le> m" "m \<le> 12" "1 \<le> d" "d \<le> 31" using p r by (auto split: if_splits)
  have y': "(if m \<le> 2 then y - 1 else y) = yoe + era * 400" using r(3) by simp
  have q: "(yoe + era * 400) div 400 = era" "(yoe + era * 400) mod 400 = yoe" using e(1,2) by simp_all
  have m': "(if 2 < m then m - 3 else m + 9) = mp" using p(1,2) r(1) by auto
  have "z + 719468 = era * 146097 + doe" unfolding doe_def era_def by simp
  then show "days_of_date y m d = z"
    unfolding days_of_date_def Let_def y' q m' r(2) by (simp add: doy_def)
qed

lemma pad_digits_inj:
  assumes "pad_digits w a = pad_digits w b"
  shows "a = b"
proof -
  define ds where "ds n = replicate (w - length (nat_digits (nat \<bar>n\<bar>))) (CHR ''0'') @ nat_digits (nat \<bar>n\<bar>)" for n
  have p: "pad_digits w n = (if n < 0 then ''-'' else []) @ ds n" for n
    by (simp add: pad_digits_def ds_def Let_def)
  have z: "digits_val 0 (replicate k (CHR ''0'')) = 0" for k
    by (induction k) (simp_all add: digit_val_def)
  have v: "digits_val 0 (ds n) = nat \<bar>n\<bar>" for n
    by (simp add: ds_def digits_val_append digits_val_nat_digits z)
  have "list_all is_digit_char (ds n)" for n
    using nat_digits_all_digit by (auto simp: ds_def list_all_iff is_digit_char_def)
  then have h: "ds n \<noteq> ''-'' @ xs" for n xs
  proof -
    have "list_all is_digit_char (ds n)" by fact
    then show ?thesis using digit_not_sign by (cases "ds n") auto
  qed
  have s: "(a < 0) = (b < 0)" using assms h[of a "ds b"] h[of b "ds a"] unfolding p by (auto split: if_splits)
  with assms have "ds a = ds b" unfolding p by simp
  then have "nat \<bar>a\<bar> = nat \<bar>b\<bar>" using v[of a] v[of b] by simp
  with s show ?thesis by linarith
qed

lemma format_day_inj:
  assumes "format_day a = format_day b"
  shows "a = b"
proof -
  obtain y m d where a: "date_of_days a = (y, m, d)" by (cases "date_of_days a")
  obtain y' m' d' where b: "date_of_days b = (y', m', d')" by (cases "date_of_days b")
  note ra = date_of_days_ok[OF a] and rb = date_of_days_ok[OF b]
  have "length (pad_digits 2 k) = 2" if "1 \<le> k" "k \<le> 31" for k using pad_2_length[of k] that by simp
  then have l: "length (pad_digits 2 m) = 2" "length (pad_digits 2 m') = 2" "length (pad_digits 2 d) = 2"
    "length (pad_digits 2 d') = 2" using ra rb by simp_all
  have e: "pad_digits 4 y @ ''-'' @ pad_digits 2 m @ ''-'' @ pad_digits 2 d
      = pad_digits 4 y' @ ''-'' @ pad_digits 2 m' @ ''-'' @ pad_digits 2 d'"
    using assms by (simp add: format_day_def a b)
  then have "pad_digits 4 y = pad_digits 4 y'"
    and e2: "pad_digits 2 m @ ''-'' @ pad_digits 2 d = pad_digits 2 m' @ ''-'' @ pad_digits 2 d'"
    using l by (simp_all add: append_eq_append_conv)
  moreover from e2 have "pad_digits 2 m = pad_digits 2 m'" "pad_digits 2 d = pad_digits 2 d'"
    using l by (simp_all add: append_eq_append_conv)
  ultimately have "y = y'" "m = m'" "d = d'" by (simp_all add: pad_digits_inj)
  with ra(5) rb(5) show ?thesis by simp
qed

end
