(* ===== verification/Scheduler.thy ===== *)
theory Scheduler
  imports Probe_Check Calendar
begin

text \<open>
  The scheduler (modules/scheduler.go and the timing part of modules/notify.go and
  modules/probe.go): which times of day came due since the last tick, the daily
  cleanup, the notification days, the probe's send times, and the tick that queues
  the jobs. \<^verbatim>\<open>s.now()\<close> is the argument \<open>now\<close>, the clock of the statements \<open>stamp\<close>;
  the maps of fired times are maps from a time of day to the minute it fired at.
  The ticker goroutine of Start and Stop is not modelled, its tick is. Log lines
  are left out.
\<close>

section \<open>Times that came due (scheduler.go)\<close>

record due_time =
  du_time :: string
  du_minute :: string
  du_at :: time

type_synonym fired = "string \<Rightarrow> string option"

definition due_occurrences :: "zone \<Rightarrow> time \<Rightarrow> time \<Rightarrow> string \<Rightarrow> fired \<Rightarrow> time list \<Rightarrow> due_time list" where
  "due_occurrences zone prev now t fired occs =
     map (\<lambda>occ. \<lparr>du_time = t, du_minute = format_minute zone occ, du_at = occ\<rparr>)
       (filter (\<lambda>occ. prev < occ \<and> occ \<le> now \<and> fired t \<noteq> Some (format_minute zone occ)) occs)"

definition due_check_times :: "zone \<Rightarrow> time \<Rightarrow> time \<Rightarrow> string list \<Rightarrow> fired \<Rightarrow> due_time list" where
  "due_check_times zone prev now ts fired =
     concat (map (\<lambda>t.
       case clock_of t of
         None \<Rightarrow> []
       | Some (h, m) \<Rightarrow>
           (let today = date_in zone (c_day (civil_of zone now)) h m 0 0
            in due_occurrences zone prev now t fired [add_days zone today (- 1), today])) ts)"

text \<open>The loop over the due times that records them.\<close>

definition note_fired :: "due_time list \<Rightarrow> fired \<Rightarrow> fired" where
  "note_fired due fired = foldl (\<lambda>f d. f(du_time d \<mapsto> du_minute d)) fired due"

definition parse_clock :: "string \<Rightarrow> (int \<times> int) option" where
  "parse_clock t =
     (case cut t '':'' of
        None \<Rightarrow> None
      | Some (hh, mm) \<Rightarrow>
          (case (atoi hh, atoi mm) of
             (Some h, Some m) \<Rightarrow> if h < 0 \<or> 23 < h \<or> m < 0 \<or> 59 < m then None else Some (h, m)
           | _ \<Rightarrow> None))"

text \<open>Dates "YYYY-MM-DD" are compared as texts.\<close>

definition cleanup_due :: "zone \<Rightarrow> time \<Rightarrow> string \<Rightarrow> string \<Rightarrow> string \<Rightarrow> string option" where
  "cleanup_due zone now cleanup_time last_run fired =
     (let (h, m) = (case parse_clock cleanup_time of Some hm \<Rightarrow> hm
                    | None \<Rightarrow> (case parse_clock default_cleanup_time of Some hm \<Rightarrow> hm | None \<Rightarrow> (0, 0)));
          today = date_in zone (c_day (civil_of zone now)) h m 0 0;
          occ = (if now < today then add_days zone today (- 1) else today);
          date = format_date zone occ;
          run = (if format_date zone now < last_run then '''' else last_run)
      in if date \<le> run \<or> date = fired then None else Some date)"

section \<open>Notification days (notify.go)\<close>

definition local_date_of :: "zone \<Rightarrow> time \<Rightarrow> time" where
  "local_date_of zone t = date_in zone (c_day (civil_of zone t)) 0 0 0 0"

definition nanos_per_day :: int where "nanos_per_day = 86400 * nanos_per_second"

text \<open>\<^verbatim>\<open>Duration.Round\<close> to whole days rounds half a day away from zero.\<close>

definition days_between :: "zone \<Rightarrow> time \<Rightarrow> time \<Rightarrow> int" where
  "days_between zone a b =
     (let d = local_date_of zone b - local_date_of zone a
      in if d < 0 then - ((- d + nanos_per_day div 2) div nanos_per_day)
         else (d + nanos_per_day div 2) div nanos_per_day)"

definition notify_day :: "zone \<Rightarrow> notify_settings \<Rightarrow> time \<Rightarrow> bool" where
  "notify_day zone s t =
     (case nt_last_sent s of
        None \<Rightarrow> True
      | Some sent \<Rightarrow> (let d = days_between zone sent t in d = 0 \<or> nt_interval s \<le> d))"

definition notify_due :: "zone \<Rightarrow> time \<Rightarrow> time \<Rightarrow> notify_settings option \<Rightarrow> fired \<Rightarrow> due_time list" where
  "notify_due zone prev now ns fired =
     (case ns of
        None \<Rightarrow> []
      | Some s \<Rightarrow> if \<not> nt_enabled s then []
          else filter (\<lambda>d. notify_day zone s (du_at d)) (due_check_times zone prev now (nt_times s) fired))"

text \<open>The two loops of \<^verbatim>\<open>NextNotifyAt\<close>: the times of one day, and the days.\<close>

fun next_notify_time :: "zone \<Rightarrow> time \<Rightarrow> notify_settings \<Rightarrow> int \<Rightarrow> string list \<Rightarrow> time option" where
  "next_notify_time zone now s day [] = None"
| "next_notify_time zone now s day (hm # hms) =
     (case parse_clock hm of
        None \<Rightarrow> next_notify_time zone now s day hms
      | Some (h, m) \<Rightarrow>
          (let cand = date_in zone day h m 0 0
           in if now < cand \<and> notify_day zone s cand then Some cand else next_notify_time zone now s day hms))"

fun next_notify_loop :: "zone \<Rightarrow> time \<Rightarrow> notify_settings \<Rightarrow> int \<Rightarrow> nat \<Rightarrow> time option" where
  "next_notify_loop zone now s offset 0 = None"
| "next_notify_loop zone now s offset (Suc n) =
     (case next_notify_time zone now s (c_day (civil_of zone (add_days zone now offset))) (nt_times s) of
        Some t \<Rightarrow> Some t
      | None \<Rightarrow> next_notify_loop zone now s (offset + 1) n)"

definition next_notify_at :: "zone \<Rightarrow> time \<Rightarrow> notify_settings option \<Rightarrow> time option" where
  "next_notify_at zone now ns =
     (case ns of
        None \<Rightarrow> None
      | Some s \<Rightarrow> if \<not> nt_enabled s then None
          else let ahead = (case nt_last_sent s of None \<Rightarrow> 0 | Some sent \<Rightarrow> days_between zone now sent);
                   days = nt_interval s + 1 + (if 0 < ahead then ahead else 0)
               in next_notify_loop zone now s 0 (nat (days + 1)))"

section \<open>The probe's send times (probe.go)\<close>

fun latest_due :: "due_time \<Rightarrow> due_time list \<Rightarrow> due_time" where
  "latest_due latest [] = latest"
| "latest_due latest (d # ds) = latest_due (if du_minute latest < du_minute d then d else latest) ds"

definition probe_send_due :: "zone \<Rightarrow> time \<Rightarrow> time \<Rightarrow> string list \<Rightarrow> fired \<Rightarrow> due_time option" where
  "probe_send_due zone prev now ts fired =
     (case due_check_times zone prev now ts fired of [] \<Rightarrow> None | d # ds \<Rightarrow> Some (latest_due d ds))"

section \<open>The scheduler\<close>

text \<open>
  What the scheduler's machine and program give it: the local time zone, the
  registered agent providers, whether a command is on the PATH, and the AES-GCM of
  the stored passwords.
\<close>

record sched_env =
  se_zone :: zone
  se_registry :: registry
  se_on_path :: "string \<Rightarrow> bool"
  se_gcm :: gcm

record scheduler =
  sd_manager :: manager
  sd_last_tick :: time
  sd_last_fired :: fired
  sd_notify_fired :: fired
  sd_cleanup_fired :: string
  sd_probe_fired :: fired
  sd_running :: bool

definition new_scheduler :: "manager \<Rightarrow> scheduler" where
  "new_scheduler m =
     \<lparr>sd_manager = m, sd_last_tick = zero_time, sd_last_fired = Map.empty, sd_notify_fired = Map.empty,
      sd_cleanup_fired = '''', sd_probe_fired = Map.empty, sd_running = False\<rparr>"

text \<open>A statement of the scheduler on the job manager's database.\<close>

definition on_db :: "'a act \<Rightarrow> scheduler \<Rightarrow> (go_error + 'a) \<times> scheduler" where
  "on_db f sd =
     (case f (m_db (sd_manager sd)) of (r, s) \<Rightarrow> (r, sd\<lparr>sd_manager := (sd_manager sd)\<lparr>m_db := s\<rparr>\<rparr>))"

definition on_db_read :: "'a reader \<Rightarrow> scheduler \<Rightarrow> 'a \<times> scheduler" where
  "on_db_read f sd =
     (case f (m_db (sd_manager sd)) of (x, s) \<Rightarrow> (x, sd\<lparr>sd_manager := (sd_manager sd)\<lparr>m_db := s\<rparr>\<rparr>))"

definition sched_enqueue_target :: "time \<Rightarrow> string \<Rightarrow> string \<Rightarrow> scheduler \<Rightarrow> bool \<times> scheduler" where
  "sched_enqueue_target stamp kind target sd =
     (case manager_enqueue stamp kind 0 target requested_by_scheduler 0 (sd_manager sd) of
        (Inl e, m) \<Rightarrow> (False, sd\<lparr>sd_manager := m\<rparr>)
      | (Inr _, m) \<Rightarrow> (True, sd\<lparr>sd_manager := m\<rparr>))"

definition sched_enqueue :: "time \<Rightarrow> string \<Rightarrow> scheduler \<Rightarrow> bool \<times> scheduler" where
  "sched_enqueue stamp kind sd = sched_enqueue_target stamp kind '''' sd"

definition has_enabled_mailbox :: "scheduler \<Rightarrow> bool \<times> scheduler" where
  "has_enabled_mailbox sd =
     (case on_db list_mailboxes sd of
        (Inl e, sd1) \<Rightarrow> (False, sd1)
      | (Inr ms, sd1) \<Rightarrow> (list_ex mb_enabled ms, sd1))"

definition has_mailbox :: "scheduler \<Rightarrow> bool \<times> scheduler" where
  "has_mailbox sd =
     (case on_db list_mailboxes sd of
        (Inl e, sd1) \<Rightarrow> (False, sd1)
      | (Inr ms, sd1) \<Rightarrow> (0 < length ms, sd1))"

definition notify_reaches_someone :: "notify_settings \<Rightarrow> scheduler \<Rightarrow> bool \<times> scheduler" where
  "notify_reaches_someone ns sd =
     (if \<not> smtp_configured (nt_smtp ns) then (False, sd)
      else case on_db (notification_recipients ns) sd of
          (Inl e, sd1) \<Rightarrow> (False, sd1)
        | (Inr (_, addresses), sd1) \<Rightarrow> (0 < length addresses, sd1))"

definition queue_cleanup_if_due :: "sched_env \<Rightarrow> time \<Rightarrow> time \<Rightarrow> scheduler \<Rightarrow> scheduler" where
  "queue_cleanup_if_due env now stamp sd =
     (case on_db_read resolve_cleanup_time sd of (cleanup_time, sd1) \<Rightarrow>
      case on_db_read (get_setting setting_cleanup_last_run_date) sd1 of (last_run, sd2) \<Rightarrow>
      case cleanup_due (se_zone env) now cleanup_time last_run (sd_cleanup_fired sd2) of
        None \<Rightarrow> sd2
      | Some date \<Rightarrow>
          (case sched_enqueue stamp job_cleanup sd2 of (queued, sd3) \<Rightarrow>
             if \<not> queued then sd3
             else snd (on_db (set_setting setting_cleanup_last_run_date date)
                        (sd3\<lparr>sd_cleanup_fired := date\<rparr>))))"

definition agent_limit_resume_margin :: int where
  "agent_limit_resume_margin = 10 * minute"

text \<open>The condition of \<^verbatim>\<open>queueAnalysisAfterLimit\<close>, each part read only when the parts before it hold.\<close>

definition analysis_possible :: "sched_env \<Rightarrow> scheduler \<Rightarrow> bool \<times> scheduler" where
  "analysis_possible env sd =
     (case on_db_read resolve_agent_enabled sd of (enabled, sd1) \<Rightarrow>
        if \<not> enabled then (False, sd1)
        else case on_db_read resolve_agent_provider sd1 of (p, sd2) \<Rightarrow>
          if \<not> provider_available (se_registry env) (se_on_path env) p then (False, sd2) else has_mailbox sd2)"

definition queue_analysis_after_limit :: "sched_env \<Rightarrow> time \<Rightarrow> time \<Rightarrow> scheduler \<Rightarrow> scheduler" where
  "queue_analysis_after_limit env now stamp sd =
     (case on_db_read resolve_agent_limited_until sd of
        (None, sd1) \<Rightarrow> sd1
      | (Some until, sd1) \<Rightarrow>
          if now < until + agent_limit_resume_margin then sd1
          else (case analysis_possible env sd1 of (possible, sd2) \<Rightarrow>
            case (if possible then sched_enqueue stamp job_analyze sd2 else (True, sd2)) of (go_on, sd3) \<Rightarrow>
              if \<not> go_on then sd3 else snd (on_db (set_agent_limited_until zero_time) sd3)))"

text \<open>The part of \<^verbatim>\<open>queueProbe\<close> for the arrival check.\<close>

definition queue_probe_check :: "time \<Rightarrow> time \<Rightarrow> probe_settings \<Rightarrow> scheduler \<Rightarrow> scheduler" where
  "queue_probe_check now stamp ps sd =
     (if case ps_next_check_at ps of None \<Rightarrow> True | Some at \<Rightarrow> now < at then sd
      else case on_db (has_active_job_of_kind job_probe_send) sd of
          (Inl e, sd1) \<Rightarrow> sd1
        | (Inr True, sd1) \<Rightarrow> sd1
        | (Inr False, sd1) \<Rightarrow>
            (case on_db (has_active_job_of_kind job_probe_check) sd1 of
               (Inl e, sd2) \<Rightarrow> sd2
             | (Inr True, sd2) \<Rightarrow> sd2
             | (Inr False, sd2) \<Rightarrow>
                 (case on_db count_open_probe_mails sd2 of
                    (Inl e, sd3) \<Rightarrow> sd3
                  | (Inr n, sd3) \<Rightarrow> if n = 0 then snd (on_db clear_probe_check sd3)
                                    else snd (sched_enqueue stamp job_probe_check sd3))))"

definition queue_probe :: "sched_env \<Rightarrow> time \<Rightarrow> time \<Rightarrow> time \<Rightarrow> scheduler \<Rightarrow> scheduler" where
  "queue_probe env prev now stamp sd =
     (case on_db (resolve_probe_settings (se_gcm env) None) sd of
        (Inl e, sd1) \<Rightarrow> sd1
      | (Inr ps, sd1) \<Rightarrow>
          if \<not> ps_enabled ps \<or> \<not> probe_configured ps then sd1
          else case probe_send_due (se_zone env) prev now (ps_send_times ps) (sd_probe_fired sd1) of
              None \<Rightarrow> queue_probe_check now stamp ps sd1
            | Some due \<Rightarrow>
                (let sd2 = sd1\<lparr>sd_probe_fired := (sd_probe_fired sd1)(du_time due \<mapsto> du_minute due)\<rparr>
                 in case on_db probe_participant_count sd2 of
                      (Inl e, sd3) \<Rightarrow> queue_probe_check now stamp ps sd3
                    | (Inr n, sd3) \<Rightarrow>
                        if 0 < n then snd (sched_enqueue_target stamp job_probe_send (du_minute due) sd3)
                        else queue_probe_check now stamp ps sd3))"

text \<open>The three parts of \<^verbatim>\<open>Tick\<close> around the cleanup and the probe.\<close>

definition queue_sync :: "sched_env \<Rightarrow> time \<Rightarrow> time \<Rightarrow> time \<Rightarrow> scheduler \<Rightarrow> scheduler" where
  "queue_sync env prev now stamp sd =
     (case on_db_read resolve_check_times sd of (ts, sd1) \<Rightarrow>
        let due = due_check_times (se_zone env) prev now ts (sd_last_fired sd1)
        in if due = [] then sd1
           else case has_enabled_mailbox (sd1\<lparr>sd_last_fired := note_fired due (sd_last_fired sd1)\<rparr>) of
               (found, sd2) \<Rightarrow> if found then snd (sched_enqueue stamp job_sync sd2) else sd2)"

definition queue_notify :: "sched_env \<Rightarrow> time \<Rightarrow> time \<Rightarrow> time \<Rightarrow> notify_settings \<Rightarrow> scheduler \<Rightarrow> scheduler" where
  "queue_notify env prev now stamp ns sd =
     (let due = notify_due (se_zone env) prev now (Some ns) (sd_notify_fired sd)
      in if due = [] then sd
         else case notify_reaches_someone ns (sd\<lparr>sd_notify_fired := note_fired due (sd_notify_fired sd)\<rparr>) of
             (found, sd1) \<Rightarrow> if found then snd (sched_enqueue stamp job_notify sd1) else sd1)"

definition tick :: "sched_env \<Rightarrow> time \<Rightarrow> time \<Rightarrow> scheduler \<Rightarrow> scheduler" where
  "tick env now stamp sd =
     (let prev = sd_last_tick sd;
          sd1 = queue_sync env prev now stamp (sd\<lparr>sd_last_tick := now\<rparr>);
          sd2 = queue_cleanup_if_due env now stamp sd1;
          sd3 = queue_probe env prev now stamp sd2
      in case on_db (resolve_notification_settings (se_gcm env) None) sd3 of
           (Inl e, sd4) \<Rightarrow> sd4
         | (Inr ns, sd4) \<Rightarrow>
             queue_analysis_after_limit env now stamp (queue_notify env prev now stamp ns sd4))"

definition start_scheduler :: "sched_env \<Rightarrow> time \<Rightarrow> time \<Rightarrow> scheduler \<Rightarrow> scheduler" where
  "start_scheduler env now stamp sd =
     (if sd_running sd then sd
      else (queue_cleanup_if_due env now stamp (sd\<lparr>sd_last_tick := now\<rparr>))\<lparr>sd_running := True\<rparr>)"

definition sched_next_check_at :: "sched_env \<Rightarrow> time \<Rightarrow> scheduler \<Rightarrow> time option \<times> scheduler" where
  "sched_next_check_at env now sd =
     (case on_db_read resolve_check_times sd of (ts, sd1) \<Rightarrow> (next_check_at (se_zone env) now ts, sd1))"

text \<open>\<^verbatim>\<open>Stop\<close>, which waits for the running tick.\<close>

definition stop_scheduler :: "scheduler \<Rightarrow> scheduler" where
  "stop_scheduler sd = sd\<lparr>sd_running := False\<rparr>"

end
