(* ===== verification/Scheduler_Properties.thy ===== *)
theory Scheduler_Properties
  imports Scheduler Job_Properties Notify_Properties Act_Rules
begin

text \<open>
  What the scheduler fires. With ticks at most a day apart on a clock that is not set
  back, the table of fired times is never in the way: the scheduler does what one
  would do that only remembered its last tick (\<open>fires_once\<close>). A tick then queues the
  jobs of what came due (\<open>tick_queues_due_work\<close>).
\<close>

section \<open>Each occurrence once\<close>

definition comes_at :: "zone \<Rightarrow> string \<Rightarrow> time \<Rightarrow> bool" where
  "comes_at zone t at \<longleftrightarrow> check_instant zone [t] at"

lemma comes_at_clock: "clock_of t = Some (h, m) \<Longrightarrow> comes_at zone t at \<longleftrightarrow> shows_clock zone at h m"
  by (simp add: comes_at_def check_instant_def)

text \<open>Two occurrences of a time in the same minute are the same occurrence.\<close>

lemma comes_at_minute:
  assumes "clock_ok t" "comes_at (fixed_zone off) t a" "comes_at (fixed_zone off) t b"
    "format_minute (fixed_zone off) a = format_minute (fixed_zone off) b"
  shows "a = b"
proof -
  obtain h m where c: "clock_of t = Some (h, m)" and hm: "0 \<le> h" "h < 24" "0 \<le> m" "m < 60"
    using clock_of_ok[OF assms(1)] by blast
  let ?c = "civil_of (fixed_zone off)"
  have s: "shows_clock (fixed_zone off) a h m" "shows_clock (fixed_zone off) b h m"
    using assms(2,3) comes_at_clock[OF c] by blast+
  then have "c_hour (?c a) = c_hour (?c b)" "c_minute (?c a) = c_minute (?c b)"
    by (simp_all add: shows_clock_def Let_def)
  with assms(4) have "c_day (?c a) = c_day (?c b)"
    by (intro format_day_inj) (simp add: format_minute_def Let_def)
  then show ?thesis using s unfolding shows_clock_fixed[OF hm] by simp
qed

text \<open>The days on which an occurrence between two ticks can lie.\<close>

lemma comes_at_days:
  fixes off :: int and at prev now :: time
  assumes "clock_of t = Some (h, m)" "0 \<le> h" "h < 24" "0 \<le> m" "m < 60"
    "prev \<le> now" "now \<le> prev + nanos_per_day"
  defines "d \<equiv> c_day (civil_of (fixed_zone off) now)"
  shows "prev < at \<and> at \<le> now \<and> comes_at (fixed_zone off) t at
    \<longleftrightarrow> prev < at \<and> at \<le> now \<and> at \<in> {date_in (fixed_zone off) (d - 1) h m 0 0, date_in (fixed_zone off) d h m 0 0}"
proof -
  let ?z = "fixed_zone off"
  define e where "e = c_day (civil_of ?z at)"
  have day: "date_in ?z a 0 0 0 0 = date_in ?z b 0 0 0 0 + (a - b) * nanos_per_day" for a b
    by (simp add: date_in_fixed nanos_per_day_def algebra_simps)
  have mono: "date_in ?z a 0 0 0 0 < date_in ?z b 0 0 0 0 \<longleftrightarrow> a < b" for a b
    by (simp add: date_in_fixed)
  note bd = fixed_day_bounds[where off = off and t = now, folded d_def]
    and be = fixed_day_bounds[where off = off and t = at, folded e_def]
  have "e \<le> d" if "at \<le> now"
    using mono[of e "d + 1"] bd(2) be(1) that by linarith
  moreover have "d - 1 \<le> e" if "prev < at"
  proof -
    have "date_in ?z (d - 1) 0 0 0 0 < date_in ?z (e + 1) 0 0 0 0"
      using day[of d "d - 1"] bd(1) be(2) assms(7) that by simp
    then show ?thesis using mono[of "d - 1" "e + 1"] by linarith
  qed
  moreover have "comes_at ?z t at \<longleftrightarrow> at = date_in ?z e h m 0 0"
    unfolding comes_at_clock[OF assms(1)] e_def by (rule shows_clock_fixed[OF assms(2-5)])
  moreover have "c_day (civil_of ?z (date_in ?z a h m 0 0)) = a" for a
    by (simp add: civil_of_fixed_time[OF assms(2-5)])
  ultimately show ?thesis by (metis (no_types, opaque_lifting) e_def insert_iff singletonD order_antisym_conv zle_diff1_eq linorder_not_less)
qed

text \<open>What the table of fired times holds while the clock only goes forward.\<close>

definition fired_before :: "zone \<Rightarrow> time \<Rightarrow> fired \<Rightarrow> bool" where
  "fired_before zone prev f \<longleftrightarrow>
     (\<forall>t mi. f t = Some mi \<longrightarrow> (\<exists>at\<le>prev. comes_at zone t at \<and> mi = format_minute zone at))"

definition due_event :: "due_time \<Rightarrow> string \<times> time" where
  "due_event d = (du_time d, du_at d)"

lemma due_occurrences_event:
  "map due_event (due_occurrences zone prev now t f occs)
     = map (Pair t) (filter (\<lambda>occ. prev < occ \<and> occ \<le> now \<and> f t \<noteq> Some (format_minute zone occ)) occs)"
  by (simp add: due_occurrences_def due_event_def)

lemma due_one:
  assumes "clock_ok t" "prev \<le> now" "now \<le> prev + nanos_per_day" "fired_before (fixed_zone off) prev f"
  shows "set (map due_event (due_check_times (fixed_zone off) prev now [t] f))
      = {(t, at) | at. prev < at \<and> at \<le> now \<and> comes_at (fixed_zone off) t at}"
    and "distinct (map due_event (due_check_times (fixed_zone off) prev now [t] f))"
proof -
  let ?z = "fixed_zone off"
  obtain h m where c: "clock_of t = Some (h, m)" and hm: "0 \<le> h" "h < 24" "0 \<le> m" "m < 60"
    using clock_of_ok[OF assms(1)] by blast
  define d where "d = c_day (civil_of ?z now)"
  let ?occs = "[date_in ?z (d - 1) h m 0 0, date_in ?z d h m 0 0]"
  have e: "map due_event (due_check_times ?z prev now [t] f)
      = map (Pair t) (filter (\<lambda>occ. prev < occ \<and> occ \<le> now \<and> f t \<noteq> Some (format_minute ?z occ)) ?occs)"
    by (simp add: due_check_times_def c Let_def add_days_fixed[OF hm] d_def[symmetric] due_occurrences_event)
  have free: "f t \<noteq> Some (format_minute ?z at)" if "prev < at" "comes_at ?z t at" for at
  proof
    assume "f t = Some (format_minute ?z at)"
    with assms(4) obtain b where "b \<le> prev" "comes_at ?z t b" "format_minute ?z at = format_minute ?z b"
      unfolding fired_before_def by blast
    with comes_at_minute[OF assms(1) that(2)] that(1) show False by fastforce
  qed
  note days = comes_at_days[OF c hm assms(2,3), where off = off, folded d_def]
  have "prev < at \<and> at \<le> now \<and> f t \<noteq> Some (format_minute ?z at) \<and> at \<in> set ?occs
      \<longleftrightarrow> prev < at \<and> at \<le> now \<and> comes_at ?z t at" for at
    using days[where at = at] free[of at] by auto
  then show "set (map due_event (due_check_times ?z prev now [t] f))
      = {(t, at) | at. prev < at \<and> at \<le> now \<and> comes_at ?z t at}"
    unfolding e set_map set_filter by blast
  have "distinct ?occs" by (simp add: date_in_fixed)
  then show "distinct (map due_event (due_check_times ?z prev now [t] f))"
    unfolding e by (simp add: distinct_map inj_on_def)
qed

lemma due_check_times_Cons:
  "due_check_times zone prev now (t # ts) f = due_check_times zone prev now [t] f @ due_check_times zone prev now ts f"
  by (simp add: due_check_times_def)

lemma due_all:
  assumes "list_all clock_ok ts" "distinct ts" "prev \<le> now" "now \<le> prev + nanos_per_day"
    "fired_before (fixed_zone off) prev f"
  shows "set (map due_event (due_check_times (fixed_zone off) prev now ts f))
      = {(t, at). t \<in> set ts \<and> prev < at \<and> at \<le> now \<and> comes_at (fixed_zone off) t at}
    \<and> distinct (map due_event (due_check_times (fixed_zone off) prev now ts f))"
  using assms(1,2)
proof (induction ts)
  case Nil
  show ?case by (simp add: due_check_times_def)
next
  case (Cons t ts)
  note one = due_one[OF _ assms(3-5), of t]
  have "fst ` set (map due_event (due_check_times (fixed_zone off) prev now ts f)) \<subseteq> set ts"
    using Cons by auto
  then show ?case using Cons one unfolding due_check_times_Cons[of _ _ _ t ts] map_append set_append distinct_append
    by auto
qed

text \<open>A run of ticks: the times that come due at each, recorded as \<^verbatim>\<open>Tick\<close> does.\<close>

fun fires :: "zone \<Rightarrow> string list \<Rightarrow> time \<Rightarrow> fired \<Rightarrow> time list \<Rightarrow> due_time list list" where
  "fires zone ts prev f [] = []"
| "fires zone ts prev f (now # nows) =
     (let due = due_check_times zone prev now ts f
      in due # fires zone ts now (note_fired due f) nows)"

definition ticks_forward :: "time \<Rightarrow> time list \<Rightarrow> bool" where
  "ticks_forward start nows \<longleftrightarrow> successively (\<lambda>a b. a \<le> b \<and> b \<le> a + nanos_per_day) (start # nows)"

lemma note_fired_before:
  assumes "\<And>d. d \<in> set due \<Longrightarrow> du_at d \<le> now \<and> comes_at zone (du_time d) (du_at d) \<and> du_minute d = format_minute zone (du_at d)"
    "fired_before zone now f"
  shows "fired_before zone now (note_fired due f)"
  using assms
proof (induction due arbitrary: f)
  case (Cons d due)
  have "fired_before zone now (f(du_time d \<mapsto> du_minute d))"
    using Cons.prems(1)[of d] Cons.prems(2) by (auto simp: fired_before_def)
  from Cons.IH[OF _ this] have "fired_before zone now (note_fired due (f(du_time d \<mapsto> du_minute d)))"
    using Cons.prems(1) by (meson list.set_intros(2))
  then show ?case by (simp only: note_fired_def foldl_Cons)
qed (simp add: note_fired_def)

lemma due_minute: "d \<in> set (due_check_times zone prev now ts f) \<Longrightarrow> du_minute d = format_minute zone (du_at d)"
  by (auto simp: due_check_times_def due_occurrences_def Let_def split: option.splits)

lemma fires_once_inv:
  assumes "list_all clock_ok ts" "distinct ts" "ticks_forward prev nows" "fired_before (fixed_zone off) prev f"
  shows "set (map due_event (concat (fires (fixed_zone off) ts prev f nows)))
        = {(t, at). t \<in> set ts \<and> prev < at \<and> at \<le> List.last (prev # nows) \<and> comes_at (fixed_zone off) t at}
    \<and> distinct (map due_event (concat (fires (fixed_zone off) ts prev f nows)))
    \<and> list_all2 (\<lambda>(p, now) due. \<forall>d\<in>set due. p < du_at d \<and> du_at d \<le> now)
        (zip (prev # nows) nows) (fires (fixed_zone off) ts prev f nows)"
  using assms(3,4)
proof (induction nows arbitrary: prev f)
  case Nil
  then show ?case by auto
next
  case (Cons now nows)
  let ?z = "fixed_zone off"
  let ?due = "due_check_times ?z prev now ts f"
  have t: "prev \<le> now" "now \<le> prev + nanos_per_day" "ticks_forward now nows"
    using Cons.prems(1) by (auto simp: ticks_forward_def)
  note due = due_all[OF assms(1,2) t(1,2) Cons.prems(2)]
  have ev: "prev < du_at d \<and> du_at d \<le> now \<and> comes_at ?z (du_time d) (du_at d)" if "d \<in> set ?due" for d
  proof -
    have "due_event d \<in> set (map due_event ?due)" using that by simp
    with due show ?thesis by (simp add: due_event_def)
  qed
  have "fired_before ?z now f" using Cons.prems(2) t(1) unfolding fired_before_def by (meson order_trans)
  with note_fired_before[of ?due now ?z f] ev due_minute
  have fb: "fired_before ?z now (note_fired ?due f)" by blast
  note ih = Cons.IH[OF t(3) fb]
  let ?rest = "concat (fires ?z ts now (note_fired ?due f) nows)"
  have le: "now \<le> List.last (now # nows)"
    using t(3) unfolding ticks_forward_def
    by (induction nows arbitrary: now) (auto split: if_splits intro: order_trans)
  have "set (map due_event (?due @ ?rest))
      = {(t, at). t \<in> set ts \<and> prev < at \<and> at \<le> List.last (now # nows) \<and> comes_at ?z t at}"
    unfolding map_append set_append using due ih t(1) le by (auto simp del: set_map)
  moreover have "set (map due_event ?due) \<inter> set (map due_event ?rest) = {}"
    using due ih by (auto simp del: set_map)
  moreover have "\<forall>d\<in>set ?due. prev < du_at d \<and> du_at d \<le> now" using ev by blast
  ultimately show ?case using due ih by (simp add: Let_def distinct_append)
qed



section \<open>What a tick queues\<close>

abbreviation sched_store :: "scheduler \<Rightarrow> store" where
  "sched_store sd \<equiv> m_db (sd_manager sd)"

definition asked :: "string \<Rightarrow> store \<Rightarrow> bool" where
  "asked kind s \<longleftrightarrow> list_ex (\<lambda>j. job_same_request kind 0 '''' j \<and> job_active j) (jobs s)"

definition queued_by_scheduler :: "job \<Rightarrow> bool" where
  "queued_by_scheduler j \<longleftrightarrow>
     j_status j = status_queued \<and> j_requested_by j = requested_by_scheduler \<and> j_mailbox j = None"

text \<open>From one state to another at most one job of each kind in \<open>K\<close> was queued and settings in \<open>W\<close> written.\<close>

definition added :: "string set \<Rightarrow> string set \<Rightarrow> scheduler \<Rightarrow> scheduler \<Rightarrow> job list \<Rightarrow> bool" where
  "added K W sd sd' new \<longleftrightarrow>
     jobs (sched_store sd') = jobs (sched_store sd) @ new \<and> list_all queued_by_scheduler new
     \<and> distinct (map j_kind new) \<and> set (map j_kind new) \<subseteq> K
     \<and> mailboxes (sched_store sd') = mailboxes (sched_store sd) \<and> faults (sched_store sd') = []
     \<and> (\<forall>k. k \<notin> W \<longrightarrow> settings (sched_store sd') k = settings (sched_store sd) k)"

definition adds :: "string set \<Rightarrow> string set \<Rightarrow> scheduler \<Rightarrow> scheduler \<Rightarrow> bool" where
  "adds K W sd sd' \<longleftrightarrow> (faults (sched_store sd) = [] \<longrightarrow> (\<exists>new. added K W sd sd' new))"

lemma added_trans:
  assumes "added K W sd sd1 new1" "added L V sd1 sd2 new2" "K \<inter> L = {}"
  shows "added (K \<union> L) (W \<union> V) sd sd2 (new1 @ new2)"
  using assms unfolding added_def by auto

lemma added_more: "\<lbrakk> added K W sd sd' new; K \<subseteq> L; W \<subseteq> V \<rbrakk> \<Longrightarrow> added L V sd sd' new"
  unfolding added_def by blast

lemma adds_same: "sched_store sd' = sched_store sd \<Longrightarrow> adds K W sd sd'"
  by (auto simp: adds_def added_def intro: exI[of _ "[]"])

lemma adds_trans: "\<lbrakk> adds K W sd sd1; adds L V sd1 sd2; K \<inter> L = {} \<rbrakk> \<Longrightarrow> adds (K \<union> L) (W \<union> V) sd sd2"
  unfolding adds_def by (meson added_def added_trans)

lemma adds_more: "\<lbrakk> adds K W sd sd'; K \<subseteq> L; W \<subseteq> V \<rbrakk> \<Longrightarrow> adds L V sd sd'"
  unfolding adds_def by (meson added_more)

text \<open>Steps that queue nothing come before and after any others.\<close>

lemma adds_before: "\<lbrakk> adds {} {} sd sd1; adds K W sd1 sd2 \<rbrakk> \<Longrightarrow> adds K W sd sd2"
  using adds_trans[of "{}" "{}" sd sd1 K W sd2] by simp

lemma adds_store: "\<lbrakk> sched_store sd = sched_store sd0; sched_store sd' = sched_store sd0' \<rbrakk> \<Longrightarrow> adds K W sd sd' = adds K W sd0 sd0'"
  by (simp add: adds_def added_def)

lemma adds_on_db: "\<lbrakk> act_keeps (writes_only W) f; on_db f sd = (r, sd') \<rbrakk> \<Longrightarrow> adds {} W sd sd'"
  by (cases "f (sched_store sd)") (auto simp: on_db_def adds_def added_def writes_only_def dest!: act_keepsD)

lemma adds_read: "\<lbrakk> act_keeps (writes_only {}) (act_read f); on_db_read f sd = (x, sd') \<rbrakk> \<Longrightarrow> adds {} {} sd sd'"
  using adds_on_db[of "{}" "act_read f" sd "Inr x" sd']
  by (cases "f (sched_store sd)") (simp add: on_db_def on_db_read_def act_read_def)

context settings_reader
begin

lemma only_reads: "act_keeps (writes_only W) (act_read read)"
  unfolding act_keeps_def
proof (intro allI impI)
  fix s r t assume r: "act_read read s = (r, t)"
  then obtain x where "read s = (x, t)" by (auto simp: act_read_def split: prod.splits)
  then have "same_rows s t" "faults s = [] \<Longrightarrow> t = s" using rows no_faults by auto
  then show "writes_only W s t" by (auto simp: writes_only_def same_rowsD)
qed

end

interpretation setting_time_reader: settings_reader "setting_time key"
    "\<lambda>m. let raw = text_of key m in if raw = '''' then None else parse_rfc3339 raw" for key
  by unfold_locales
     (auto simp: setting_time_def get_setting_val Let_def split: prod.splits dest: get_setting_same_rows)

interpretation limited_reader: settings_reader resolve_agent_limited_until
    "\<lambda>m. let v = trim_space (text_of setting_agent_limited_until m) in if v = '''' then None else parse_rfc3339 v"
  by unfold_locales
     (auto simp: resolve_agent_limited_until_def get_setting_val Let_def split: prod.splits dest: get_setting_same_rows)

interpretation agent_enabled_reader: settings_reader resolve_agent_enabled
    "\<lambda>m. text_of setting_agent_enabled m \<noteq> ''0''"
  by unfold_locales
     (auto simp: resolve_agent_enabled_def get_setting_val split: prod.splits dest: get_setting_same_rows)

lemmas readers = text_reader.only_reads int_reader.only_reads str_reader.only_reads parsed_reader.only_reads
  setting_time_reader.only_reads notify_times_reader.only_reads limited_reader.only_reads agent_enabled_reader.only_reads

lemma read_text_reads: "act_keeps (writes_only W) (read_text key)"
  unfolding read_text_def by (rule text_reader.only_reads)

lemma probe_settings_read: "act_keeps (writes_only W) (resolve_probe_settings g key)"
  unfolding resolve_probe_settings_def resolve_probe_send_times_def
  by (intro writes_only.rules readers read_text_reads)

lemma notification_settings_read: "act_keeps (writes_only W) (resolve_notification_settings g key)"
  unfolding resolve_notification_settings_def
  by (intro writes_only.rules readers read_text_reads)

lemma users_by_ids_read: "act_keeps (writes_only W) (list_users_by_ids is)"
  by (induction "is") (auto intro!: writes_only.rules simp: get_user_by_id_def split: sum.splits go_error.splits)

lemma recipients_read: "act_keeps (writes_only W) (notification_recipients ns)"
  unfolding notification_recipients_def by (intro writes_only.rules users_by_ids_read)

lemma mailboxes_read: "act_keeps (writes_only W) list_mailboxes"
  unfolding list_mailboxes_def by (intro writes_only.rules)

lemma probe_counts_read: "act_keeps (writes_only W) probe_participant_count"
    "act_keeps (writes_only W) count_open_probe_mails" "act_keeps (writes_only W) (has_active_job_of_kind k)"
  unfolding probe_participant_count_def count_open_probe_mails_def has_active_job_of_kind_def
  by (intro writes_only.rules mailboxes_read)+

lemma clear_probe_check_writes:
  "act_keeps (writes_only (sw_key ` set (upd_time setting_probe_next_check_at None [] @ probe_failure_run_reset))) clear_probe_check"
  unfolding clear_probe_check_def update_settings_def
  by (auto intro!: writes_only.rules persist_settings_writes[OF order_refl] simp: act_keeps_def act_bind_def act_return_def
      dest: act_keepsD[OF persist_settings_writes[OF order_refl]] split: prod.splits sum.splits)

section \<open>The parts of a tick\<close>

lemma enqueue_check_no_faults:
  assumes "faults s = []" "enqueue_target kind 0 raw by = Inr target"
  shows "\<exists>ex. enqueue_check kind 0 raw by s = (Inr (target, ex), s)"
  using assms by (simp add: enqueue_check_def act_try_def act_bind_def act_return_def has_active_job_def query_no_faults
      find_active_job_def list_active_jobs_def)

lemma enqueue_job_no_faults:
  assumes f: "faults s = []" and e: "enqueue_job now kind 0 raw by p s = (r, t)"
  obtains (refused) err where "enqueue_target kind 0 raw by = Inl err" "r = Inl err" "t = s"
  | (there) target j where "enqueue_target kind 0 raw by = Inr target" "r = Inr (j, False)" "t = s"
      "j \<in> set (jobs s)" "job_active j" "job_same_request kind 0 target j"
  | (created) target where "enqueue_target kind 0 raw by = Inr target"
      "r = Inr (inserted_job now (new_job kind 0 target by p) s, True)"
      "t = s\<lparr>jobs := jobs s @ [fresh_row now (new_job kind 0 target by p) s], next_job := next_job s + 1\<rparr>"
proof (cases "enqueue_target kind 0 raw by")
  case (Inl err)
  with e refused show thesis by (simp add: enqueue_job_def act_bind_def enqueue_check_def act_fail_def)
next
  case (Inr target)
  from enqueue_check_no_faults[OF f Inr] obtain ex where c: "enqueue_check kind 0 raw by s = (Inr (target, ex), s)" ..
  show thesis
  proof (cases ex)
    case None
    with e c f Inr created show thesis
      by (simp add: enqueue_job_def act_bind_def act_return_def insert_job_stmt stmt_no_faults)
  next
    case (Some j)
    with e c Inr there[of target j] enqueue_check_Inr(2)[OF c] show thesis
      by (simp add: enqueue_job_def act_bind_def act_return_def)
  qed
qed

lemma sched_enqueue_target_adds:
  assumes "sched_enqueue_target stamp kind target sd = (b, sd')"
  shows "adds {kind} {} sd sd'"
  unfolding adds_def
proof
  assume f: "faults (sched_store sd) = []"
  obtain r t where e: "enqueue_job stamp kind 0 target requested_by_scheduler 0 (sched_store sd) = (r, t)" by fastforce
  have sd': "sched_store sd' = t"
    using assms e by (auto simp: sched_enqueue_target_def manager_enqueue_def split: sum.splits prod.splits)
  from f e show "\<exists>new. added {kind} {} sd sd' new"
  proof (cases rule: enqueue_job_no_faults)
    case (created tg)
    then show ?thesis using f
      by (intro exI[of _ "[fresh_row stamp (new_job kind 0 tg requested_by_scheduler 0) (sched_store sd)]"])
         (simp add: added_def sd' queued_by_scheduler_def fresh_row_def new_job_def blank_job_def)
  qed (use f in \<open>auto intro!: exI[of _ "[]"] simp: added_def sd'\<close>)
qed

text \<open>Without failures a job the scheduler may ask for is queued or running afterwards.\<close>

lemma sched_enqueue_asked:
  assumes "sched_enqueue stamp kind sd = (b, sd')" "faults (sched_store sd) = []"
    "enqueue_target kind 0 '''' requested_by_scheduler = Inr ''''"
  shows "b" "asked kind (sched_store sd')"
proof -
  obtain r t where e: "enqueue_job stamp kind 0 '''' requested_by_scheduler 0 (sched_store sd) = (r, t)" by fastforce
  have "b \<and> asked kind (sched_store sd')"
    using assms(2) e
  proof (cases rule: enqueue_job_no_faults)
    case (refused err)
    with assms(3) show ?thesis by simp
  next
    case (there target j)
    then show ?thesis using assms(1,3) e
      by (auto simp: sched_enqueue_def sched_enqueue_target_def manager_enqueue_def asked_def list_ex_iff)
  next
    case (created target)
    then show ?thesis using assms(1,3) e
      by (auto simp: sched_enqueue_def sched_enqueue_target_def manager_enqueue_def asked_def job_same_request_def
          fresh_row_def new_job_def blank_job_def job_active_def)
  qed
  then show "b" "asked kind (sched_store sd')" by blast+
qed

lemma asked_added: "\<lbrakk> asked kind (sched_store sd); added K W sd sd' new \<rbrakk> \<Longrightarrow> asked kind (sched_store sd')"
  by (auto simp: asked_def added_def)

lemma scheduler_targets:
  "enqueue_target job_sync 0 '''' requested_by_scheduler = Inr ''''"
  "enqueue_target job_cleanup 0 '''' requested_by_scheduler = Inr ''''"
  by code_simp+

lemma has_enabled_mailbox_adds: "has_enabled_mailbox sd = (b, sd') \<Longrightarrow> adds {} {} sd sd'"
  and has_mailbox_adds: "has_mailbox sd = (b, sd') \<Longrightarrow> adds {} {} sd sd'"
  unfolding has_enabled_mailbox_def has_mailbox_def
  by (auto split: prod.splits sum.splits intro: adds_on_db[OF mailboxes_read])

lemma has_enabled_mailbox_val:
  "faults (sched_store sd) = [] \<Longrightarrow>
     has_enabled_mailbox sd = (list_ex mb_enabled (mailboxes (sched_store sd)), sd)"
  unfolding has_enabled_mailbox_def on_db_def list_mailboxes_def
  by (simp add: query_no_faults list_ex_iff)

lemma sched_enqueue_adds: "sched_enqueue stamp kind sd = (b, sd') \<Longrightarrow> adds {kind} {} sd sd'"
  unfolding sched_enqueue_def by (rule sched_enqueue_target_adds)

lemma sched_enqueue_snd: "adds {kind} {} sd (snd (sched_enqueue stamp kind sd))"
  and sched_enqueue_target_snd: "adds {kind} {} sd (snd (sched_enqueue_target stamp kind target sd))"
  by (rule sched_enqueue_adds, rule prod.collapse[symmetric])
     (rule sched_enqueue_target_adds, rule prod.collapse[symmetric])

lemma on_db_snd: "act_keeps (writes_only W) f \<Longrightarrow> adds {} W sd (snd (on_db f sd))"
  by (rule adds_on_db, assumption, rule prod.collapse[symmetric])

lemma adds_none: "adds {} {} sd sd1 \<Longrightarrow> adds K W sd sd1"
  by (rule adds_more) auto

lemma queue_sync_adds: "adds {job_sync} {} sd (queue_sync env prev now stamp sd)"
proof -
  obtain ts sd1 where r: "on_db_read resolve_check_times sd = (ts, sd1)" by fastforce
  have a: "adds {} {} sd sd1"
    using r unfolding resolve_check_times_def by (rule adds_read[OF parsed_reader.only_reads])
  let ?due = "due_check_times (se_zone env) prev now ts (sd_last_fired sd1)"
  let ?sd = "sd1\<lparr>sd_last_fired := note_fired ?due (sd_last_fired sd1)\<rparr>"
  obtain found sd2 where h: "has_enabled_mailbox ?sd = (found, sd2)" by fastforce
  have "adds {} {} sd1 sd2" using has_enabled_mailbox_adds[OF h] by (simp add: adds_def added_def)
  note a2 = adds_before[OF a this]
  show ?thesis
    using adds_none[OF a] adds_none[OF a2] adds_before[OF a2 sched_enqueue_snd]
    by (simp add: queue_sync_def r h Let_def)
qed

lemma queue_cleanup_adds: "adds {job_cleanup} {setting_cleanup_last_run_date} sd (queue_cleanup_if_due env now stamp sd)"
proof -
  obtain ct sd1 where r: "on_db_read resolve_cleanup_time sd = (ct, sd1)" by fastforce
  obtain run sd2 where r2: "on_db_read (get_setting setting_cleanup_last_run_date) sd1 = (run, sd2)" by fastforce
  have a: "adds {} {} sd sd2"
    using r[unfolded resolve_cleanup_time_def] r2
    by (blast intro: adds_before adds_read[OF parsed_reader.only_reads] adds_read[OF text_reader.only_reads])
  show ?thesis
  proof (cases "cleanup_due (se_zone env) now ct run (sd_cleanup_fired sd2)")
    case None
    then show ?thesis using adds_none[OF a] by (simp add: queue_cleanup_if_due_def r r2)
  next
    case (Some date)
    obtain queued sd3 where q: "sched_enqueue stamp job_cleanup sd2 = (queued, sd3)" by fastforce
    have e: "adds {job_cleanup} {} sd sd3" by (rule adds_before[OF a sched_enqueue_adds[OF q]])
    have "adds {} {setting_cleanup_last_run_date} (sd3\<lparr>sd_cleanup_fired := date\<rparr>)
        (snd (on_db (set_setting setting_cleanup_last_run_date date) (sd3\<lparr>sd_cleanup_fired := date\<rparr>)))"
      by (rule on_db_snd[OF set_setting_writes]) simp
    then have w: "adds {} {setting_cleanup_last_run_date} sd3
        (snd (on_db (set_setting setting_cleanup_last_run_date date) (sd3\<lparr>sd_cleanup_fired := date\<rparr>)))"
      by (simp add: adds_def added_def)
    have "adds {job_cleanup} {setting_cleanup_last_run_date} sd
        (snd (on_db (set_setting setting_cleanup_last_run_date date) (sd3\<lparr>sd_cleanup_fired := date\<rparr>)))"
      using adds_trans[OF e w] by simp
    then show ?thesis using adds_more[OF e, of "{job_cleanup}" "{setting_cleanup_last_run_date}"]
      by (simp add: queue_cleanup_if_due_def r r2 Some q)
  qed
qed

lemma notify_reaches_adds: "notify_reaches_someone ns sd = (b, sd') \<Longrightarrow> adds {} {} sd sd'"
  unfolding notify_reaches_someone_def
  by (auto split: if_splits prod.splits sum.splits intro: adds_on_db[OF recipients_read] adds_same)

lemma queue_notify_adds: "adds {job_notify} {} sd (queue_notify env prev now stamp ns sd)"
proof -
  let ?due = "notify_due (se_zone env) prev now (Some ns) (sd_notify_fired sd)"
  let ?sd = "sd\<lparr>sd_notify_fired := note_fired ?due (sd_notify_fired sd)\<rparr>"
  obtain found sd1 where h: "notify_reaches_someone ns ?sd = (found, sd1)" by fastforce
  have a: "adds {} {} sd sd1" using notify_reaches_adds[OF h] by (simp add: adds_def added_def)
  show ?thesis
    using adds_none[OF a] adds_before[OF a sched_enqueue_snd] adds_same[of sd sd]
    by (simp add: queue_notify_def h Let_def)
qed

lemma analysis_possible_adds: "analysis_possible env sd = (b, sd') \<Longrightarrow> adds {} {} sd sd'"
proof -
  assume p: "analysis_possible env sd = (b, sd')"
  obtain en sd1 where r: "on_db_read resolve_agent_enabled sd = (en, sd1)" by fastforce
  obtain pv sd2 where r2: "on_db_read resolve_agent_provider sd1 = (pv, sd2)" by fastforce
  note a = adds_read[OF agent_enabled_reader.only_reads r]
  note a2 = adds_before[OF a adds_read[OF str_reader.only_reads r2[unfolded resolve_agent_provider_def]]]
  from p a a2 adds_before[OF a2 has_mailbox_adds] show ?thesis
    by (auto simp: analysis_possible_def r r2 split: if_splits)
qed

definition probe_reset_keys :: "string set" where
  "probe_reset_keys = sw_key ` set (upd_time setting_probe_next_check_at None [] @ probe_failure_run_reset)"

lemma queue_analysis_adds:
  "adds {job_analyze} {setting_agent_limited_until} sd (queue_analysis_after_limit env now stamp sd)"
proof -
  obtain until sd1 where r: "on_db_read resolve_agent_limited_until sd = (until, sd1)" by fastforce
  note a = adds_read[OF limited_reader.only_reads r]
  obtain possible sd2 where p: "analysis_possible env sd1 = (possible, sd2)" by fastforce
  note a2 = adds_before[OF a analysis_possible_adds[OF p]]
  have w: "adds {} {setting_agent_limited_until} sd3 (snd (on_db (set_agent_limited_until zero_time) sd3))" for sd3
    unfolding set_agent_limited_until_def persist_locked_def by (rule on_db_snd[OF persist_setting_writes]) simp
  obtain go_on sd3 where g: "(if possible then sched_enqueue stamp job_analyze sd2 else (True, sd2)) = (go_on, sd3)"
    by fastforce
  have a3: "adds {job_analyze} {} sd sd3"
    using g adds_before[OF a2 sched_enqueue_adds] adds_none[OF a2] by (auto split: if_splits)
  have "adds {job_analyze} {setting_agent_limited_until} sd (snd (on_db (set_agent_limited_until zero_time) sd3))"
    using adds_trans[OF a3 w] by simp
  then show ?thesis using adds_none[OF a] adds_more[OF a3, of "{job_analyze}" "{setting_agent_limited_until}"]
    by (cases until) (simp_all add: queue_analysis_after_limit_def r p g)
qed

lemma queue_probe_check_adds: "adds {job_probe_check} probe_reset_keys sd (queue_probe_check now stamp ps sd)"
proof -
  obtain r1 sd1 where h1: "on_db (has_active_job_of_kind job_probe_send) sd = (r1, sd1)" by fastforce
  obtain r2 sd2 where h2: "on_db (has_active_job_of_kind job_probe_check) sd1 = (r2, sd2)" by fastforce
  obtain r3 sd3 where h3: "on_db count_open_probe_mails sd2 = (r3, sd3)" by fastforce
  note a1 = adds_on_db[OF probe_counts_read(3) h1]
  note a2 = adds_before[OF a1 adds_on_db[OF probe_counts_read(3) h2]]
  note a3 = adds_before[OF a2 adds_on_db[OF probe_counts_read(2) h3]]
  have "adds {job_probe_check} probe_reset_keys sd (snd (on_db clear_probe_check sd3))"
    by (rule adds_more[OF adds_before[OF a3 on_db_snd[OF clear_probe_check_writes]]])
       (simp_all add: probe_reset_keys_def)
  moreover have "adds {job_probe_check} probe_reset_keys sd (snd (sched_enqueue stamp job_probe_check sd3))"
    by (rule adds_more[OF adds_before[OF a3 sched_enqueue_snd]]) simp_all
  ultimately show ?thesis
    using adds_none[OF a1] adds_none[OF a2] adds_none[OF a3] adds_same[of sd sd]
    unfolding queue_probe_check_def h1 prod.case by (auto simp: h2 h3 split: sum.splits bool.splits)
qed

lemma queue_probe_adds: "adds {job_probe_send, job_probe_check} probe_reset_keys sd (queue_probe env prev now stamp sd)"
proof -
  let ?K = "{job_probe_send, job_probe_check}"
  obtain r sd1 where h: "on_db (resolve_probe_settings (se_gcm env) None) sd = (r, sd1)" by fastforce
  note a = adds_on_db[OF probe_settings_read h]
  have check: "adds ?K probe_reset_keys sd (queue_probe_check now stamp ps u)" if "adds {} {} sd u" for ps u
    using adds_before[OF that queue_probe_check_adds] by (rule adds_more) auto
  have fired: "adds {} {} sd sd3" if c: "on_db probe_participant_count (sd1\<lparr>sd_probe_fired := fr\<rparr>) = (r3, sd3)" for fr r3 sd3
  proof -
    have "adds {} {} sd1 sd3" using adds_on_db[OF probe_counts_read(1)[where W = "{}"] c] by (simp add: adds_def added_def)
    with a show ?thesis by (rule adds_before)
  qed
  have send: "adds ?K probe_reset_keys sd (snd (sched_enqueue_target stamp job_probe_send tg u))" if "adds {} {} sd u" for tg u
    using adds_before[OF that sched_enqueue_target_snd] by (rule adds_more) auto
  show ?thesis
  proof (cases r)
    case (Inl e)
    then show ?thesis using adds_none[OF a] by (simp add: queue_probe_def h)
  next
    case (Inr ps)
    show ?thesis
    proof (cases "probe_send_due (se_zone env) prev now (ps_send_times ps) (sd_probe_fired sd1)")
      case None
      then show ?thesis using adds_none[OF a] check[OF a] by (simp add: queue_probe_def h Inr)
    next
      case (Some due)
      obtain r3 sd3 where c: "on_db probe_participant_count
          (sd1\<lparr>sd_probe_fired := (sd_probe_fired sd1)(du_time due \<mapsto> du_minute due)\<rparr>) = (r3, sd3)" by fastforce
      note f = fired[OF c]
      show ?thesis using adds_none[OF a] check[OF f] send[OF f]
        by (auto simp add: queue_probe_def h Inr Some c Let_def split: sum.splits)
    qed
  qed
qed

section \<open>A tick\<close>

text \<open>The scheduler's own marks that only the cleanup and the tick itself change.\<close>

definition marks :: "scheduler \<Rightarrow> time \<times> string" where
  "marks sd = (sd_last_tick sd, sd_cleanup_fired sd)"

lemma marks_on_db: "on_db f sd = (r, sd') \<Longrightarrow> marks sd' = marks sd"
  and marks_on_db_read: "on_db_read g sd = (x, sd') \<Longrightarrow> marks sd' = marks sd"
  and marks_enqueue_target: "sched_enqueue_target stamp kind target sd = (b, sd') \<Longrightarrow> marks sd' = marks sd"
  by (auto simp: on_db_def on_db_read_def sched_enqueue_target_def marks_def split: prod.splits sum.splits)

lemma marks_fired [simp]:
  "marks (sd\<lparr>sd_last_fired := f\<rparr>) = marks sd" "marks (sd\<lparr>sd_notify_fired := f\<rparr>) = marks sd"
  "marks (sd\<lparr>sd_probe_fired := f\<rparr>) = marks sd"
  by (simp_all add: marks_def)

lemma marks_enqueue: "sched_enqueue stamp kind sd = (b, sd') \<Longrightarrow> marks sd' = marks sd"
  unfolding sched_enqueue_def by (rule marks_enqueue_target)

lemma marks_found: "has_enabled_mailbox sd = (b, sd') \<Longrightarrow> marks sd' = marks sd"
    "has_mailbox sd = (b, sd') \<Longrightarrow> marks sd' = marks sd"
    "notify_reaches_someone ns sd = (b, sd') \<Longrightarrow> marks sd' = marks sd"
  unfolding has_enabled_mailbox_def has_mailbox_def notify_reaches_someone_def
  by (auto split: prod.splits sum.splits if_splits dest: marks_on_db)

lemma marks_possible: "analysis_possible env sd = (b, sd') \<Longrightarrow> marks sd' = marks sd"
  unfolding analysis_possible_def
  by (auto split: prod.splits if_splits dest!: marks_on_db_read marks_found)

lemmas marks_rules = marks_on_db marks_on_db_read marks_enqueue marks_enqueue_target marks_found marks_possible

lemma marks_snd: "marks (snd (on_db f sd)) = marks sd" "marks (snd (sched_enqueue stamp kind sd)) = marks sd"
    "marks (snd (sched_enqueue_target stamp kind target sd)) = marks sd"
  by (metis prod.collapse marks_on_db, metis prod.collapse marks_enqueue, metis prod.collapse marks_enqueue_target)

lemma marks_queue_sync: "marks (queue_sync env prev now stamp sd) = marks sd"
  unfolding queue_sync_def Let_def by (auto split: prod.splits if_splits dest!: marks_rules simp: marks_snd)

lemma marks_queue_notify: "marks (queue_notify env prev now stamp ns sd) = marks sd"
  unfolding queue_notify_def Let_def by (auto split: prod.splits if_splits dest!: marks_rules simp: marks_snd)

lemma marks_queue_analysis: "marks (queue_analysis_after_limit env now stamp sd) = marks sd"
  unfolding queue_analysis_after_limit_def
  by (auto split: prod.splits option.splits if_splits dest!: marks_rules simp: marks_snd)

lemma marks_queue_probe_check: "marks (queue_probe_check now stamp ps sd) = marks sd"
  unfolding queue_probe_check_def
  by (auto split: prod.splits option.splits if_splits sum.splits bool.splits dest!: marks_on_db simp: marks_snd)

lemma marks_queue_probe: "marks (queue_probe env prev now stamp sd) = marks sd"
  unfolding queue_probe_def Let_def
  by (auto split: prod.splits option.splits if_splits sum.splits dest!: marks_on_db simp: marks_snd marks_queue_probe_check)

context settings_reader
begin

lemma on_db_read_no_faults:
  "faults (sched_store sd) = [] \<Longrightarrow> on_db_read read sd = (val (settings (sched_store sd)), sd)"
  using no_faults[of "sched_store sd"] by (simp add: on_db_read_def)

end

abbreviation check_times_of :: "(string \<rightharpoonup> string) \<Rightarrow> string list" where
  "check_times_of \<equiv> parsed_of setting_check_times (\<lambda>v. parse_check_times [v]) default_check_time_list"

abbreviation cleanup_time_of :: "(string \<rightharpoonup> string) \<Rightarrow> string" where
  "cleanup_time_of \<equiv> parsed_of setting_cleanup_time parse_cleanup_time default_cleanup_time"

lemma queue_sync_no_faults:
  fixes env :: sched_env and prev now :: time
  assumes f: "faults (sched_store sd) = []"
  defines "due \<equiv> due_check_times (se_zone env) prev now (check_times_of (settings (sched_store sd))) (sd_last_fired sd)"
  shows "due \<noteq> [] \<and> list_ex mb_enabled (mailboxes (sched_store sd)) \<Longrightarrow>
      asked job_sync (sched_store (queue_sync env prev now stamp sd))"
    and "\<not> (due \<noteq> [] \<and> list_ex mb_enabled (mailboxes (sched_store sd))) \<Longrightarrow>
      sched_store (queue_sync env prev now stamp sd) = sched_store sd"
proof -
  let ?sd = "sd\<lparr>sd_last_fired := note_fired due (sd_last_fired sd)\<rparr>"
  have q: "queue_sync env prev now stamp sd
      = (if due = [] then sd else if list_ex mb_enabled (mailboxes (sched_store sd))
         then snd (sched_enqueue stamp job_sync ?sd) else ?sd)"
    unfolding queue_sync_def resolve_check_times_def parsed_reader.on_db_read_no_faults[OF f]
    by (simp add: due_def[symmetric] Let_def has_enabled_mailbox_val f)
  have "asked job_sync (sched_store (snd (sched_enqueue stamp job_sync ?sd)))"
    by (rule sched_enqueue_asked(2)[OF prod.collapse[symmetric]]) (simp_all add: f scheduler_targets)
  then show "due \<noteq> [] \<and> list_ex mb_enabled (mailboxes (sched_store sd)) \<Longrightarrow>
      asked job_sync (sched_store (queue_sync env prev now stamp sd))"
    and "\<not> (due \<noteq> [] \<and> list_ex mb_enabled (mailboxes (sched_store sd))) \<Longrightarrow>
      sched_store (queue_sync env prev now stamp sd) = sched_store sd"
    unfolding q by auto
qed

lemma queue_cleanup_no_faults:
  fixes env :: sched_env and now stamp :: time
  assumes f: "faults (sched_store sd) = []"
  defines "d \<equiv> cleanup_due (se_zone env) now (cleanup_time_of (settings (sched_store sd)))
      (text_of setting_cleanup_last_run_date (settings (sched_store sd))) (sd_cleanup_fired sd)"
    and "sd' \<equiv> queue_cleanup_if_due env now stamp sd"
  shows "d = None \<Longrightarrow> sd' = sd"
    and "d = Some date \<Longrightarrow> asked job_cleanup (sched_store sd')
      \<and> settings (sched_store sd') setting_cleanup_last_run_date = Some date \<and> sd_cleanup_fired sd' = date"
proof -
  have q: "sd' = (case d of None \<Rightarrow> sd
      | Some date \<Rightarrow> (case sched_enqueue stamp job_cleanup sd of (queued, sd3) \<Rightarrow>
             if \<not> queued then sd3
             else snd (on_db (set_setting setting_cleanup_last_run_date date) (sd3\<lparr>sd_cleanup_fired := date\<rparr>))))"
    unfolding sd'_def queue_cleanup_if_due_def resolve_cleanup_time_def parsed_reader.on_db_read_no_faults[OF f] prod.case
      text_reader.on_db_read_no_faults[OF f] d_def ..
  show "d = None \<Longrightarrow> sd' = sd" by (simp add: q)
  assume d: "d = Some date"
  obtain b sd3 where e: "sched_enqueue stamp job_cleanup sd = (b, sd3)" by fastforce
  note a = sched_enqueue_asked[OF e f scheduler_targets(2)]
  have f3: "faults (sched_store sd3) = []" using sched_enqueue_adds[OF e] f by (auto simp: adds_def added_def)
  show "asked job_cleanup (sched_store sd')
      \<and> settings (sched_store sd') setting_cleanup_last_run_date = Some date \<and> sd_cleanup_fired sd' = date"
    using a unfolding q d option.case e prod.case
    by (simp add: on_db_def set_setting_def exec_def stmt_no_faults f3 asked_def)
qed

lemma marks_cleanup_tick: "fst (marks (queue_cleanup_if_due env now stamp sd)) = fst (marks sd)"
proof -
  have "fst (marks (snd (on_db f (sd\<lparr>sd_cleanup_fired := d\<rparr>)))) = fst (marks sd)" for f :: "unit act" and d sd
    by (simp add: marks_snd) (simp add: marks_def)
  then show ?thesis unfolding queue_cleanup_if_due_def
    by (auto split: prod.splits option.splits if_splits dest!: marks_on_db_read marks_enqueue)
qed

definition scheduler_kinds :: "string set" where
  "scheduler_kinds = {job_sync, job_cleanup, job_probe_send, job_probe_check, job_notify, job_analyze}"

lemma job_kinds_differ:
  "job_sync \<noteq> job_cleanup" "job_sync \<notin> {job_probe_send, job_probe_check}" "job_cleanup \<notin> {job_probe_send, job_probe_check}"
  "job_notify \<notin> {job_probe_send, job_probe_check, job_sync, job_cleanup}"
  "job_analyze \<notin> {job_probe_send, job_probe_check, job_sync, job_cleanup, job_notify}"
  by code_simp+

lemma cleanup_key_apart:
  "setting_cleanup_last_run_date \<notin> probe_reset_keys" "setting_cleanup_last_run_date \<noteq> setting_agent_limited_until"
  by (simp_all add: probe_reset_keys_def upd_time_def upd_set_def probe_failure_run_reset_def setting_write_of_def) code_simp+

text \<open>The part of a tick after the cleanup.\<close>

definition tick_rest :: "sched_env \<Rightarrow> time \<Rightarrow> time \<Rightarrow> time \<Rightarrow> scheduler \<Rightarrow> scheduler" where
  "tick_rest env prev now stamp sd2 =
     (case on_db (resolve_notification_settings (se_gcm env) None) (queue_probe env prev now stamp sd2) of
           (Inl e, sd4) \<Rightarrow> sd4
         | (Inr ns, sd4) \<Rightarrow>
             queue_analysis_after_limit env now stamp (queue_notify env prev now stamp ns sd4))"

lemma tick_split: "tick env now stamp sd = tick_rest env (sd_last_tick sd) now stamp
    (queue_cleanup_if_due env now stamp (queue_sync env (sd_last_tick sd) now stamp (sd\<lparr>sd_last_tick := now\<rparr>)))"
  by (simp add: tick_def tick_rest_def Let_def)

lemma tick_rest_adds:
  "adds {job_probe_send, job_probe_check, job_notify, job_analyze} (probe_reset_keys \<union> {setting_agent_limited_until})
     sd (tick_rest env prev now stamp sd)" (is "adds ?K ?W _ _")
  and tick_rest_marks: "marks (tick_rest env prev now stamp sd) = marks sd"
proof -
  obtain r sd4 where h: "on_db (resolve_notification_settings (se_gcm env) None) (queue_probe env prev now stamp sd) = (r, sd4)"
    by fastforce
  have p: "adds {job_probe_send, job_probe_check} probe_reset_keys sd sd4"
    using adds_trans[OF queue_probe_adds adds_on_db[OF notification_settings_read[where W = "{}"] h]] by simp
  have n: "adds ({job_probe_send, job_probe_check} \<union> {job_notify}) probe_reset_keys sd (queue_notify env prev now stamp ns sd4)" for ns
    using adds_trans[OF p queue_notify_adds] job_kinds_differ by simp
  have "adds ?K ?W sd (queue_analysis_after_limit env now stamp (queue_notify env prev now stamp ns sd4))" for ns
    by (rule adds_more[OF adds_trans[OF n queue_analysis_adds]]) (use job_kinds_differ in auto)
  then show "adds ?K ?W sd (tick_rest env prev now stamp sd)"
    using adds_more[OF p, of ?K ?W] by (cases r) (auto simp: tick_rest_def h)
  show "marks (tick_rest env prev now stamp sd) = marks sd"
    using marks_on_db[OF h] by (cases r) (simp_all add: tick_rest_def h marks_queue_probe marks_queue_notify marks_queue_analysis)
qed

text \<open>C40: A tick on a database without failures queues the due work and no other: every job it adds is the
  scheduler's, for all mailboxes, queued, and of one of its six kinds, at most one of each. It adds a
  sync job only when a check time came due and some mailbox is enabled, and then a sync job over all
  mailboxes is queued or running; the same holds for the cleanup, whose date is recorded both in the
  settings and in the process. The tick is remembered whatever else happens.\<close>

theorem tick_queues_due_work:
  assumes "faults (sched_store sd) = []"
  shows "(let s = sched_store sd; sd' = tick env now stamp sd; s' = sched_store sd';
           due = due_check_times (se_zone env) (sd_last_tick sd) now (check_times_of (settings s)) (sd_last_fired sd);
           cleanup = cleanup_due (se_zone env) now (cleanup_time_of (settings s))
             (text_of setting_cleanup_last_run_date (settings s)) (sd_cleanup_fired sd);
           new = drop (length (jobs s)) (jobs s')
       in jobs s' = jobs s @ new \<and> list_all queued_by_scheduler new
         \<and> distinct (map j_kind new) \<and> set (map j_kind new) \<subseteq> scheduler_kinds
         \<and> (if due \<noteq> [] \<and> list_ex mb_enabled (mailboxes s) then asked job_sync s' else job_sync \<notin> set (map j_kind new))
         \<and> (case cleanup of
              None \<Rightarrow> job_cleanup \<notin> set (map j_kind new)
            | Some date \<Rightarrow> asked job_cleanup s' \<and> settings s' setting_cleanup_last_run_date = Some date
                \<and> sd_cleanup_fired sd' = date)
         \<and> sd_last_tick sd' = now)"
proof -
  define sd1 where "sd1 = queue_sync env (sd_last_tick sd) now stamp (sd\<lparr>sd_last_tick := now\<rparr>)"
  define sd2 where "sd2 = queue_cleanup_if_due env now stamp sd1"
  define sd3 where "sd3 = tick_rest env (sd_last_tick sd) now stamp sd2"
  have t: "tick env now stamp sd = sd3" by (simp add: tick_split sd1_def sd2_def sd3_def)
  have f0: "faults (sched_store (sd\<lparr>sd_last_tick := now\<rparr>)) = []" using assms by simp
  note sync = queue_sync_no_faults[OF f0, of env "sd_last_tick sd" now stamp, folded sd1_def, simplified]
  from queue_sync_adds[of "sd\<lparr>sd_last_tick := now\<rparr>" env "sd_last_tick sd" now stamp, folded sd1_def] assms
  obtain n1 where n1: "added {job_sync} {} sd sd1 n1" by (auto simp: adds_def added_def)
  then have f1: "faults (sched_store sd1) = []" and s1: "settings (sched_store sd1) = settings (sched_store sd)"
    by (auto simp: added_def)
  from queue_cleanup_adds[of sd1 env now stamp, folded sd2_def] f1
  obtain n2 where n2: "added {job_cleanup} {setting_cleanup_last_run_date} sd1 sd2 n2" by (auto simp: adds_def)
  then have f2: "faults (sched_store sd2) = []" by (simp add: added_def)
  from tick_rest_adds[of sd2 env "sd_last_tick sd" now stamp, folded sd3_def] f2
  obtain n3 where n3: "added {job_probe_send, job_probe_check, job_notify, job_analyze}
      (probe_reset_keys \<union> {setting_agent_limited_until}) sd2 sd3 n3" by (auto simp: adds_def)
  have m1: "marks sd1 = (now, sd_cleanup_fired sd)"
    unfolding sd1_def marks_queue_sync by (simp add: marks_def)
  have m3: "marks sd3 = marks sd2" unfolding sd3_def by (rule tick_rest_marks)
  note n12 = added_trans[OF n1 n2]
  from added_trans[OF this n3] job_kinds_differ
  obtain W where all: "added ({job_sync} \<union> {job_cleanup} \<union> {job_probe_send, job_probe_check, job_notify, job_analyze}) W
      sd sd3 (n1 @ n2 @ n3)" by auto
  have j: "jobs (sched_store sd3) = jobs (sched_store sd) @ n1 @ n2 @ n3" using all by (simp add: added_def)
  have kinds: "set (map j_kind n1) \<subseteq> {job_sync}" "set (map j_kind n2) \<subseteq> {job_cleanup}"
    "set (map j_kind n3) \<subseteq> {job_probe_send, job_probe_check, job_notify, job_analyze}"
    using n1 n2 n3 by (simp_all only: added_def)
  let ?due = "due_check_times (se_zone env) (sd_last_tick sd) now (check_times_of (settings (sched_store sd))) (sd_last_fired sd)"
  let ?found = "?due \<noteq> [] \<and> list_ex mb_enabled (mailboxes (sched_store sd))"
  have sync_part: "if ?found then asked job_sync (sched_store sd3) else job_sync \<notin> set (map j_kind (n1 @ n2 @ n3))"
  proof (cases ?found)
    case True
    from asked_added[OF asked_added[OF sync(1)[OF True] n2] n3] True show ?thesis by simp
  next
    case False
    with sync(2) have "n1 = []" using n1 by (auto simp: added_def)
    with False kinds job_kinds_differ show ?thesis by auto
  qed
  let ?d = "cleanup_due (se_zone env) now (cleanup_time_of (settings (sched_store sd)))
      (text_of setting_cleanup_last_run_date (settings (sched_store sd))) (sd_cleanup_fired sd)"
  have c1: "sd_cleanup_fired sd1 = sd_cleanup_fired sd" using m1 by (simp add: marks_def)
  note cleanup = queue_cleanup_no_faults[OF f1, where env = env and now = now and stamp = stamp, unfolded s1 c1, folded sd2_def]
  have cleanup_part: "case ?d of None \<Rightarrow> job_cleanup \<notin> set (map j_kind (n1 @ n2 @ n3))
      | Some date \<Rightarrow> asked job_cleanup (sched_store sd3)
          \<and> settings (sched_store sd3) setting_cleanup_last_run_date = Some date \<and> sd_cleanup_fired sd3 = date"
  proof (cases ?d)
    case None
    with cleanup(1) have "n2 = []" using n2 by (auto simp: added_def)
    with None kinds job_kinds_differ show ?thesis by auto
  next
    case (Some date)
    note c = cleanup(2)[OF Some]
    have "settings (sched_store sd3) setting_cleanup_last_run_date = settings (sched_store sd2) setting_cleanup_last_run_date"
      using n3 cleanup_key_apart by (simp add: added_def)
    moreover have "sd_cleanup_fired sd3 = sd_cleanup_fired sd2" using m3 by (simp add: marks_def)
    ultimately show ?thesis using asked_added[OF conjunct1[OF c] n3] c Some by simp
  qed
  have "sd_last_tick sd2 = now"
    using m1 marks_cleanup_tick[of env now stamp sd1] unfolding sd2_def by (simp add: marks_def)
  then have last: "sd_last_tick sd3 = now" using m3 by (simp add: marks_def)
  have rest: "list_all queued_by_scheduler (n1 @ n2 @ n3)" "distinct (map j_kind (n1 @ n2 @ n3))"
    "set (map j_kind (n1 @ n2 @ n3)) \<subseteq> scheduler_kinds"
    using all by (auto simp: added_def scheduler_kinds_def)
  have nw: "drop (length (jobs (sched_store sd))) (jobs (sched_store sd3)) = n1 @ n2 @ n3" by (simp add: j)
  show ?thesis unfolding Let_def t nw by (intro conjI j rest sync_part cleanup_part last)
qed

text \<open>A mailbox, the default times, and a tick at 2025-01-01 06:00:20 of a server in Japan that ticked 30 s before.\<close>

definition demo_sched_env :: sched_env where
  "demo_sched_env = \<lparr>se_zone = fixed_zone 32400, se_registry = empty_registry, se_on_path = (\<lambda>_. False), se_gcm = demo_gcm\<rparr>"

definition demo_scheduler :: scheduler where
  "demo_scheduler = (new_scheduler (new_job_manager (empty_store\<lparr>mailboxes := mailboxes demo_db\<rparr>) 2))
     \<lparr>sd_last_tick := 1735678790 * nanos_per_second\<rparr>"

theorem tick_queues_due_work_witness:
  "asked job_sync (sched_store (tick demo_sched_env (1735678820 * nanos_per_second) 7 demo_scheduler))
   \<and> settings (sched_store (tick demo_sched_env (1735678820 * nanos_per_second) 7 demo_scheduler))
       setting_cleanup_last_run_date = Some ''2025-01-01''"
proof -
  have f: "faults (sched_store demo_scheduler) = []" by code_simp
  let ?due = "due_check_times (se_zone demo_sched_env) (sd_last_tick demo_scheduler) (1735678820 * nanos_per_second)
      (check_times_of (settings (sched_store demo_scheduler))) (sd_last_fired demo_scheduler)"
  have "map du_time ?due = [''06:00'']" by code_simp
  then have d1: "?due \<noteq> []" by (metis list.simps(8) list.distinct(1))
  have d2: "list_ex mb_enabled (mailboxes (sched_store demo_scheduler))" by code_simp
  have c: "cleanup_due (se_zone demo_sched_env) (1735678820 * nanos_per_second)
      (cleanup_time_of (settings (sched_store demo_scheduler)))
      (text_of setting_cleanup_last_run_date (settings (sched_store demo_scheduler))) (sd_cleanup_fired demo_scheduler)
      = Some ''2025-01-01''"
  proof -
    have e: "cleanup_time_of (settings (sched_store demo_scheduler)) = ''02:00''"
      "text_of setting_cleanup_last_run_date (settings (sched_store demo_scheduler)) = ''''"
      "sd_cleanup_fired demo_scheduler = ''''" "parse_clock ''02:00'' = Some (2, 0)" by code_simp+
    have z: "se_zone demo_sched_env = fixed_zone 32400" by (simp add: demo_sched_env_def)
    have w: "c_day (civil_of (fixed_zone 32400) (1735678820 * nanos_per_second)) = 20089"
      "date_in (fixed_zone 32400) 20089 2 0 0 0 = 1735664400 * nanos_per_second"
      "format_date (fixed_zone 32400) (1735664400 * nanos_per_second) = ''2025-01-01''" by code_simp+
    show ?thesis unfolding cleanup_due_def e z w option.case prod.case Let_def using w(3) by simp
  qed
  show ?thesis
    using tick_queues_due_work[OF f, of demo_sched_env "1735678820 * nanos_per_second" 7] d1 d2
    unfolding Let_def c by (simp only: option.case if_True simp_thms not_False_eq_True)
qed

end
