(* ===== verification/Mail_Index.thy ===== *)
theory Mail_Index
  imports Db
begin

text \<open>
  The index of one mailbox (app/models: mailindex.go, message.go, bounce.go,
  dmarc_record.go): its tables, and the statements on messages, bounces and DMARC
  records. The groups, their reports and their state history have theories of their
  own. A table is a list in the order of insertion; the row ids are those of
  AUTOINCREMENT. Times are instants, so the code's conversions to UTC leave them alone;
  boolean columns are booleans.
\<close>

section \<open>Rows\<close>

record message =
  ms_id :: int
  ms_key :: string
  ms_folder :: string
  ms_uidvalidity :: int
  ms_uid :: int
  ms_message_id :: string
  ms_subject :: string
  ms_from_address :: string
  ms_from_name :: string
  ms_to_address :: string
  ms_to_name :: string
  ms_date :: time
  ms_received_at :: "time option"
  ms_size :: int
  ms_text_count :: int
  ms_html_count :: int
  ms_body_source :: string
  ms_classified :: bool
  ms_is_bounce :: bool
  ms_bounce_kind :: string
  ms_rule :: string
  ms_fetched_at :: time
  ms_server_deleted_at :: "time option"

record bounce =
  b_id :: int
  b_message :: int
  b_index :: int
  b_group :: string
  b_recipient :: string
  b_recipient_domain :: string
  b_action :: string
  b_status_code :: string
  b_smtp_code :: string
  b_diagnostic :: string
  b_template :: string
  b_source :: string
  b_rule :: string
  b_pattern :: string
  b_remote_mta :: string
  b_remote_ip :: string
  b_reporting_mta :: string
  b_original_id :: string
  b_original_subject :: string
  b_original_from :: string
  b_original_date :: "time option"

record dmarc_record =
  d_id :: int
  d_message :: int
  d_group :: string
  d_rule :: string
  d_template :: string
  d_pattern :: string
  d_report_org :: string
  d_report_id :: string
  d_begin_at :: "time option"
  d_end_at :: "time option"
  d_policy_domain :: string
  d_policy :: string
  d_header_from :: string
  d_envelope_from :: string
  d_source_ip :: string
  d_count :: int
  d_disposition :: string
  d_dkim_result :: string
  d_spf_result :: string
  d_dkim_auth :: string
  d_spf_auth :: string

record bounce_group =
  g_key :: string
  g_category :: string
  g_actionable :: bool
  g_unit :: string
  g_authority :: string
  g_recipient_domain :: string
  g_status_code :: string
  g_template :: string
  g_responsible :: string
  g_state :: string
  g_state_updated_at :: "time option"
  g_state_reason :: "string option"
  g_state_note :: "string option"
  g_needs_recheck :: bool
  g_needs_analysis :: bool
  g_message_count :: int
  g_recipient_count :: int
  g_remote_ip_count :: int
  g_first_seen :: "time option"
  g_last_seen :: "time option"
  g_created_at :: time
  g_updated_at :: time

record agent_report =
  r_id :: int
  r_group :: string
  r_provider :: string
  r_status :: string
  r_severity :: string
  r_responsible :: string
  r_summary :: string
  r_markdown :: string
  r_error_message :: string
  r_confidence :: string
  r_message_count :: int
  r_model :: string
  r_reasoning :: string
  r_tokens_used :: "int option"
  r_command_count :: "int option"
  r_started_at :: "time option"
  r_finished_at :: "time option"
  r_created_at :: time

record state_change =
  sc_id :: int
  sc_group :: string
  sc_state :: string
  sc_reason :: "string option"
  sc_note :: "string option"
  sc_changed_by :: string
  sc_changed_at :: time

record mail_index = db +
  messages :: "message list"
  next_message :: int
  bounces :: "bounce list"
  next_bounce :: int
  dmarc_records :: "dmarc_record list"
  next_dmarc :: int
  groups :: "bounce_group list"
  reports :: "agent_report list"
  next_report :: int
  report_patterns :: "(int \<times> string) list"
  changes :: "state_change list"
  next_change :: int
  change_patterns :: "(int \<times> string) list"

type_synonym 'a idx = "(mail_index, 'a) action"

text \<open>An \<open>INSERT\<close> that a constraint can refuse: a refused one leaves the table and its next id alone.\<close>

definition refused :: "string \<Rightarrow> go_error" where
  "refused what = DbFault (what @ '' constraint failed'')"

definition insert_row :: "(mail_index \<Rightarrow> (go_error + 'a) \<times> mail_index) \<Rightarrow> 'a idx" where
  "insert_row f = act_bind (stmt f) act_of"

section \<open>Messages (message.go)\<close>

text \<open>A message with the group of its first recipient block (the LEFT JOIN of every read).\<close>

definition message_group :: "mail_index \<Rightarrow> message \<Rightarrow> string" where
  "message_group s m =
     (case List.find (\<lambda>b. b_message b = ms_id m \<and> b_index b = 0) (bounces s) of None \<Rightarrow> '''' | Some b \<Rightarrow> b_group b)"

definition insert_message :: "time \<Rightarrow> message \<Rightarrow> message idx" where
  "insert_message now m0 =
     (let fetched = (if ms_fetched_at m0 = zero_time then now else ms_fetched_at m0);
          date = (if ms_date m0 = zero_time then fetched else ms_date m0);
          folder = (if ms_folder m0 = '''' then ''INBOX'' else ms_folder m0);
          m = m0\<lparr>ms_fetched_at := fetched, ms_date := date, ms_folder := folder\<rparr>
      in insert_row (\<lambda>s.
           if list_ex (\<lambda>x. ms_key x = ms_key m
                \<or> ms_folder x = ms_folder m \<and> ms_uidvalidity x = ms_uidvalidity m \<and> ms_uid x = ms_uid m) (messages s)
           then (Inl (refused ''UNIQUE''), s)
           else (let row = m\<lparr>ms_id := next_message s\<rparr>
                 in (Inr row, s\<lparr>messages := messages s @ [row], next_message := next_message s + 1\<rparr>))))"

definition update_messages :: "(message \<Rightarrow> bool) \<Rightarrow> (message \<Rightarrow> message) \<Rightarrow> unit idx" where
  "update_messages P f = exec (\<lambda>s. s\<lparr>messages := map (\<lambda>m. if P m then f m else m) (messages s)\<rparr>)"

definition update_message_classification :: "int \<Rightarrow> bool \<Rightarrow> string \<Rightarrow> string \<Rightarrow> string \<Rightarrow> unit idx" where
  "update_message_classification i is_bounce kind rule body_source =
     update_messages (\<lambda>m. ms_id m = i)
       (\<lambda>m. m\<lparr>ms_is_bounce := is_bounce, ms_bounce_kind := kind, ms_rule := rule,
              ms_body_source := body_source, ms_classified := True\<rparr>)"

definition by_date :: "message \<Rightarrow> time \<times> int" where
  "by_date m = (ms_date m, ms_id m)"

definition list_unclassified_messages :: "message list idx" where
  "list_unclassified_messages = query (\<lambda>s. sort_key by_date (filter (\<lambda>m. \<not> ms_classified m) (messages s)))"

definition list_messages_by_bounce_rule_prefix :: "string \<Rightarrow> message list idx" where
  "list_messages_by_bounce_rule_prefix prefix =
     query (\<lambda>s. sort_key by_date (filter (\<lambda>m. ms_classified m
        \<and> list_ex (\<lambda>b. b_message b = ms_id m \<and> has_prefix (b_rule b) prefix) (bounces s)) (messages s)))"

definition count_unclassified_messages :: "nat idx" where
  "count_unclassified_messages = query (\<lambda>s. length (filter (\<lambda>m. \<not> ms_classified m) (messages s)))"

definition get_message_by_key :: "string \<Rightarrow> message idx" where
  "get_message_by_key key = query_row (\<lambda>s. List.find (\<lambda>m. ms_key m = key) (messages s))"

definition message_exists :: "int \<Rightarrow> int \<Rightarrow> string \<Rightarrow> bool idx" where
  "message_exists uidvalidity uid folder =
     query (\<lambda>s. 0 < length (filter (\<lambda>m. ms_folder m = folder \<and> ms_uidvalidity m = uidvalidity \<and> ms_uid m = uid) (messages s)))"

text \<open>\<^verbatim>\<open>ReidentifyMessage\<close>: the stale rows, the best of them, and the move.\<close>

definition stale_identity :: "string \<Rightarrow> string \<Rightarrow> int \<Rightarrow> message \<Rightarrow> bool" where
  "stale_identity message_id folder uidvalidity m \<longleftrightarrow>
     ms_message_id m = message_id \<and> ms_server_deleted_at m = None
     \<and> (ms_folder m = folder \<and> ms_uidvalidity m \<noteq> uidvalidity \<or> ms_uidvalidity m = 0)"

definition best_stale :: "string \<Rightarrow> string \<Rightarrow> int \<Rightarrow> int \<Rightarrow> message list \<Rightarrow> int option" where
  "best_stale message_id folder uidvalidity sz ms =
     (case sort_key (\<lambda>m. (if ms_size m = sz then 0 else 1 :: int, by_date m))
            (filter (stale_identity message_id folder uidvalidity) ms) of
        [] \<Rightarrow> None | m # _ \<Rightarrow> Some (ms_id m))"

definition reidentify_message :: "string \<Rightarrow> string \<Rightarrow> int \<Rightarrow> int \<Rightarrow> int \<Rightarrow> bool idx" where
  "reidentify_message message_id folder uidvalidity uid sz =
     (if message_id = '''' then act_return False
      else act_try (query_row (\<lambda>s. best_stale message_id folder uidvalidity sz (messages s))) (\<lambda>r. case r of
          Inl NoRows \<Rightarrow> act_return False
        | Inl e \<Rightarrow> act_fail e
        | Inr i \<Rightarrow>
            act_bind (insert_row (\<lambda>s.
                if list_ex (\<lambda>m. ms_id m \<noteq> i \<and> ms_folder m = folder \<and> ms_uidvalidity m = uidvalidity \<and> ms_uid m = uid) (messages s)
                then (Inl (refused ''UNIQUE''), s)
                else (Inr (), s\<lparr>messages := map (\<lambda>m. if ms_id m = i
                        then m\<lparr>ms_folder := folder, ms_uidvalidity := uidvalidity, ms_uid := uid\<rparr> else m) (messages s)\<rparr>)))
              (\<lambda>_. act_return True)))"

definition max_uid_for_validity :: "int \<Rightarrow> string \<Rightarrow> int idx" where
  "max_uid_for_validity uidvalidity folder =
     query (\<lambda>s. foldr max (map ms_uid (filter (\<lambda>m. ms_folder m = folder \<and> ms_uidvalidity m = uidvalidity) (messages s))) 0)"

record expired_message =
  em_id :: int
  em_key :: string
  em_text_count :: int
  em_html_count :: int
  em_groups :: "string list"

text \<open>
  \<^verbatim>\<open>GROUP_CONCAT(DISTINCT ...)\<close> gives no order; a group key is hexadecimal, so splitting at the commas gives the keys back.
\<close>

definition list_messages_older_than :: "time \<Rightarrow> expired_message list idx" where
  "list_messages_older_than cutoff =
     query (\<lambda>s. map (\<lambda>m. \<lparr>em_id = ms_id m, em_key = ms_key m, em_text_count = ms_text_count m, em_html_count = ms_html_count m,
          em_groups = remdups (map b_group (filter (\<lambda>b. b_message b = ms_id m \<and> b_group b \<noteq> '''') (bounces s)))
            @ remdups (map d_group (filter (\<lambda>d. d_message d = ms_id m) (dmarc_records s)))\<rparr>)
       (sort_key by_date (filter (\<lambda>m. ms_date m < cutoff) (messages s))))"

text \<open>\<^verbatim>\<open>ON DELETE CASCADE\<close> of bounces and dmarc_records.\<close>

definition delete_message :: "int \<Rightarrow> unit idx" where
  "delete_message i = exec (\<lambda>s. s\<lparr>messages := filter (\<lambda>m. ms_id m \<noteq> i) (messages s),
     bounces := filter (\<lambda>b. b_message b \<noteq> i) (bounces s), dmarc_records := filter (\<lambda>d. d_message d \<noteq> i) (dmarc_records s)\<rparr>)"

definition list_server_deletion_candidates :: "string \<Rightarrow> time \<Rightarrow> string list \<Rightarrow> message list idx" where
  "list_server_deletion_candidates folder cutoff rules =
     (if rules = [] then act_return []
      else query (\<lambda>s. sort_key by_date (filter (\<lambda>m. ms_classified m \<and> ms_server_deleted_at m = None \<and> ms_folder m = folder
             \<and> ms_uidvalidity m \<noteq> 0 \<and> ms_date m < cutoff \<and> ms_rule m \<in> set rules) (messages s))))"

definition count_classified_by_rules :: "string list \<Rightarrow> nat idx" where
  "count_classified_by_rules rules =
     (if rules = [] then act_return 0
      else query (\<lambda>s. length (filter (\<lambda>m. ms_classified m \<and> ms_rule m \<in> set rules) (messages s))))"

fun mark_server_deleted :: "int list \<Rightarrow> time \<Rightarrow> unit idx" where
  "mark_server_deleted [] at_time = act_return ()"
| "mark_server_deleted (i # is) at_time =
     act_bind (update_messages (\<lambda>m. ms_id m = i) (\<lambda>m. m\<lparr>ms_server_deleted_at := Some at_time\<rparr>))
       (\<lambda>_. mark_server_deleted is at_time)"

record message_source =
  mo_folder :: string
  mo_uidvalidity :: int
  mo_uid :: int
  mo_size :: int
  mo_received_at :: "time option"
  mo_fetched_at :: time
  mo_server_deleted_at :: "time option"

definition list_message_sources :: "(string \<rightharpoonup> message_source) idx" where
  "list_message_sources = query (\<lambda>s. map_of (map (\<lambda>m. (ms_key m,
     \<lparr>mo_folder = ms_folder m, mo_uidvalidity = ms_uidvalidity m, mo_uid = ms_uid m, mo_size = ms_size m,
      mo_received_at = ms_received_at m, mo_fetched_at = ms_fetched_at m, mo_server_deleted_at = ms_server_deleted_at m\<rparr>))
     (messages s)))"

definition count_messages :: "(nat \<times> nat) idx" where
  "count_messages = query (\<lambda>s. (length (messages s), length (filter ms_is_bounce (messages s))))"

definition list_all_messages :: "message list idx" where
  "list_all_messages = query (\<lambda>s. sort_key by_date (messages s))"

section \<open>Bounces (bounce.go)\<close>

definition delete_bounces :: "int \<Rightarrow> unit idx" where
  "delete_bounces i = exec (\<lambda>s. s\<lparr>bounces := filter (\<lambda>b. b_message b \<noteq> i) (bounces s)\<rparr>)"

definition insert_bounce :: "bounce \<Rightarrow> bounce idx" where
  "insert_bounce b = insert_row (\<lambda>s.
     if \<not> list_ex (\<lambda>m. ms_id m = b_message b) (messages s) then (Inl (refused ''FOREIGN KEY''), s)
     else (let row = b\<lparr>b_id := next_bounce s\<rparr>
           in (Inr row, s\<lparr>bounces := bounces s @ [row], next_bounce := next_bounce s + 1\<rparr>)))"

fun insert_bounces :: "int \<Rightarrow> int \<Rightarrow> bounce list \<Rightarrow> unit idx" where
  "insert_bounces i pos [] = act_return ()"
| "insert_bounces i pos (b # bs) =
     act_bind (insert_bounce (b\<lparr>b_message := i, b_index := pos\<rparr>)) (\<lambda>_. insert_bounces i (pos + 1) bs)"

definition replace_bounces :: "int \<Rightarrow> bounce list \<Rightarrow> unit idx" where
  "replace_bounces i bs = act_bind (delete_bounces i) (\<lambda>_. insert_bounces i 0 bs)"

definition get_bounce_by_message_id :: "int \<Rightarrow> bounce idx" where
  "get_bounce_by_message_id i = query_row (\<lambda>s. List.find (\<lambda>b. b_message b = i \<and> b_index b = 0) (bounces s))"

definition list_bounces_by_message :: "int \<Rightarrow> bounce list idx" where
  "list_bounces_by_message i = query (\<lambda>s. sort_key b_index (filter (\<lambda>b. b_message b = i) (bounces s)))"

definition list_bounce_group_keys :: "int \<Rightarrow> string list idx" where
  "list_bounce_group_keys i =
     query (\<lambda>s. sort (remdups (map b_group (filter (\<lambda>b. b_message b = i \<and> b_group b \<noteq> '''') (bounces s)))))"

definition list_bounces_by_group :: "string \<Rightarrow> bounce list idx" where
  "list_bounces_by_group key =
     query (\<lambda>s. sort_key (\<lambda>b. (b_message b, b_index b)) (filter (\<lambda>b. b_group b = key) (bounces s)))"

section \<open>DMARC records (dmarc_record.go)\<close>

definition delete_dmarc_records :: "int \<Rightarrow> unit idx" where
  "delete_dmarc_records i = exec (\<lambda>s. s\<lparr>dmarc_records := filter (\<lambda>d. d_message d \<noteq> i) (dmarc_records s)\<rparr>)"

definition insert_dmarc_record :: "dmarc_record \<Rightarrow> dmarc_record idx" where
  "insert_dmarc_record d = act_try (insert_row (\<lambda>s.
     if \<not> list_ex (\<lambda>m. ms_id m = d_message d) (messages s) then (Inl (refused ''FOREIGN KEY''), s)
     else (let row = d\<lparr>d_id := next_dmarc s\<rparr>
           in (Inr row, s\<lparr>dmarc_records := dmarc_records s @ [row], next_dmarc := next_dmarc s + 1\<rparr>))))
     (\<lambda>r. case r of Inl e \<Rightarrow> act_fail (Wrapped ''insert dmarc record'' e) | Inr row \<Rightarrow> act_return row)"

fun insert_dmarc_records :: "int \<Rightarrow> dmarc_record list \<Rightarrow> unit idx" where
  "insert_dmarc_records i [] = act_return ()"
| "insert_dmarc_records i (d # ds) =
     act_bind (insert_dmarc_record (d\<lparr>d_message := i\<rparr>)) (\<lambda>_. insert_dmarc_records i ds)"

definition replace_dmarc_records :: "int \<Rightarrow> dmarc_record list \<Rightarrow> unit idx" where
  "replace_dmarc_records i ds = act_bind (delete_dmarc_records i) (\<lambda>_. insert_dmarc_records i ds)"

definition list_dmarc_records_by_group :: "string \<Rightarrow> dmarc_record list idx" where
  "list_dmarc_records_by_group key = query (\<lambda>s. sort_key d_id (filter (\<lambda>d. d_group d = key) (dmarc_records s)))"

section \<open>The members of a group\<close>

definition diagnostic_source_dmarc :: string where "diagnostic_source_dmarc = ''dmarc''"

record group_member =
  gm_bounce :: bounce
  gm_message_key :: string
  gm_date :: time
  gm_received_at :: "time option"
  gm_body_source :: string
  gm_dmarc :: "dmarc_record option"

definition or_dash :: "string \<Rightarrow> string" where
  "or_dash s = (if s = '''' then ''-'' else s)"

definition dmarc_summary :: "dmarc_record \<Rightarrow> string" where
  "dmarc_summary r =
     ''DMARC fail for header_from '' @ or_dash (d_header_from r) @ '' from '' @ or_dash (d_source_ip r) @ '' (''
       @ itoa (d_count r) @ '' messages, envelope_from '' @ or_dash (d_envelope_from r) @ ''): dkim '' @ or_dash (d_dkim_result r)
       @ '' ('' @ d_dkim_auth r @ ''); spf '' @ or_dash (d_spf_result r) @ '' ('' @ d_spf_auth r @ ''); disposition ''
       @ or_dash (d_disposition r)"

definition blank_bounce :: bounce where
  "blank_bounce = \<lparr>b_id = 0, b_message = 0, b_index = 0, b_group = '''', b_recipient = '''', b_recipient_domain = '''',
     b_action = '''', b_status_code = '''', b_smtp_code = '''', b_diagnostic = '''', b_template = '''', b_source = '''',
     b_rule = '''', b_pattern = '''', b_remote_mta = '''', b_remote_ip = '''', b_reporting_mta = '''', b_original_id = '''',
     b_original_subject = '''', b_original_from = '''', b_original_date = None\<rparr>"

text \<open>A row joined with its message; the join drops a row without one.\<close>

definition bounce_members :: "mail_index \<Rightarrow> string \<Rightarrow> group_member list" where
  "bounce_members s key =
     map (\<lambda>(m, b). \<lparr>gm_bounce = b, gm_message_key = ms_key m, gm_date = ms_date m, gm_received_at = ms_received_at m,
            gm_body_source = ms_body_source m, gm_dmarc = None\<rparr>)
       (sort_key (\<lambda>(m, b). (- ms_date m, - ms_id m, b_index b))
          (concat (map (\<lambda>b. map (\<lambda>m. (m, b)) (filter (\<lambda>m. ms_id m = b_message b) (messages s)))
             (filter (\<lambda>b. b_group b = key) (bounces s)))))"

definition record_member :: "message \<Rightarrow> dmarc_record \<Rightarrow> group_member" where
  "record_member m r =
     \<lparr>gm_bounce = blank_bounce\<lparr>b_message := d_message r, b_group := d_group r, b_rule := d_rule r, b_pattern := d_pattern r,
        b_template := d_template r, b_diagnostic := dmarc_summary r, b_remote_ip := d_source_ip r,
        b_reporting_mta := d_report_org r, b_source := diagnostic_source_dmarc\<rparr>,
      gm_message_key = ms_key m, gm_date = ms_date m, gm_received_at = None, gm_body_source = ms_body_source m,
      gm_dmarc = Some r\<rparr>"

definition record_members :: "mail_index \<Rightarrow> string \<Rightarrow> group_member list" where
  "record_members s key =
     map (\<lambda>(m, d). record_member m d)
       (sort_key (\<lambda>(m, d). (- ms_date m, - ms_id m, d_id d))
          (concat (map (\<lambda>d. map (\<lambda>m. (m, d)) (filter (\<lambda>m. ms_id m = d_message d) (messages s)))
             (filter (\<lambda>d. d_group d = key) (dmarc_records s)))))"

definition group_members :: "mail_index \<Rightarrow> string \<Rightarrow> group_member list" where
  "group_members s key =
     (if record_members s key = [] then bounce_members s key
      else sort_key (\<lambda>m. - gm_date m) (bounce_members s key @ record_members s key))"

definition list_group_bounces :: "string \<Rightarrow> group_member list idx" where
  "list_group_bounces key =
     act_bind (query (\<lambda>s. bounce_members s key)) (\<lambda>bs.
     act_bind (query (\<lambda>s. record_members s key)) (\<lambda>rs.
       act_return (if rs = [] then bs else sort_key (\<lambda>m. - gm_date m) (bs @ rs))))"

definition list_group_pattern_keys :: "string \<Rightarrow> string list idx" where
  "list_group_pattern_keys key = query (\<lambda>s. sort (remdups
     (map b_pattern (filter (\<lambda>b. b_group b = key) (bounces s)) @ map d_pattern (filter (\<lambda>d. d_group d = key) (dmarc_records s)))))"

definition group_stats :: "string \<Rightarrow> (string list \<times> string list \<times> string list) idx" where
  "group_stats key =
     (let mine = (\<lambda>s. filter (\<lambda>b. b_group b = key) (bounces s));
          given = (\<lambda>xs. sort (remdups (filter (\<lambda>x. x \<noteq> '''') xs)))
      in act_bind (query (\<lambda>s. given (map b_recipient (mine s)))) (\<lambda>recipients.
         act_bind (query (\<lambda>s. given (map b_remote_ip (mine s) @ map d_source_ip (filter (\<lambda>d. d_group d = key) (dmarc_records s)))))
           (\<lambda>ips.
         act_bind (query (\<lambda>s. given (map b_remote_mta (mine s)))) (\<lambda>mtas. act_return (recipients, ips, mtas)))))"

section \<open>Clearing (mailindex.go)\<close>

definition clear_mail_classification :: "unit idx" where
  "clear_mail_classification = transaction (
     act_bind (exec (\<lambda>s. s\<lparr>bounces := []\<rparr>)) (\<lambda>_.
     act_bind (exec (\<lambda>s. s\<lparr>dmarc_records := []\<rparr>)) (\<lambda>_.
       update_messages (\<lambda>_. True) (\<lambda>m. m\<lparr>ms_is_bounce := False, ms_bounce_kind := '''', ms_rule := '''',
         ms_body_source := '''', ms_classified := False\<rparr>))))"

end
