(* ===== verification/Group_Store.thy ===== *)
theory Group_Store
  imports Mail_Index
begin

text \<open>
  The groups table of an index (models/bounce_group.go): every statement of the file.
  Deleting a group takes its reports, its history and their patterns along
  (\<^verbatim>\<open>ON DELETE CASCADE\<close>).
\<close>

section \<open>Groups (bounce_group.go)\<close>

definition group_open :: string where "group_open = ''open''"
definition group_resolved :: string where "group_resolved = ''resolved''"
definition group_ignored :: string where "group_ignored = ''ignored''"

lemmas group_state_defs = group_open_def group_resolved_def group_ignored_def

definition group_label :: "bounce_group \<Rightarrow> string" where
  "group_label g =
     g_category g @ (if g_unit g \<noteq> '''' then '': '' @ g_unit g else '''')
       @ (if g_authority g \<noteq> '''' then '' @ '' @ g_authority g else '''')"

definition update_groups :: "(bounce_group \<Rightarrow> bool) \<Rightarrow> (bounce_group \<Rightarrow> bounce_group) \<Rightarrow> mail_index \<Rightarrow> mail_index" where
  "update_groups P f s = s\<lparr>groups := map (\<lambda>g. if P g then f g else g) (groups s)\<rparr>"

text \<open>The two halves of the \<^verbatim>\<open>INSERT ... ON CONFLICT DO UPDATE\<close>.\<close>

definition new_group :: "time \<Rightarrow> bounce_group \<Rightarrow> bounce_group" where
  "new_group now g =
     g\<lparr>g_state := (if g_state g = '''' then group_open else g_state g), g_state_updated_at := None, g_state_reason := None,
       g_state_note := None, g_needs_recheck := False, g_needs_analysis := g_actionable g, g_message_count := 0,
       g_recipient_count := 0, g_remote_ip_count := 0, g_first_seen := None, g_last_seen := None,
       g_created_at := now, g_updated_at := now\<rparr>"

definition described_as :: "time \<Rightarrow> bounce_group \<Rightarrow> bounce_group \<Rightarrow> bounce_group" where
  "described_as now g old =
     old\<lparr>g_category := g_category g, g_actionable := g_actionable g,
       g_needs_analysis := (if g_actionable old \<and> \<not> g_actionable g then False else g_needs_analysis old),
       g_unit := g_unit g, g_authority := g_authority g, g_recipient_domain := g_recipient_domain g,
       g_status_code := g_status_code g, g_template := g_template g, g_responsible := g_responsible g,
       g_updated_at := now\<rparr>"

definition upsert_group :: "time \<Rightarrow> bounce_group \<Rightarrow> unit idx" where
  "upsert_group now g = exec (\<lambda>s.
     if list_ex (\<lambda>x. g_key x = g_key g) (groups s) then update_groups (\<lambda>x. g_key x = g_key g) (described_as now g) s
     else s\<lparr>groups := groups s @ [new_group now g]\<rparr>)"

text \<open>The members of a group as the counters read them: message, recipient and IP.\<close>

definition counted_members :: "mail_index \<Rightarrow> string \<Rightarrow> (message \<times> string \<times> string) list" where
  "counted_members s key =
     concat (map (\<lambda>(i, recipient, ip). map (\<lambda>m. (m, recipient, ip)) (filter (\<lambda>m. ms_id m = i) (messages s)))
       (map (\<lambda>b. (b_message b, b_recipient b, b_remote_ip b)) (filter (\<lambda>b. b_group b = key) (bounces s))
        @ map (\<lambda>d. (d_message d, '''', d_source_ip d)) (filter (\<lambda>d. d_group d = key) (dmarc_records s))))"

definition least :: "time list \<Rightarrow> time option" where
  "least ts = (case ts of [] \<Rightarrow> None | t # us \<Rightarrow> Some (foldr min us t))"

definition greatest :: "time list \<Rightarrow> time option" where
  "greatest ts = (case ts of [] \<Rightarrow> None | t # us \<Rightarrow> Some (foldr max us t))"

definition distinct_given :: "string list \<Rightarrow> int" where
  "distinct_given xs = int (length (remdups (filter (\<lambda>x. x \<noteq> '''') xs)))"

definition group_counters :: "(message \<times> string \<times> string) list \<Rightarrow> int \<times> int \<times> int \<times> time option \<times> time option" where
  "group_counters ms =
     (int (length (remdups (map (\<lambda>(m, _). ms_id m) ms))), distinct_given (map (\<lambda>(_, r, _). r) ms),
      distinct_given (map (\<lambda>(_, _, ip). ip) ms), least (map (\<lambda>(m, _). ms_date m) ms), greatest (map (\<lambda>(m, _). ms_date m) ms))"

definition refresh_group_counters :: "time \<Rightarrow> string \<Rightarrow> unit idx" where
  "refresh_group_counters now key =
     act_bind (query (\<lambda>s. group_counters (counted_members s key))) (\<lambda>(count, recipients, ips, first, final).
       exec (update_groups (\<lambda>g. g_key g = key)
         (\<lambda>g. g\<lparr>g_message_count := count, g_recipient_count := recipients, g_remote_ip_count := ips,
                g_first_seen := first, g_last_seen := final, g_updated_at := now\<rparr>)))"

definition has_members :: "mail_index \<Rightarrow> string \<Rightarrow> bool" where
  "has_members s key \<longleftrightarrow> list_ex (\<lambda>b. b_group b = key) (bounces s) \<or> list_ex (\<lambda>d. d_group d = key) (dmarc_records s)"

text \<open>Deleting groups with what refers to them.\<close>

definition drop_groups :: "(string \<Rightarrow> bool) \<Rightarrow> mail_index \<Rightarrow> mail_index" where
  "drop_groups P s =
     (let reps = filter (\<lambda>r. \<not> P (r_group r)) (reports s); chs = filter (\<lambda>c. \<not> P (sc_group c)) (changes s)
      in s\<lparr>groups := filter (\<lambda>g. \<not> P (g_key g)) (groups s), reports := reps,
           report_patterns := filter (\<lambda>(i, _). i \<in> set (map r_id reps)) (report_patterns s), changes := chs,
           change_patterns := filter (\<lambda>(i, _). i \<in> set (map sc_id chs)) (change_patterns s)\<rparr>)"

definition delete_empty_groups :: "unit idx" where
  "delete_empty_groups = exec (\<lambda>s. drop_groups (\<lambda>key. \<not> has_members s key) s)"

definition delete_group_if_empty :: "string \<Rightarrow> unit idx" where
  "delete_group_if_empty key = exec (\<lambda>s. drop_groups (\<lambda>k. k = key \<and> \<not> has_members s k) s)"

definition with_state :: "time \<Rightarrow> string \<Rightarrow> string option \<Rightarrow> string option \<Rightarrow> time \<Rightarrow> bool \<Rightarrow> bounce_group \<Rightarrow> bounce_group" where
  "with_state now state reason note at_time needs g =
     g\<lparr>g_state := state, g_state_updated_at := Some at_time, g_state_reason := reason, g_state_note := note,
       g_needs_recheck := False,
       g_needs_analysis := (if state \<noteq> group_open then False else if g_actionable g then needs else g_needs_analysis g),
       g_updated_at := now\<rparr>"

definition set_group_state :: "time \<Rightarrow> string \<Rightarrow> string \<Rightarrow> string option \<Rightarrow> string option \<Rightarrow> time \<Rightarrow> bool \<Rightarrow> unit idx" where
  "set_group_state now key state reason note at_time needs =
     exec (update_groups (\<lambda>g. g_key g = key) (with_state now state reason note at_time needs))"

definition set_group_needs_recheck :: "time \<Rightarrow> string \<Rightarrow> unit idx" where
  "set_group_needs_recheck now key =
     exec (update_groups (\<lambda>g. g_key g = key \<and> g_state g \<noteq> group_open)
       (\<lambda>g. g\<lparr>g_needs_recheck := True, g_needs_analysis := (g_needs_analysis g \<or> g_actionable g), g_updated_at := now\<rparr>))"

definition set_group_needs_analysis :: "time \<Rightarrow> string \<Rightarrow> bool \<Rightarrow> unit idx" where
  "set_group_needs_analysis now key needs =
     exec (update_groups (\<lambda>g. g_key g = key) (\<lambda>g. g\<lparr>g_needs_analysis := needs, g_updated_at := now\<rparr>))"

definition update_group_responsible :: "time \<Rightarrow> string \<Rightarrow> string \<Rightarrow> unit idx" where
  "update_group_responsible now key responsible =
     exec (update_groups (\<lambda>g. g_key g = key) (\<lambda>g. g\<lparr>g_responsible := responsible, g_updated_at := now\<rparr>))"

definition restored_state :: "time \<Rightarrow> bounce_group \<Rightarrow> bounce_group \<Rightarrow> bounce_group" where
  "restored_state now g r =
     r\<lparr>g_state := g_state g, g_state_updated_at := g_state_updated_at g, g_state_reason := g_state_reason g,
       g_state_note := g_state_note g, g_needs_recheck := g_needs_recheck g, g_needs_analysis := g_needs_analysis g,
       g_updated_at := now\<rparr>"

definition restore_group_state :: "time \<Rightarrow> bounce_group \<Rightarrow> unit idx" where
  "restore_group_state now g = exec (update_groups (\<lambda>r. g_key r = g_key g) (restored_state now g))"

definition get_group :: "string \<Rightarrow> bounce_group idx" where
  "get_group key = query_row (\<lambda>s. List.find (\<lambda>g. g_key g = key) (groups s))"

definition group_responsibles_of_message :: "int \<Rightarrow> (string \<rightharpoonup> string) idx" where
  "group_responsibles_of_message i = query (\<lambda>s. map_of (map (\<lambda>g. (g_key g, g_responsible g))
     (filter (\<lambda>g. list_ex (\<lambda>b. b_message b = i \<and> b_group b = g_key g) (bounces s)) (groups s))))"

subsection \<open>Lists\<close>

definition scope_all :: string where "scope_all = ''''"
definition scope_actionable :: string where "scope_actionable = ''actionable''"
definition scope_excluded :: string where "scope_excluded = ''excluded''"

definition in_scope :: "string \<Rightarrow> bounce_group \<Rightarrow> bool" where
  "in_scope scope g \<longleftrightarrow>
     (if scope = scope_actionable then g_actionable g \<or> g_state g \<noteq> group_open
      else if scope = scope_excluded then \<not> g_actionable g \<and> g_state g = group_open
      else True)"

record group_filter =
  gf_state :: string
  gf_responsible :: string
  gf_category :: string
  gf_actionable :: "bool option"
  gf_recheck :: "bool option"
  gf_scope :: string
  gf_query :: string
  gf_sort :: string

text \<open>\<^verbatim>\<open>LIKE\<close> with an escaped pattern: a substring, ASCII letters compared without case.\<close>

definition like_contains :: "string \<Rightarrow> string \<Rightarrow> bool" where
  "like_contains value q \<longleftrightarrow> contains (map lower_char value) (map lower_char q)"

definition group_where :: "group_filter \<Rightarrow> bounce_group \<Rightarrow> bool" where
  "group_where f g \<longleftrightarrow>
     (gf_state f = '''' \<or> g_state g = gf_state f) \<and> (gf_responsible f = '''' \<or> g_responsible g = gf_responsible f)
     \<and> (gf_category f = '''' \<or> g_category g = gf_category f)
     \<and> (case gf_actionable f of None \<Rightarrow> True | Some a \<Rightarrow> g_actionable g = a)
     \<and> (case gf_recheck f of None \<Rightarrow> True | Some a \<Rightarrow> g_needs_recheck g = a)
     \<and> in_scope (gf_scope f) g
     \<and> (let q = trim_space (gf_query f)
        in q = '''' \<or> like_contains (g_unit g) q \<or> like_contains (g_authority g) q
           \<or> like_contains (g_recipient_domain g) q \<or> like_contains (g_template g) q)"

definition valid_group_sort :: "string \<Rightarrow> bool" where
  "valid_group_sort s \<longleftrightarrow> s \<in> {'''', ''last_seen_asc'', ''count_desc'', ''severity''}"

text \<open>The newest of the reports that satisfy a condition.\<close>

definition newest_report :: "(agent_report \<Rightarrow> bool) \<Rightarrow> mail_index \<Rightarrow> agent_report option" where
  "newest_report P s =
     (case sort_key (\<lambda>r. - r_id r) (filter P (reports s)) of [] \<Rightarrow> None | r # _ \<Rightarrow> Some r)"

definition completed_of :: "string \<Rightarrow> agent_report \<Rightarrow> bool" where
  "completed_of key r \<longleftrightarrow> r_group r = key \<and> r_status r = ''completed''"

definition severity_rank :: "mail_index \<Rightarrow> bounce_group \<Rightarrow> int" where
  "severity_rank s g =
     (case newest_report (completed_of (g_key g)) s of
        None \<Rightarrow> 3
      | Some r \<Rightarrow> if r_severity r = ''high'' then 0 else if r_severity r = ''medium'' then 1
                  else if r_severity r = ''low'' then 2 else 3)"

text \<open>\<^verbatim>\<open>NULL\<close> sorts before every date, so after them when newest come first.\<close>

definition newest_first :: "time option \<Rightarrow> int \<times> int" where
  "newest_first t = (case t of None \<Rightarrow> (1, 0) | Some t \<Rightarrow> (0, - t))"

definition group_order :: "string \<Rightarrow> mail_index \<Rightarrow> bounce_group \<Rightarrow> int \<times> int \<times> int" where
  "group_order srt s g =
     (if srt = ''last_seen_asc'' then (0, (case g_last_seen g of None \<Rightarrow> (0, 0) | Some t \<Rightarrow> (1, t)))
      else if srt = ''count_desc'' then (- g_message_count g, newest_first (g_last_seen g))
      else if srt = ''severity'' then (severity_rank s g, newest_first (g_last_seen g))
      else (0, newest_first (g_last_seen g)))"

definition group_rank :: "string \<Rightarrow> mail_index \<Rightarrow> bounce_group \<Rightarrow> int \<times> int \<times> (int \<times> int \<times> int) \<times> string" where
  "group_rank srt s g =
     ((if g_state g = group_open then 0 else if g_state g = group_resolved then 1 else 2),
      (if g_needs_recheck g then 0 else 1), group_order srt s g, g_key g)"

definition list_groups :: "group_filter \<Rightarrow> bounce_group list idx" where
  "list_groups f = query (\<lambda>s. sort_key (group_rank (gf_sort f) s) (filter (group_where f) (groups s)))"

text \<open>\<^verbatim>\<open>LIMIT\<close> and \<^verbatim>\<open>OFFSET\<close>: a negative limit is none, a negative offset 0.\<close>

definition page_of :: "int \<Rightarrow> int \<Rightarrow> 'a list \<Rightarrow> 'a list" where
  "page_of offset limit xs = (let rest = drop (nat offset) xs in if limit < 0 then rest else take (nat limit) rest)"

definition list_groups_page :: "group_filter \<Rightarrow> int \<Rightarrow> int \<Rightarrow> (bounce_group list \<times> nat) idx" where
  "list_groups_page f offset limit =
     act_bind (query (\<lambda>s. length (filter (group_where f) (groups s)))) (\<lambda>total.
     act_bind (query (\<lambda>s. page_of offset limit (sort_key (group_rank (gf_sort f) s) (filter (group_where f) (groups s)))))
       (\<lambda>gs. act_return (gs, total)))"

definition oldest_seen_first :: "bounce_group \<Rightarrow> int \<times> int" where
  "oldest_seen_first g = (case g_last_seen g of None \<Rightarrow> (0, 0) | Some t \<Rightarrow> (1, t))"

definition list_groups_needing_analysis :: "bounce_group list idx" where
  "list_groups_needing_analysis = query (\<lambda>s. sort_key oldest_seen_first (filter g_needs_analysis (groups s)))"

record group_counts =
  gc_open :: nat
  gc_resolved :: nat
  gc_resolved_recheck :: nat
  gc_ignored :: nat
  gc_ignored_recheck :: nat

definition count_groups :: "string \<Rightarrow> group_counts idx" where
  "count_groups scope = query (\<lambda>s.
     let gs = filter (in_scope scope) (groups s);
         n = (\<lambda>state recheck. length (filter (\<lambda>g. g_state g = state \<and> g_needs_recheck g = recheck) gs))
     in \<lparr>gc_open = n group_open True + n group_open False, gc_resolved = n group_resolved False,
         gc_resolved_recheck = n group_resolved True, gc_ignored = n group_ignored False,
         gc_ignored_recheck = n group_ignored True\<rparr>)"

end
