(* ===== verification/Group_History.thy ===== *)
theory Group_History
  imports Group_Store
begin

text \<open>
  The reports of the agent and the state history of the groups (app/models:
  agent_report.go, agent_report_pattern.go, group_state_change.go,
  group_state_change_pattern.go): every statement of these files.
\<close>

section \<open>Reports (agent_report.go)\<close>

definition report_running :: string where "report_running = ''running''"
definition report_completed :: string where "report_completed = ''completed''"
definition report_error :: string where "report_error = ''error''"

definition missing_group :: "mail_index \<Rightarrow> string \<Rightarrow> bool" where
  "missing_group s key \<longleftrightarrow> \<not> list_ex (\<lambda>g. g_key g = key) (groups s)"

definition insert_agent_report :: "time \<Rightarrow> agent_report \<Rightarrow> agent_report idx" where
  "insert_agent_report now r0 =
     (let r = r0\<lparr>r_status := (if r_status r0 = '''' then report_running else r_status r0)\<rparr>
      in insert_row (\<lambda>s.
           if missing_group s (r_group r) then (Inl (refused ''FOREIGN KEY''), s)
           else (Inr (r\<lparr>r_id := next_report s, r_started_at := Some now, r_created_at := now\<rparr>),
                 s\<lparr>reports := reports s @ [r\<lparr>r_id := next_report s, r_severity := '''', r_responsible := '''', r_summary := '''',
                     r_markdown := '''', r_error_message := '''', r_confidence := '''', r_model := '''', r_reasoning := '''',
                     r_tokens_used := None, r_command_count := None, r_started_at := Some now, r_finished_at := None,
                     r_created_at := now\<rparr>],
                   next_report := next_report s + 1\<rparr>)))"

definition update_reports :: "(agent_report \<Rightarrow> bool) \<Rightarrow> (agent_report \<Rightarrow> agent_report) \<Rightarrow> unit idx" where
  "update_reports P f = exec (\<lambda>s. s\<lparr>reports := map (\<lambda>r. if P r then f r else r) (reports s)\<rparr>)"

definition complete_agent_report :: "time \<Rightarrow> int \<Rightarrow> string \<Rightarrow> string \<Rightarrow> string \<Rightarrow> string \<Rightarrow> string \<Rightarrow> unit idx" where
  "complete_agent_report now i summary responsible severity confidence markdown =
     update_reports (\<lambda>r. r_id r = i)
       (\<lambda>r. r\<lparr>r_status := report_completed, r_summary := summary, r_responsible := responsible, r_severity := severity,
              r_confidence := confidence, r_markdown := markdown, r_finished_at := Some now\<rparr>)"

record agent_run_usage =
  us_model :: string
  us_reasoning :: string
  us_tokens :: "int option"
  us_commands :: "int option"

definition update_agent_report_usage :: "int \<Rightarrow> agent_run_usage \<Rightarrow> unit idx" where
  "update_agent_report_usage i u =
     update_reports (\<lambda>r. r_id r = i)
       (\<lambda>r. r\<lparr>r_model := us_model u, r_reasoning := us_reasoning u, r_tokens_used := us_tokens u,
              r_command_count := us_commands u\<rparr>)"

definition fail_agent_report :: "time \<Rightarrow> int \<Rightarrow> string \<Rightarrow> unit idx" where
  "fail_agent_report now i msg =
     update_reports (\<lambda>r. r_id r = i)
       (\<lambda>r. r\<lparr>r_status := report_error, r_error_message := msg, r_finished_at := Some now\<rparr>)"

definition restore_agent_report :: "agent_report \<Rightarrow> unit idx" where
  "restore_agent_report r =
     (if r_id r \<le> 0 then act_fail (Plain ''restore agent report: missing id'')
      else insert_row (\<lambda>s.
        if list_ex (\<lambda>x. r_id x = r_id r) (reports s) then (Inl (refused ''UNIQUE''), s)
        else if missing_group s (r_group r) then (Inl (refused ''FOREIGN KEY''), s)
        else (Inr (), s\<lparr>reports := reports s @ [r], next_report := max (next_report s) (r_id r + 1)\<rparr>)))"

definition latest_agent_report :: "string \<Rightarrow> agent_report idx" where
  "latest_agent_report key = query_row (newest_report (\<lambda>r. r_group r = key))"

definition latest_completed_agent_report :: "string \<Rightarrow> agent_report idx" where
  "latest_completed_agent_report key = query_row (newest_report (completed_of key))"

definition latest_completed_agent_reports :: "agent_report list idx" where
  "latest_completed_agent_reports = query (\<lambda>s. filter (\<lambda>r. r_status r = report_completed
     \<and> newest_report (completed_of (r_group r)) s = Some r) (reports s))"

definition list_agent_reports :: "string \<Rightarrow> agent_report list idx" where
  "list_agent_reports key = query (\<lambda>s. sort_key (\<lambda>r. - r_id r) (filter (\<lambda>r. r_group r = key) (reports s)))"

definition list_all_agent_reports :: "agent_report list idx" where
  "list_all_agent_reports = query (\<lambda>s. sort_key r_id (reports s))"

definition reset_running_agent_reports :: "time \<Rightarrow> string \<Rightarrow> unit idx" where
  "reset_running_agent_reports now reason =
     update_reports (\<lambda>r. r_status r = report_running)
       (\<lambda>r. r\<lparr>r_status := report_error, r_error_message := reason, r_finished_at := Some now\<rparr>)"

section \<open>What a report covered (agent_report_pattern.go)\<close>

definition insert_report_pattern :: "int \<Rightarrow> string \<Rightarrow> unit idx" where
  "insert_report_pattern i k = insert_row (\<lambda>s.
     if \<not> list_ex (\<lambda>r. r_id r = i) (reports s) then (Inl (refused ''FOREIGN KEY''), s)
     else (Inr (), if (i, k) \<in> set (report_patterns s) then s else s\<lparr>report_patterns := report_patterns s @ [(i, k)]\<rparr>))"

fun insert_agent_report_patterns :: "int \<Rightarrow> string list \<Rightarrow> unit idx" where
  "insert_agent_report_patterns i [] = act_return ()"
| "insert_agent_report_patterns i (k # ks) =
     act_bind (insert_report_pattern i k) (\<lambda>_. insert_agent_report_patterns i ks)"

definition patterns_of :: "(int \<times> string) list \<Rightarrow> int \<Rightarrow> string list" where
  "patterns_of ps i = map snd (filter (\<lambda>(j, _). j = i) ps)"

definition list_agent_report_patterns :: "int \<Rightarrow> string list idx" where
  "list_agent_report_patterns i = query (\<lambda>s. sort (patterns_of (report_patterns s) i))"

definition list_all_agent_report_patterns :: "(int \<Rightarrow> string list) idx" where
  "list_all_agent_report_patterns = query (\<lambda>s i. sort (patterns_of (report_patterns s) i))"

text \<open>The latest report of a group that settled it: it recorded patterns.\<close>

definition settling_report :: "mail_index \<Rightarrow> string \<Rightarrow> int option" where
  "settling_report s key =
     map_option r_id (newest_report (\<lambda>r. r_group r = key \<and> list_ex (\<lambda>(i, _). i = r_id r) (report_patterns s)) s)"

definition covered_by :: "mail_index \<Rightarrow> string \<Rightarrow> string \<Rightarrow> bool" where
  "covered_by s key k =
     (case settling_report s key of None \<Rightarrow> False | Some i \<Rightarrow> (i, k) \<in> set (report_patterns s))"

definition pattern_covered :: "string \<Rightarrow> string \<Rightarrow> bool idx" where
  "pattern_covered key k = query (\<lambda>s. covered_by s key k)"

definition uncovered_member :: "mail_index \<Rightarrow> string \<Rightarrow> bool" where
  "uncovered_member s key \<longleftrightarrow>
     list_ex (\<lambda>b. b_group b = key \<and> \<not> covered_by s key (b_pattern b)) (bounces s)
     \<or> list_ex (\<lambda>d. d_group d = key \<and> \<not> covered_by s key (d_pattern d)) (dmarc_records s)"

definition group_has_uncovered_pattern :: "string \<Rightarrow> bool idx" where
  "group_has_uncovered_pattern key = query (\<lambda>s. uncovered_member s key)"

section \<open>The state history (group_state_change.go)\<close>

definition resolve_actions :: "string list" where
  "resolve_actions = [''delisting'', ''dns_fixed'', ''server_fixed'', ''sender_changed'', ''content_changed'',
     ''volume_adjusted'', ''recipient_fixed'', ''recipient_asked'', ''other'']"

definition ignore_reasons :: "string list" where
  "ignore_reasons = [''temporary'', ''recipient_side'', ''input_error'', ''stopped_sending'', ''spoofing'',
     ''external_service'', ''false_positive'', ''low_impact'', ''test_mail'', ''other'']"

definition reason_other :: string where "reason_other = ''other''"

definition insert_group_state_change :: "state_change \<Rightarrow> state_change idx" where
  "insert_group_state_change c = insert_row (\<lambda>s.
     if missing_group s (sc_group c) then (Inl (refused ''FOREIGN KEY''), s)
     else (let row = c\<lparr>sc_id := next_change s\<rparr>
           in (Inr row, s\<lparr>changes := changes s @ [row], next_change := next_change s + 1\<rparr>)))"

definition restore_group_state_change :: "state_change \<Rightarrow> unit idx" where
  "restore_group_state_change c =
     (if sc_id c \<le> 0 then act_fail (Plain ''restore group state change: missing id'')
      else insert_row (\<lambda>s.
        if list_ex (\<lambda>x. sc_id x = sc_id c) (changes s) then (Inl (refused ''UNIQUE''), s)
        else if missing_group s (sc_group c) then (Inl (refused ''FOREIGN KEY''), s)
        else (Inr (), s\<lparr>changes := changes s @ [c], next_change := max (next_change s) (sc_id c + 1)\<rparr>)))"

definition history_of :: "mail_index \<Rightarrow> string \<Rightarrow> state_change list" where
  "history_of s key = sort_key (\<lambda>c. - sc_id c) (filter (\<lambda>c. sc_group c = key) (changes s))"

definition list_group_state_changes :: "string \<Rightarrow> state_change list idx" where
  "list_group_state_changes key = query (\<lambda>s. history_of s key)"

definition list_all_group_state_changes :: "state_change list idx" where
  "list_all_group_state_changes = query (\<lambda>s. sort_key sc_id (changes s))"

definition latest_group_state_change :: "string \<Rightarrow> state_change idx" where
  "latest_group_state_change key = query_row (\<lambda>s. case history_of s key of [] \<Rightarrow> None | c # _ \<Rightarrow> Some c)"

section \<open>The members at a change (group_state_change_pattern.go)\<close>

definition insert_change_pattern :: "int \<Rightarrow> string \<Rightarrow> unit idx" where
  "insert_change_pattern i k = insert_row (\<lambda>s.
     if \<not> list_ex (\<lambda>c. sc_id c = i) (changes s) then (Inl (refused ''FOREIGN KEY''), s)
     else (Inr (), if (i, k) \<in> set (change_patterns s) then s else s\<lparr>change_patterns := change_patterns s @ [(i, k)]\<rparr>))"

fun insert_group_state_change_patterns :: "int \<Rightarrow> string list \<Rightarrow> unit idx" where
  "insert_group_state_change_patterns i [] = act_return ()"
| "insert_group_state_change_patterns i (k # ks) =
     act_bind (insert_change_pattern i k) (\<lambda>_. insert_group_state_change_patterns i ks)"

definition list_group_state_change_patterns :: "int \<Rightarrow> string list idx" where
  "list_group_state_change_patterns i = query (\<lambda>s. patterns_of (change_patterns s) i)"

definition list_all_group_state_change_patterns :: "(int \<Rightarrow> string list) idx" where
  "list_all_group_state_change_patterns = query (\<lambda>s i. sort (patterns_of (change_patterns s) i))"

definition list_state_changes_without_patterns :: "(int \<times> string) list idx" where
  "list_state_changes_without_patterns =
     query (\<lambda>s. map (\<lambda>c. (sc_id c, sc_group c))
       (filter (\<lambda>c. \<not> list_ex (\<lambda>(i, _). i = sc_id c) (change_patterns s)) (changes s)))"

end
