(* ===== verification/Regex.thy ===== *)
theory Regex
  imports Prelude
begin

text \<open>
  Go's \<^verbatim>\<open>regexp\<close> as the modelled code uses it: leftmost-first matching, as a
  backtracking search would find the match. An expression is its syntax tree, and
  \<open>rx_ends\<close> lists the ends of its matches at a position, the preferred one first. A
  repetition stops where its body matches the empty string.

  A character is a byte. The classes of the modelled expressions are ASCII or
  complements of ASCII sets under a star, so matching bytes and matching the characters of
  a UTF-8 text give the same.
\<close>

datatype rx =
    Rx_empty
  | Rx_class "char \<Rightarrow> bool"
  | Rx_seq rx rx
  | Rx_alt rx rx
  | Rx_star rx                 \<comment> \<open>\<^verbatim>\<open>*\<close>\<close>
  | Rx_lazy rx                 \<comment> \<open>\<^verbatim>\<open>*?\<close>\<close>
  | Rx_group nat rx            \<comment> \<open>a capturing group with its number\<close>
  | Rx_assert "char option \<Rightarrow> char option \<Rightarrow> bool"  \<comment> \<open>on the characters before and after\<close>

text \<open>A position: the character before it, what follows it, and the groups captured so far.\<close>

type_synonym rx_pos = "char option \<times> string \<times> (nat \<times> string) list"

definition next_char :: "string \<Rightarrow> char option" where
  "next_char s = (case s of [] \<Rightarrow> None | c # _ \<Rightarrow> Some c)"

fun rx_repeat :: "bool \<Rightarrow> (rx_pos \<Rightarrow> rx_pos list) \<Rightarrow> nat \<Rightarrow> rx_pos \<Rightarrow> rx_pos list" where
  "rx_repeat greedy body 0 st = [st]"
| "rx_repeat greedy body (Suc n) st =
     (let more = concat (map (rx_repeat greedy body n)
                   (filter (\<lambda>st'. length (fst (snd st')) < length (fst (snd st))) (body st)))
      in if greedy then more @ [st] else st # more)"

primrec rx_ends :: "rx \<Rightarrow> rx_pos \<Rightarrow> rx_pos list" where
  "rx_ends Rx_empty = (\<lambda>st. [st])"
| "rx_ends (Rx_class P) = (\<lambda>(p, s, caps). case s of [] \<Rightarrow> [] | c # cs \<Rightarrow> if P c then [(Some c, cs, caps)] else [])"
| "rx_ends (Rx_seq a b) = (\<lambda>st. concat (map (rx_ends b) (rx_ends a st)))"
| "rx_ends (Rx_alt a b) = (\<lambda>st. rx_ends a st @ rx_ends b st)"
| "rx_ends (Rx_star a) = (\<lambda>st. rx_repeat True (rx_ends a) (length (fst (snd st))) st)"
| "rx_ends (Rx_lazy a) = (\<lambda>st. rx_repeat False (rx_ends a) (length (fst (snd st))) st)"
| "rx_ends (Rx_group i a) = (\<lambda>(p, s, caps).
     map (\<lambda>(q, t, caps'). (q, t, (i, take (length s - length t) s) # caps')) (rx_ends a (p, s, caps)))"
| "rx_ends (Rx_assert f) = (\<lambda>(p, s, caps). if f p (next_char s) then [(p, s, caps)] else [])"

section \<open>Notation of the expressions\<close>

definition rx_char :: "char \<Rightarrow> rx" where "rx_char c = Rx_class (\<lambda>x. x = c)"

fun rx_lit :: "string \<Rightarrow> rx" where
  "rx_lit [] = Rx_empty"
| "rx_lit [c] = rx_char c"
| "rx_lit (c # cs) = Rx_seq (rx_char c) (rx_lit cs)"

fun rx_seqs :: "rx list \<Rightarrow> rx" where
  "rx_seqs [] = Rx_empty"
| "rx_seqs [r] = r"
| "rx_seqs (r # rs) = Rx_seq r (rx_seqs rs)"

fun rx_alts :: "rx list \<Rightarrow> rx" where
  "rx_alts [] = Rx_class (\<lambda>_. False)"
| "rx_alts [r] = r"
| "rx_alts (r # rs) = Rx_alt r (rx_alts rs)"

definition rx_opt :: "rx \<Rightarrow> rx" where "rx_opt r = Rx_alt r Rx_empty"
definition rx_plus :: "rx \<Rightarrow> rx" where "rx_plus r = Rx_seq r (Rx_star r)"

text \<open>\<^verbatim>\<open>{n}\<close>, \<^verbatim>\<open>{0,n}\<close> and \<^verbatim>\<open>{m,n}\<close>.\<close>

fun rx_times :: "nat \<Rightarrow> rx \<Rightarrow> rx" where
  "rx_times 0 r = Rx_empty"
| "rx_times (Suc n) r = Rx_seq r (rx_times n r)"

fun rx_up_to :: "nat \<Rightarrow> rx \<Rightarrow> rx" where
  "rx_up_to 0 r = Rx_empty"
| "rx_up_to (Suc n) r = Rx_alt (Rx_seq r (rx_up_to n r)) Rx_empty"

definition rx_between :: "nat \<Rightarrow> nat \<Rightarrow> rx \<Rightarrow> rx" where
  "rx_between m n r = Rx_seq (rx_times m r) (rx_up_to (n - m) r)"

text \<open>\<^verbatim>\<open>\d\<close>, \<^verbatim>\<open>\s\<close>, \<^verbatim>\<open>\b\<close>, and the beginning and end of the text or, with \<^verbatim>\<open>(?m)\<close>, of a line.\<close>

definition is_word_char :: "char \<Rightarrow> bool" where
  "is_word_char c \<longleftrightarrow> is_digit_char c \<or> is_lower_char c \<or> is_upper_char c \<or> c = CHR ''_''"

definition rx_digit :: rx where "rx_digit = Rx_class is_digit_char"
definition rx_space :: rx where
  "rx_space = Rx_class (\<lambda>c. c \<in> {CHR 0x09, CHR 0x0A, CHR 0x0C, CHR 0x0D, CHR '' ''})"
definition rx_word_boundary :: rx where
  "rx_word_boundary = Rx_assert (\<lambda>p n.
     (case p of None \<Rightarrow> False | Some c \<Rightarrow> is_word_char c) \<noteq> (case n of None \<Rightarrow> False | Some c \<Rightarrow> is_word_char c))"
definition rx_begin :: rx where "rx_begin = Rx_assert (\<lambda>p n. p = None)"
definition rx_end :: rx where "rx_end = Rx_assert (\<lambda>p n. n = None)"
definition rx_line_begin :: rx where "rx_line_begin = Rx_assert (\<lambda>p n. p = None \<or> p = Some (CHR 0x0A))"
definition rx_line_end :: rx where "rx_line_end = Rx_assert (\<lambda>p n. n = None \<or> n = Some (CHR 0x0A))"

section \<open>Searching\<close>

text \<open>The first match: what is before it, the match, its groups, and the position after it.\<close>

fun rx_find_from :: "rx \<Rightarrow> char option \<Rightarrow> string \<Rightarrow> (string \<times> string \<times> (nat \<times> string) list \<times> char option \<times> string) option" where
  "rx_find_from r p s =
     (case rx_ends r (p, s, []) of
        (q, t, caps) # _ \<Rightarrow> Some ([], take (length s - length t) s, caps, q, t)
      | [] \<Rightarrow> (case s of
            [] \<Rightarrow> None
          | c # cs \<Rightarrow> map_option (\<lambda>(before, rest). (c # before, rest)) (rx_find_from r (Some c) cs)))"

declare rx_find_from.simps [simp del]

text \<open>\<^verbatim>\<open>MatchString\<close>, \<^verbatim>\<open>FindString\<close> and the group of \<^verbatim>\<open>FindStringSubmatch\<close> (empty when it took no part).\<close>

definition rx_matches :: "rx \<Rightarrow> string \<Rightarrow> bool" where
  "rx_matches r s \<longleftrightarrow> rx_find_from r None s \<noteq> None"

definition rx_find :: "rx \<Rightarrow> string \<Rightarrow> string option" where
  "rx_find r s = map_option (\<lambda>(_, m, _). m) (rx_find_from r None s)"

definition rx_submatch :: "rx \<Rightarrow> string \<Rightarrow> (nat \<Rightarrow> string) option" where
  "rx_submatch r s =
     map_option (\<lambda>(_, m, caps, _) i. if i = 0 then m else (case map_of caps i of None \<Rightarrow> [] | Some t \<Rightarrow> t))
       (rx_find_from r None s)"

text \<open>
  \<^verbatim>\<open>ReplaceAllStringFunc\<close> and its relatives for an expression that never matches the
  empty string; the replacement gets the match and its groups.
\<close>

function rx_replace_from :: "rx \<Rightarrow> (string \<Rightarrow> (nat \<times> string) list \<Rightarrow> string) \<Rightarrow> char option \<Rightarrow> string \<Rightarrow> string" where
  "rx_replace_from r f p s =
     (case filter (\<lambda>(q, t, caps). length t < length s) (rx_ends r (p, s, [])) of
        (q, t, caps) # _ \<Rightarrow>
          if length t < length s then f (take (length s - length t) s) caps @ rx_replace_from r f q t else []
      | [] \<Rightarrow> (case s of [] \<Rightarrow> [] | c # cs \<Rightarrow> c # rx_replace_from r f (Some c) cs))"
  by pat_completeness auto
termination
  by (relation "measure (\<lambda>(r, f, p, s). length s)") auto

declare rx_replace_from.simps [simp del]

definition rx_replace :: "rx \<Rightarrow> (string \<Rightarrow> string) \<Rightarrow> string \<Rightarrow> string" where
  "rx_replace r f s = rx_replace_from r (\<lambda>m _. f m) None s"

end
