(* ===== verification/Group_Keys.thy ===== *)
theory Group_Keys
  imports Mail_Index Categories Clock Netip_Text Regex
begin

text \<open>
  The keys that file a notice (mailengine: grouping.go, sections.go and the keys of
  recheck.go): the key of a group and of a pattern, which are the first 16 hexadecimal
  digits of a SHA-1, the kind of a diagnostic source, and of a member of a group its
  re-check key and the time its mail was sent.
\<close>

unbundle bit_operations_syntax

section \<open>SHA-1 (\<^verbatim>\<open>crypto/sha1\<close>)\<close>

type_synonym word32 = "32 word"

definition word_of_bytes :: "nat list \<Rightarrow> word32" where
  "word_of_bytes bs = foldl (\<lambda>w b. push_bit 8 w OR of_nat b) 0 bs"

fun chunks :: "nat \<Rightarrow> nat \<Rightarrow> 'a list \<Rightarrow> 'a list list" where
  "chunks k 0 xs = []"
| "chunks k (Suc n) xs = take k xs # chunks k n (drop k xs)"

definition sha1_padded :: "nat list \<Rightarrow> nat list" where
  "sha1_padded bs =
     (let n = length bs; bits = 8 * n
      in bs @ [128] @ replicate ((119 - n mod 64) mod 64) 0
           @ map (\<lambda>i. take_bit 8 (drop_bit (8 * (7 - i)) bits)) [0..<8])"

text \<open>The message schedule, newest word first: \<open>n\<close> more words.\<close>

fun sha1_schedule :: "nat \<Rightarrow> word32 list \<Rightarrow> word32 list" where
  "sha1_schedule 0 ws = ws"
| "sha1_schedule (Suc n) ws =
     sha1_schedule n (word_rotl 1 (ws ! 2 XOR ws ! 7 XOR ws ! 13 XOR ws ! 15) # ws)"

type_synonym sha1_state = "word32 \<times> word32 \<times> word32 \<times> word32 \<times> word32"

definition sha1_round :: "sha1_state \<Rightarrow> nat \<times> word32 \<Rightarrow> sha1_state" where
  "sha1_round st tw =
     (case st of (a, b, c, d, e) \<Rightarrow> case tw of (t, w) \<Rightarrow>
        let (f, k) =
          (if t < 20 then ((b AND c) OR (NOT b AND d), 0x5A827999)
           else if t < 40 then (b XOR c XOR d, 0x6ED9EBA1)
           else if t < 60 then ((b AND c) OR (b AND d) OR (c AND d), 0x8F1BBCDC)
           else (b XOR c XOR d, 0xCA62C1D6))
        in (word_rotl 5 a + f + e + k + w, a, word_rotl 30 b, c, d))"

definition sha1_block :: "sha1_state \<Rightarrow> nat list \<Rightarrow> sha1_state" where
  "sha1_block h block =
     (let ws = rev (sha1_schedule 64 (rev (map word_of_bytes (chunks 4 16 block))))
      in case (h, foldl sha1_round h (zip [0..<80] ws)) of
           ((h0, h1, h2, h3, h4), (a, b, c, d, e)) \<Rightarrow> (h0 + a, h1 + b, h2 + c, h3 + d, h4 + e))"

definition sha1 :: "nat list \<Rightarrow> word32 list" where
  "sha1 bs =
     (let p = sha1_padded bs
      in case foldl sha1_block (0x67452301, 0xEFCDAB89, 0x98BADCFE, 0x10325476, 0xC3D2E1F0)
                (chunks 64 (length p div 64) p) of
           (a, b, c, d, e) \<Rightarrow> [a, b, c, d, e])"

text \<open>\<^verbatim>\<open>hex.EncodeToString\<close> of the sum.\<close>

definition word_hex :: "word32 \<Rightarrow> string" where
  "word_hex w = map (\<lambda>i. hex_digit_char (unat (drop_bit (4 * (7 - i)) w AND 15))) [0..<8]"

definition sha1_hex :: "string \<Rightarrow> string" where
  "sha1_hex s = concat (map word_hex (sha1 (map of_char s)))"

section \<open>Group and pattern keys (grouping.go)\<close>

definition group_key_part :: "string \<Rightarrow> string" where
  "group_key_part v = to_lower (trim_space v)"

definition group_key :: "string \<Rightarrow> string \<Rightarrow> string \<Rightarrow> string" where
  "group_key category unit_value authority =
     take 16 (sha1_hex (group_key_part category @ ''|'' @ group_key_part unit_value @ ''|'' @ group_key_part authority))"

text \<open>
  A number right after an \<^verbatim>\<open><id>\<close> placeholder and its separator, \<^verbatim>\<open>(<id>[.\-])[0-9]+\b\<close>
  replaced by \<^verbatim>\<open>$1<n>\<close>.
\<close>

definition pattern_id_tail_re :: rx where
  "pattern_id_tail_re =
     rx_seqs [Rx_group 1 (rx_seqs [rx_lit ''<id>'', Rx_class (\<lambda>c. c \<in> {CHR ''.'', CHR ''-''})]),
              rx_plus rx_digit, rx_word_boundary]"

definition replace_id_tails :: "string \<Rightarrow> string" where
  "replace_id_tails s =
     rx_replace_from pattern_id_tail_re (\<lambda>_ caps. (case map_of caps 1 of None \<Rightarrow> [] | Some g \<Rightarrow> g) @ ''<n>'') None s"

section \<open>Section references (sections.go)\<close>

definition diagnostic_source_dsn :: string where "diagnostic_source_dsn = ''dsn''"
definition body_source_text :: string where "body_source_text = ''text''"
definition body_source_html :: string where "body_source_html = ''html''"

definition section_ref :: "string \<Rightarrow> int \<Rightarrow> string" where
  "section_ref kind n = kind @ '':'' @ itoa n"

definition parse_section_ref :: "string \<Rightarrow> (string \<times> int) option" where
  "parse_section_ref ref =
     (case cut ref '':'' of
        None \<Rightarrow> None
      | Some (kind, num) \<Rightarrow>
          if kind \<noteq> body_source_text \<and> kind \<noteq> body_source_html then None
          else (case atoi num of None \<Rightarrow> None | Some n \<Rightarrow> if n < 1 then None else Some (kind, n)))"

definition source_kind :: "string \<Rightarrow> string" where
  "source_kind source =
     (case parse_section_ref source of
        Some (kind, _) \<Rightarrow> kind
      | None \<Rightarrow> if source = diagnostic_source_dsn \<or> source = diagnostic_source_dmarc then source else '''')"

definition pattern_key :: "string \<Rightarrow> string \<Rightarrow> string \<Rightarrow> string \<Rightarrow> string" where
  "pattern_key status_code template remote_mta source =
     take 16 (sha1_hex (group_key_part status_code @ ''|'' @ replace_id_tails (group_key_part template) @ ''|''
       @ group_key_part remote_mta @ ''|'' @ source_kind source))"

text \<open>A reference that is written out is read back.\<close>

lemma parse_section_ref_section_ref:
  assumes "kind = body_source_text \<or> kind = body_source_html" "1 \<le> n" "n \<le> max_int64"
  shows "parse_section_ref (section_ref kind n) = Some (kind, n)"
proof -
  have "cut (kind @ CHR '':'' # itoa n) '':'' = Some (kind, itoa n)"
    by (rule cut_char_before) (use assms(1) in \<open>auto simp: body_source_text_def body_source_html_def\<close>)
  then show ?thesis
    using assms by (simp add: parse_section_ref_def section_ref_def atoi_itoa min_int64_def)
qed

section \<open>Members (recheck.go)\<close>

definition recheck_key :: "group_member \<Rightarrow> string" where
  "recheck_key m =
     (case gm_dmarc m of
        Some d \<Rightarrow> d_pattern d
      | None \<Rightarrow> pattern_key (b_status_code (gm_bounce m)) (b_template (gm_bounce m)) '''' (b_source (gm_bounce m)))"

definition sent_at :: "group_member \<Rightarrow> time" where
  "sent_at m =
     (case gm_dmarc m of
        Some d \<Rightarrow> (case d_end_at d of Some t \<Rightarrow> t | None \<Rightarrow> gm_date m)
      | None \<Rightarrow> (case b_original_date (gm_bounce m) of Some t \<Rightarrow> t | None \<Rightarrow> gm_date m))"

text \<open>The receiving server is no part of the re-check key.\<close>

lemma recheck_key_remote_mta:
  "recheck_key (m\<lparr>gm_bounce := (gm_bounce m)\<lparr>b_remote_mta := mta\<rparr>\<rparr>) = recheck_key m"
  by (cases "gm_dmarc m") (simp_all add: recheck_key_def)

end
