(* ===== verification/Group_Life.thy ===== *)
theory Group_Life
  imports Group_History Group_Keys
begin

text \<open>
  The life of a group (mailengine: recheck.go, grouping.go, group.go;
  modules/group_state.go): when a closed group is sent back to the users, how the
  notices of a message are filed and which groups they flag, the runs of the grouping
  phase, and the state changes of the users.

  What the grouping makes of a message (its classification, the bounces and records it
  extracts and their groups) is an argument, the plan; all that is written is modelled.
  Within one operation every call of \<^verbatim>\<open>time.Now\<close> gives the same instant, \<open>now\<close>.
\<close>

section \<open>Re-check of closed groups (recheck.go)\<close>

definition recheck_by_pattern :: "string list" where
  "recheck_by_pattern =
     [category_auth_failure, category_server_config, category_dmarc_spf_missing, category_dmarc_dkim_failed,
      category_dmarc_not_authenticated]"

record recheck_basis =
  rb_change :: state_change
  rb_keys :: "string list"

definition group_recheck_keys :: "string \<Rightarrow> string list idx" where
  "group_recheck_keys key =
     act_bind (list_group_bounces key) (\<lambda>ms. act_return (first_seen (map recheck_key ms)))"

definition record_state_change_patterns :: "int \<Rightarrow> string \<Rightarrow> unit idx" where
  "record_state_change_patterns i key =
     act_bind (group_recheck_keys key) (\<lambda>keys. insert_group_state_change_patterns i keys)"

text \<open>
  The rows come back as a map, which Go visits in no fixed order; here in the order of the table.
\<close>

fun fill_patterns :: "(int \<times> string) list \<Rightarrow> unit idx" where
  "fill_patterns [] = act_return ()"
| "fill_patterns ((i, key) # rest) = act_bind (record_state_change_patterns i key) (\<lambda>_. fill_patterns rest)"

definition fill_state_change_patterns :: "unit idx" where
  "fill_state_change_patterns = act_bind list_state_changes_without_patterns fill_patterns"

definition load_recheck_basis :: "string \<Rightarrow> recheck_basis option idx" where
  "load_recheck_basis key =
     act_try (latest_group_state_change key) (\<lambda>r. case r of
         Inl NoRows \<Rightarrow> act_return None
       | Inl e \<Rightarrow> act_fail e
       | Inr c \<Rightarrow> act_bind (list_group_state_change_patterns (sc_id c))
                   (\<lambda>keys. act_return (Some \<lparr>rb_change = c, rb_keys = keys\<rparr>)))"

definition recheck_deadline :: "(string \<rightharpoonup> int) \<Rightarrow> recheck_basis \<Rightarrow> bounce_group \<Rightarrow> time" where
  "recheck_deadline days b g = add_days utc (sc_changed_at (rb_change b)) (recheck_days_for days (g_category g))"

definition sends_back :: "(string \<rightharpoonup> int) \<Rightarrow> recheck_basis option \<Rightarrow> bounce_group \<Rightarrow> group_member \<Rightarrow> bool" where
  "sends_back days basis g m =
     (case basis of
        None \<Rightarrow> False
      | Some b \<Rightarrow>
          if g_state g = group_open then False
          else if g_category g \<in> set recheck_by_pattern \<and> recheck_key m \<notin> set (rb_keys b) then True
          else if g_state g \<noteq> group_resolved then False
          else recheck_deadline days b g < sent_at m)"

definition group_sent_back :: "(string \<rightharpoonup> int) \<Rightarrow> bounce_group \<Rightarrow> bool idx" where
  "group_sent_back days g =
     (if g_state g = group_open then act_return False
      else act_bind (load_recheck_basis (g_key g)) (\<lambda>basis.
        if basis = None then act_return False
        else act_bind (list_group_bounces (g_key g)) (\<lambda>ms. act_return (list_ex (sends_back days basis g) ms))))"

section \<open>The tracker of a run (grouping.go)\<close>

record tracker =
  tk_order :: "string list"
  tk_seen :: "string set"
  tk_flagged :: "string set"

definition new_tracker :: tracker where
  "new_tracker = \<lparr>tk_order = [], tk_seen = {}, tk_flagged = {}\<rparr>"

definition flag_group :: "string \<Rightarrow> tracker \<Rightarrow> tracker" where
  "flag_group key t = t\<lparr>tk_flagged := insert key (tk_flagged t)\<rparr>"

definition tracker_see :: "string \<Rightarrow> tracker \<Rightarrow> tracker" where
  "tracker_see key t =
     (if key \<in> tk_seen t then t else t\<lparr>tk_seen := insert key (tk_seen t), tk_order := tk_order t @ [key]\<rparr>)"

definition tracker_upsert :: "time \<Rightarrow> tracker \<Rightarrow> bounce_group option \<Rightarrow> tracker idx" where
  "tracker_upsert now t g =
     (case g of
        None \<Rightarrow> act_return t
      | Some g \<Rightarrow> act_bind (upsert_group now g) (\<lambda>_. act_return (tracker_see (g_key g) t)))"

text \<open>The loop over the members of a closed group, and of one that may be analyzed.\<close>

fun recheck_members ::
    "time \<Rightarrow> (string \<rightharpoonup> int) \<Rightarrow> recheck_basis option \<Rightarrow> bounce_group \<Rightarrow> tracker \<Rightarrow> group_member list \<Rightarrow> tracker idx" where
  "recheck_members now days basis cur t [] = act_return t"
| "recheck_members now days basis cur t (m # ms) =
     (if \<not> sends_back days basis cur m then recheck_members now days basis cur t ms
      else act_bind (set_group_needs_recheck now (g_key cur))
             (\<lambda>_. act_return (if g_actionable cur then flag_group (g_key cur) t else t)))"

fun analyze_members :: "time \<Rightarrow> bounce_group \<Rightarrow> tracker \<Rightarrow> group_member list \<Rightarrow> tracker idx" where
  "analyze_members now cur t [] = act_return t"
| "analyze_members now cur t (m # ms) =
     act_bind (pattern_covered (g_key cur) (b_pattern (gm_bounce m))) (\<lambda>covered.
       if covered then analyze_members now cur t ms
       else act_bind (set_group_needs_analysis now (g_key cur) True) (\<lambda>_. act_return (flag_group (g_key cur) t)))"

definition recount :: "time \<Rightarrow> (string \<rightharpoonup> int) \<Rightarrow> tracker \<Rightarrow> bounce_group option \<Rightarrow> group_member list \<Rightarrow> tracker idx" where
  "recount now days t g members =
     (case g of
        None \<Rightarrow> act_return t
      | Some g \<Rightarrow>
          act_bind (refresh_group_counters now (g_key g)) (\<lambda>_.
          if g_key g \<in> tk_flagged t then act_return t
          else act_bind (get_group (g_key g)) (\<lambda>cur.
            if g_state cur \<noteq> group_open \<and> \<not> g_needs_recheck cur
            then act_bind (load_recheck_basis (g_key cur)) (\<lambda>basis. recheck_members now days basis cur t members)
            else if \<not> g_actionable cur then act_return t
            else analyze_members now cur t members)))"

definition touched :: "tracker \<Rightarrow> string list" where
  "touched t = filter (\<lambda>key. key \<in> tk_flagged t) (tk_order t)"

section \<open>Filing a message (group.go)\<close>

record report_group =
  rg_group :: bounce_group
  rg_records :: "dmarc_record list"

record grouping_plan =
  gp_is_bounce :: bool
  gp_kind :: string
  gp_rule :: string
  gp_body_source :: string
  gp_bounces :: "bounce list"
  gp_groups :: "bounce_group option list"    \<comment> \<open>one for each of the bounces\<close>
  gp_records :: "dmarc_record list"
  gp_record_groups :: "report_group list"

text \<open>
  \<^verbatim>\<open>distinctReportGroups\<close>: one entry per group, and in it one record per pattern. The
  code tells (group, pattern) pairs apart by the text \<^verbatim>\<open>key|pattern\<close>.
\<close>

definition add_record :: "bounce_group \<Rightarrow> dmarc_record \<Rightarrow> string list \<Rightarrow> report_group list \<Rightarrow> report_group list \<times> string list" where
  "add_record g r seen out =
     (let out1 = (if list_ex (\<lambda>rg. g_key (rg_group rg) = g_key g) out then out
                  else out @ [\<lparr>rg_group = g, rg_records = []\<rparr>]);
          key = g_key g @ ''|'' @ d_pattern r
      in if key \<in> set seen then (out1, seen)
         else (map (\<lambda>rg. if g_key (rg_group rg) = g_key g then rg\<lparr>rg_records := rg_records rg @ [r]\<rparr> else rg) out1,
               key # seen))"

fun report_groups :: "(bounce_group \<times> dmarc_record) list \<Rightarrow> string list \<Rightarrow> report_group list \<Rightarrow> report_group list" where
  "report_groups [] seen out = out"
| "report_groups ((g, r) # rest) seen out = (let (out', seen') = add_record g r seen out in report_groups rest seen' out')"

definition distinct_report_groups :: "dmarc_record list \<Rightarrow> bounce_group list \<Rightarrow> report_group list" where
  "distinct_report_groups records gs = report_groups (zip gs records) [] []"

definition is_grouped_kind :: "string \<Rightarrow> bool" where
  "is_grouped_kind kind \<longleftrightarrow> kind = ''failed'' \<or> kind = ''delayed''"

fun upsert_all :: "time \<Rightarrow> tracker \<Rightarrow> bounce_group option list \<Rightarrow> tracker idx" where
  "upsert_all now t [] = act_return t"
| "upsert_all now t (g # gs) = act_bind (tracker_upsert now t g) (\<lambda>t'. upsert_all now t' gs)"

text \<open>
  The bounces with their group keys, and the members they make in each group (without the
  row id and position the insert gives them, which the flags do not look at).
\<close>

definition keyed_bounces :: "grouping_plan \<Rightarrow> bounce list" where
  "keyed_bounces plan =
     map (\<lambda>(b, g). b\<lparr>b_group := (case g of None \<Rightarrow> '''' | Some g \<Rightarrow> g_key g)\<rparr>) (zip (gp_bounces plan) (gp_groups plan))"

definition bounce_member :: "message \<Rightarrow> bounce \<Rightarrow> group_member" where
  "bounce_member msg b =
     \<lparr>gm_bounce = b, gm_message_key = ms_key msg, gm_date = ms_date msg, gm_received_at = None, gm_body_source = '''',
      gm_dmarc = None\<rparr>"

definition report_member :: "message \<Rightarrow> dmarc_record \<Rightarrow> group_member" where
  "report_member msg r =
     \<lparr>gm_bounce = blank_bounce\<lparr>b_message := ms_id msg, b_group := d_group r, b_pattern := d_pattern r\<rparr>,
      gm_message_key = ms_key msg, gm_date = ms_date msg, gm_received_at = None, gm_body_source = '''', gm_dmarc = Some r\<rparr>"

text \<open>The groups of the bounces in the order of their first bounce, each with its members.\<close>

definition bounce_parts :: "grouping_plan \<Rightarrow> message \<Rightarrow> (bounce_group \<times> group_member list) list" where
  "bounce_parts plan msg =
     (let gs = List.map_filter id (gp_groups plan)
      in map (\<lambda>key. (the (List.find (\<lambda>g. g_key g = key) gs),
                map (bounce_member msg) (map fst (filter (\<lambda>(b, g). map_option g_key g = Some key)
                  (zip (keyed_bounces plan) (gp_groups plan))))))
           (first_seen (map g_key gs)))"

definition record_parts :: "grouping_plan \<Rightarrow> message \<Rightarrow> (bounce_group \<times> group_member list) list" where
  "record_parts plan msg = map (\<lambda>rg. (rg_group rg, map (report_member msg) (rg_records rg))) (gp_record_groups plan)"

fun recount_all :: "time \<Rightarrow> (string \<rightharpoonup> int) \<Rightarrow> tracker \<Rightarrow> (bounce_group \<times> group_member list) list \<Rightarrow> tracker idx" where
  "recount_all now days t [] = act_return t"
| "recount_all now days t ((g, ms) # rest) =
     act_bind (recount now days t (Some g) ms) (\<lambda>t'. recount_all now days t' rest)"

text \<open>The groups the message left.\<close>

fun leave_groups :: "time \<Rightarrow> string list \<Rightarrow> string list \<Rightarrow> unit idx" where
  "leave_groups now keys [] = act_return ()"
| "leave_groups now keys (key # rest) =
     (if key \<in> set keys then leave_groups now keys rest
      else act_bind (refresh_group_counters now key) (\<lambda>_.
           act_bind (delete_group_if_empty key) (\<lambda>_. leave_groups now keys rest)))"

definition filed_message :: "grouping_plan \<Rightarrow> message \<Rightarrow> message" where
  "filed_message plan msg =
     msg\<lparr>ms_is_bounce := gp_is_bounce plan, ms_bounce_kind := gp_kind plan, ms_rule := gp_rule plan,
         ms_body_source := gp_body_source plan, ms_classified := True\<rparr>"

definition group_message_in :: "time \<Rightarrow> (string \<rightharpoonup> int) \<Rightarrow> message \<Rightarrow> grouping_plan \<Rightarrow> tracker \<Rightarrow> (message \<times> tracker) idx" where
  "group_message_in now days msg plan t =
     act_bind (list_bounce_group_keys (ms_id msg)) (\<lambda>previous.
     act_bind (upsert_all now t (gp_groups plan)) (\<lambda>t1.
     act_bind (upsert_all now t1 (map (\<lambda>rg. Some (rg_group rg)) (gp_record_groups plan))) (\<lambda>t2.
     act_bind (replace_bounces (ms_id msg) (keyed_bounces plan)) (\<lambda>_.
     act_bind (replace_dmarc_records (ms_id msg) (gp_records plan)) (\<lambda>_.
     act_bind (recount_all now days t2 (bounce_parts plan msg)) (\<lambda>t3.
     act_bind (leave_groups now (map (\<lambda>(g, _). g_key g) (bounce_parts plan msg)) previous) (\<lambda>_.
     act_bind (recount_all now days t3 (record_parts plan msg)) (\<lambda>t4.
     act_bind (update_message_classification (ms_id msg) (gp_is_bounce plan) (gp_kind plan) (gp_rule plan) (gp_body_source plan))
       (\<lambda>_. act_return (filed_message plan msg, t4))))))))))"

definition group_message :: "time \<Rightarrow> (string \<rightharpoonup> int) \<Rightarrow> message \<Rightarrow> grouping_plan \<Rightarrow> tracker \<Rightarrow> (message \<times> tracker) idx" where
  "group_message now days msg plan t = transaction (group_message_in now days msg plan t)"

definition count_all_groups :: "nat idx" where
  "count_all_groups =
     act_try (count_groups scope_all) (\<lambda>r. case r of
         Inl e \<Rightarrow> act_fail (Wrapped ''count groups'' e)
       | Inr c \<Rightarrow> act_return (gc_open c + gc_resolved c + gc_resolved_recheck c + gc_ignored c + gc_ignored_recheck c))"

section \<open>Responsible party (carryover.go, also agent/run.go)\<close>

definition is_definite_responsible :: "string \<Rightarrow> bool" where
  "is_definite_responsible v \<longleftrightarrow> v \<in> {''sender'', ''recipient'', ''domain''}"

fun reapply_responsibles :: "time \<Rightarrow> agent_report list \<Rightarrow> unit idx" where
  "reapply_responsibles now [] = act_return ()"
| "reapply_responsibles now (r # rs) =
     (if \<not> is_definite_responsible (r_responsible r) then reapply_responsibles now rs
      else act_bind (update_group_responsible now (r_group r) (r_responsible r)) (\<lambda>_. reapply_responsibles now rs))"

definition reapply_report_responsible :: "time \<Rightarrow> unit idx" where
  "reapply_report_responsible now = act_bind latest_completed_agent_reports (reapply_responsibles now)"

section \<open>The grouping phase (group.go, GroupMailbox)\<close>

definition wrapping :: "string \<Rightarrow> ('s, 'a) action \<Rightarrow> ('s, 'a) action" where
  "wrapping what m = act_try m (\<lambda>r. case r of Inl e \<Rightarrow> act_fail (Wrapped what e) | Inr x \<Rightarrow> act_return x)"

definition open_index :: "string \<Rightarrow> unit idx" where
  "open_index name = wrapping (''record the patterns of the state changes of '' @ name) fill_state_change_patterns"

record group_result =
  gr_processed :: nat
  gr_bounces :: nat
  gr_groups :: nat
  gr_touched :: "string list"

text \<open>One message after another; a message whose original cannot be read has no plan and is skipped.\<close>

fun group_messages ::
    "time \<Rightarrow> (string \<rightharpoonup> int) \<Rightarrow> (message \<Rightarrow> grouping_plan option) \<Rightarrow> message list \<Rightarrow> tracker \<Rightarrow> nat \<Rightarrow> nat \<Rightarrow> (tracker \<times> nat \<times> nat) idx" where
  "group_messages now days plan_of [] t done bounced = act_return (t, done, bounced)"
| "group_messages now days plan_of (m # ms) t done bounced =
     (case plan_of m of
        None \<Rightarrow> group_messages now days plan_of ms t done bounced
      | Some plan \<Rightarrow>
          act_bind (wrapping (''group '' @ ms_key m) (group_message now days m plan t)) (\<lambda>(m', t').
            group_messages now days plan_of ms t' (done + 1) (if ms_is_bounce m' then bounced + 1 else bounced)))"

definition dns_unverified_rule_prefix :: string where "dns_unverified_rule_prefix = ''dns_unverified_''"

definition group_mailbox ::
    "time \<Rightarrow> (string \<rightharpoonup> int) \<Rightarrow> (message \<Rightarrow> grouping_plan option) \<Rightarrow> string \<Rightarrow> bool \<Rightarrow> bool \<Rightarrow> group_result idx" where
  "group_mailbox now days plan_of name full live =
     act_bind (open_index name) (\<lambda>_.
     act_bind (if full then wrapping ''clear classification'' clear_mail_classification else act_return ()) (\<lambda>_.
     act_bind (wrapping ''list messages'' list_unclassified_messages) (\<lambda>fresh.
     act_bind (if \<not> full \<and> live
               then wrapping ''list unverified notices'' (list_messages_by_bounce_rule_prefix dns_unverified_rule_prefix)
               else act_return []) (\<lambda>again.
     act_bind (group_messages now days plan_of (fresh @ again) new_tracker 0 0) (\<lambda>(t, processed, bounced).
     act_bind (if full then wrapping ''delete empty groups'' delete_empty_groups else act_return ()) (\<lambda>_.
     act_bind (wrapping ''reapply responsible'' (reapply_report_responsible now)) (\<lambda>_.
     act_bind count_all_groups (\<lambda>n.
       act_return \<lparr>gr_processed = processed, gr_bounces = bounced, gr_groups = n, gr_touched = touched t\<rparr>))))))))"

definition finish_groups :: "nat idx" where
  "finish_groups = act_bind (wrapping ''delete empty groups'' delete_empty_groups) (\<lambda>_. count_all_groups)"

section \<open>State changes of the users (modules/group_state.go)\<close>

record group_state_change =
  gs_state :: string
  gs_reason :: "string option"
  gs_note :: "string option"

definition err_group_state_invalid :: go_error where
  "err_group_state_invalid = Keyed ''system.invalidRequest'' ''state must be open, resolved or ignored''"
definition err_resolve_action_missing :: go_error where
  "err_resolve_action_missing = Keyed ''validation.group.resolveActionRequired''
     (''reason is required to mark a group resolved: '' @ join '', '' resolve_actions)"
definition err_ignore_reason_missing :: go_error where
  "err_ignore_reason_missing = Keyed ''validation.group.ignoreReasonRequired''
     (''reason is required to ignore a group: '' @ join '', '' ignore_reasons)"
definition err_resolve_action_invalid :: go_error where
  "err_resolve_action_invalid = Keyed ''system.invalidRequest''
     (''reason of a resolved group must be one of '' @ join '', '' resolve_actions)"
definition err_ignore_reason_invalid :: go_error where
  "err_ignore_reason_invalid = Keyed ''system.invalidRequest''
     (''reason of an ignored group must be one of '' @ join '', '' ignore_reasons)"

definition group_state_input :: "string \<Rightarrow> string \<Rightarrow> string \<Rightarrow> go_error + group_state_change" where
  "group_state_input state0 reason0 note0 =
     (let state = trim_space state0; reason = trim_space reason0; note = trim_space note0;
          given = (\<lambda>note. Inr \<lparr>gs_state = state, gs_reason = Some reason,
                              gs_note = (if note \<noteq> '''' then Some note else None)\<rparr>)
      in if state = group_open then Inr \<lparr>gs_state = state, gs_reason = None, gs_note = None\<rparr>
         else if state = group_resolved then
           (if reason = '''' then Inl err_resolve_action_missing
            else if reason \<notin> set resolve_actions then Inl err_resolve_action_invalid
            else given note)
         else if state = group_ignored then
           (if reason = '''' then Inl err_ignore_reason_missing
            else if reason \<notin> set ignore_reasons then Inl err_ignore_reason_invalid
            else given (if reason \<noteq> reason_other then '''' else note))
         else Inl err_group_state_invalid)"

definition change_group_state_in :: "time \<Rightarrow> string \<Rightarrow> group_state_change \<Rightarrow> string \<Rightarrow> unit idx" where
  "change_group_state_in now key change changed_by =
     act_bind (group_has_uncovered_pattern key) (\<lambda>uncovered.
     act_bind (set_group_state now key (gs_state change) (gs_reason change) (gs_note change) now uncovered) (\<lambda>_.
     act_bind (insert_group_state_change \<lparr>sc_id = 0, sc_group = key, sc_state = gs_state change, sc_reason = gs_reason change,
         sc_note = gs_note change, sc_changed_by = changed_by, sc_changed_at = now\<rparr>) (\<lambda>c.
       record_state_change_patterns (sc_id c) key)))"

definition change_group_state :: "time \<Rightarrow> string \<Rightarrow> group_state_change \<Rightarrow> string \<Rightarrow> unit idx" where
  "change_group_state now key change changed_by = transaction (change_group_state_in now key change changed_by)"

end
