(* ===== verification/Group_Carryover.thy ===== *)
theory Group_Carryover
  imports Group_Life
begin

text \<open>
  What the rebuild of an index keeps of the previous one (mailengine/carryover.go): the
  sources of the messages, the states of the groups with their history, and the reports
  with the patterns they covered; how they are read, and how they are restored for the
  group keys that come back.

  The code keeps the groups in a map, which Go visits in no fixed order. Here they are a
  list, in the order of the visits; no group key occurs twice in it.
\<close>

record carryover =
  co_sources :: "string \<rightharpoonup> message_source"
  co_groups :: "bounce_group list"
  co_reports :: "agent_report list"
  co_patterns :: "int \<Rightarrow> string list"
  co_changes :: "state_change list"
  co_change_patterns :: "int \<Rightarrow> string list"

definition message_source :: "carryover option \<Rightarrow> string \<Rightarrow> message_source option" where
  "message_source c key = (case c of None \<Rightarrow> None | Some c \<Rightarrow> co_sources c key)"

definition all_groups :: group_filter where
  "all_groups = \<lparr>gf_state = '''', gf_responsible = '''', gf_category = '''', gf_actionable = None, gf_recheck = None,
     gf_scope = '''', gf_query = '''', gf_sort = ''''\<rparr>"

definition read_carryover :: "carryover idx" where
  "read_carryover =
     act_bind list_message_sources (\<lambda>sources.
     act_bind (list_groups all_groups) (\<lambda>gs.
     act_bind list_all_agent_reports (\<lambda>rs.
     act_bind list_all_agent_report_patterns (\<lambda>ps.
     act_bind list_all_group_state_changes (\<lambda>cs.
     act_bind list_all_group_state_change_patterns (\<lambda>cps.
       act_return \<lparr>co_sources = sources, co_groups = gs, co_reports = rs, co_patterns = ps, co_changes = cs,
         co_change_patterns = cps\<rparr>))))))"

section \<open>Restoring\<close>

text \<open>The carried groups that exist in the rebuilt index, with their rebuilt rows.\<close>

fun restored_groups :: "bounce_group list \<Rightarrow> (bounce_group \<times> bounce_group) list idx" where
  "restored_groups [] = act_return []"
| "restored_groups (old # rest) =
     act_try (get_group (g_key old)) (\<lambda>r. case r of
         Inl NoRows \<Rightarrow> restored_groups rest
       | Inl e \<Rightarrow> act_fail (Wrapped (''lookup group '' @ g_key old) e)
       | Inr g \<Rightarrow> act_bind (restored_groups rest) (\<lambda>more. act_return ((old, g) # more)))"

fun restore_reports :: "carryover \<Rightarrow> string list \<Rightarrow> agent_report list \<Rightarrow> nat \<Rightarrow> nat idx" where
  "restore_reports c keys [] n = act_return n"
| "restore_reports c keys (r # rs) n =
     (if r_group r \<notin> set keys then restore_reports c keys rs n
      else act_bind (wrapping (''restore report of '' @ r_group r) (restore_agent_report r)) (\<lambda>_.
           act_bind (wrapping (''restore report patterns of '' @ r_group r) (insert_agent_report_patterns (r_id r) (co_patterns c (r_id r))))
             (\<lambda>_. restore_reports c keys rs (n + 1))))"

fun restore_changes :: "carryover \<Rightarrow> string list \<Rightarrow> state_change list \<Rightarrow> unit idx" where
  "restore_changes c keys [] = act_return ()"
| "restore_changes c keys (h # hs) =
     (if sc_group h \<notin> set keys then restore_changes c keys hs
      else act_bind (wrapping (''restore state change of '' @ sc_group h) (restore_group_state_change h)) (\<lambda>_.
           act_bind (wrapping (''restore state change patterns of '' @ sc_group h)
               (insert_group_state_change_patterns (sc_id h) (co_change_patterns c (sc_id h))))
             (\<lambda>_. restore_changes c keys hs)))"

text \<open>The state a group carries over, before its members are looked at, and after.\<close>

definition carried_state :: "bounce_group \<Rightarrow> bounce_group \<Rightarrow> bounce_group" where
  "carried_state old g =
     old\<lparr>g_actionable := g_actionable g, g_category := g_category g,
       g_needs_analysis := (if g_actionable old \<and> \<not> g_actionable g then False else g_needs_analysis old)\<rparr>"

definition flagged_state :: "(string \<rightharpoonup> int) \<Rightarrow> bounce_group \<Rightarrow> bounce_group idx" where
  "flagged_state days st =
     (if g_state st \<noteq> group_open \<and> \<not> g_needs_recheck st
      then act_bind (wrapping (''check the re-check of '' @ g_key st) (group_sent_back days st)) (\<lambda>back.
             act_return (if back then st\<lparr>g_needs_recheck := True, g_needs_analysis := g_actionable st\<rparr> else st))
      else if g_actionable st
      then act_bind (wrapping (''check patterns of '' @ g_key st) (group_has_uncovered_pattern (g_key st))) (\<lambda>uncovered.
             act_return (st\<lparr>g_needs_analysis := (g_needs_analysis st \<or> uncovered)\<rparr>))
      else act_return st)"

fun restore_states :: "time \<Rightarrow> (string \<rightharpoonup> int) \<Rightarrow> (bounce_group \<times> bounce_group) list \<Rightarrow> nat \<Rightarrow> nat idx" where
  "restore_states now days [] n = act_return n"
| "restore_states now days ((old, g) # rest) n =
     act_bind (flagged_state days (carried_state old g)) (\<lambda>st.
     act_bind (wrapping (''restore group '' @ g_key old) (restore_group_state now st)) (\<lambda>_.
       restore_states now days rest (n + 1)))"

definition apply_carryover :: "time \<Rightarrow> (string \<rightharpoonup> int) \<Rightarrow> carryover option \<Rightarrow> (nat \<times> nat) idx" where
  "apply_carryover now days carried =
     (case carried of
        None \<Rightarrow> act_return (0, 0)
      | Some c \<Rightarrow>
          act_bind (restored_groups (co_groups c)) (\<lambda>pairs. let keys = map (\<lambda>(old, _). g_key old) pairs in
          act_bind (restore_reports c keys (co_reports c) 0) (\<lambda>n.
          act_bind (restore_changes c keys (co_changes c)) (\<lambda>_.
          act_bind (wrapping ''record state change patterns'' fill_state_change_patterns) (\<lambda>_.
          act_bind (restore_states now days pairs 0) (\<lambda>k. act_return (k, n)))))))"

text \<open>The end of a rebuild (Reindex): the groups of the messages are in place.\<close>

definition finish_rebuild :: "time \<Rightarrow> (string \<rightharpoonup> int) \<Rightarrow> carryover option \<Rightarrow> nat idx" where
  "finish_rebuild now days carried =
     act_bind finish_groups (\<lambda>n.
     act_bind (if carried = None then act_return ()
               else act_bind (apply_carryover now days carried) (\<lambda>_.
                      wrapping ''reapply responsible'' (reapply_report_responsible now))) (\<lambda>_. act_return n))"

end
