(* ===== verification/Agent_Output.thy ===== *)
theory Agent_Output
  imports Regex Job_Manager
begin

text \<open>
  What is read from the transcript of an agent run (modules/agent: parse.go and the limit
  markers of ratelimit.go): the echoed prompt is dropped, the last report and META block
  are taken, and a report that is a template, empty or secret-like is refused.

  The JSON of the META block is decoded by \<^verbatim>\<open>encoding/json\<close>; the decoder is an argument,
  None when it fails.
\<close>

section \<open>Searching texts (strings)\<close>

definition newline_char :: string where "newline_char = [CHR 0x0A]"

text \<open>\<^verbatim>\<open>strings.ReplaceAll(s, "\r\n", "\n")\<close>.\<close>

fun unix_lines :: "string \<Rightarrow> string" where
  "unix_lines [] = []"
| "unix_lines (c # cs) =
     (if c = CHR 0x0D \<and> cs \<noteq> [] \<and> hd cs = CHR 0x0A then CHR 0x0A # unix_lines (tl cs) else c # unix_lines cs)"

text \<open>What follows the first occurrence of \<open>sub\<close>, and what starts with it.\<close>

definition after :: "string \<Rightarrow> string \<Rightarrow> string option" where
  "after s sub = map_option snd (cut s sub)"

definition from_first :: "string \<Rightarrow> string \<Rightarrow> string option" where
  "from_first s sub = map_option (\<lambda>(_, rest). sub @ rest) (cut s sub)"

lemma cut_length: "cut s sep = Some (a, b) \<Longrightarrow> length s = length a + length sep + length b"
  by (drule cut_Some) simp

section \<open>The echoed prompt\<close>

definition strip_prompt_echo :: "string \<Rightarrow> string \<Rightarrow> string" where
  "strip_prompt_echo raw0 prompt0 =
     (let raw = unix_lines raw0; prompt = trim_space (unix_lines prompt0)
      in if prompt = '''' then raw
         else case after raw prompt of
            Some rest \<Rightarrow> rest
          | None \<Rightarrow>
              (let ls = filter (\<lambda>l. l \<noteq> '''') (map trim_space (split_char (CHR 0x0A) prompt))
               in if length ls < 2 then raw
                  else case from_first raw (hd ls) of
                     None \<Rightarrow> raw
                   | Some echoed \<Rightarrow> (case after echoed (last ls) of None \<Rightarrow> raw | Some rest \<Rightarrow> rest)))"

section \<open>Blocks\<close>

definition report_begin :: string where "report_begin = ''<<<MLC:REPORT>>>''"
definition report_end :: string where "report_end = ''<<<MLC:/REPORT>>>''"
definition meta_begin :: string where "meta_begin = ''<<<MLC:META>>>''"
definition meta_end :: string where "meta_end = ''<<<MLC:/META>>>''"

text \<open>\<^verbatim>\<open>extractBlocks\<close>; the markers are not empty.\<close>

function extract_blocks :: "string \<Rightarrow> string \<Rightarrow> string \<Rightarrow> string list" where
  "extract_blocks s b e =
     (if b = [] then []
      else case cut s b of
        None \<Rightarrow> []
      | Some (_, rest) \<Rightarrow>
          (case cut rest e of
             None \<Rightarrow> []
           | Some (block, s') \<Rightarrow> trim_space block # extract_blocks s' b e))"
  by pat_completeness auto
termination
  by (relation "measure (\<lambda>(s, b, e). length s)") (auto dest!: cut_length)

declare extract_blocks.simps [simp del]

definition is_angle :: "char \<Rightarrow> bool" where
  "is_angle c \<longleftrightarrow> c = CHR ''<'' \<or> c = CHR ''>''"

text \<open>\<^verbatim>\<open>placeholderLine\<close> and \<^verbatim>\<open>placeholderSummary\<close>.\<close>

definition placeholder_line :: rx where
  "placeholder_line =
     (let inner = Rx_star (Rx_class (\<lambda>c. \<not> is_angle c \<and> c \<noteq> CHR 0x0A))
      in rx_seqs [rx_line_begin, Rx_star rx_space,
           rx_opt (rx_seqs [rx_plus rx_digit, Rx_class (\<lambda>c. c \<in> {CHR ''.'', CHR '')''}), Rx_star rx_space]),
           rx_lit ''<'', inner, rx_space, inner, rx_lit ''>'', Rx_star rx_space, rx_line_end])"

definition placeholder_summary :: rx where
  "placeholder_summary =
     rx_seqs [rx_begin, rx_lit ''<'', Rx_star (Rx_class (\<lambda>c. \<not> is_angle c)), rx_lit ''>'', rx_end]"

definition prose_lines :: "string \<Rightarrow> string list" where
  "prose_lines block =
     filter (\<lambda>t. \<not> (t = '''' \<or> has_prefix t ''#'')) (map trim_space (split_char (CHR 0x0A) block))"

definition is_template_report :: "string \<Rightarrow> bool" where
  "is_template_report block \<longleftrightarrow>
     list_all (rx_matches placeholder_line) (prose_lines block) \<and> prose_lines block \<noteq> []"

definition report_body :: "string \<Rightarrow> string" where
  "report_body report = join '' '' (prose_lines report)"

definition collapse_space :: "string \<Rightarrow> string" where
  "collapse_space s = join '' '' (str_fields s)"

text \<open>
  \<^verbatim>\<open>truncateRunes\<close>: a character of the text begins at every byte that is no continuation
  byte (the texts of the transcript are valid UTF-8).
\<close>

definition is_continuation :: "char \<Rightarrow> bool" where
  "is_continuation c \<longleftrightarrow> (of_char c :: nat) div 64 = 2"

fun take_runes :: "nat \<Rightarrow> string \<Rightarrow> string" where
  "take_runes n [] = []"
| "take_runes n (c # cs) =
     (if is_continuation c then c # take_runes n cs
      else case n of 0 \<Rightarrow> [] | Suc k \<Rightarrow> c # take_runes k cs)"

definition max_summary_runes :: nat where "max_summary_runes = 200"

text \<open>The first paragraph that is no heading; \<open>ls\<close> holds its lines so far.\<close>

fun first_paragraph :: "string list \<Rightarrow> string list \<Rightarrow> string list" where
  "first_paragraph [] ls = ls"
| "first_paragraph (line # rest) ls =
     (let t = trim_space line
      in if t = '''' \<or> has_prefix t ''#'' then (if ls \<noteq> [] then ls else first_paragraph rest ls)
         else first_paragraph rest (ls @ [t]))"

definition derive_summary :: "string \<Rightarrow> string" where
  "derive_summary report =
     (let ls = first_paragraph (split_char (CHR 0x0A) report) []
      in if ls = [] then '''' else take_runes max_summary_runes (collapse_space (join '' '' ls)))"

section \<open>META\<close>

record agent_meta =
  am_summary :: string
  am_responsible :: string
  am_severity :: string
  am_confidence :: string

definition no_meta :: agent_meta where
  "no_meta = \<lparr>am_summary = '''', am_responsible = '''', am_severity = '''', am_confidence = ''''\<rparr>"

definition valid_enum :: "string \<Rightarrow> string list \<Rightarrow> string" where
  "valid_enum v allowed = (case List.find (\<lambda>a. to_lower (trim_space v) = a) allowed of None \<Rightarrow> '''' | Some a \<Rightarrow> a)"

text \<open>The text from the first opening to the last closing brace.\<close>

definition braces :: "string \<Rightarrow> string" where
  "braces text0 =
     (let text1 = trim_space text0; text2 = (case from_first text1 ''{'' of None \<Rightarrow> text1 | Some t \<Rightarrow> t)
      in if CHR ''}'' \<in> set text2 then rev (dropWhile (\<lambda>c. c \<noteq> CHR ''}'') (rev text2)) else text2)"

definition parse_meta :: "(string \<Rightarrow> agent_meta option) \<Rightarrow> string \<Rightarrow> agent_meta option" where
  "parse_meta decode text0 =
     (case decode (braces text0) of
        None \<Rightarrow> None
      | Some m \<Rightarrow> Some \<lparr>am_summary = collapse_space (am_summary m),
            am_responsible = valid_enum (am_responsible m) [''sender'', ''recipient'', ''domain'', ''unknown''],
            am_severity = valid_enum (am_severity m) [''high'', ''medium'', ''low''],
            am_confidence = valid_enum (am_confidence m) [''high'', ''medium'', ''low'']\<rparr>)"

section \<open>The output\<close>

record agent_output =
  ao_report :: string
  ao_report_parsed :: bool
  ao_meta :: agent_meta
  ao_meta_parsed :: bool

definition last_some :: "'a list \<Rightarrow> 'a option" where
  "last_some xs = (if xs = [] then None else Some (last xs))"

definition parse_output :: "(string \<Rightarrow> agent_meta option) \<Rightarrow> string \<Rightarrow> agent_output" where
  "parse_output decode raw =
     (let reports = filter (\<lambda>block. \<not> is_template_report block) (extract_blocks raw report_begin report_end);
          metas = List.map_filter (\<lambda>block. case parse_meta decode block of
                     None \<Rightarrow> None
                   | Some m \<Rightarrow> if rx_matches placeholder_summary (am_summary m) then None else Some m)
                   (extract_blocks raw meta_begin meta_end);
          report = (case last_some reports of None \<Rightarrow> '''' | Some r \<Rightarrow> r);
          meta = (case last_some metas of None \<Rightarrow> no_meta | Some m \<Rightarrow> m)
      in \<lparr>ao_report = report, ao_report_parsed = reports \<noteq> [],
          ao_meta = (if am_summary meta = '''' then meta\<lparr>am_summary := derive_summary report\<rparr> else meta),
          ao_meta_parsed = metas \<noteq> []\<rparr>)"

text \<open>\<^verbatim>\<open>secretLikePatterns\<close>: the master key, a bcrypt hash, a PEM block, an API token, an AWS key.\<close>

definition is_hex_char :: "char \<Rightarrow> bool" where
  "is_hex_char c \<longleftrightarrow> is_digit_char c \<or> (let n = (of_char c :: nat) in 97 \<le> n \<and> n \<le> 102 \<or> 65 \<le> n \<and> n \<le> 70)"

definition is_alnum :: "char \<Rightarrow> bool" where
  "is_alnum c \<longleftrightarrow> is_digit_char c \<or> is_lower_char c \<or> is_upper_char c"

definition secret_like_patterns :: "rx list" where
  "secret_like_patterns =
     (let hex = Rx_class is_hex_char
      in [rx_seqs [rx_word_boundary, rx_times 64 hex, rx_word_boundary],
          rx_seqs [rx_lit ''$2'', Rx_class (\<lambda>c. c \<in> {CHR ''a'', CHR ''b'', CHR ''y''}), rx_lit ''$'', rx_times 2 rx_digit, rx_lit ''$'',
                   rx_times 20 (Rx_class (\<lambda>c. c = CHR ''.'' \<or> c = CHR ''/'' \<or> is_alnum c)),
                   Rx_star (Rx_class (\<lambda>c. c = CHR ''.'' \<or> c = CHR ''/'' \<or> is_alnum c))],
          rx_lit ''-----BEGIN'',
          rx_seqs [rx_word_boundary, rx_lit ''mlc_'', rx_times 40 hex, rx_word_boundary],
          rx_seqs [rx_word_boundary, rx_lit ''AKIA'', rx_times 16 (Rx_class (\<lambda>c. is_digit_char c \<or> is_upper_char c)),
                   rx_word_boundary]])"

definition contains_secret_like :: "string \<Rightarrow> bool" where
  "contains_secret_like s \<longleftrightarrow> list_ex (\<lambda>r. rx_matches r s) secret_like_patterns"

definition err_secret_like :: string where "err_secret_like = ''report contains secret-like content''"

text \<open>\<^verbatim>\<open>ValidateOutput\<close>: None when the report is usable, else the text of the reason.\<close>

definition validate_output :: "agent_output \<Rightarrow> string option" where
  "validate_output out =
     (if \<not> ao_report_parsed out then Some ''no report block''
      else case rx_find placeholder_line (ao_report out) of
         Some m \<Rightarrow> Some (''report still contains the template placeholder '' @ go_quote (trim_space m))
       | None \<Rightarrow>
          if trim_space (report_body (ao_report out)) = '''' then Some ''report body is empty''
          else if rx_matches placeholder_summary (trim_space (am_summary (ao_meta out)))
          then Some (''summary is the template placeholder '' @ go_quote (am_summary (ao_meta out)))
          else if contains_secret_like (ao_report out) \<or> contains_secret_like (am_summary (ao_meta out))
          then Some err_secret_like
          else None)"

section \<open>Usage limits (ratelimit.go)\<close>

definition usage_limit_prefix :: string where "usage_limit_prefix = ''usage limit reached''"
definition canceled_prefix :: string where "canceled_prefix = ''analysis canceled''"

record rate_limit =
  rl_limited :: bool
  rl_retry_after :: string

definition limit_message :: "rate_limit \<Rightarrow> string" where
  "limit_message l =
     (if \<not> rl_limited l then ''''
      else if rl_retry_after l = '''' then usage_limit_prefix
      else usage_limit_prefix @ '' (retry after '' @ rl_retry_after l @ '')'')"

definition is_usage_limit_message :: "string \<Rightarrow> bool" where
  "is_usage_limit_message msg \<longleftrightarrow> has_prefix msg usage_limit_prefix"

definition canceled_message :: "string \<Rightarrow> string" where
  "canceled_message reason = canceled_prefix @ '': '' @ reason"

definition failure_settles :: "string \<Rightarrow> bool" where
  "failure_settles msg \<longleftrightarrow> \<not> is_usage_limit_message msg \<and> \<not> has_prefix msg canceled_prefix"

definition rate_limit_markers :: "string list" where
  "rate_limit_markers =
     [''usage limit'', ''usage_limit'', ''rate limit'', ''rate-limit'', ''too many requests'', ''you'' @ [CHR 39] @ ''ve hit your'',
      ''you have hit your'', ''reached your usage'', ''quota exceeded'', ''insufficient_quota'', ''try again at'']"

text \<open>A letter without regard to its case, \<^verbatim>\<open>(?i)\<close> on ASCII letters.\<close>

definition rx_fold_lit :: "string \<Rightarrow> rx" where
  "rx_fold_lit w = rx_seqs (map (\<lambda>c. Rx_class (\<lambda>x. lower_char x = c)) w)"

definition http_429 :: rx where
  "http_429 = rx_seqs [rx_word_boundary, rx_lit ''429'', rx_word_boundary]"

definition retry_after_re :: rx where
  "retry_after_re =
     (let stop = CHR ''.''; other = Rx_class (\<lambda>c. c \<noteq> CHR ''.'' \<and> c \<noteq> CHR 0x0A)
      in rx_seqs
        [rx_alts [rx_fold_lit ''try again'', rx_fold_lit ''retry'', Rx_seq (rx_fold_lit ''reset'') (rx_opt (rx_fold_lit ''s'')),
                  rx_fold_lit ''available again''],
         rx_plus rx_space, rx_alts (map rx_fold_lit [''at'', ''after'', ''in'', ''on'']), rx_plus rx_space,
         Rx_group 1 (Rx_seq other (Rx_lazy other)),
         rx_alts [Rx_seq (rx_char stop) (Rx_alt rx_space rx_end), Rx_seq (Rx_star rx_space) rx_end]])"

definition retry_after_text :: "string \<Rightarrow> string" where
  "retry_after_text out = (case rx_submatch retry_after_re out of None \<Rightarrow> '''' | Some g \<Rightarrow> trim_space (g 1))"

definition limited_line :: "string \<Rightarrow> bool" where
  "limited_line line \<longleftrightarrow>
     (let low = to_lower line
      in list_ex (contains low) rate_limit_markers
         \<or> rx_matches http_429 line \<and> (contains low ''error'' \<or> contains low ''status'' \<or> contains low ''http''))"

definition detect_rate_limit_markers :: "string \<Rightarrow> rate_limit" where
  "detect_rate_limit_markers out =
     (if list_ex limited_line (split_char (CHR 0x0A) out)
      then \<lparr>rl_limited = True, rl_retry_after = retry_after_text out\<rparr>
      else \<lparr>rl_limited = False, rl_retry_after = ''''\<rparr>)"

lemma limit_message_waits: "rl_limited l \<Longrightarrow> \<not> failure_settles (limit_message l)"
  by (simp add: failure_settles_def is_usage_limit_message_def limit_message_def has_prefix_iff)

lemma canceled_message_waits: "\<not> failure_settles (canceled_message reason)"
  by (simp add: failure_settles_def canceled_message_def)

end
