(* ===== verification/Group_Analysis.thy ===== *)
theory Group_Analysis
  imports Group_Life Agent_Output
begin

text \<open>
  The analysis of a group by an agent (modules/agent: run.go, decision.go): the report row
  of a run, how a run succeeds or fails, and how it settles the group.

  What happens outside the index is an argument, the run: the workspace and the evidence
  (which names the patterns it covers), the transcript of the command line, and whether the
  caller stopped it. Progress lines are left out. Errors of the index are read by their text.
\<close>

section \<open>Decisions of the users (decision.go)\<close>

record decision =
  de_state :: string
  de_decided_at :: time
  de_reason :: string
  de_other :: bool
  de_note :: string
  de_reopened_at :: time
  de_settling_days :: int

definition resolve_action_descriptions :: "(string \<times> string) list" where
  "resolve_action_descriptions =
     [(''delisting'', ''requested delisting of the sending IP from the blacklist''),
      (''dns_fixed'', ''corrected the DNS records of the sending domain (SPF, DKIM, DMARC)''),
      (''server_fixed'', ''corrected the configuration of the sending mail server''),
      (''sender_changed'', ''reviewed the sender address''),
      (''content_changed'', ''reviewed the content or the attachments of the mail''),
      (''volume_adjusted'', ''adjusted the sending volume or rate''),
      (''recipient_fixed'', ''corrected or removed the recipient address''),
      (''recipient_asked'', ''contacted the administrator on the recipient side''),
      (''other'', ''other (see the details)'')]"

definition ignore_reason_descriptions :: "(string \<times> string) list" where
  "ignore_reason_descriptions =
     [(''temporary'', ''a temporary problem that has already cleared; no action needed''),
      (''recipient_side'', ''a problem on the recipient side; the sending side cannot act''),
      (''input_error'', ''the recipient address was entered wrongly by a user of the sending system; the sending side cannot act''),
      (''stopped_sending'', ''mail to the recipient is no longer sent; no action needed''),
      (''spoofing'', ''sent by a third party using the monitored domain; the sending side cannot act''),
      (''external_service'', ''a problem of an external service used for sending; the sending side cannot act''),
      (''false_positive'', ''detected by mistake; no action needed''),
      (''low_impact'', ''the impact is small; no action needed''),
      (''test_mail'', ''mail sent for a test or a check; no action needed''),
      (''other'', ''other (see the details)'')]"

definition described :: "(string \<times> string) list \<Rightarrow> string \<Rightarrow> string" where
  "described table code = (case map_of table code of None \<Rightarrow> '''' | Some t \<Rightarrow> t)"

definition decision_from :: "state_change \<Rightarrow> decision" where
  "decision_from c =
     \<lparr>de_state = sc_state c, de_decided_at = sc_changed_at c,
      de_reason = (case sc_reason c of
          None \<Rightarrow> ''''
        | Some r \<Rightarrow> if sc_state c = ''resolved'' then described resolve_action_descriptions r
                    else described ignore_reason_descriptions r),
      de_other = (sc_reason c = Some reason_other),
      de_note = trim_space (case sc_note c of None \<Rightarrow> '''' | Some n \<Rightarrow> n),
      de_reopened_at = zero_time, de_settling_days = 0\<rparr>"

text \<open>The first closed change after the newest entry, with the entry before it.\<close>

fun earlier_decision :: "state_change list \<Rightarrow> decision option" where
  "earlier_decision (newer # c # rest) =
     (if sc_state c \<noteq> group_open then Some ((decision_from c)\<lparr>de_reopened_at := sc_changed_at newer\<rparr>)
      else earlier_decision (c # rest))"
| "earlier_decision _ = None"

definition decisions_of :: "bounce_group \<Rightarrow> state_change list \<Rightarrow> decision option \<times> decision option" where
  "decisions_of g history =
     (case history of
        [] \<Rightarrow> (None, None)
      | c # _ \<Rightarrow>
          if g_state g \<noteq> group_open then (if sc_state c = g_state g then (Some (decision_from c), None) else (None, None))
          else (None, earlier_decision history))"

definition report_before :: "agent_report list \<Rightarrow> time \<Rightarrow> agent_report option" where
  "report_before rs t =
     List.find (\<lambda>r. r_status r = ''completed'' \<and> (case r_finished_at r of None \<Rightarrow> False | Some f \<Rightarrow> \<not> t < f)) rs"

section \<open>A run (run.go)\<close>

definition previous_coverage :: "string \<Rightarrow> (agent_report \<times> string list) option idx" where
  "previous_coverage key =
     act_try (latest_completed_agent_report key) (\<lambda>r. case r of
         Inl NoRows \<Rightarrow> act_return None
       | Inl e \<Rightarrow> act_fail e
       | Inr prev \<Rightarrow> act_bind (list_agent_report_patterns (r_id prev))
                      (\<lambda>ks. act_return (if ks = [] then None else Some (prev, ks))))"

record evidence_input =
  ei_group :: bounce_group
  ei_stats :: "string list \<times> string list \<times> string list"
  ei_members :: "group_member list"
  ei_covered :: "string list option"
  ei_previous :: "agent_report option"
  ei_recheck :: "decision option"
  ei_earlier :: "decision option"

record agent_run =
  ar_provider :: "string option"                          \<comment> \<open>the label of the provider, None when it is unknown\<close>
  ar_workspace :: "string option"                         \<comment> \<open>why the workspace could not be made\<close>
  ar_evidence :: "evidence_input \<Rightarrow> string + string list" \<comment> \<open>why it could not be written, or its patterns\<close>
  ar_prompt :: string
  ar_transcript :: string
  ar_launch_error :: "string option"                      \<comment> \<open>an error other than the exit code\<close>
  ar_limit :: "string \<Rightarrow> rate_limit"                      \<comment> \<open>the provider's own detector or the generic one\<close>
  ar_usage :: agent_run_usage
  ar_canceled :: "string option"                          \<comment> \<open>the error of the context\<close>
  ar_decode :: "string \<Rightarrow> agent_meta option"

definition settle :: "time \<Rightarrow> bounce_group \<Rightarrow> int \<Rightarrow> string list \<Rightarrow> unit idx" where
  "settle now g i patterns =
     act_try (insert_agent_report_patterns i patterns) (\<lambda>_.
     act_try (get_group (g_key g)) (\<lambda>r.
       let cur = (case r of Inl _ \<Rightarrow> g | Inr c \<Rightarrow> c)
       in act_try (if g_actionable cur \<and> (g_state cur = group_open \<or> g_needs_recheck cur)
                   then group_has_uncovered_pattern (g_key g) else act_return False) (\<lambda>r.
          act_try (set_group_needs_analysis now (g_key g) (case r of Inl _ \<Rightarrow> False | Inr needs \<Rightarrow> needs))
            (\<lambda>_. act_return ()))))"

definition run_reason :: "agent_run \<Rightarrow> string \<Rightarrow> string" where
  "run_reason run reason =
     (if ar_canceled run \<noteq> None \<and> \<not> has_prefix reason canceled_prefix then canceled_prefix @ '': '' @ reason else reason)"

definition fail_run :: "time \<Rightarrow> agent_run \<Rightarrow> bounce_group \<Rightarrow> agent_report \<Rightarrow> string \<Rightarrow> agent_report idx" where
  "fail_run now run g rep reason0 =
     (let reason = run_reason run reason0; failed = rep\<lparr>r_status := report_error, r_error_message := reason\<rparr>
      in act_bind (wrapping ''agent: record failure'' (fail_agent_report now (r_id rep) reason)) (\<lambda>_.
         if \<not> failure_settles reason then act_return failed
         else act_try (list_group_pattern_keys (g_key g)) (\<lambda>r. case r of
             Inl _ \<Rightarrow> act_return failed
           | Inr ks \<Rightarrow> act_bind (settle now g (r_id rep) ks) (\<lambda>_. act_return failed))))"

text \<open>A read of the index whose failure fails the run.\<close>

definition or_fail :: "time \<Rightarrow> agent_run \<Rightarrow> bounce_group \<Rightarrow> agent_report \<Rightarrow> string \<Rightarrow> 'a idx \<Rightarrow> ('a \<Rightarrow> agent_report idx) \<Rightarrow> agent_report idx" where
  "or_fail now run g rep what m next =
     act_try m (\<lambda>r. case r of Inl e \<Rightarrow> fail_run now run g rep (what @ '': '' @ err_text e) | Inr x \<Rightarrow> next x)"

text \<open>Why the run failed; None for a usable report.\<close>

definition run_failure :: "agent_run \<Rightarrow> string \<Rightarrow> agent_output \<Rightarrow> string option" where
  "run_failure run answer out =
     (let invalid = (if ao_report_parsed out then validate_output out else None);
          label = (case ar_provider run of None \<Rightarrow> '''' | Some l \<Rightarrow> l)
      in if ao_report_parsed out \<and> invalid = None \<and> ar_launch_error run = None then None
         else case ar_launch_error run of
            Some e \<Rightarrow> Some (label @ '' could not run: '' @ e)
          | None \<Rightarrow> (case ar_canceled run of
               Some e \<Rightarrow> Some (canceled_prefix @ '': '' @ e)
             | None \<Rightarrow>
                 if rl_limited (ar_limit run answer) then Some (limit_message (ar_limit run answer))
                 else if \<not> ao_report_parsed out then Some (label @ '' produced no report'')
                 else Some (label @ '' produced an unusable report: '' @ (case invalid of None \<Rightarrow> '''' | Some e \<Rightarrow> e))))"

definition record_success ::
    "time \<Rightarrow> bounce_group \<Rightarrow> agent_report \<Rightarrow> string list \<Rightarrow> agent_output \<Rightarrow> agent_report idx" where
  "record_success now g rep patterns out =
     (let meta = ao_meta out
      in act_bind (wrapping ''agent: record report''
             (complete_agent_report now (r_id rep) (am_summary meta) (am_responsible meta) (am_severity meta)
               (am_confidence meta) (ao_report out))) (\<lambda>_.
         act_bind (settle now g (r_id rep) patterns) (\<lambda>_.
         act_try (if is_definite_responsible (am_responsible meta) \<and> am_responsible meta \<noteq> g_responsible g
                  then update_group_responsible now (g_key g) (am_responsible meta) else act_return ())
           (\<lambda>_. act_return (rep\<lparr>r_status := report_completed, r_summary := am_summary meta,
              r_responsible := am_responsible meta, r_severity := am_severity meta, r_confidence := am_confidence meta,
              r_markdown := ao_report out\<rparr>)))))"

text \<open>The run of the command line and its outcome, once the evidence is there.\<close>

definition run_cli :: "time \<Rightarrow> agent_run \<Rightarrow> bounce_group \<Rightarrow> agent_report \<Rightarrow> string list \<Rightarrow> agent_report idx" where
  "run_cli now run g rep0 patterns =
     (let answer = strip_prompt_echo (ar_transcript run) (ar_prompt run);
          out = parse_output (ar_decode run) answer;
          us = ar_usage run;
          rep = rep0\<lparr>r_model := us_model us, r_reasoning := us_reasoning us, r_tokens_used := us_tokens us,
                      r_command_count := us_commands us\<rparr>
      in act_try (update_agent_report_usage (r_id rep0) us) (\<lambda>_.
         case run_failure run answer out of
           Some reason \<Rightarrow> fail_run now run g rep reason
         | None \<Rightarrow> record_success now g rep patterns out))"

definition blank_report :: agent_report where
  "blank_report = \<lparr>r_id = 0, r_group = '''', r_provider = '''', r_status = '''', r_severity = '''', r_responsible = '''',
     r_summary = '''', r_markdown = '''', r_error_message = '''', r_confidence = '''', r_message_count = 0, r_model = '''',
     r_reasoning = '''', r_tokens_used = None, r_command_count = None, r_started_at = None, r_finished_at = None,
     r_created_at = zero_time\<rparr>"

definition run_steps :: "time \<Rightarrow> (string \<rightharpoonup> int) \<Rightarrow> agent_run \<Rightarrow> string \<Rightarrow> bounce_group \<Rightarrow> agent_report \<Rightarrow> agent_report idx" where
  "run_steps now days run name g rep =
     (let failed = fail_run now run g rep
      in case ar_provider run of
        None \<Rightarrow> failed (''unknown agent provider '' @ go_quote name)
      | Some _ \<Rightarrow> (case ar_workspace run of
        Some e \<Rightarrow> failed e
      | None \<Rightarrow>
          or_fail now run g rep ''load group stats'' (group_stats (g_key g)) (\<lambda>stats.
          or_fail now run g rep ''list bounces'' (list_group_bounces (g_key g)) (\<lambda>members.
          or_fail now run g rep ''load previous report'' (previous_coverage (g_key g)) (\<lambda>previous.
          or_fail now run g rep ''load state history'' (list_group_state_changes (g_key g)) (\<lambda>history.
          (let (recheck0, earlier) = decisions_of g history;
               recheck = map_option (\<lambda>d. if de_state d = ''resolved''
                  then d\<lparr>de_settling_days := recheck_days_for days (g_category g)\<rparr> else d) recheck0
           in or_fail now run g rep ''load reports''
                (case recheck of
                   None \<Rightarrow> act_return (map_option fst previous)
                 | Some d \<Rightarrow> act_bind (list_agent_reports (g_key g)) (\<lambda>rs. act_return (report_before rs (de_decided_at d))))
                (\<lambda>prev.
              case ar_evidence run \<lparr>ei_group = g, ei_stats = stats, ei_members = members, ei_covered = map_option snd previous,
                     ei_previous = prev, ei_recheck = recheck, ei_earlier = earlier\<rparr> of
                Inl e \<Rightarrow> failed e
              | Inr patterns \<Rightarrow> run_cli now run g rep patterns))))))))"

definition analyze_group :: "time \<Rightarrow> (string \<rightharpoonup> int) \<Rightarrow> agent_run \<Rightarrow> string \<Rightarrow> string \<Rightarrow> agent_report idx" where
  "analyze_group now days run provider key =
     (if key = '''' then act_fail (Plain ''agent: empty group key'')
      else let name = (if provider = '''' then ''codex'' else provider)
      in act_try (get_group key) (\<lambda>r. case r of
          Inl NoRows \<Rightarrow> act_fail (Plain (''agent: group '' @ key @ '' not found''))
        | Inl e \<Rightarrow> act_fail (Wrapped ''agent: load group'' e)
        | Inr g \<Rightarrow>
            act_bind (wrapping ''agent: record report'' (insert_agent_report now
                (blank_report\<lparr>r_group := g_key g, r_provider := name, r_message_count := g_message_count g\<rparr>)))
              (run_steps now days run name g)))"

end
