(* ===== verification/Group_Prune.thy ===== *)
theory Group_Prune
  imports Group_Life
begin

text \<open>
  The mail retention (mailengine/prune.go, PruneMailbox): expired messages lose their files
  and their rows, and the groups they were in are counted again. Removing the files of a
  message is an argument, which gives the text of the failure; the context is not canceled.
\<close>

record prune_result =
  pr_removed :: nat
  pr_removed_groups :: int

text \<open>The messages in turn: the groups that lost members in order, how many went, and the failures.\<close>

fun prune_messages ::
    "(expired_message \<Rightarrow> string option) \<Rightarrow> expired_message list \<Rightarrow> string list \<Rightarrow> nat \<Rightarrow> go_error list
       \<Rightarrow> (string list \<times> nat \<times> go_error list) idx" where
  "prune_messages remove_files [] keys removed errs = act_return (keys, removed, errs)"
| "prune_messages remove_files (m # ms) keys removed errs =
     (case remove_files m of
        Some e \<Rightarrow> prune_messages remove_files ms keys removed (errs @ [Plain e])
      | None \<Rightarrow>
          act_try (delete_message (em_id m)) (\<lambda>r. case r of
              Inl e \<Rightarrow> prune_messages remove_files ms keys removed (errs @ [Wrapped (''delete '' @ em_key m) e])
            | Inr _ \<Rightarrow> prune_messages remove_files ms (keys @ filter (\<lambda>k. k \<notin> set keys) (first_seen (em_groups m)))
                        (removed + 1) errs))"

fun refresh_groups :: "time \<Rightarrow> string list \<Rightarrow> unit idx" where
  "refresh_groups now [] = act_return ()"
| "refresh_groups now (k # ks) =
     act_bind (wrapping (''refresh group '' @ k) (refresh_group_counters now k)) (\<lambda>_. refresh_groups now ks)"

definition recount_groups :: "time \<Rightarrow> string list \<Rightarrow> int idx" where
  "recount_groups now keys =
     act_bind (refresh_groups now keys) (\<lambda>_.
     act_bind count_all_groups (\<lambda>before.
     act_bind (wrapping ''delete empty groups'' delete_empty_groups) (\<lambda>_.
     act_bind count_all_groups (\<lambda>later. act_return (int before - int later)))))"

text \<open>The result comes with the failures met, which the code returns joined.\<close>

definition prune_mailbox ::
    "time \<Rightarrow> int \<Rightarrow> (expired_message \<Rightarrow> string option) \<Rightarrow> string \<Rightarrow> (prune_result \<times> go_error list) idx" where
  "prune_mailbox now keep remove_files name =
     (if keep \<le> 0 then act_fail (Plain ''mailengine: the mail retention must be positive'')
      else act_bind (open_index name) (\<lambda>_.
           act_bind (wrapping ''list expired messages'' (list_messages_older_than (now - keep))) (\<lambda>expired.
           act_bind (prune_messages remove_files expired [] 0 []) (\<lambda>(keys, removed, errs).
             if removed = 0 then act_return (\<lparr>pr_removed = 0, pr_removed_groups = 0\<rparr>, errs)
             else act_try (recount_groups now keys) (\<lambda>r. case r of
                 Inl e \<Rightarrow> act_return (\<lparr>pr_removed = removed, pr_removed_groups = 0\<rparr>, errs @ [e])
               | Inr n \<Rightarrow> act_return (\<lparr>pr_removed = removed, pr_removed_groups = n\<rparr>, errs))))))"

end
