(* ===== verification/Group_Rules.thy ===== *)
theory Group_Rules
  imports Group_Analysis Group_Prune Act_Rules
begin

text \<open>
  What a relation between an index before and after must allow so that every run of the
  operations keeps it: the single statements. From them the locales derive it for the
  composed operations, whatever statements fail. The invariants of the groups, their
  counters and their reports are instances.
\<close>

section \<open>Flags\<close>

text \<open>The statements that only flag groups, drop them or record the patterns of a state change.\<close>

locale flag_relation = act_relation R for R :: "mail_index \<Rightarrow> mail_index \<Rightarrow> bool" +
  assumes needs_analysis: "act_keeps R (set_group_needs_analysis now key b)"
    and needs_recheck: "act_keeps R (set_group_needs_recheck now key)"
    and responsible: "act_keeps R (update_group_responsible now key r)"
    and drop_empty: "act_keeps R delete_empty_groups" "act_keeps R (delete_group_if_empty key)"
    and change_pattern: "act_keeps R (insert_change_pattern i k)"
begin

lemma group_reads:
  "act_keeps R (get_group key)" "act_keeps R (list_group_bounces key)" "act_keeps R (list_group_state_change_patterns i)"
  "act_keeps R (latest_group_state_change key)" "act_keeps R (pattern_covered key k)" "act_keeps R (group_has_uncovered_pattern key)"
  "act_keeps R (count_groups scope)" "act_keeps R latest_completed_agent_reports" "act_keeps R list_state_changes_without_patterns"
  "act_keeps R (list_group_pattern_keys key)" "act_keeps R (list_group_state_changes key)" "act_keeps R (list_agent_reports key)"
  "act_keeps R (list_bounce_group_keys i)" "act_keeps R list_unclassified_messages"
  "act_keeps R (list_messages_by_bounce_rule_prefix p)" "act_keeps R (list_messages_older_than cutoff)"
  unfolding get_group_def list_group_bounces_def list_group_state_change_patterns_def latest_group_state_change_def
    pattern_covered_def group_has_uncovered_pattern_def count_groups_def latest_completed_agent_reports_def
    list_state_changes_without_patterns_def list_group_pattern_keys_def list_group_state_changes_def list_agent_reports_def
    list_bounce_group_keys_def list_unclassified_messages_def list_messages_by_bounce_rule_prefix_def list_messages_older_than_def
  by (auto intro!: rules)

lemma wrapped: "act_keeps R m \<Longrightarrow> act_keeps R (wrapping what m)"
  unfolding wrapping_def by (auto intro!: rules split: sum.splits)

lemma count_all: "act_keeps R count_all_groups"
  unfolding count_all_groups_def by (intro try_rule group_reads) (auto intro!: rules split: sum.splits)

lemma change_patterns: "act_keeps R (insert_group_state_change_patterns i ks)"
  by (induction i ks rule: insert_group_state_change_patterns.induct) (auto intro!: rules change_pattern)

lemma record_patterns: "act_keeps R (record_state_change_patterns i key)"
  unfolding record_state_change_patterns_def group_recheck_keys_def by (intro rules group_reads change_patterns)

lemma index_opened: "act_keeps R (open_index name)"
proof -
  have "act_keeps R (fill_patterns xs)" for xs
    by (induction xs rule: fill_patterns.induct) (auto intro!: rules record_patterns)
  then show ?thesis
    unfolding open_index_def fill_state_change_patterns_def by (intro wrapped bind group_reads)
qed

lemma basis_loaded: "act_keeps R (load_recheck_basis key)"
  unfolding load_recheck_basis_def
  by (intro try_rule group_reads) (auto split: sum.splits go_error.splits intro!: rules group_reads)

lemma members_rechecked: "act_keeps R (recheck_members now days basis cur t ms)"
  by (induction now days basis cur t ms rule: recheck_members.induct) (auto intro!: rules needs_recheck)

lemma members_analyzed: "act_keeps R (analyze_members now cur t ms)"
  by (induction now cur t ms rule: analyze_members.induct) (auto intro!: rules needs_analysis group_reads)

lemma flags_raised:
  "act_keeps R (act_bind (get_group key) (\<lambda>cur.
     if g_state cur \<noteq> group_open \<and> \<not> g_needs_recheck cur
     then act_bind (load_recheck_basis (g_key cur)) (\<lambda>basis. recheck_members now days basis cur t ms)
     else if \<not> g_actionable cur then act_return t
     else analyze_members now cur t ms))"
  by (auto intro!: rules group_reads basis_loaded members_rechecked members_analyzed)

lemma responsibles_reapplied: "act_keeps R (reapply_report_responsible now)"
proof -
  have "act_keeps R (reapply_responsibles now rs)" for rs
    by (induction now rs rule: reapply_responsibles.induct) (auto intro!: rules responsible)
  then show ?thesis unfolding reapply_report_responsible_def by (intro bind group_reads)
qed

end

section \<open>Grouping, retention and analysis\<close>

text \<open>With the statements on rows; \<open>fit\<close> tells which groups a plan may describe.\<close>

locale grouping_relation = flag_relation +
  fixes fit :: "bounce_group \<Rightarrow> bool"
  assumes upsert: "fit g \<Longrightarrow> act_keeps R (upsert_group now g)"
    and refresh: "act_keeps R (refresh_group_counters now key)"
    and bounce_rows: "act_keeps R (delete_bounces i)" "act_keeps R (insert_bounce b)" "act_keeps R (exec (\<lambda>s. s\<lparr>bounces := []\<rparr>))"
    and dmarc_rows: "act_keeps R (delete_dmarc_records i)" "act_keeps R (insert_dmarc_record d)"
      "act_keeps R (exec (\<lambda>s. s\<lparr>dmarc_records := []\<rparr>))"
    and message_rows: "act_keeps R (update_messages P f)" "act_keeps R (delete_message i)"
begin

definition fit_plan :: "grouping_plan \<Rightarrow> bool" where
  "fit_plan plan \<longleftrightarrow>
     (\<forall>g. Some g \<in> set (gp_groups plan) \<longrightarrow> fit g) \<and> (\<forall>rg \<in> set (gp_record_groups plan). fit (rg_group rg))"

lemma recounted: "act_keeps R (recount now days t g ms)"
  unfolding recount_def by (auto split: option.splits intro!: bind return refresh flags_raised)

lemma recounted_all: "act_keeps R (recount_all now days t parts)"
  by (induction now days t parts rule: recount_all.induct) (auto intro!: rules recounted)

lemma groups_left: "act_keeps R (leave_groups now keys previous)"
  by (induction now keys previous rule: leave_groups.induct) (auto intro!: rules refresh drop_empty)

lemma all_upserted: "(\<forall>g. Some g \<in> set gs \<longrightarrow> fit g) \<Longrightarrow> act_keeps R (upsert_all now t gs)"
  by (induction now t gs rule: upsert_all.induct) (auto simp: tracker_upsert_def split: option.splits intro!: rules upsert)

lemma rows_replaced: "act_keeps R (replace_bounces i bs)" "act_keeps R (replace_dmarc_records i ds)"
proof -
  have "act_keeps R (insert_bounces i k bs)" for k
    by (induction i k bs rule: insert_bounces.induct) (auto intro!: rules bounce_rows)
  then show "act_keeps R (replace_bounces i bs)" unfolding replace_bounces_def by (intro bind bounce_rows)
  have "act_keeps R (insert_dmarc_records i ds)"
    by (induction i ds rule: insert_dmarc_records.induct) (auto intro!: rules dmarc_rows)
  then show "act_keeps R (replace_dmarc_records i ds)" unfolding replace_dmarc_records_def by (intro bind dmarc_rows)
qed

lemma message_grouped: "fit_plan plan \<Longrightarrow> act_keeps R (group_message now days msg plan t)"
  unfolding group_message_def group_message_in_def update_message_classification_def
  by (intro bind transaction return group_reads all_upserted rows_replaced recounted_all groups_left message_rows)
     (auto simp: fit_plan_def)

lemma messages_grouped:
  "(\<And>m plan. plan_of m = Some plan \<Longrightarrow> fit_plan plan) \<Longrightarrow> act_keeps R (group_messages now days plan_of ms t a b)"
  by (induction now days plan_of ms t a b rule: group_messages.induct)
     (auto split: option.splits prod.splits intro!: bind return wrapped message_grouped)

lemma cleared: "act_keeps R clear_mail_classification"
  unfolding clear_mail_classification_def by (intro transaction bind bounce_rows dmarc_rows message_rows)

lemma mailbox_grouped:
  "(\<And>m plan. plan_of m = Some plan \<Longrightarrow> fit_plan plan) \<Longrightarrow> act_keeps R (group_mailbox now days plan_of name full live)"
  unfolding group_mailbox_def
  by (auto intro!: bind return wrapped index_opened cleared group_reads messages_grouped drop_empty responsibles_reapplied
      count_all split: prod.splits)

lemma pruned: "act_keeps R (prune_mailbox now keep remove_files name)"
proof -
  have "act_keeps R (prune_messages remove_files ms keys n errs)" for ms keys n errs
    by (induction remove_files ms keys n errs rule: prune_messages.induct)
       (auto split: option.splits sum.splits intro!: return try_rule message_rows)
  moreover have "act_keeps R (refresh_groups now ks)" for ks
    by (induction now ks rule: refresh_groups.induct) (auto intro!: rules wrapped refresh)
  ultimately show ?thesis
    unfolding prune_mailbox_def recount_groups_def
    by (auto intro!: bind try_rule return fail wrapped index_opened group_reads drop_empty count_all
        split: prod.splits sum.splits)
qed

end

section \<open>Analysis\<close>

text \<open>\<open>ok\<close> tells which outputs a run may record as its report.\<close>

locale analysis_relation = flag_relation +
  fixes ok :: "agent_output \<Rightarrow> bool"
  assumes report_started: "r_status r = '''' \<Longrightarrow> act_keeps R (insert_agent_report now r)"
    and report_used: "act_keeps R (update_agent_report_usage i u)"
    and report_failed: "act_keeps R (fail_agent_report now i msg)"
    and report_done: "ok out \<Longrightarrow> act_keeps R (complete_agent_report now i (am_summary (ao_meta out)) responsible severity confidence
          (ao_report out))"
    and report_pattern: "act_keeps R (insert_report_pattern i k)"
    and usable_ok: "ao_report_parsed out \<Longrightarrow> validate_output out = None \<Longrightarrow> ok out"
begin

lemma report_patterns_recorded: "act_keeps R (insert_agent_report_patterns i ks)"
  by (induction i ks rule: insert_agent_report_patterns.induct) (auto intro!: rules report_pattern)

lemma settled: "act_keeps R (settle now g i ps)"
  unfolding settle_def Let_def
  by (auto intro!: try_rule return report_patterns_recorded group_reads needs_analysis split: sum.splits)

lemma run_failed: "act_keeps R (fail_run now run g rep reason)"
  unfolding fail_run_def Let_def
  by (auto intro!: bind try_rule return wrapped report_failed group_reads settled split: sum.splits)

lemma or_failed: "act_keeps R m \<Longrightarrow> (\<And>x. act_keeps R (next x)) \<Longrightarrow> act_keeps R (or_fail now run g rep what m next)"
  unfolding or_fail_def by (auto intro!: try_rule run_failed split: sum.splits)

lemma success_recorded:
  assumes "run_failure run answer out = None"
  shows "act_keeps R (record_success now g rep ps out)"
proof -
  have "ok out" using assms by (intro usable_ok) (auto simp: run_failure_def Let_def split: if_splits option.splits)
  then show ?thesis
    unfolding record_success_def Let_def
    by (auto intro!: bind try_rule return wrapped report_done settled responsible)
qed

lemma cli_run: "act_keeps R (run_cli now run g rep ps)"
  unfolding run_cli_def Let_def
  by (auto intro!: try_rule report_used run_failed split: option.splits elim: success_recorded)

lemma group_analyzed: "act_keeps R (analyze_group now days run provider key)"
proof -
  have cov: "act_keeps R (previous_coverage key)" for key
    unfolding previous_coverage_def latest_completed_agent_report_def list_agent_report_patterns_def
    by (intro try_rule query_row) (auto split: sum.splits go_error.splits intro!: rules)
  have stats: "act_keeps R (group_stats key)" for key
    unfolding group_stats_def Let_def by (intro rules)
  have "act_keeps R (run_steps now days run name g rep)" for name g rep
    unfolding run_steps_def Let_def
    by (auto intro!: or_failed run_failed group_reads cov stats cli_run bind return
        split: option.splits prod.splits sum.splits)
  then show ?thesis
    unfolding analyze_group_def Let_def
    by (auto intro!: bind try_rule fail wrapped report_started group_reads simp: blank_report_def
        split: sum.splits go_error.splits)
qed

end

end
