(* ===== verification/Group_Invariant.thy ===== *)
theory Group_Invariant
  imports Group_Rules
begin

text \<open>
  The invariant of the groups of an index: a group's state is the newest entry of its
  history, the states are well typed (which reasons and notes go with which state), and
  only closed groups are sent back. Every operation on a live index keeps it, whatever
  statements fail.
\<close>

section \<open>The invariant\<close>

definition typed_state :: "string \<Rightarrow> string option \<Rightarrow> string option \<Rightarrow> bool" where
  "typed_state st reason note \<longleftrightarrow>
     st = group_open \<and> reason = None \<and> note = None
     \<or> st = group_resolved \<and> (\<exists>r \<in> set resolve_actions. reason = Some r) \<and> note \<noteq> Some ''''
     \<or> st = group_ignored \<and> (\<exists>r \<in> set ignore_reasons. reason = Some r \<and> (note = None \<or> r = reason_other)) \<and> note \<noteq> Some ''''"

definition in_history :: "state_change list \<Rightarrow> bounce_group \<Rightarrow> bool" where
  "in_history h g \<longleftrightarrow>
     (case h of
        [] \<Rightarrow> g_state g = group_open \<and> g_state_reason g = None \<and> g_state_note g = None \<and> g_state_updated_at g = None
      | c # _ \<Rightarrow> g_state g = sc_state c \<and> g_state_reason g = sc_reason c \<and> g_state_note g = sc_note c
                 \<and> g_state_updated_at g = Some (sc_changed_at c))"

definition index_ok :: "mail_index \<Rightarrow> bool" where
  "index_ok s \<longleftrightarrow>
     distinct (map g_key (groups s)) \<and> distinct (map sc_id (changes s))
     \<and> (\<forall>c \<in> set (changes s). sc_id c < next_change s \<and> sc_group c \<in> g_key ` set (groups s)
          \<and> typed_state (sc_state c) (sc_reason c) (sc_note c))
     \<and> (\<forall>g \<in> set (groups s). in_history (history_of s (g_key g)) g \<and> (g_needs_recheck g \<longrightarrow> g_state g \<noteq> group_open))"

lemma history_of_set: "set (history_of s key) = {c \<in> set (changes s). sc_group c = key}"
  by (simp add: history_of_def)

lemma history_of_cong: "changes s = changes t \<Longrightarrow> history_of s = history_of t"
  by (rule ext) (simp add: history_of_def)

lemma typed_group: "\<lbrakk> index_ok s; g \<in> set (groups s) \<rbrakk> \<Longrightarrow> typed_state (g_state g) (g_state_reason g) (g_state_note g)"
proof -
  assume ok: "index_ok s" "g \<in> set (groups s)"
  then have h: "in_history (history_of s (g_key g)) g" by (simp add: index_ok_def)
  show ?thesis
  proof (cases "history_of s (g_key g)")
    case Nil
    with h show ?thesis by (simp add: in_history_def typed_state_def)
  next
    case (Cons c cs)
    then have "c \<in> set (changes s)" using history_of_set[of s "g_key g"] by auto
    then show ?thesis using ok(1) h Cons by (simp add: index_ok_def in_history_def)
  qed
qed

text \<open>A predicate that does not look at the failures gives a relation for \<open>act_keeps\<close>.\<close>

lemma invariant_relation:
  fixes I :: "'r db_scheme \<Rightarrow> bool"
  assumes "\<And>s fs. I (s\<lparr>faults := fs\<rparr>) = I s"
  shows "act_relation (\<lambda>s t. I s \<longrightarrow> I t)"
  by unfold_locales (auto simp: assms)

lemma history_of_faults [simp]: "history_of (s\<lparr>faults := fs\<rparr>) = history_of s"
  by (rule history_of_cong) simp

interpretation index: act_relation "\<lambda>s t. index_ok s \<longrightarrow> index_ok t"
  by (rule invariant_relation) (simp add: index_ok_def)

abbreviation keeps_ok :: "'a idx \<Rightarrow> bool" where
  "keeps_ok \<equiv> act_keeps (\<lambda>s t. index_ok s \<longrightarrow> index_ok t)"

section \<open>Single statements\<close>

text \<open>A statement that leaves the groups and their history alone.\<close>

lemma index_ok_cong:
  "\<lbrakk> groups t = groups s; changes t = changes s; next_change t = next_change s \<rbrakk> \<Longrightarrow> index_ok t = index_ok s"
  using history_of_cong[of t s] by (simp add: index_ok_def)

lemma keeps_exec_frame:
  "(\<And>s. groups (f s) = groups s \<and> changes (f s) = changes s \<and> next_change (f s) = next_change s) \<Longrightarrow> keeps_ok (exec f)"
  by (rule index.exec_rule) (use index_ok_cong in blast)

lemma keeps_insert_row_frame:
  "(\<And>s. groups (snd (f s)) = groups s \<and> changes (snd (f s)) = changes s \<and> next_change (snd (f s)) = next_change s)
     \<Longrightarrow> keeps_ok (insert_row f)"
  unfolding insert_row_def by (intro index.bind index.stmt_rule index.of_result) (use index_ok_cong in blast)

text \<open>A change of group rows that keeps their key and state and sends back closed groups only.\<close>

definition same_state :: "bounce_group \<Rightarrow> bounce_group \<Rightarrow> bool" where
  "same_state g h \<longleftrightarrow>
     g_key h = g_key g \<and> g_state h = g_state g \<and> g_state_reason h = g_state_reason g \<and> g_state_note h = g_state_note g
     \<and> g_state_updated_at h = g_state_updated_at g \<and> (g_needs_recheck h \<longrightarrow> g_needs_recheck g \<or> g_state g \<noteq> group_open)"

lemma in_history_same: "same_state g h \<Longrightarrow> in_history hs g \<Longrightarrow> in_history hs h"
  by (cases hs) (simp_all add: in_history_def same_state_def)

lemma keys_map: "(\<And>g. g \<in> set gs \<Longrightarrow> g_key (f g) = g_key g) \<Longrightarrow> map g_key (map f gs) = map g_key gs"
  by simp

lemma index_ok_map:
  assumes "index_ok s" "\<And>g. g \<in> set (groups s) \<Longrightarrow> same_state g (f g)"
  shows "index_ok (s\<lparr>groups := map f (groups s)\<rparr>)"
proof -
  have k: "map g_key (map f (groups s)) = map g_key (groups s)"
    using assms(2) by (auto simp: same_state_def)
  have h: "history_of (s\<lparr>groups := x\<rparr>) = history_of s" for x by (rule history_of_cong) simp
  have "g_key ` f ` set (groups s) = g_key ` set (groups s)"
    using arg_cong[OF k, of set] by (simp only: set_map)
  moreover have "in_history (history_of s (g_key (f g))) (f g)
      \<and> (g_needs_recheck (f g) \<longrightarrow> g_state (f g) \<noteq> group_open)" if "g \<in> set (groups s)" for g
    using assms(2)[OF that] assms(1) that in_history_same[OF assms(2)[OF that]]
    by (auto simp: index_ok_def same_state_def)
  ultimately show ?thesis using assms(1) k h by (auto simp: index_ok_def simp del: map_map)
qed

lemma index_ok_update:
  "\<lbrakk> index_ok s; \<And>g. P g \<Longrightarrow> same_state g (f g) \<rbrakk> \<Longrightarrow> index_ok (update_groups P f s)"
  unfolding update_groups_def by (rule index_ok_map) (auto simp: same_state_def)

lemma keeps_update_groups: "(\<And>g. P g \<Longrightarrow> same_state g (f g)) \<Longrightarrow> keeps_ok (exec (update_groups P f))"
  by (rule index.exec_rule) (blast intro: index_ok_update)

lemma index_ok_drop:
  assumes "index_ok s"
  shows "index_ok (drop_groups P s)"
proof -
  have h: "history_of (drop_groups P s) k = history_of s k" if "\<not> P k" for k
    using that by (auto simp: history_of_def drop_groups_def Let_def intro!: arg_cong[where f = "sort_key _"] filter_cong)
  then show ?thesis using assms
    by (auto simp: index_ok_def drop_groups_def Let_def distinct_map_filter)
qed

lemma index_ok_new_group:
  assumes "index_ok s" "g_key g \<notin> g_key ` set (groups s)" "in_history [] g" "\<not> g_needs_recheck g"
  shows "index_ok (s\<lparr>groups := groups s @ [g]\<rparr>)"
proof -
  have h: "history_of (s\<lparr>groups := x\<rparr>) = history_of s" for x by (rule history_of_cong) simp
  have "sc_group c \<noteq> g_key g" if "c \<in> set (changes s)" for c
    using assms(1,2) that unfolding index_ok_def by metis
  then have "set (history_of s (g_key g)) = {}" unfolding history_of_set by simp
  then show ?thesis using assms by (auto simp: index_ok_def h)
qed

section \<open>The operations of a run\<close>

lemma same_state_counters [simp]:
  "same_state g (g\<lparr>g_message_count := a, g_recipient_count := b, g_remote_ip_count := c, g_first_seen := d, g_last_seen := e,
     g_updated_at := f\<rparr>)"
  "same_state g (g\<lparr>g_needs_analysis := n, g_updated_at := f\<rparr>)"
  "same_state g (g\<lparr>g_responsible := r, g_updated_at := f\<rparr>)"
  "same_state g (described_as f h g)"
  "g_state g \<noteq> group_open \<Longrightarrow> same_state g (g\<lparr>g_needs_recheck := True, g_needs_analysis := n, g_updated_at := f\<rparr>)"
  by (simp_all add: same_state_def described_as_def)

text \<open>The grouping describes a group without a state of its own.\<close>

definition stateless :: "bounce_group \<Rightarrow> bool" where
  "stateless g \<longleftrightarrow> g_state g = ''''"

definition plan_ok :: "grouping_plan \<Rightarrow> bool" where
  "plan_ok plan \<longleftrightarrow>
     (\<forall>g. Some g \<in> set (gp_groups plan) \<longrightarrow> stateless g) \<and> (\<forall>rg \<in> set (gp_record_groups plan). stateless (rg_group rg))"

lemma keeps_upsert: "stateless g \<Longrightarrow> keeps_ok (upsert_group now g)"
  unfolding upsert_group_def
proof (rule index.exec_rule, rule impI)
  fix s assume s: "stateless g" "index_ok s"
  show "index_ok (if list_ex (\<lambda>x. g_key x = g_key g) (groups s)
          then update_groups (\<lambda>x. g_key x = g_key g) (described_as now g) s else s\<lparr>groups := groups s @ [new_group now g]\<rparr>)"
  proof (cases "list_ex (\<lambda>x. g_key x = g_key g) (groups s)")
    case True
    then show ?thesis using s(2) by (simp add: index_ok_update)
  next
    case False
    have "index_ok (s\<lparr>groups := groups s @ [new_group now g]\<rparr>)"
      by (rule index_ok_new_group) (use s False in \<open>auto simp: new_group_def stateless_def in_history_def list_ex_iff\<close>)
    with False show ?thesis by simp
  qed
qed

interpretation index: grouping_relation "\<lambda>s t. index_ok s \<longrightarrow> index_ok t" stateless
proof unfold_locales
  show "keeps_ok (set_group_needs_analysis now key b)" "keeps_ok (set_group_needs_recheck now key)"
    "keeps_ok (update_group_responsible now key r)" for now key b r
    unfolding set_group_needs_analysis_def update_group_responsible_def set_group_needs_recheck_def
    by (auto intro!: keeps_update_groups)
  show "keeps_ok delete_empty_groups" "keeps_ok (delete_group_if_empty key)" for key
    unfolding delete_empty_groups_def delete_group_if_empty_def by (auto intro!: index.exec_rule index_ok_drop)
  show "keeps_ok (insert_change_pattern i k)" for i k
    unfolding insert_change_pattern_def by (rule keeps_insert_row_frame) simp
  show "keeps_ok (upsert_group now g)" if "stateless g" for now g by (rule keeps_upsert[OF that])
  show "keeps_ok (refresh_group_counters now key)" for now key
    unfolding refresh_group_counters_def by (intro index.bind index.query) (auto split: prod.splits intro!: keeps_update_groups)
  show "keeps_ok (delete_bounces i)" "keeps_ok (exec (\<lambda>s. s\<lparr>bounces := []\<rparr>))" "keeps_ok (delete_dmarc_records i)"
    "keeps_ok (exec (\<lambda>s. s\<lparr>dmarc_records := []\<rparr>))" "keeps_ok (update_messages P f)" "keeps_ok (delete_message i)" for i P f
    unfolding delete_bounces_def delete_dmarc_records_def update_messages_def delete_message_def
    by (auto intro!: keeps_exec_frame)
  show "keeps_ok (insert_bounce b)" for b
    unfolding insert_bounce_def Let_def by (rule keeps_insert_row_frame) simp
  show "keeps_ok (insert_dmarc_record d)" for d
    unfolding insert_dmarc_record_def Let_def
    by (auto intro!: index.try_rule index.return index.fail keeps_insert_row_frame split: sum.splits)
qed

lemma fit_plan_iff: "index.fit_plan = plan_ok"
  by (simp add: fun_eq_iff index.fit_plan_def plan_ok_def)

interpretation index: analysis_relation "\<lambda>s t. index_ok s \<longrightarrow> index_ok t" "\<lambda>_. True"
proof unfold_locales
  show "keeps_ok (insert_agent_report now r)" for now r
    unfolding insert_agent_report_def Let_def by (rule keeps_insert_row_frame) simp
  show "keeps_ok (update_agent_report_usage i u)" "keeps_ok (fail_agent_report now i msg)"
    "keeps_ok (complete_agent_report now i (am_summary (ao_meta out)) responsible severity confidence (ao_report out))"
    for now i u msg out responsible severity confidence
    unfolding update_agent_report_usage_def fail_agent_report_def complete_agent_report_def update_reports_def
    by (rule keeps_exec_frame; simp)+
  show "keeps_ok (insert_report_pattern i k)" for i k
    unfolding insert_report_pattern_def by (rule keeps_insert_row_frame) simp
qed simp

end
