(* ===== verification/Fault_Free.thy ===== *)
theory Fault_Free
  imports Db
begin

text \<open>
  Runs with and without failing statements. A steady action either reports a failure of
  the database or does what it does when no statement fails; so whatever is shown of a
  fault-free run holds of every successful one.
\<close>

fun faulty :: "go_error \<Rightarrow> bool" where
  "faulty (DbFault m) = True"
| "faulty (Wrapped w e) = faulty e"
| "faulty _ = False"

abbreviation calm :: "'r db_scheme \<Rightarrow> 'r db_scheme" where
  "calm s \<equiv> s\<lparr>faults := []\<rparr>"

definition steady :: "('r db_scheme, 'a) action \<Rightarrow> bool" where
  "steady m \<longleftrightarrow>
     (\<forall>s r t. m s = (r, t) \<longrightarrow> (\<exists>e. r = Inl e \<and> faulty e) \<or> m (calm s) = (r, calm t))"

definition doomed :: "('r db_scheme, 'a) action \<Rightarrow> bool" where
  "doomed m \<longleftrightarrow> (\<forall>s. \<exists>e t. m s = (Inl e, t) \<and> faulty e)"

lemma steadyD: "\<lbrakk> steady m; m s = (Inr x, t) \<rbrakk> \<Longrightarrow> m (calm s) = (Inr x, calm t)"
  by (fastforce simp: steady_def)

lemma steady_return [simp]: "steady (act_return x)" and steady_fail [simp]: "steady (act_fail e)"
  by (simp_all add: steady_def act_return_def act_fail_def)

lemma doomed_fail: "faulty e \<Longrightarrow> doomed (act_fail e)"
  by (simp add: doomed_def act_fail_def)

lemma steady_of [simp]: "steady (act_of r)"
  by (simp add: act_of_def split: sum.splits)

lemma steady_stmt:
  assumes "\<And>s fs. f (s\<lparr>faults := fs\<rparr>) = (fst (f s), (snd (f s))\<lparr>faults := fs\<rparr>)"
  shows "steady (stmt f)"
  unfolding steady_def
proof (intro allI impI)
  fix s r t assume a: "stmt f s = (r, t)"
  show "(\<exists>e. r = Inl e \<and> faulty e) \<or> stmt f (calm s) = (r, calm t)"
  proof (cases rule: stmt_cases[of f s])
    case (fault msg u)
    with a have "r = Inl (DbFault msg)" by simp
    then show ?thesis by simp
  next
    case (ok u)
    from ok(1) have u: "u = s\<lparr>faults := faults u\<rparr>" by (simp add: same_rows_def)
    have "f u = (fst (f s), (snd (f s))\<lparr>faults := faults u\<rparr>)" by (subst u) (rule assms)
    moreover have "f (calm s) = (fst (f s), calm (snd (f s)))" by (rule assms)
    ultimately show ?thesis using a ok(2) by (auto simp: stmt_no_faults)
  qed
qed

lemma steady_query: "(\<And>s fs. f (s\<lparr>faults := fs\<rparr>) = f s) \<Longrightarrow> steady (query f)"
  unfolding query_def by (rule steady_stmt) simp

lemma steady_exec: "(\<And>s fs. f (s\<lparr>faults := fs\<rparr>) = (f s)\<lparr>faults := fs\<rparr>) \<Longrightarrow> steady (exec f)"
  unfolding exec_def by (rule steady_stmt) simp

lemma steady_bind:
  assumes "steady m" "\<And>x. steady (f x)"
  shows "steady (act_bind m f)"
  unfolding steady_def
proof (intro allI impI)
  fix s r t assume a: "act_bind m f s = (r, t)"
  obtain q u where m: "m s = (q, u)" by fastforce
  from assms(1) m have "(\<exists>e. q = Inl e \<and> faulty e) \<or> m (calm s) = (q, calm u)" by (auto simp: steady_def)
  then show "(\<exists>e. r = Inl e \<and> faulty e) \<or> act_bind m f (calm s) = (r, calm t)"
    using a m assms(2) by (cases q) (auto simp: act_bind_def steady_def)
qed

lemma steady_try:
  assumes "steady m" "\<And>r. steady (h r)" "\<And>e. faulty e \<Longrightarrow> doomed (h (Inl e))"
  shows "steady (act_try m h)"
  unfolding steady_def
proof (intro allI impI)
  fix s r t assume a: "act_try m h s = (r, t)"
  obtain q u where m: "m s = (q, u)" by fastforce
  from assms(1) m have "(\<exists>e. q = Inl e \<and> faulty e) \<or> m (calm s) = (q, calm u)" by (auto simp: steady_def)
  then show "(\<exists>e. r = Inl e \<and> faulty e) \<or> act_try m h (calm s) = (r, calm t)"
  proof
    assume "\<exists>e. q = Inl e \<and> faulty e"
    with assms(3) have "doomed (h q)" by blast
    then obtain e v where "h q u = (Inl e, v)" "faulty e" unfolding doomed_def by blast
    with a m have "r = Inl e" by (simp add: act_try_def)
    with \<open>faulty e\<close> show ?thesis by simp
  next
    assume c: "m (calm s) = (q, calm u)"
    from a m have "h q u = (r, t)" by (simp add: act_try_def Let_def)
    with assms(2)[of q] c show ?thesis by (auto simp: act_try_def steady_def Let_def)
  qed
qed

lemma steady_query_row: "(\<And>s fs. f (s\<lparr>faults := fs\<rparr>) = f s) \<Longrightarrow> steady (query_row f)"
  unfolding query_row_def by (intro steady_bind steady_query) (auto split: option.splits)

lemma transaction_calm:
  "transaction m (calm s) = (case m (calm s) of
     (Inl e, t) \<Rightarrow> (Inl e, s\<lparr>faults := faults t\<rparr>)
   | (Inr x, t) \<Rightarrow> (case query (\<lambda>_. ()) t of (Inl e, u) \<Rightarrow> (Inl e, s\<lparr>faults := faults u\<rparr>) | (Inr _, u) \<Rightarrow> (Inr x, u)))"
  by (simp add: transaction_def query_no_faults act_bind_def act_return_def split: prod.splits sum.splits)

lemma steady_transaction:
  assumes "steady m"
  shows "steady (transaction m)"
  unfolding steady_def
proof (intro allI impI)
  fix s r t assume a: "transaction m s = (r, t)"
  let ?b = "act_bind m (\<lambda>x. act_bind (query (\<lambda>_. ())) (\<lambda>_. act_return x))"
  have b: "steady ?b" by (intro steady_bind assms steady_query) simp_all
  obtain q u where q: "query (\<lambda>_. ()) s = (q, u)" by fastforce
  obtain p v where p: "?b u = (p, v)" by fastforce
  show "(\<exists>e. r = Inl e \<and> faulty e) \<or> transaction m (calm s) = (r, calm t)"
  proof (cases q)
    case (Inl e)
    with query_Inl q have "faulty e" by fastforce
    moreover have "r = Inl e" using a q Inl by (simp add: transaction_def)
    ultimately show ?thesis by simp
  next
    case (Inr x)
    have "calm (s\<lparr>faults := fs\<rparr>) = calm s" for fs by simp
    then have c: "calm u = calm s" using query_same_rows[OF q] unfolding same_rows_def by metis
    with b p have "(\<exists>e. p = Inl e \<and> faulty e) \<or> ?b (calm s) = (p, calm v)" unfolding steady_def by metis
    then show ?thesis using a q Inr p
      by (auto simp: transaction_def query_no_faults c split: sum.splits)
  qed
qed

lemmas steady_rules = steady_bind steady_transaction steady_query steady_query_row steady_exec steady_return steady_fail steady_of

end
