(* ===== verification/Group_Changes.thy ===== *)
theory Group_Changes
  imports Group_Invariant Fault_Free
begin

text \<open>
  What the reads and the state changes of a group give: the operations are steady, so a
  successful run is a fault-free one, and a fault-free one is computed here.
\<close>

section \<open>Steady operations\<close>

lemma members_faults [simp]:
  "bounce_members (s\<lparr>faults := fs\<rparr>) = bounce_members s" "record_members (s\<lparr>faults := fs\<rparr>) = record_members s"
  "group_members (s\<lparr>faults := fs\<rparr>) = group_members s" "newest_report P (s\<lparr>faults := fs\<rparr>) = newest_report P s"
  by (auto simp: bounce_members_def record_members_def group_members_def newest_report_def)

lemma settling_faults [simp]: "settling_report (s\<lparr>faults := fs\<rparr>) = settling_report s"
  by (rule ext) (simp add: settling_report_def)

lemma covered_faults [simp]: "covered_by (s\<lparr>faults := fs\<rparr>) = covered_by s"
  by (intro ext) (simp add: covered_by_def split: option.splits)

lemma uncovered_faults [simp]:
  "uncovered_member (s\<lparr>faults := fs\<rparr>) = uncovered_member s" "missing_group (s\<lparr>faults := fs\<rparr>) = missing_group s"
  by (intro ext; simp add: uncovered_member_def missing_group_def)+

lemma update_groups_faults [simp]: "update_groups P f (s\<lparr>faults := fs\<rparr>) = (update_groups P f s)\<lparr>faults := fs\<rparr>"
  by (simp add: update_groups_def)

lemma steady_insert_row:
  "(\<And>s fs. f (s\<lparr>faults := fs\<rparr>) = (fst (f s), (snd (f s))\<lparr>faults := fs\<rparr>)) \<Longrightarrow> steady (insert_row f)"
  unfolding insert_row_def by (intro steady_bind steady_stmt steady_of) auto

lemma steady_change_group_state: "steady (change_group_state now key change by)"
proof -
  have p: "steady (insert_group_state_change_patterns i ks)" for i ks
    by (induction i ks rule: insert_group_state_change_patterns.induct)
       (auto simp: insert_change_pattern_def intro!: steady_bind steady_insert_row)
  show ?thesis
    unfolding change_group_state_def change_group_state_in_def group_has_uncovered_pattern_def set_group_state_def
      insert_group_state_change_def record_state_change_patterns_def group_recheck_keys_def list_group_bounces_def
    by (intro steady_rules steady_insert_row p) (auto simp: Let_def)
qed

section \<open>Reads\<close>

lemma list_group_bounces_calm: "faults s = [] \<Longrightarrow> list_group_bounces key s = (Inr (group_members s key), s)"
  by (simp add: list_group_bounces_def act_bind_def query_no_faults act_return_def group_members_def)

definition basis_of :: "mail_index \<Rightarrow> string \<Rightarrow> recheck_basis option" where
  "basis_of s key =
     (case history_of s key of
        [] \<Rightarrow> None
      | c # _ \<Rightarrow> Some \<lparr>rb_change = c, rb_keys = patterns_of (change_patterns s) (sc_id c)\<rparr>)"

lemma load_recheck_basis_calm: "faults s = [] \<Longrightarrow> load_recheck_basis key s = (Inr (basis_of s key), s)"
  by (cases "history_of s key")
     (simp_all add: load_recheck_basis_def latest_group_state_change_def act_try_def query_row_no_faults act_return_def
       act_bind_def list_group_state_change_patterns_def query_no_faults basis_of_def)

lemma members_cong:
  "\<lbrakk> messages s = messages t; bounces s = bounces t; dmarc_records s = dmarc_records t \<rbrakk> \<Longrightarrow> group_members s = group_members t"
  by (rule ext) (simp add: group_members_def bounce_members_def record_members_def)

text \<open>\<open>AddDate\<close> on a time in UTC adds whole days.\<close>

lemma add_days_utc: "add_days utc t n = t + n * (24 * time_hour)"
proof -
  define u where "u = t div nanos_per_second"
  define q m h k i j where "q = u div 86400" and "m = u mod 86400" and "h = m div 3600" and "k = m mod 3600"
    and "i = k div 60" and "j = u mod 60"
  note fold = q_def[symmetric] m_def[symmetric] h_def[symmetric] k_def[symmetric] i_def[symmetric] j_def[symmetric]
  have "k mod 60 = j" unfolding k_def m_def j_def by (simp add: mod_mod_cancel)
  then have "u = q * 86400 + m" "m = h * 3600 + k" "k = i * 60 + j"
    unfolding q_def m_def h_def k_def i_def by (metis div_mult_mod_eq)+
  then have "(q + n) * 86400 + h * 3600 + i * 60 + j = u + n * 86400" by (simp add: algebra_simps)
  then have d: "(u div 86400 + n) * 86400 + u mod 86400 div 3600 * 3600 + u mod 86400 mod 3600 div 60 * 60 + u mod 60
      = u + n * 86400" unfolding fold .
  have "add_days utc t n = ((u div 86400 + n) * 86400 + u mod 86400 div 3600 * 3600 + u mod 86400 mod 3600 div 60 * 60
      + u mod 86400 mod 60) * nanos_per_second + t mod nanos_per_second"
    unfolding add_days_def civil_of_def date_in_def utc_def Let_def u_def by simp
  moreover have "u mod 86400 mod 60 = u mod 60" by (simp add: mod_mod_cancel)
  ultimately have "add_days utc t n = (u + n * 86400) * nanos_per_second + t mod nanos_per_second"
    by (simp only: d)
  moreover have "u * nanos_per_second + t mod nanos_per_second = t" by (simp add: u_def)
  ultimately show ?thesis by (simp add: time_hour_def distrib_right)
qed

section \<open>A state change\<close>

lemma insert_patterns_calm:
  assumes "faults s = []" "\<exists>c \<in> set (changes s). sc_id c = i"
  shows "\<exists>ps. insert_group_state_change_patterns i ks s = (Inr (), s\<lparr>change_patterns := ps\<rparr>)
    \<and> set ps = set (change_patterns s) \<union> Pair i ` set ks"
  using assms
proof (induction ks arbitrary: s)
  case Nil
  then show ?case by (intro exI[of _ "change_patterns s"]) (simp add: act_return_def)
next
  case (Cons k ks)
  define s1 where "s1 = (if (i, k) \<in> set (change_patterns s) then s else s\<lparr>change_patterns := change_patterns s @ [(i, k)]\<rparr>)"
  have "insert_change_pattern i k s = (Inr (), s1)"
    using Cons.prems unfolding s1_def insert_change_pattern_def insert_row_def
    by (auto simp: act_bind_def stmt_no_faults act_of_def act_return_def list_ex_iff)
  moreover have "faults s1 = []" "changes s1 = changes s" using Cons.prems by (auto simp: s1_def)
  moreover have "set (change_patterns s1) = insert (i, k) (set (change_patterns s))" by (auto simp: s1_def)
  moreover have "s1\<lparr>change_patterns := ps\<rparr> = s\<lparr>change_patterns := ps\<rparr>" for ps by (simp add: s1_def)
  ultimately show ?case using Cons.IH[of s1] Cons.prems(2) by (auto simp: act_bind_def)
qed

lemma missing_group_update:
  assumes "\<And>g. P g \<Longrightarrow> g_key (f g) = g_key g"
  shows "missing_group (update_groups P f s) k = missing_group s k"
proof -
  have "map g_key (groups (update_groups P f s)) = map g_key (groups s)"
    using assms by (simp add: update_groups_def)
  then have "g_key ` set (groups (update_groups P f s)) = g_key ` set (groups s)" by (metis set_map)
  moreover have "missing_group u k \<longleftrightarrow> k \<notin> g_key ` set (groups u)" for u
    by (auto simp: missing_group_def list_ex_iff)
  ultimately show ?thesis by simp
qed

text \<open>The rows after a successful change of \<open>key\<close>.\<close>

definition change_row :: "time \<Rightarrow> string \<Rightarrow> group_state_change \<Rightarrow> string \<Rightarrow> mail_index \<Rightarrow> state_change" where
  "change_row now key change by s =
     \<lparr>sc_id = next_change s, sc_group = key, sc_state = gs_state change, sc_reason = gs_reason change,
      sc_note = gs_note change, sc_changed_by = by, sc_changed_at = now\<rparr>"

definition changed_index :: "time \<Rightarrow> string \<Rightarrow> group_state_change \<Rightarrow> string \<Rightarrow> mail_index \<Rightarrow> mail_index" where
  "changed_index now key change by s =
     (update_groups (\<lambda>g. g_key g = key)
        (with_state now (gs_state change) (gs_reason change) (gs_note change) now (uncovered_member s key)) s)
       \<lparr>changes := changes s @ [change_row now key change by s], next_change := next_change s + 1\<rparr>"

lemma change_group_state_calm:
  assumes "faults s = []" "change_group_state now key change by s = (Inr x, t)"
  shows "\<not> missing_group s key \<and> (\<exists>ps. t = (changed_index now key change by s)\<lparr>change_patterns := ps\<rparr>
    \<and> set ps = set (change_patterns s) \<union> Pair (next_change s) ` recheck_key ` set (group_members s key))"
proof -
  let ?s1 = "update_groups (\<lambda>g. g_key g = key)
        (with_state now (gs_state change) (gs_reason change) (gs_note change) now (uncovered_member s key)) s"
  let ?s2 = "changed_index now key change by s"
  let ?keys = "first_seen (map recheck_key (group_members ?s2 key))"
  have miss: "missing_group ?s1 key = missing_group s key"
    by (rule missing_group_update) (simp add: with_state_def)
  have f: "faults ?s1 = []" "faults ?s2 = []" "changes ?s1 = changes s" "next_change ?s1 = next_change s"
    using assms(1) by (simp_all add: update_groups_def changed_index_def)
  have body: "change_group_state_in now key change by s =
      (if missing_group s key then (Inl (refused ''FOREIGN KEY''), ?s1)
       else insert_group_state_change_patterns (next_change s) ?keys ?s2)"
    using assms(1) f miss
    by (simp add: change_group_state_in_def group_has_uncovered_pattern_def set_group_state_def insert_group_state_change_def
        record_state_change_patterns_def group_recheck_keys_def act_bind_def query_no_faults exec_def stmt_no_faults
        insert_row_def act_of_def act_return_def act_fail_def list_group_bounces_calm change_row_def Let_def
        changed_index_def[symmetric])
       (simp add: changed_index_def change_row_def)
  have mem: "group_members ?s2 = group_members s" by (rule members_cong) (simp_all add: changed_index_def update_groups_def)
  have "\<exists>c \<in> set (changes ?s2). sc_id c = next_change s" by (simp add: changed_index_def change_row_def)
  from insert_patterns_calm[OF f(2) this, of ?keys] obtain ps where
    ps: "insert_group_state_change_patterns (next_change s) ?keys ?s2 = (Inr (), ?s2\<lparr>change_patterns := ps\<rparr>)"
      "set ps = set (change_patterns ?s2) \<union> Pair (next_change s) ` set ?keys" by blast
  have "change_patterns ?s2 = change_patterns s" by (simp add: changed_index_def update_groups_def)
  then show ?thesis
    using assms body ps mem f(2)
    by (auto simp: change_group_state_def transaction_def query_no_faults act_bind_def act_return_def image_image
        split: if_splits)
qed

lemma history_changed:
  assumes "index_ok s"
  shows "history_of (changed_index now key change by s) k =
    (if k = key then change_row now key change by s # history_of s key else history_of s k)"
proof -
  let ?c = "change_row now key change by s"
  have ch: "changes (changed_index now key change by s) = changes s @ [?c]" by (simp add: changed_index_def)
  show ?thesis
  proof (cases "k = key")
    case True
    have "\<forall>c \<in> set (filter (\<lambda>c. sc_group c = key) (changes s)). - sc_id ?c < - sc_id c"
      using assms by (auto simp: index_ok_def change_row_def)
    from sort_key_snoc_least[OF this]
    show ?thesis by (simp add: True history_of_def ch change_row_def)
  next
    case False
    then show ?thesis by (simp add: history_of_def ch change_row_def)
  qed
qed

text \<open>A validated change is well typed.\<close>

lemma group_state_input_typed:
  assumes "group_state_input st reason note = Inr change"
  shows "typed_state (gs_state change) (gs_reason change) (gs_note change)"
proof -
  have "trim_space '''' = ''''" by code_simp
  then show ?thesis
    using assms by (auto simp: group_state_input_def typed_state_def Let_def group_state_defs split: if_splits)
qed

lemma index_ok_changed:
  assumes ok: "index_ok s" and key: "\<not> missing_group s key" and ty: "typed_state (gs_state change) (gs_reason change) (gs_note change)"
  shows "index_ok (changed_index now key change by s)"
proof -
  let ?f = "\<lambda>g. if g_key g = key
      then with_state now (gs_state change) (gs_reason change) (gs_note change) now (uncovered_member s key) g else g"
  let ?u = "changed_index now key change by s" and ?c = "change_row now key change by s"
  have gs: "groups ?u = map ?f (groups s)" and ch: "changes ?u = changes s @ [?c]" and nx: "next_change ?u = next_change s + 1"
    by (simp_all add: changed_index_def update_groups_def)
  have k: "map g_key (groups ?u) = map g_key (groups s)" unfolding gs by (simp add: with_state_def)
  then have keys: "g_key ` set (groups ?u) = g_key ` set (groups s)" by (metis set_map)
  have c: "sc_id ?c = next_change s" "sc_group ?c = key" by (simp_all add: change_row_def)
  have "key \<in> g_key ` set (groups s)" using key by (auto simp: missing_group_def list_ex_iff)
  moreover have "in_history (history_of ?u (g_key (?f g))) (?f g) \<and> (g_needs_recheck (?f g) \<longrightarrow> g_state (?f g) \<noteq> group_open)"
    if "g \<in> set (groups s)" for g
    using ok that unfolding history_changed[OF ok]
    by (cases "g_key g = key") (simp_all add: with_state_def in_history_def change_row_def index_ok_def)
  then have "\<forall>g \<in> set (groups ?u). in_history (history_of ?u (g_key g)) g \<and> (g_needs_recheck g \<longrightarrow> g_state g \<noteq> group_open)"
    unfolding gs set_map by blast
  moreover have "\<forall>x \<in> set (changes s). sc_id x < next_change s \<and> sc_group x \<in> g_key ` set (groups s)
      \<and> typed_state (sc_state x) (sc_reason x) (sc_note x)" "distinct (map g_key (groups s))" "distinct (map sc_id (changes s))"
    using ok by (simp_all add: index_ok_def)
  moreover have "typed_state (sc_state ?c) (sc_reason ?c) (sc_note ?c)" using ty by (simp add: change_row_def)
  ultimately show ?thesis unfolding index_ok_def k keys ch nx using c by (auto simp: zless_add1_eq)
qed

lemma index_ok_rows: "index_ok s \<Longrightarrow> groups t = groups s \<Longrightarrow> changes t = changes s \<Longrightarrow> next_change t = next_change s \<Longrightarrow> index_ok t"
  using index_ok_cong by blast

lemma calm_history [simp]: "uncovered_member (calm s) = uncovered_member s" "next_change (calm s) = next_change s"
  by simp_all

text \<open>A successful change under any failures.\<close>

lemma change_group_state_ok:
  assumes "change_group_state now key change by s = (Inr x, t)"
  shows "\<not> missing_group s key" "groups t = groups (changed_index now key change by s)"
    "changes t = changes (changed_index now key change by s)" "next_change t = next_change s + 1"
    "group_members t = group_members s"
    "set (change_patterns t) = set (change_patterns s) \<union> Pair (next_change s) ` recheck_key ` set (group_members s key)"
proof -
  have "change_group_state now key change by (calm s) = (Inr x, calm t)"
    by (rule steadyD[OF steady_change_group_state assms])
  from change_group_state_calm[OF _ this] obtain ps where
    r: "\<not> missing_group s key" "calm t = (changed_index now key change by (calm s))\<lparr>change_patterns := ps\<rparr>"
      "set ps = set (change_patterns s) \<union> Pair (next_change s) ` recheck_key ` set (group_members s key)" by auto
  have row: "change_row now key change by (calm s) = change_row now key change by s" by (simp add: change_row_def)
  have eq: "changed_index now key change by (calm s) = calm (changed_index now key change by s)"
    by (simp add: changed_index_def row)
  obtain fs where t: "t = (changed_index now key change by s)\<lparr>change_patterns := ps, faults := fs\<rparr>"
  proof
    have "t = (calm t)\<lparr>faults := faults t\<rparr>" by simp
    then show "t = (changed_index now key change by s)\<lparr>change_patterns := ps, faults := faults t\<rparr>"
      unfolding r(2) eq by simp
  qed
  show "\<not> missing_group s key" by (rule r(1))
  show "groups t = groups (changed_index now key change by s)" "changes t = changes (changed_index now key change by s)"
    "next_change t = next_change s + 1"
    unfolding t by (simp_all add: changed_index_def)
  show "group_members t = group_members s"
    unfolding t by (rule members_cong) (simp_all add: changed_index_def update_groups_def)
  show "set (change_patterns t) = set (change_patterns s) \<union> Pair (next_change s) ` recheck_key ` set (group_members s key)"
    unfolding t using r(3) by simp
qed

lemma keeps_change_group_state:
  assumes "group_state_input st reason note = Inr change"
  shows "keeps_ok (change_group_state now key change by)"
  unfolding act_keeps_def
proof (intro allI impI)
  fix s r t assume a: "change_group_state now key change by s = (r, t)" and ok: "index_ok s"
  show "index_ok t"
  proof (cases r)
    case (Inl e)
    with a have "same_rows s t" unfolding change_group_state_def by (auto intro: transaction_failed)
    then obtain fs where t: "t = s\<lparr>faults := fs\<rparr>" by (auto simp: same_rows_def)
    show ?thesis by (rule index_ok_rows[OF ok]) (simp_all add: t)
  next
    case (Inr x)
    note c = change_group_state_ok[OF a[unfolded Inr]]
    have "index_ok (changed_index now key change by s)"
      by (rule index_ok_changed[OF ok c(1) group_state_input_typed[OF assms]])
    then show ?thesis by (rule index_ok_rows) (use c in \<open>simp_all add: changed_index_def\<close>)
  qed
qed

end
