(* ===== verification/Group_Steps.thy ===== *)
theory Group_Steps
  imports Group_Changes
begin

text \<open>
  The operations on a live index as steps, in any order and with any statements failing,
  and the invariant they keep.
\<close>

section \<open>Fetching keeps the invariant\<close>

lemma keeps_fetch:
  "keeps_ok (insert_message now m)" "keeps_ok (reidentify_message mid folder v uid sz)" "keeps_ok (mark_server_deleted is at)"
proof -
  show "keeps_ok (insert_message now m)"
    unfolding insert_message_def Let_def by (rule keeps_insert_row_frame) simp
  show "keeps_ok (reidentify_message mid folder v uid sz)"
    unfolding reidentify_message_def
    by (auto intro!: index.rules keeps_insert_row_frame split: sum.splits go_error.splits)
  show "keeps_ok (mark_server_deleted is at)"
    by (induction "is" at rule: mark_server_deleted.induct) (auto intro!: index.rules index.message_rows)
qed

section \<open>Steps\<close>

text \<open>
  One operation, complete or cut short by a failing statement: fetching and retention of
  messages, the grouping, state changes of the users, analyses and requests for one.
\<close>

inductive index_step :: "mail_index \<Rightarrow> mail_index \<Rightarrow> bool" where
  stored: "insert_message now m s = (r, t) \<Longrightarrow> index_step s t"
| moved: "reidentify_message mid folder v uid sz s = (r, t) \<Longrightarrow> index_step s t"
| deleted_on_server: "mark_server_deleted is at s = (r, t) \<Longrightarrow> index_step s t"
| pruned: "prune_mailbox now keep remove_files name s = (r, t) \<Longrightarrow> index_step s t"
| opened: "open_index name s = (r, t) \<Longrightarrow> index_step s t"
| grouped: "\<lbrakk> \<forall>m plan. plan_of m = Some plan \<longrightarrow> plan_ok plan; group_mailbox now days plan_of name full live s = (r, t) \<rbrakk>
    \<Longrightarrow> index_step s t"
| changed: "\<lbrakk> group_state_input st reason note = Inr change; change_group_state now key change by s = (r, t) \<rbrakk>
    \<Longrightarrow> index_step s t"
| requested: "set_group_needs_analysis now key True s = (r, t) \<Longrightarrow> index_step s t"
| analyzed: "analyze_group now days run provider key s = (r, t) \<Longrightarrow> index_step s t"
| failing: "index_step s (s\<lparr>faults := fs\<rparr>)"

inductive_cases index_stepE: "index_step s t"

text \<open>The states of an index over time, from an empty one.\<close>

definition empty_index :: mail_index where
  "empty_index = \<lparr>faults = [], messages = [], next_message = 1, bounces = [], next_bounce = 1, dmarc_records = [], next_dmarc = 1,
     groups = [], reports = [], next_report = 1, report_patterns = [], changes = [], next_change = 1, change_patterns = []\<rparr>"

inductive index_reachable :: "mail_index \<Rightarrow> bool" where
  start: "index_reachable empty_index"
| step: "\<lbrakk> index_reachable s; index_step s t \<rbrakk> \<Longrightarrow> index_reachable t"

text \<open>A relation that the operations of fetching and of the users keep too is kept by every step.\<close>

locale index_relation = grouping_relation R fit + analysis_relation R ok
  for R :: "mail_index \<Rightarrow> mail_index \<Rightarrow> bool" and fit :: "bounce_group \<Rightarrow> bool" and ok :: "agent_output \<Rightarrow> bool" +
  assumes fetched: "act_keeps R (insert_message now m)" "act_keeps R (reidentify_message mid folder v uid sz)"
      "act_keeps R (mark_server_deleted is at)"
    and state_changed: "group_state_input st reason note = Inr change \<Longrightarrow> act_keeps R (change_group_state now key change by)"
    and rescheduled: "R s (s\<lparr>faults := fs\<rparr>)"
    and fit_stateless: "stateless g \<Longrightarrow> fit g"
begin

lemmas mailbox_pruned = pruned

lemma step_kept:
  assumes "index_step s t"
  shows "R s t"
  using assms
proof (cases rule: index_step.cases)
  case stored then show ?thesis by (rule act_keepsD[OF fetched(1)])
next case moved then show ?thesis by (rule act_keepsD[OF fetched(2)])
next case deleted_on_server then show ?thesis by (rule act_keepsD[OF fetched(3)])
next case pruned then show ?thesis by (rule act_keepsD[OF mailbox_pruned])
next case opened then show ?thesis by (rule act_keepsD[OF index_opened])
next case (grouped plan_of now days name full live r)
  then have "fit_plan plan" if "plan_of m = Some plan" for m plan
    using that fit_stateless by (auto simp: fit_plan_def plan_ok_def)
  then show ?thesis using grouped(2) by (rule act_keepsD[OF mailbox_grouped])
next case (changed st reason nt change now key who r)
  then show ?thesis by (intro act_keepsD[OF state_changed])
next case requested then show ?thesis by (rule act_keepsD[OF needs_analysis])
next case analyzed then show ?thesis by (rule act_keepsD[OF group_analyzed])
next case failing then show ?thesis by (simp add: rescheduled)
qed

end

interpretation index: index_relation "\<lambda>s t. index_ok s \<longrightarrow> index_ok t" stateless "\<lambda>_. True"
  by unfold_locales (auto intro: keeps_fetch keeps_change_group_state index_ok_rows)

lemma index_ok_empty: "index_ok empty_index"
  by (simp add: index_ok_def empty_index_def)

lemma reachable_ok: "index_reachable s \<Longrightarrow> index_ok s"
  by (induction rule: index_reachable.induct) (auto intro: index_ok_empty dest: index.step_kept)

end
