(* ===== verification/Group_Rows.thy ===== *)
theory Group_Rows
  imports Group_Steps
begin

text \<open>
  The identifiers of the reports and of the state changes of an index: positive, without
  repeats and below the next one to be given out.
\<close>

definition numbered :: "int list \<Rightarrow> int \<Rightarrow> bool" where
  "numbered ids next \<longleftrightarrow> distinct ids \<and> (\<forall>i \<in> set ids. 0 < i \<and> i < next) \<and> 0 < next"

definition rows_ok :: "mail_index \<Rightarrow> bool" where
  "rows_ok s \<longleftrightarrow> numbered (map r_id (reports s)) (next_report s) \<and> numbered (map sc_id (changes s)) (next_change s)"

abbreviation keeps_rows :: "'a idx \<Rightarrow> bool" where
  "keeps_rows \<equiv> act_keeps (\<lambda>s t. rows_ok s \<longrightarrow> rows_ok t)"

lemma numbered_snoc: "numbered ids next \<Longrightarrow> numbered (ids @ [next]) (next + 1)"
  by (auto simp: numbered_def)

lemma numbered_filter: "numbered (map f xs) next \<Longrightarrow> numbered (map f (filter P xs)) next"
  by (auto simp: numbered_def distinct_map_filter)

interpretation rows: act_relation "\<lambda>s t. rows_ok s \<longrightarrow> rows_ok t"
  by (rule invariant_relation) (simp add: rows_ok_def)

text \<open>A statement that gives out no identifier and takes none back.\<close>

definition same_ids :: "mail_index \<Rightarrow> mail_index \<Rightarrow> bool" where
  "same_ids s t \<longleftrightarrow> map r_id (reports t) = map r_id (reports s) \<and> map sc_id (changes t) = map sc_id (changes s)
     \<and> next_report t = next_report s \<and> next_change t = next_change s"

lemma rows_ok_same: "same_ids s t \<Longrightarrow> rows_ok s \<Longrightarrow> rows_ok t"
  by (simp add: same_ids_def rows_ok_def)

lemma rows_exec: "(\<And>s. same_ids s (f s)) \<Longrightarrow> keeps_rows (exec f)"
  by (rule rows.exec_rule) (blast intro: rows_ok_same)

lemma rows_insert_row: "(\<And>s. rows_ok s \<Longrightarrow> rows_ok (snd (f s))) \<Longrightarrow> keeps_rows (insert_row f)"
  unfolding insert_row_def by (intro rows.bind rows.stmt_rule rows.of_result) auto

lemma rows_insert_same: "(\<And>s. same_ids s (snd (f s))) \<Longrightarrow> keeps_rows (insert_row f)"
  by (rule rows_insert_row) (blast intro: rows_ok_same)

lemma rows_drop: "rows_ok s \<Longrightarrow> rows_ok (drop_groups P s)"
  by (auto simp: rows_ok_def drop_groups_def Let_def intro: numbered_filter)

lemma same_ids_update [simp]: "same_ids s (update_groups P f s)"
  by (simp add: same_ids_def update_groups_def)

interpretation rows: grouping_relation "\<lambda>s t. rows_ok s \<longrightarrow> rows_ok t" "\<lambda>_. True"
proof unfold_locales
  show "keeps_rows (set_group_needs_analysis now key b)" "keeps_rows (set_group_needs_recheck now key)"
    "keeps_rows (update_group_responsible now key r)" for now key b r
    unfolding set_group_needs_analysis_def update_group_responsible_def set_group_needs_recheck_def
    by (rule rows_exec, simp)+
  show "keeps_rows (upsert_group now g)" "keeps_rows (delete_bounces i)" "keeps_rows (exec (\<lambda>s. s\<lparr>bounces := []\<rparr>))"
    "keeps_rows (delete_dmarc_records i)" "keeps_rows (exec (\<lambda>s. s\<lparr>dmarc_records := []\<rparr>))" "keeps_rows (update_messages P f)"
    "keeps_rows (delete_message i)" for now g i P f
    unfolding upsert_group_def delete_bounces_def delete_dmarc_records_def update_messages_def delete_message_def
    by (rule rows_exec; simp add: same_ids_def update_groups_def)+
  show "keeps_rows delete_empty_groups" "keeps_rows (delete_group_if_empty key)" for key
    unfolding delete_empty_groups_def delete_group_if_empty_def by (auto intro!: rows.exec_rule rows_drop)
  show "keeps_rows (insert_change_pattern i k)" "keeps_rows (insert_bounce b)" for i k b
    unfolding insert_change_pattern_def insert_bounce_def Let_def by (rule rows_insert_same; simp add: same_ids_def)+
  show "keeps_rows (insert_dmarc_record d)" for d
    unfolding insert_dmarc_record_def Let_def
    by (auto intro!: rows.try_rule rows.return rows.fail rows_insert_same simp: same_ids_def split: sum.splits)
  show "keeps_rows (refresh_group_counters now key)" for now key
    unfolding refresh_group_counters_def
    by (intro rows.bind rows.query) (auto split: prod.splits intro!: rows_exec)
qed

interpretation rows: index_relation "\<lambda>s t. rows_ok s \<longrightarrow> rows_ok t" "\<lambda>_. True" "\<lambda>_. True"
proof unfold_locales
  have ids: "map r_id (map (\<lambda>r. if P r then f r else r) rs) = map r_id rs" if "\<And>r. r_id (f r) = r_id r" for f P rs
    using that by simp
  show "keeps_rows (insert_agent_report now r)" for now r
    unfolding insert_agent_report_def Let_def by (rule rows_insert_row) (auto simp: rows_ok_def intro: numbered_snoc)
  show "keeps_rows (update_agent_report_usage i u)" "keeps_rows (fail_agent_report now i msg)"
    "keeps_rows (complete_agent_report now i (am_summary (ao_meta out)) responsible severity confidence (ao_report out))"
    for now i u msg out responsible severity confidence
    unfolding update_agent_report_usage_def fail_agent_report_def complete_agent_report_def update_reports_def
    by (rule rows_exec; simp add: same_ids_def)+
  show "keeps_rows (insert_report_pattern i k)" for i k
    unfolding insert_report_pattern_def by (rule rows_insert_same) (simp add: same_ids_def)
  show "keeps_rows (insert_message now m)" for now m
    unfolding insert_message_def Let_def by (rule rows_insert_same) (simp add: same_ids_def)
  show "keeps_rows (reidentify_message mid folder v uid sz)" for mid folder v uid sz
    unfolding reidentify_message_def
    by (auto intro!: rows.rules rows_insert_same simp: same_ids_def split: sum.splits go_error.splits)
  show "keeps_rows (mark_server_deleted is at)" for "is" at
    by (induction "is" at rule: mark_server_deleted.induct) (auto intro!: rows.rules rows.message_rows)
  have "keeps_rows (set_group_state now key st r n at needs)" "keeps_rows (insert_group_state_change c)" for now key st r n at needs c
    unfolding set_group_state_def insert_group_state_change_def Let_def
    by (rule rows_exec, simp) (rule rows_insert_row, auto simp: rows_ok_def intro: numbered_snoc)
  then show "keeps_rows (change_group_state now key change by)" for now key change "by"
    unfolding change_group_state_def change_group_state_in_def
    by (intro rows.transaction rows.bind rows.group_reads rows.record_patterns)
qed (simp_all add: rows_ok_def)

lemma reachable_rows: "index_reachable s \<Longrightarrow> rows_ok s"
proof (induction rule: index_reachable.induct)
  show "rows_ok empty_index" by (simp add: rows_ok_def numbered_def empty_index_def)
qed (use rows.step_kept in blast)

end
