(* ===== verification/Group_Reports.thy ===== *)
theory Group_Reports
  imports Group_Steps
begin

text \<open>
  What a completed report of an index is: usable text without template placeholders and
  without secret-like strings.
\<close>

definition report_safe :: "agent_report \<Rightarrow> bool" where
  "report_safe r \<longleftrightarrow>
     (r_status r = report_completed \<longrightarrow>
        \<not> contains_secret_like (r_markdown r) \<and> \<not> contains_secret_like (r_summary r)
        \<and> rx_find placeholder_line (r_markdown r) = None \<and> trim_space (report_body (r_markdown r)) \<noteq> '''')"

definition reports_safe :: "mail_index \<Rightarrow> bool" where
  "reports_safe s \<longleftrightarrow> (\<forall>r \<in> set (reports s). report_safe r)"

abbreviation keeps_safe :: "'a idx \<Rightarrow> bool" where
  "keeps_safe \<equiv> act_keeps (\<lambda>s t. reports_safe s \<longrightarrow> reports_safe t)"

interpretation safe: act_relation "\<lambda>s t. reports_safe s \<longrightarrow> reports_safe t"
  by (rule invariant_relation) (simp add: reports_safe_def)

lemma safe_exec: "(\<And>s. set (reports (f s)) \<subseteq> set (reports s)) \<Longrightarrow> keeps_safe (exec f)"
  by (rule safe.exec_rule) (auto simp: reports_safe_def)

lemma safe_insert_row: "(\<And>s. set (reports (snd (f s))) \<subseteq> set (reports s)) \<Longrightarrow> keeps_safe (insert_row f)"
  unfolding insert_row_def
  by (intro safe.bind safe.stmt_rule safe.of_result) (auto simp: reports_safe_def)

lemma safe_update_reports: "(\<And>r. P r \<Longrightarrow> report_safe r \<Longrightarrow> report_safe (f r)) \<Longrightarrow> keeps_safe (update_reports P f)"
  unfolding update_reports_def by (rule safe.exec_rule) (auto simp: reports_safe_def)

definition output_safe :: "agent_output \<Rightarrow> bool" where
  "output_safe out \<longleftrightarrow>
     \<not> contains_secret_like (ao_report out) \<and> \<not> contains_secret_like (am_summary (ao_meta out))
     \<and> rx_find placeholder_line (ao_report out) = None \<and> trim_space (report_body (ao_report out)) \<noteq> ''''"

interpretation safe: grouping_relation "\<lambda>s t. reports_safe s \<longrightarrow> reports_safe t" "\<lambda>_. True"
proof unfold_locales
  show "keeps_safe (set_group_needs_analysis now key b)" "keeps_safe (set_group_needs_recheck now key)"
    "keeps_safe (update_group_responsible now key r)" "keeps_safe delete_empty_groups" "keeps_safe (delete_group_if_empty key)"
    "keeps_safe (upsert_group now g)" "keeps_safe (delete_bounces i)" "keeps_safe (exec (\<lambda>s. s\<lparr>bounces := []\<rparr>))"
    "keeps_safe (delete_dmarc_records i)" "keeps_safe (exec (\<lambda>s. s\<lparr>dmarc_records := []\<rparr>))" "keeps_safe (update_messages P f)"
    "keeps_safe (delete_message i)" for now key b r g i P f
    unfolding set_group_needs_analysis_def update_group_responsible_def set_group_needs_recheck_def delete_empty_groups_def
      delete_group_if_empty_def upsert_group_def delete_bounces_def delete_dmarc_records_def update_messages_def delete_message_def
    by (rule safe_exec; auto simp: update_groups_def drop_groups_def Let_def)+
  show "keeps_safe (insert_change_pattern i k)" "keeps_safe (insert_bounce b)" for i k b
    unfolding insert_change_pattern_def insert_bounce_def Let_def by (rule safe_insert_row; simp)+
  show "keeps_safe (insert_dmarc_record d)" for d
    unfolding insert_dmarc_record_def Let_def
    by (auto intro!: safe.try_rule safe.return safe.fail safe_insert_row split: sum.splits if_splits)
  show "keeps_safe (refresh_group_counters now key)" for now key
    unfolding refresh_group_counters_def
    by (intro safe.bind safe.query) (auto split: prod.splits intro!: safe_exec simp: update_groups_def)
qed

interpretation safe: analysis_relation "\<lambda>s t. reports_safe s \<longrightarrow> reports_safe t" output_safe
proof unfold_locales
  show "keeps_safe (insert_agent_report now r)" if "r_status r = ''''" for now r
    unfolding insert_agent_report_def insert_row_def Let_def
    by (intro safe.bind safe.stmt_rule safe.of_result)
       (auto simp: reports_safe_def report_safe_def report_running_def report_completed_def that)
  show "keeps_safe (update_agent_report_usage i u)" "keeps_safe (fail_agent_report now i msg)" for i u now msg
    unfolding update_agent_report_usage_def fail_agent_report_def
    by (rule safe_update_reports; simp add: report_safe_def report_error_def report_completed_def)+
  show "keeps_safe (complete_agent_report now i (am_summary (ao_meta out)) responsible severity confidence (ao_report out))"
    if "output_safe out" for now i out responsible severity confidence
    unfolding complete_agent_report_def
    by (rule safe_update_reports) (use that in \<open>simp add: report_safe_def output_safe_def\<close>)
  show "keeps_safe (insert_report_pattern i k)" for i k
    unfolding insert_report_pattern_def by (rule safe_insert_row) simp
  show "output_safe out" if "ao_report_parsed out" "validate_output out = None" for out
    using that by (auto simp: output_safe_def validate_output_def split: if_splits option.splits)
qed

interpretation safe: index_relation "\<lambda>s t. reports_safe s \<longrightarrow> reports_safe t" "\<lambda>_. True" output_safe
proof unfold_locales
  show "keeps_safe (insert_message now m)" for now m unfolding insert_message_def Let_def by (rule safe_insert_row) simp
  show "keeps_safe (reidentify_message mid folder v uid sz)" for mid folder v uid sz
    unfolding reidentify_message_def by (auto intro!: safe.rules safe_insert_row split: sum.splits go_error.splits if_splits)
  show "keeps_safe (mark_server_deleted is at)" for "is" at
    by (induction "is" at rule: mark_server_deleted.induct) (auto intro!: safe.rules safe.message_rows)
  have "keeps_safe (set_group_state now key st r n at needs)" "keeps_safe (insert_group_state_change c)" for now key st r n at needs c
    unfolding set_group_state_def insert_group_state_change_def Let_def
    by (rule safe_exec, simp add: update_groups_def) (rule safe_insert_row, simp)
  then show "keeps_safe (change_group_state now key change by)" for now key change "by"
    unfolding change_group_state_def change_group_state_in_def
    by (intro safe.transaction safe.bind safe.group_reads safe.record_patterns)
qed (simp_all add: reports_safe_def)

lemma reachable_safe: "index_reachable s \<Longrightarrow> reports_safe s"
proof (induction rule: index_reachable.induct)
  show "reports_safe empty_index" by (simp add: reports_safe_def empty_index_def)
qed (use safe.step_kept in blast)

end
