(* ===== verification/Total_Rules.thy ===== *)
theory Total_Rules
  imports Db
begin

text \<open>
  Total correctness of fault-free runs: from a state that satisfies P the action returns a
  value, no error, and the value and the state after satisfy Q.
\<close>

definition yields :: "('s \<Rightarrow> bool) \<Rightarrow> ('s, 'a) action \<Rightarrow> ('a \<Rightarrow> 's \<Rightarrow> bool) \<Rightarrow> bool" where
  "yields P m Q \<longleftrightarrow> (\<forall>s. P s \<longrightarrow> (\<exists>x t. m s = (Inr x, t) \<and> Q x t))"

lemma yieldsD: "yields P m Q \<Longrightarrow> P s \<Longrightarrow> \<exists>x t. m s = (Inr x, t) \<and> Q x t"
  by (simp add: yields_def)

lemma yields_return: "(\<And>s. P s \<Longrightarrow> Q x s) \<Longrightarrow> yields P (act_return x) Q"
  by (simp add: yields_def act_return_def)

lemma yields_bind: "yields P m Q \<Longrightarrow> (\<And>x. yields (Q x) (f x) R) \<Longrightarrow> yields P (act_bind m f) R"
  unfolding yields_def act_bind_def by fastforce

lemma yields_try: "yields P m Q \<Longrightarrow> (\<And>x. yields (Q x) (h (Inr x)) R) \<Longrightarrow> yields P (act_try m h) R"
  unfolding yields_def act_try_def Let_def by fastforce

lemma yields_weaken: "yields P m Q \<Longrightarrow> (\<And>s. P' s \<Longrightarrow> P s) \<Longrightarrow> (\<And>x s. Q x s \<Longrightarrow> Q' x s) \<Longrightarrow> yields P' m Q'"
  unfolding yields_def by blast

lemma yields_exec:
  "(\<And>s. P s \<Longrightarrow> faults s = []) \<Longrightarrow> (\<And>s. P s \<Longrightarrow> Q () (f s)) \<Longrightarrow> yields P (exec f) Q"
  by (simp add: yields_def exec_def stmt_no_faults)

lemma yields_query:
  "(\<And>s. P s \<Longrightarrow> faults s = []) \<Longrightarrow> (\<And>s. P s \<Longrightarrow> Q (f s) s) \<Longrightarrow> yields P (query f) Q"
  by (simp add: yields_def query_no_faults)

lemma yields_query_row:
  "(\<And>s. P s \<Longrightarrow> faults s = []) \<Longrightarrow> (\<And>s. P s \<Longrightarrow> \<exists>x. f s = Some x \<and> Q x s) \<Longrightarrow> yields P (query_row f) Q"
  by (fastforce simp: yields_def query_row_no_faults)

end
