(* ===== verification/Group_Settle.thy ===== *)
theory Group_Settle
  imports Group_Reports Total_Rules
begin

text \<open>
  How an analysis ends when no statement fails: its report row is finished, and the group
  is settled unless the run is to be repeated.
\<close>

text \<open>During a run: the group and the rows of the report are there.\<close>

definition in_run :: "string \<Rightarrow> int \<Rightarrow> mail_index \<Rightarrow> bool" where
  "in_run key i s \<longleftrightarrow> faults s = [] \<and> distinct (map g_key (groups s)) \<and> key \<in> g_key ` set (groups s)
     \<and> (\<exists>r \<in> set (reports s). r_id r = i)"

text \<open>A group that is settled: flagged when it asks for attention and a member has a pattern that no report covered.\<close>

definition settled_group :: "string \<Rightarrow> mail_index \<Rightarrow> bool" where
  "settled_group key s \<longleftrightarrow> (\<forall>g \<in> set (groups s). g_key g = key \<longrightarrow>
     (g_needs_analysis g \<longleftrightarrow> g_actionable g \<and> (g_state g = group_open \<or> g_needs_recheck g) \<and> uncovered_member s key))"

definition recorded :: "int \<Rightarrow> string \<Rightarrow> mail_index \<Rightarrow> bool" where
  "recorded i st s \<longleftrightarrow> (\<forall>r \<in> set (reports s). r_id r = i \<longrightarrow> r_status r = st)"

definition run_over :: "string \<Rightarrow> int \<Rightarrow> agent_report \<Rightarrow> mail_index \<Rightarrow> bool" where
  "run_over key i rep s \<longleftrightarrow> in_run key i s \<and> r_id rep = i \<and> recorded i (r_status rep) s
     \<and> (r_status rep = report_completed \<or> r_status rep = report_error)
     \<and> (r_status rep = report_completed \<or> failure_settles (r_error_message rep) \<longrightarrow> settled_group key s)"

lemma in_run_faults: "in_run key i s \<Longrightarrow> faults s = []"
  by (simp add: in_run_def)

lemma in_run_reads:
  "yields (in_run key i) (group_stats k) (\<lambda>_. in_run key i)" "yields (in_run key i) (list_group_bounces k) (\<lambda>_. in_run key i)"
  "yields (in_run key i) (list_group_state_changes k) (\<lambda>_. in_run key i)"
  "yields (in_run key i) (list_agent_reports k) (\<lambda>_. in_run key i)" "yields (in_run key i) (list_group_pattern_keys k) (\<lambda>_. in_run key i)"
  unfolding group_stats_def list_group_bounces_def list_group_state_changes_def list_agent_reports_def
    list_group_pattern_keys_def Let_def
  by (auto intro!: yields_bind[of "in_run key i" _ "\<lambda>_. in_run key i"] yields_query yields_return simp: in_run_faults)

lemma in_run_previous: "yields (in_run key i) (previous_coverage k) (\<lambda>_. in_run key i)"
  unfolding yields_def
  by (auto simp: previous_coverage_def latest_completed_agent_report_def list_agent_report_patterns_def act_try_def
      query_row_no_faults in_run_faults act_bind_def query_no_faults act_return_def split: option.splits)

lemma in_run_group: "yields (\<lambda>s. in_run key i s \<and> P s) (get_group key)
    (\<lambda>g s. in_run key i s \<and> P s \<and> g \<in> set (groups s) \<and> g_key g = key)"
  unfolding get_group_def
proof (rule yields_query_row)
  fix s assume a: "in_run key i s \<and> P s"
  then have "\<exists>g \<in> set (groups s). g_key g = key" by (auto simp: in_run_def)
  then obtain g where "List.find (\<lambda>g. g_key g = key) (groups s) = Some g" by (cases "List.find (\<lambda>g. g_key g = key) (groups s)") (auto simp: find_None_iff)
  moreover from this have "g \<in> set (groups s)" "g_key g = key" by (auto simp: find_Some_iff)
  ultimately show "\<exists>g. List.find (\<lambda>g. g_key g = key) (groups s) = Some g \<and> in_run key i s \<and> P s \<and> g \<in> set (groups s) \<and> g_key g = key"
    using a by blast
qed (simp add: in_run_def)

lemma in_run_patterns:
  "yields (\<lambda>s. in_run key i s \<and> recorded i st s) (insert_agent_report_patterns i ks) (\<lambda>_ s. in_run key i s \<and> recorded i st s)"
proof (induction ks)
  case (Cons k ks)
  have "yields (\<lambda>s. in_run key i s \<and> recorded i st s) (insert_report_pattern i k) (\<lambda>_ s. in_run key i s \<and> recorded i st s)"
    by (auto simp: yields_def insert_report_pattern_def insert_row_def act_bind_def stmt_no_faults in_run_def recorded_def
        act_of_def act_return_def list_ex_iff)
  then show ?case by (auto intro!: yields_bind Cons.IH)
qed (simp add: yields_return)

text \<open>A statement on the rows of the group.\<close>

lemma in_run_update:
  assumes "\<And>g. g_key (f g) = g_key g"
  shows "in_run key i (update_groups P f s) = in_run key i s" "recorded i st (update_groups P f s) = recorded i st s"
proof -
  have k: "map g_key (groups (update_groups P f s)) = map g_key (groups s)"
    using assms by (simp add: update_groups_def)
  then have "g_key ` set (groups (update_groups P f s)) = g_key ` set (groups s)" by (metis set_map)
  moreover have "faults (update_groups P f s) = faults s" "reports (update_groups P f s) = reports s" by (simp_all add: update_groups_def)
  ultimately show "in_run key i (update_groups P f s) = in_run key i s" by (simp only: in_run_def k)
qed (simp add: recorded_def update_groups_def)

lemma in_run_reports:
  assumes "\<And>r. r_id (f r) = r_id r"
  shows "in_run key i (s\<lparr>reports := map (\<lambda>r. if P r then f r else r) (reports s)\<rparr>) = in_run key i s"
proof -
  let ?t = "s\<lparr>reports := map (\<lambda>r. if P r then f r else r) (reports s)\<rparr>"
  have "map r_id (reports ?t) = map r_id (reports s)" using assms by simp
  then have "r_id ` set (reports ?t) = r_id ` set (reports s)" by (metis set_map)
  moreover have "(\<exists>r \<in> A. r_id r = i) \<longleftrightarrow> i \<in> r_id ` A" for A :: "agent_report set" by auto
  ultimately have "(\<exists>r \<in> set (reports ?t). r_id r = i) \<longleftrightarrow> (\<exists>r \<in> set (reports s). r_id r = i)" by (simp only:)
  then show ?thesis unfolding in_run_def by simp
qed

lemma run_finished_yields:
  assumes "\<And>r. r_id (f r) = r_id r" "\<And>r. r_status (f r) = st"
  shows "yields (in_run key i) (wrapping what (update_reports (\<lambda>r. r_id r = i) f)) (\<lambda>_ s. in_run key i s \<and> recorded i st s)"
proof -
  have "yields (in_run key i) (update_reports (\<lambda>r. r_id r = i) f) (\<lambda>_ s. in_run key i s \<and> recorded i st s)"
    unfolding update_reports_def using assms
    by (intro yields_exec) (auto simp: in_run_reports in_run_faults recorded_def)
  then show ?thesis unfolding wrapping_def by (rule yields_try) (auto intro: yields_return)
qed

lemma uncovered_update: "uncovered_member (update_groups P f s) = uncovered_member s"
proof -
  have "settling_report (update_groups P f s) = settling_report s"
    by (rule ext) (simp add: settling_report_def newest_report_def update_groups_def)
  then have "covered_by (update_groups P f s) = covered_by s"
    by (intro ext) (simp add: covered_by_def update_groups_def split: option.splits)
  then show ?thesis by (intro ext) (simp add: uncovered_member_def update_groups_def)
qed

lemma settle_yields:
  assumes "g_key g = key"
  shows "yields (\<lambda>s. in_run key i s \<and> recorded i st s) (settle now g i ps)
    (\<lambda>_ s. in_run key i s \<and> recorded i st s \<and> settled_group key s)"
proof -
  let ?J = "\<lambda>s. in_run key i s \<and> recorded i st s"
  let ?needs = "\<lambda>cur s. g_actionable cur \<and> (g_state cur = group_open \<or> g_needs_recheck cur) \<and> uncovered_member s key"
  have q: "yields (\<lambda>s. in_run key i s \<and> recorded i st s \<and> cur \<in> set (groups s) \<and> g_key cur = key)
      (if g_actionable cur \<and> (g_state cur = group_open \<or> g_needs_recheck cur) then group_has_uncovered_pattern key else act_return False)
      (\<lambda>n s. in_run key i s \<and> recorded i st s \<and> cur \<in> set (groups s) \<and> g_key cur = key \<and> (n \<longleftrightarrow> ?needs cur s))" for cur
    by (auto simp: group_has_uncovered_pattern_def in_run_faults intro!: yields_query yields_return)
  have w: "yields (\<lambda>s. in_run key i s \<and> recorded i st s \<and> cur \<in> set (groups s) \<and> g_key cur = key \<and> (n \<longleftrightarrow> ?needs cur s))
      (set_group_needs_analysis now key n) (\<lambda>_ s. ?J s \<and> settled_group key s)" for cur n
    unfolding set_group_needs_analysis_def
  proof (rule yields_exec)
    fix s let ?t = "update_groups (\<lambda>g. g_key g = key) (\<lambda>g. g\<lparr>g_needs_analysis := n, g_updated_at := now\<rparr>) s"
    assume a: "in_run key i s \<and> recorded i st s \<and> cur \<in> set (groups s) \<and> g_key cur = key \<and> (n \<longleftrightarrow> ?needs cur s)"
    then have u: "g = cur" if "g \<in> set (groups s)" "g_key g = key" for g
      using that by (auto simp: in_run_def distinct_map inj_on_def)
    have "settled_group key ?t"
      unfolding settled_group_def uncovered_update
    proof (intro ballI impI)
      fix x assume x: "x \<in> set (groups ?t)" "g_key x = key"
      then have "x = cur\<lparr>g_needs_analysis := n, g_updated_at := now\<rparr>"
        using u by (auto simp: update_groups_def split: if_splits)
      with a show "g_needs_analysis x \<longleftrightarrow> g_actionable x \<and> (g_state x = group_open \<or> g_needs_recheck x) \<and> uncovered_member s key"
        by simp
    qed
    with a show "?J ?t \<and> settled_group key ?t" by (simp add: in_run_update)
  qed (simp add: in_run_def)
  show ?thesis
    unfolding settle_def assms Let_def
    by (rule yields_try[OF in_run_patterns], rule yields_try[OF in_run_group], simp only: sum.case, rule yields_try[OF q],
        simp only: sum.case, rule yields_try[OF w], rule yields_return, simp)
qed


lemma fail_run_yields:
  assumes "g_key g = key" "r_id rep = i"
  shows "yields (in_run key i) (fail_run now run g rep reason) (run_over key i)"
proof -
  let ?J = "\<lambda>s. in_run key i s \<and> recorded i report_error s"
  define rep' where "rep' = rep\<lparr>r_status := report_error, r_error_message := run_reason run reason\<rparr>"
  have f: "yields (in_run key i) (wrapping what (fail_agent_report now i msg)) (\<lambda>_. ?J)" for what msg
    unfolding fail_agent_report_def by (rule run_finished_yields) simp_all
  have k: "yields ?J (list_group_pattern_keys key) (\<lambda>_. ?J)"
    unfolding list_group_pattern_keys_def by (rule yields_query) (simp_all add: in_run_def)
  have over: "run_over key i rep' s" if "?J s" "failure_settles (run_reason run reason) \<longrightarrow> settled_group key s" for s
    using that by (simp add: run_over_def rep'_def assms report_error_def report_completed_def)
  have "yields ?J (act_bind (settle now g i ks) (\<lambda>_. act_return rep')) (run_over key i)" for ks
    by (rule yields_bind[OF settle_yields[OF assms(1)]], rule yields_return, rule over) simp_all
  then have s: "yields ?J (act_try (list_group_pattern_keys key) (\<lambda>r. case r of Inl _ \<Rightarrow> act_return rep'
      | Inr ks \<Rightarrow> act_bind (settle now g i ks) (\<lambda>_. act_return rep'))) (run_over key i)"
    by (intro yields_try[OF k]) simp
  have "yields ?J (act_return rep') (run_over key i)" if "\<not> failure_settles (run_reason run reason)"
    using that over by (intro yields_return) simp
  with s show ?thesis
    unfolding fail_run_def Let_def assms rep'_def[symmetric]
    by (intro yields_bind[OF f]) (cases "failure_settles (run_reason run reason)"; simp)
qed

lemma or_fail_yields:
  "yields P m (\<lambda>_. Q) \<Longrightarrow> (\<And>x. yields Q (next x) R) \<Longrightarrow> yields P (or_fail now run g rep what m next) R"
  unfolding or_fail_def by (rule yields_try) auto

lemma record_success_yields:
  assumes "g_key g = key" "r_id rep = i"
  shows "yields (in_run key i) (record_success now g rep ps out) (run_over key i)"
proof -
  let ?J = "\<lambda>s. in_run key i s \<and> recorded i report_completed s"
  let ?K = "\<lambda>s. in_run key i s \<and> recorded i report_completed s \<and> settled_group key s"
  have f: "yields (in_run key i) (wrapping what (complete_agent_report now i su re se co md)) (\<lambda>_. ?J)" for what su re se co md
    unfolding complete_agent_report_def by (rule run_finished_yields) simp_all
  have u: "yields ?K (if c then update_group_responsible now key r else act_return ()) (\<lambda>_. ?K)" for c r
  proof -
    have "settled_group key (update_groups P (\<lambda>g. g\<lparr>g_responsible := r, g_updated_at := now\<rparr>) s)" if "settled_group key s" for P s
      using that unfolding settled_group_def uncovered_update by (auto simp: update_groups_def)
    then show ?thesis
      unfolding update_group_responsible_def
      by (auto intro!: yields_return yields_exec simp: in_run_update in_run_faults)
  qed
  show ?thesis
    unfolding record_success_def Let_def assms
    by (rule yields_bind[OF f], rule yields_bind[OF settle_yields[OF assms(1)]], rule yields_try[OF u], rule yields_return)
       (simp add: run_over_def assms)
qed

lemma run_cli_yields:
  assumes "g_key g = key" "r_id rep = i"
  shows "yields (in_run key i) (run_cli now run g rep ps) (run_over key i)"
proof -
  have u: "yields (in_run key i) (update_agent_report_usage i us) (\<lambda>_. in_run key i)" for us
    unfolding update_agent_report_usage_def update_reports_def by (rule yields_exec) (simp_all add: in_run_reports in_run_faults)
  show ?thesis
    unfolding run_cli_def Let_def assms
    by (rule yields_try[OF u])
       (auto intro!: fail_run_yields record_success_yields simp: assms split: option.splits)
qed

lemma run_steps_yields:
  assumes "g_key g = key" "r_id rep = i"
  shows "yields (in_run key i) (run_steps now days run name g rep) (run_over key i)"
proof -
  note orf = or_fail_yields[where Q = "in_run key i"]
  have l: "yields (in_run key i) (act_bind (list_agent_reports k) (\<lambda>rs. act_return (h rs))) (\<lambda>_. in_run key i)" for k h
    by (rule yields_bind[OF in_run_reads(4)]) (rule yields_return)
  show ?thesis
    unfolding run_steps_def Let_def
    by (auto split: option.splits prod.splits sum.splits
        intro!: fail_run_yields run_cli_yields orf in_run_reads in_run_previous l yields_return simp: assms)
qed


text \<open>A whole analysis.\<close>

lemma analysis_yields:
  assumes "faults s = []" "distinct (map g_key (groups s))" "g \<in> set (groups s)" "g_key g \<noteq> ''''"
  shows "\<exists>rep t. analyze_group now days run provider (g_key g) s = (Inr rep, t)
    \<and> r_id rep = next_report s \<and> run_over (g_key g) (next_report s) rep t"
proof -
  let ?row = "blank_report\<lparr>r_group := g_key g, r_provider := (if provider = '''' then ''codex'' else provider),
      r_message_count := g_message_count g\<rparr>"
  have g: "List.find (\<lambda>x. g_key x = g_key g) (groups s) = Some g"
  proof (cases "List.find (\<lambda>x. g_key x = g_key g) (groups s)")
    case None then show ?thesis using assms(3) by (auto simp: find_None_iff)
  next
    case (Some x)
    then have "x \<in> set (groups s)" "g_key x = g_key g" by (auto simp: find_Some_iff)
    with Some assms(2,3) show ?thesis by (auto simp: distinct_map inj_on_def)
  qed
  obtain rep u where i: "wrapping ''agent: record report'' (insert_agent_report now ?row) s = (Inr rep, u)" "r_id rep = next_report s"
      "in_run (g_key g) (next_report s) u"
  proof
    let ?r = "?row\<lparr>r_status := report_running\<rparr>"
    have "\<not> missing_group s (g_key g)" using assms(3) by (auto simp: missing_group_def list_ex_iff)
    then show "wrapping ''agent: record report'' (insert_agent_report now ?row) s
        = (Inr (?r\<lparr>r_id := next_report s, r_started_at := Some now, r_created_at := now\<rparr>),
           s\<lparr>reports := reports s @ [?r\<lparr>r_id := next_report s, r_started_at := Some now, r_created_at := now\<rparr>],
             next_report := next_report s + 1\<rparr>)"
      using assms(1) by (simp add: wrapping_def insert_agent_report_def insert_row_def act_try_def act_bind_def stmt_no_faults act_of_def
          act_return_def blank_report_def Let_def)
  qed (use assms in \<open>auto simp: in_run_def blank_report_def\<close>)
  from yieldsD[OF run_steps_yields[OF refl i(2)] i(3)] obtain rep' t where
    "run_steps now days run (if provider = '''' then ''codex'' else provider) g rep u = (Inr rep', t)"
    "run_over (g_key g) (next_report s) rep' t" by blast
  then show ?thesis
    using g i(1) assms(1,4)
    by (intro exI[of _ rep'] exI[of _ t])
       (simp add: analyze_group_def get_group_def query_row_no_faults act_try_def act_bind_def run_over_def Let_def)
qed

section \<open>Runs that are to be repeated\<close>

text \<open>An action that leaves the groups and the covered patterns alone unless its report settles.\<close>

definition same_groups :: "mail_index \<Rightarrow> mail_index \<Rightarrow> bool" where
  "same_groups s t \<longleftrightarrow> groups t = groups s \<and> report_patterns t = report_patterns s"

interpretation same_groups: act_relation same_groups
  by unfold_locales (simp_all add: same_groups_def)

definition settles_or_waits :: "agent_report idx \<Rightarrow> bool" where
  "settles_or_waits m \<longleftrightarrow> (\<forall>s rep t. m s = (Inr rep, t) \<longrightarrow> r_status rep = report_error \<longrightarrow> \<not> failure_settles (r_error_message rep)
     \<longrightarrow> same_groups s t)"

lemma waits_bind: "act_keeps same_groups m \<Longrightarrow> (\<And>x. settles_or_waits (f x)) \<Longrightarrow> settles_or_waits (act_bind m f)"
  unfolding settles_or_waits_def act_keeps_def act_bind_def
  by (fastforce split: prod.splits sum.splits intro: same_groups.chain)

lemma waits_try: "act_keeps same_groups m \<Longrightarrow> (\<And>r. settles_or_waits (f r)) \<Longrightarrow> settles_or_waits (act_try m f)"
  unfolding settles_or_waits_def act_keeps_def act_try_def Let_def
  by (fastforce split: prod.splits intro: same_groups.chain)

lemma waits_return: "settles_or_waits (act_return rep)" and waits_fail: "settles_or_waits (act_fail e)"
  by (simp_all add: settles_or_waits_def act_return_def act_fail_def same_groups_def)

text \<open>What follows a write is judged by the report it returns.\<close>

lemma waits_settled:
  assumes "\<And>s rep t. m s = (Inr rep, t) \<Longrightarrow> r_status rep = report_completed \<or> failure_settles (r_error_message rep)"
  shows "settles_or_waits m"
  using assms by (fastforce simp: settles_or_waits_def report_completed_def report_error_def)

lemma same_groups_reports: "act_keeps same_groups (update_reports P f)"
  unfolding update_reports_def by (rule same_groups.exec_rule) (simp add: same_groups_def)

lemma same_groups_reads:
  "act_keeps same_groups (get_group key)" "act_keeps same_groups (group_stats key)" "act_keeps same_groups (list_group_bounces key)"
  "act_keeps same_groups (list_group_state_changes key)" "act_keeps same_groups (list_agent_reports key)"
  "act_keeps same_groups (previous_coverage key)"
  unfolding get_group_def group_stats_def list_group_bounces_def list_group_state_changes_def list_agent_reports_def
    previous_coverage_def latest_completed_agent_report_def list_agent_report_patterns_def Let_def
  by (auto intro!: same_groups.rules split: sum.splits go_error.splits)

lemma same_groups_wrapped: "act_keeps same_groups m \<Longrightarrow> act_keeps same_groups (wrapping what m)"
  unfolding wrapping_def by (auto intro!: same_groups.rules split: sum.splits)

lemma waits_fail_run: "settles_or_waits (fail_run now run g rep reason)"
proof (cases "failure_settles (run_reason run reason)")
  case True
  show ?thesis
    by (rule waits_settled)
       (auto simp: fail_run_def Let_def True act_bind_def act_try_def act_return_def split: prod.splits sum.splits)
next
  case False
  then show ?thesis
    by (auto simp: fail_run_def Let_def fail_agent_report_def
        intro!: waits_bind waits_return same_groups_wrapped same_groups_reports)
qed

lemma waits_or_fail:
  "act_keeps same_groups m \<Longrightarrow> (\<And>x. settles_or_waits (next x)) \<Longrightarrow> settles_or_waits (or_fail now run g rep what m next)"
  unfolding or_fail_def by (auto intro!: waits_try waits_fail_run split: sum.splits)

lemma waits_run_cli: "settles_or_waits (run_cli now run g rep ps)"
proof -
  have "settles_or_waits (record_success now g rep ps out)" for g rep ps out
    by (rule waits_settled)
       (auto simp: record_success_def Let_def act_bind_def act_try_def act_return_def split: prod.splits sum.splits)
  then show ?thesis
    unfolding run_cli_def Let_def update_agent_report_usage_def
    by (auto intro!: waits_try same_groups_reports waits_fail_run split: option.splits)
qed

lemma waits_analyze: "settles_or_waits (analyze_group now days run provider key)"
proof -
  have "settles_or_waits (run_steps now days run name g rep)" for name g rep
    unfolding run_steps_def Let_def
    by (auto intro!: waits_or_fail waits_fail_run same_groups_reads same_groups.bind same_groups.return waits_run_cli
        split: option.splits prod.splits sum.splits)
  moreover have "act_keeps same_groups (insert_agent_report now r)" for r
    unfolding insert_agent_report_def insert_row_def Let_def
    by (intro same_groups.bind same_groups.stmt_rule same_groups.of_result) (simp add: same_groups_def)
  ultimately show ?thesis
    unfolding analyze_group_def Let_def
    by (auto intro!: waits_bind waits_try waits_fail same_groups_wrapped same_groups_reads split: sum.splits go_error.splits)
qed

end
