(* ===== verification/Group_Rebuild.thy ===== *)
theory Group_Rebuild
  imports Group_Carryover Group_Rows Group_Settle
begin

text \<open>
  A rebuild without failing statements: what is carried over arrives, computed statement by
  statement.
\<close>

section \<open>What is read\<close>

lemma read_carryover_calm:
  assumes "faults s = []"
  shows "\<exists>c. read_carryover s = (Inr c, s) \<and> set (co_groups c) = set (groups s) \<and> distinct (map g_key (co_groups c)) = distinct (map g_key (groups s))
    \<and> co_reports c = sort_key r_id (reports s) \<and> co_changes c = sort_key sc_id (changes s)
    \<and> (\<forall>i. set (co_patterns c i) = set (patterns_of (report_patterns s) i))
    \<and> (\<forall>i. set (co_change_patterns c i) = set (patterns_of (change_patterns s) i))"
proof -
  have "trim_space '''' = ''''" by code_simp
  then have "group_where all_groups g" for g
    by (simp add: group_where_def all_groups_def in_scope_def scope_actionable_def scope_excluded_def)
  then show ?thesis
    using assms
    by (simp add: distinct_map read_carryover_def list_message_sources_def list_groups_def list_all_agent_reports_def
        list_all_agent_report_patterns_def list_all_group_state_changes_def list_all_group_state_change_patterns_def
        act_bind_def query_no_faults act_return_def)
qed

section \<open>Reports and history\<close>

lemma list_ex_image: "list_ex (\<lambda>x. f x = a) xs \<longleftrightarrow> a \<in> f ` set xs"
  by (auto simp: list_ex_iff)

lemma wrapping_ok: "m s = (Inr x, t) \<Longrightarrow> wrapping what m s = (Inr x, t)"
  by (simp add: wrapping_def act_try_def act_return_def)

lemma report_patterns_calm:
  assumes "faults s = []" "\<exists>r \<in> set (reports s). r_id r = i"
  shows "\<exists>ps. insert_agent_report_patterns i ks s = (Inr (), s\<lparr>report_patterns := ps\<rparr>)
    \<and> set ps = set (report_patterns s) \<union> Pair i ` set ks"
  using assms
proof (induction ks arbitrary: s)
  case Nil
  then show ?case by (intro exI[of _ "report_patterns s"]) (simp add: act_return_def)
next
  case (Cons k ks)
  define s1 where "s1 = (if (i, k) \<in> set (report_patterns s) then s else s\<lparr>report_patterns := report_patterns s @ [(i, k)]\<rparr>)"
  have "insert_report_pattern i k s = (Inr (), s1)"
    using Cons.prems unfolding s1_def insert_report_pattern_def insert_row_def
    by (auto simp: act_bind_def stmt_no_faults act_of_def act_return_def list_ex_iff)
  moreover have "faults s1 = []" "reports s1 = reports s" using Cons.prems by (auto simp: s1_def)
  moreover have "set (report_patterns s1) = insert (i, k) (set (report_patterns s))" by (auto simp: s1_def)
  moreover have "s1\<lparr>report_patterns := ps\<rparr> = s\<lparr>report_patterns := ps\<rparr>" for ps by (simp add: s1_def)
  ultimately show ?case using Cons.IH[of s1] Cons.prems(2) by (auto simp: act_bind_def)
qed

text \<open>The pairs of identifiers and patterns of some rows.\<close>

definition keyed_patterns :: "('a \<Rightarrow> int) \<Rightarrow> (int \<Rightarrow> string list) \<Rightarrow> 'a list \<Rightarrow> (int \<times> string) set" where
  "keyed_patterns ident ps rows = (\<Union>r \<in> set rows. Pair (ident r) ` set (ps (ident r)))"

lemma keyed_patterns_mem:
  "(i, k) \<in> keyed_patterns ident ps rows \<longleftrightarrow> (\<exists>r \<in> set rows. ident r = i \<and> k \<in> set (ps i))"
  by (auto simp: keyed_patterns_def)

lemma restore_reports_calm:
  assumes "faults s = []" "distinct (map r_id rs)" "\<forall>r \<in> set rs. 0 < r_id r \<and> r_id r \<notin> r_id ` set (reports s)"
    and "\<forall>k \<in> set keys. \<not> missing_group s k"
  shows "\<exists>n' nx ps. restore_reports c keys rs n s
      = (Inr n', s\<lparr>reports := reports s @ filter (\<lambda>r. r_group r \<in> set keys) rs, report_patterns := ps, next_report := nx\<rparr>)
    \<and> set ps = set (report_patterns s) \<union> keyed_patterns r_id (co_patterns c) (filter (\<lambda>r. r_group r \<in> set keys) rs)"
  using assms
proof (induction rs arbitrary: s n)
  case Nil
  then show ?case
    by (intro exI[of _ n] exI[of _ "next_report s"] exI[of _ "report_patterns s"]) (simp add: act_return_def keyed_patterns_def)
next
  case (Cons r rs)
  show ?case
  proof (cases "r_group r \<in> set keys")
    case False
    then show ?thesis using Cons.IH[of s n] Cons.prems by auto
  next
    case True
    let ?s1 = "s\<lparr>reports := reports s @ [r], next_report := max (next_report s) (r_id r + 1)\<rparr>"
    have "\<not> list_ex (\<lambda>x. r_id x = r_id r) (reports s)" using Cons.prems(3) by (simp add: list_ex_image)
    then have "restore_agent_report r s = (Inr (), ?s1)"
      using Cons.prems True
      by (simp add: restore_agent_report_def insert_row_def act_bind_def stmt_no_faults act_of_def act_return_def)
    moreover have "\<exists>x \<in> set (reports ?s1). r_id x = r_id r" by simp
    from report_patterns_calm[OF _ this, of "co_patterns c (r_id r)"] Cons.prems(1) obtain ps1 where
      p: "insert_agent_report_patterns (r_id r) (co_patterns c (r_id r)) ?s1 = (Inr (), ?s1\<lparr>report_patterns := ps1\<rparr>)"
        "set ps1 = set (report_patterns s) \<union> Pair (r_id r) ` set (co_patterns c (r_id r))" by auto
    let ?s2 = "?s1\<lparr>report_patterns := ps1\<rparr>"
    have "r_id x \<noteq> r_id r" if "x \<in> set rs" for x
      using Cons.prems(2) imageI[OF that, of r_id] by auto
    then have pre: "faults ?s2 = []" "distinct (map r_id rs)" "\<forall>x \<in> set rs. 0 < r_id x \<and> r_id x \<notin> r_id ` set (reports ?s2)"
      "\<forall>k \<in> set keys. \<not> missing_group ?s2 k"
      using Cons.prems by (auto simp: missing_group_def)
    obtain n' nx ps where "restore_reports c keys rs (n + 1) ?s2
        = (Inr n', ?s2\<lparr>reports := reports ?s2 @ filter (\<lambda>r. r_group r \<in> set keys) rs, report_patterns := ps, next_report := nx\<rparr>)"
      "set ps = set (report_patterns ?s2) \<union> keyed_patterns r_id (co_patterns c) (filter (\<lambda>r. r_group r \<in> set keys) rs)"
      using Cons.IH[OF pre, of "n + 1"] by (elim exE conjE) (rule that)
    ultimately show ?thesis using True p
      by (intro exI[of _ n'] exI[of _ nx] exI[of _ ps])
         (auto simp: act_bind_def wrapping_def act_try_def act_return_def keyed_patterns_def)
  qed
qed

lemma restore_changes_calm:
  assumes "faults s = []" "distinct (map sc_id hs)" "\<forall>h \<in> set hs. 0 < sc_id h \<and> sc_id h \<notin> sc_id ` set (changes s)"
    and "\<forall>k \<in> set keys. \<not> missing_group s k"
  shows "\<exists>nx ps. restore_changes c keys hs s
      = (Inr (), s\<lparr>changes := changes s @ filter (\<lambda>h. sc_group h \<in> set keys) hs, change_patterns := ps, next_change := nx\<rparr>)
    \<and> set ps = set (change_patterns s) \<union> keyed_patterns sc_id (co_change_patterns c) (filter (\<lambda>h. sc_group h \<in> set keys) hs)"
  using assms
proof (induction hs arbitrary: s)
  case Nil
  then show ?case
    by (intro exI[of _ "next_change s"] exI[of _ "change_patterns s"]) (simp add: act_return_def keyed_patterns_def)
next
  case (Cons h hs)
  show ?case
  proof (cases "sc_group h \<in> set keys")
    case False
    then show ?thesis using Cons.IH[of s] Cons.prems by auto
  next
    case True
    let ?s1 = "s\<lparr>changes := changes s @ [h], next_change := max (next_change s) (sc_id h + 1)\<rparr>"
    have "\<not> list_ex (\<lambda>x. sc_id x = sc_id h) (changes s)" using Cons.prems(3) by (simp add: list_ex_image)
    then have "restore_group_state_change h s = (Inr (), ?s1)"
      using Cons.prems True
      by (simp add: restore_group_state_change_def insert_row_def act_bind_def stmt_no_faults act_of_def act_return_def)
    moreover have "\<exists>x \<in> set (changes ?s1). sc_id x = sc_id h" by simp
    from insert_patterns_calm[OF _ this, of "co_change_patterns c (sc_id h)"] Cons.prems(1) obtain ps1 where
      p: "insert_group_state_change_patterns (sc_id h) (co_change_patterns c (sc_id h)) ?s1 = (Inr (), ?s1\<lparr>change_patterns := ps1\<rparr>)"
        "set ps1 = set (change_patterns s) \<union> Pair (sc_id h) ` set (co_change_patterns c (sc_id h))" by auto
    let ?s2 = "?s1\<lparr>change_patterns := ps1\<rparr>"
    have "sc_id x \<noteq> sc_id h" if "x \<in> set hs" for x
      using Cons.prems(2) imageI[OF that, of sc_id] by auto
    then have pre: "faults ?s2 = []" "distinct (map sc_id hs)" "\<forall>x \<in> set hs. 0 < sc_id x \<and> sc_id x \<notin> sc_id ` set (changes ?s2)"
      "\<forall>k \<in> set keys. \<not> missing_group ?s2 k"
      using Cons.prems by (auto simp: missing_group_def)
    obtain nx ps where "restore_changes c keys hs ?s2
        = (Inr (), ?s2\<lparr>changes := changes ?s2 @ filter (\<lambda>h. sc_group h \<in> set keys) hs, change_patterns := ps, next_change := nx\<rparr>)"
      "set ps = set (change_patterns ?s2) \<union> keyed_patterns sc_id (co_change_patterns c) (filter (\<lambda>h. sc_group h \<in> set keys) hs)"
      using Cons.IH[OF pre] by (elim exE conjE) (rule that)
    ultimately show ?thesis using True p
      by (intro exI[of _ nx] exI[of _ ps])
         (auto simp: act_bind_def wrapping_def act_try_def act_return_def keyed_patterns_def)
  qed
qed

lemma fill_patterns_calm:
  assumes "faults s = []" "\<forall>(i, key) \<in> set xs. \<exists>c \<in> set (changes s). sc_id c = i"
  shows "\<exists>ps. fill_patterns xs s = (Inr (), s\<lparr>change_patterns := ps\<rparr>) \<and> set (change_patterns s) \<subseteq> set ps"
  using assms
proof (induction xs arbitrary: s rule: fill_patterns.induct)
  case 1
  then show ?case by (intro exI[of _ "change_patterns s"]) (simp add: act_return_def)
next
  case (2 i key rest)
  obtain ps where p: "insert_group_state_change_patterns i (first_seen (map recheck_key (group_members s key))) s
      = (Inr (), s\<lparr>change_patterns := ps\<rparr>)" "set (change_patterns s) \<subseteq> set ps"
    using insert_patterns_calm[of s i] 2(2,3) by fastforce
  then have "record_state_change_patterns i key s = (Inr (), s\<lparr>change_patterns := ps\<rparr>)"
    using 2(2) by (simp add: record_state_change_patterns_def group_recheck_keys_def act_bind_def list_group_bounces_calm act_return_def)
  moreover obtain ps' where "fill_patterns rest (s\<lparr>change_patterns := ps\<rparr>) = (Inr (), s\<lparr>change_patterns := ps'\<rparr>)" "set ps \<subseteq> set ps'"
    using 2(1)[of "s\<lparr>change_patterns := ps\<rparr>"] 2(2,3) by auto
  ultimately show ?case using p(2) by (intro exI[of _ ps']) (simp add: act_bind_def)
qed

lemma fill_state_change_patterns_calm:
  "faults s = [] \<Longrightarrow> \<exists>ps. fill_state_change_patterns s = (Inr (), s\<lparr>change_patterns := ps\<rparr>) \<and> set (change_patterns s) \<subseteq> set ps"
  by (auto simp: fill_state_change_patterns_def list_state_changes_without_patterns_def act_bind_def query_no_faults
      intro!: fill_patterns_calm)

section \<open>States\<close>

text \<open>The flags of a carried state, read off the index.\<close>

definition sent_back_in :: "mail_index \<Rightarrow> (string \<rightharpoonup> int) \<Rightarrow> bounce_group \<Rightarrow> bool" where
  "sent_back_in s days g \<longleftrightarrow>
     g_state g \<noteq> group_open \<and> list_ex (sends_back days (basis_of s (g_key g)) g) (group_members s (g_key g))"

definition flagged_in :: "mail_index \<Rightarrow> (string \<rightharpoonup> int) \<Rightarrow> bounce_group \<Rightarrow> bounce_group" where
  "flagged_in s days st =
     (if g_state st \<noteq> group_open \<and> \<not> g_needs_recheck st
      then (if sent_back_in s days st then st\<lparr>g_needs_recheck := True, g_needs_analysis := g_actionable st\<rparr> else st)
      else if g_actionable st then st\<lparr>g_needs_analysis := (g_needs_analysis st \<or> uncovered_member s (g_key st))\<rparr>
      else st)"

lemma group_sent_back_calm: "faults s = [] \<Longrightarrow> group_sent_back days g s = (Inr (sent_back_in s days g), s)"
proof -
  assume "faults s = []"
  moreover have "\<not> list_ex (sends_back days None g) ms" for ms by (simp add: list_ex_iff sends_back_def)
  ultimately show ?thesis
    by (simp add: group_sent_back_def sent_back_in_def act_bind_def load_recheck_basis_calm list_group_bounces_calm act_return_def)
qed

lemma flagged_state_calm: "faults s = [] \<Longrightarrow> flagged_state days st s = (Inr (flagged_in s days st), s)"
  by (simp add: flagged_state_def flagged_in_def act_bind_def wrapping_def act_try_def group_sent_back_calm act_return_def
      group_has_uncovered_pattern_def query_no_faults)

lemma flagged_in_groups: "flagged_in (update_groups P f s) = flagged_in s"
proof -
  have "history_of (update_groups P f s) = history_of s" by (rule history_of_cong) (simp add: update_groups_def)
  then have "basis_of (update_groups P f s) = basis_of s"
    by (intro ext) (simp add: basis_of_def update_groups_def split: list.splits)
  moreover have "group_members (update_groups P f s) = group_members s" by (rule members_cong) (simp_all add: update_groups_def)
  moreover have "uncovered_member (update_groups P f s) = uncovered_member s" by (rule uncovered_update)
  ultimately show ?thesis by (intro ext) (simp add: flagged_in_def sent_back_in_def)
qed

lemma flagged_in_key: "g_key (flagged_in s days st) = g_key st"
  by (simp add: flagged_in_def)

lemma restore_states_calm:
  assumes "faults s = []" "distinct (map (\<lambda>(old, _). g_key old) pairs)"
  shows "\<exists>n' gs. restore_states now days pairs n s = (Inr n', s\<lparr>groups := gs\<rparr>)
    \<and> (\<forall>x \<in> set (groups s). g_key x \<notin> (\<lambda>(old, _). g_key old) ` set pairs \<longrightarrow> x \<in> set gs)
    \<and> (\<forall>(old, g) \<in> set pairs. \<forall>x \<in> set (groups s). g_key x = g_key old \<longrightarrow>
         restored_state now (flagged_in s days (carried_state old g)) x \<in> set gs)"
  using assms
proof (induction pairs arbitrary: s n)
  case Nil
  then show ?case by (intro exI[of _ n] exI[of _ "groups s"]) (simp add: act_return_def)
next
  case (Cons p rest)
  obtain old g where p: "p = (old, g)" by (cases p)
  define st where "st = flagged_in s days (carried_state old g)"
  have key: "g_key st = g_key old" by (simp add: st_def flagged_in_key carried_state_def)
  define s1 where "s1 = update_groups (\<lambda>r. g_key r = g_key old) (restored_state now st) s"
  have s1: "faults s1 = []" "groups s1 = map (\<lambda>r. if g_key r = g_key old then restored_state now st r else r) (groups s)"
    using Cons.prems(1) by (simp_all add: s1_def update_groups_def)
  have fl: "flagged_in s1 = flagged_in s" unfolding s1_def by (rule flagged_in_groups)
  have "restore_group_state now st s = (Inr (), s1)"
    using Cons.prems(1) by (simp add: restore_group_state_def exec_def stmt_no_faults key s1_def)
  then have run: "restore_states now days (p # rest) n s = restore_states now days rest (n + 1) s1"
    using Cons.prems(1)
    by (simp add: p act_bind_def flagged_state_calm wrapping_def act_try_def act_return_def st_def[symmetric])
  obtain n' gs where ih: "restore_states now days rest (n + 1) s1 = (Inr n', s1\<lparr>groups := gs\<rparr>)"
    "\<forall>x \<in> set (groups s1). g_key x \<notin> (\<lambda>(old, _). g_key old) ` set rest \<longrightarrow> x \<in> set gs"
    "\<forall>(o', g') \<in> set rest. \<forall>x \<in> set (groups s1). g_key x = g_key o' \<longrightarrow>
         restored_state now (flagged_in s1 days (carried_state o' g')) x \<in> set gs"
    using Cons.IH[of s1 "n + 1"] Cons.prems(2) s1(1) by auto
  have eq: "s1\<lparr>groups := gs\<rparr> = s\<lparr>groups := gs\<rparr>" by (simp add: s1_def update_groups_def)
  have here: "restored_state now st x \<in> set gs" if "x \<in> set (groups s)" "g_key x = g_key old" for x
  proof -
    have "restored_state now st x \<in> set (groups s1)" using that by (auto simp: s1(2) intro: rev_image_eqI)
    moreover have "g_key (restored_state now st x) = g_key old" using that by (simp add: restored_state_def)
    moreover have "g_key old \<notin> (\<lambda>(old, _). g_key old) ` set rest" using Cons.prems(2) by (simp add: p)
    ultimately show ?thesis using ih(2) by auto
  qed
  have stays: "x \<in> set (groups s1)" if "x \<in> set (groups s)" "g_key x \<noteq> g_key old" for x
    using that by (auto simp: s1(2) intro: rev_image_eqI)
  have "restored_state now (flagged_in s days (carried_state o' g')) x \<in> set gs"
    if a: "(o', g') \<in> set rest" "x \<in> set (groups s)" "g_key x = g_key o'" for o' g' x
  proof -
    have "g_key o' \<noteq> g_key old" using Cons.prems(2) a(1) by (force simp: p)
    then show ?thesis using ih(3) a stays[OF a(2)] fl by auto
  qed
  moreover have "x \<in> set gs" if "x \<in> set (groups s)" "g_key x \<notin> (\<lambda>(old, _). g_key old) ` set (p # rest)" for x
    using that ih(2) stays[OF that(1)] by (auto simp: p)
  ultimately show ?case using here run ih(1) eq
    by (intro exI[of _ n'] exI[of _ gs]) (auto simp: p st_def)
qed

section \<open>The whole\<close>

lemma restored_groups_calm:
  assumes "faults s = []" "distinct (map g_key (groups s))" "distinct (map g_key olds)"
  shows "\<exists>pairs. restored_groups olds s = (Inr pairs, s) \<and> distinct (map (\<lambda>(old, _). g_key old) pairs)
    \<and> set pairs = {(old, g). old \<in> set olds \<and> g \<in> set (groups s) \<and> g_key g = g_key old}"
  using assms(3)
proof (induction olds)
  case Nil
  then show ?case by (simp add: act_return_def)
next
  case (Cons old rest)
  then obtain pairs where ih: "restored_groups rest s = (Inr pairs, s)" "distinct (map (\<lambda>(old, _). g_key old) pairs)"
    "set pairs = {(old, g). old \<in> set rest \<and> g \<in> set (groups s) \<and> g_key g = g_key old}" by auto
  have get: "get_group key s = (case List.find (\<lambda>g. g_key g = key) (groups s) of None \<Rightarrow> (Inl NoRows, s) | Some g \<Rightarrow> (Inr g, s))" for key
    using assms(1) by (simp add: get_group_def query_row_no_faults split: option.splits)
  show ?case
  proof (cases "List.find (\<lambda>g. g_key g = g_key old) (groups s)")
    case None
    then have "\<forall>g \<in> set (groups s). g_key g \<noteq> g_key old" by (simp add: find_None_iff)
    then show ?thesis using ih None by (intro exI[of _ pairs]) (auto simp: act_try_def get)
  next
    case (Some g)
    then have g: "g \<in> set (groups s)" "g_key g = g_key old" by (auto simp: find_Some_iff)
    then have u: "g_key x = g_key old \<longleftrightarrow> x = g" if "x \<in> set (groups s)" for x
      using that assms(2) by (auto simp: distinct_map inj_on_def)
    have "set ((old, g) # pairs) = {(o', x). o' \<in> set (old # rest) \<and> x \<in> set (groups s) \<and> g_key x = g_key o'}"
      unfolding list.set(2) ih(3) using g by (auto simp: u)
    moreover have "g_key old \<notin> (\<lambda>(old, _). g_key old) ` set pairs" using ih(3) Cons.prems by force
    moreover have "restored_groups (old # rest) s = (Inr ((old, g) # pairs), s)"
      using ih(1) Some by (simp add: act_try_def get act_bind_def act_return_def)
    ultimately show ?thesis using ih(2) by (intro exI[of _ "(old, g) # pairs"]) simp
  qed
qed

lemma sort_key_again:
  assumes "distinct (map f xs)"
  shows "sort_key f (sort_key g xs) = sort_key f xs"
proof (rule map_sorted_distinct_set_unique)
  show "inj_on f (set (sort_key f (sort_key g xs)) \<union> set (sort_key f xs))" using assms by (simp add: distinct_map)
qed (use assms in \<open>simp_all add: distinct_map\<close>)

text \<open>The rows of a key that came back, in any order.\<close>

lemma rows_of_key:
  assumes "distinct (map f xs)" "\<And>x. P x \<Longrightarrow> Q x"
  shows "sort_key (\<lambda>x. - f x) (filter P (filter Q (sort_key f xs))) = sort_key (\<lambda>x. - f x :: int) (filter P xs)"
proof -
  have "filter P (filter Q ys) = filter P ys" for ys using assms(2) by (induction ys) auto
  then have "filter P (filter Q (sort_key f xs)) = sort_key f (filter P xs)" by (simp only: filter_sort)
  moreover have "distinct (map (\<lambda>x. - f x) (filter P xs))" using assms(1) by (auto simp: distinct_map inj_on_def)
  ultimately show ?thesis by (simp only: sort_key_again)
qed

lemma groups_elsewhere:
  "basis_of (s\<lparr>groups := gs\<rparr>) = basis_of s" "group_members (s\<lparr>groups := gs\<rparr>) = group_members s"
  "uncovered_member (s\<lparr>groups := gs\<rparr>) = uncovered_member s"
proof -
  have "history_of (s\<lparr>groups := gs\<rparr>) = history_of s" by (rule history_of_cong) simp
  then show "basis_of (s\<lparr>groups := gs\<rparr>) = basis_of s" by (intro ext) (simp add: basis_of_def split: list.splits)
  show "group_members (s\<lparr>groups := gs\<rparr>) = group_members s" by (rule members_cong) simp_all
  have "settling_report (s\<lparr>groups := gs\<rparr>) = settling_report s" by (rule ext) (simp add: settling_report_def newest_report_def)
  then have "covered_by (s\<lparr>groups := gs\<rparr>) = covered_by s" by (intro ext) (simp add: covered_by_def split: option.splits)
  then show "uncovered_member (s\<lparr>groups := gs\<rparr>) = uncovered_member s" by (intro ext) (simp add: uncovered_member_def)
qed

text \<open>A freshly built index: groups without reports and history.\<close>

definition fresh_index :: "mail_index \<Rightarrow> bool" where
  "fresh_index s \<longleftrightarrow> faults s = [] \<and> distinct (map g_key (groups s)) \<and> reports s = [] \<and> report_patterns s = []
     \<and> changes s = [] \<and> change_patterns s = []"

lemma group_rank_faults [simp]: "group_rank srt (s\<lparr>faults := fs\<rparr>) = group_rank srt s"
  by (rule ext) (simp add: group_rank_def group_order_def severity_rank_def)

lemma steady_read_carryover: "steady read_carryover"
  unfolding read_carryover_def list_message_sources_def list_groups_def list_all_agent_reports_def
    list_all_agent_report_patterns_def list_all_group_state_changes_def list_all_group_state_change_patterns_def
  by (intro steady_rules) simp_all

lemma rows_read:
  assumes "read_carryover s = (Inr c, s')"
  shows "set (co_groups c) = set (groups s)" "distinct (map g_key (co_groups c)) = distinct (map g_key (groups s))"
    "co_reports c = sort_key r_id (reports s)" "co_changes c = sort_key sc_id (changes s)"
    "set (co_patterns c i) = set (patterns_of (report_patterns s) i)"
    "set (co_change_patterns c i) = set (patterns_of (change_patterns s) i)"
  using read_carryover_calm[of "calm s"] steadyD[OF steady_read_carryover assms] by auto

lemma patterns_of_mem: "k \<in> set (patterns_of ps i) \<longleftrightarrow> (i, k) \<in> set ps"
  by (force simp: patterns_of_def)

text \<open>The index between the restored history and the restored states, and the final one.\<close>

lemma apply_carryover_calm:
  assumes "rows_ok s" "distinct (map g_key (groups s))" "read_carryover s = (Inr c, s')" "fresh_index u"
  defines "keys \<equiv> g_key ` set (groups s) \<inter> g_key ` set (groups u)"
  shows "\<exists>n v gs. apply_carryover now days (Some c) u = (Inr n, v\<lparr>groups := gs\<rparr>)
    \<and> groups v = groups u \<and> group_members v = group_members u
    \<and> reports v = filter (\<lambda>r. r_group r \<in> keys) (sort_key r_id (reports s))
    \<and> set (report_patterns v) = {(i, k) \<in> set (report_patterns s). \<exists>r \<in> set (reports v). r_id r = i}
    \<and> changes v = filter (\<lambda>h. sc_group h \<in> keys) (sort_key sc_id (changes s))
    \<and> {(i, k) \<in> set (change_patterns s). \<exists>h \<in> set (changes v). sc_id h = i} \<subseteq> set (change_patterns v)
    \<and> (\<forall>old \<in> set (groups s). \<forall>g \<in> set (groups u). g_key g = g_key old \<longrightarrow>
         restored_state now (flagged_in v days (carried_state old g)) g \<in> set gs)
    \<and> (\<forall>g \<in> set (groups u). g_key g \<notin> keys \<longrightarrow> g \<in> set gs)"
proof -
  note read = rows_read[OF assms(3)]
  note u = assms(4)[unfolded fresh_index_def]
  obtain pairs where pairs: "restored_groups (co_groups c) u = (Inr pairs, u)" "distinct (map (\<lambda>(old, _). g_key old) pairs)"
    "set pairs = {(old, g). old \<in> set (groups s) \<and> g \<in> set (groups u) \<and> g_key g = g_key old}"
    using restored_groups_calm[of u "co_groups c"] u assms(2) read(1,2) by auto
  define ks where "ks = map (\<lambda>(old, _ :: bounce_group). g_key old) pairs"
  have ks: "set ks = keys" unfolding ks_def keys_def using pairs(3) by (force simp: image_iff)
  have there: "\<forall>k \<in> set ks. \<not> missing_group x k" if "groups x = groups u" for x
    using that unfolding ks keys_def by (auto simp: missing_group_def list_ex_iff)
  have ids: "distinct (map r_id (co_reports c))" "distinct (map sc_id (co_changes c))"
    "\<forall>r \<in> set (co_reports c). 0 < r_id r" "\<forall>h \<in> set (co_changes c). 0 < sc_id h"
    using assms(1) unfolding read(3,4) rows_ok_def numbered_def by (auto simp: distinct_map)
  obtain n1 nx ps where reps: "restore_reports c ks (co_reports c) 0 u
      = (Inr n1, u\<lparr>reports := filter (\<lambda>r. r_group r \<in> set ks) (co_reports c), report_patterns := ps, next_report := nx\<rparr>)"
    "set ps = keyed_patterns r_id (co_patterns c) (filter (\<lambda>r. r_group r \<in> set ks) (co_reports c))"
    using restore_reports_calm[of u "co_reports c" ks c 0] u ids(1,3) there[of u] by auto
  let ?u1 = "u\<lparr>reports := filter (\<lambda>r. r_group r \<in> set ks) (co_reports c), report_patterns := ps, next_report := nx\<rparr>"
  obtain nx' cp where chs: "restore_changes c ks (co_changes c) ?u1
      = (Inr (), ?u1\<lparr>changes := filter (\<lambda>h. sc_group h \<in> set ks) (co_changes c), change_patterns := cp, next_change := nx'\<rparr>)"
    "set cp = keyed_patterns sc_id (co_change_patterns c) (filter (\<lambda>h. sc_group h \<in> set ks) (co_changes c))"
    using restore_changes_calm[of ?u1 "co_changes c" ks c] u ids(2,4) there[of ?u1] by auto
  let ?u2 = "?u1\<lparr>changes := filter (\<lambda>h. sc_group h \<in> set ks) (co_changes c), change_patterns := cp, next_change := nx'\<rparr>"
  obtain cp' where fill: "fill_state_change_patterns ?u2 = (Inr (), ?u2\<lparr>change_patterns := cp'\<rparr>)" "set cp \<subseteq> set cp'"
    using fill_state_change_patterns_calm[of ?u2] u by auto
  define v where "v = ?u2\<lparr>change_patterns := cp'\<rparr>"
  have v: "faults v = []" "groups v = groups u" "group_members v = group_members u"
    "reports v = filter (\<lambda>r. r_group r \<in> set ks) (co_reports c)" "report_patterns v = ps"
    "changes v = filter (\<lambda>h. sc_group h \<in> set ks) (co_changes c)" "change_patterns v = cp'"
    using u members_cong[of v u] by (simp_all add: v_def)
  obtain n2 gs where sts: "restore_states now days pairs 0 v = (Inr n2, v\<lparr>groups := gs\<rparr>)"
    "\<forall>x \<in> set (groups v). g_key x \<notin> (\<lambda>(old, _). g_key old) ` set pairs \<longrightarrow> x \<in> set gs"
    "\<forall>(old, g) \<in> set pairs. \<forall>x \<in> set (groups v). g_key x = g_key old \<longrightarrow>
       restored_state now (flagged_in v days (carried_state old g)) x \<in> set gs"
    using restore_states_calm[OF v(1) pairs(2), of now days 0] by auto
  have wrapped: "wrapping what fill_state_change_patterns ?u2 = (Inr (), v)" for what
    using fill(1) unfolding v_def[symmetric] by (rule wrapping_ok)
  have "apply_carryover now days (Some c) u = (Inr (n2, n1), v\<lparr>groups := gs\<rparr>)"
    using pairs(1) reps(1) chs(1) wrapped sts(1)
    by (simp add: apply_carryover_def act_bind_def act_return_def Let_def ks_def[symmetric])
  moreover have "set (report_patterns v) = {(i, k) \<in> set (report_patterns s). \<exists>r \<in> set (reports v). r_id r = i}"
    unfolding v(4,5) reps(2) by (auto simp: keyed_patterns_mem read(5) patterns_of_mem)
  moreover have "{(i, k) \<in> set (change_patterns s). \<exists>h \<in> set (changes v). sc_id h = i} \<subseteq> set (change_patterns v)"
    unfolding v(6,7)
    by (rule subset_trans[OF _ fill(2)]) (auto simp: chs(2) keyed_patterns_mem read(6) patterns_of_mem)
  moreover have "restored_state now (flagged_in v days (carried_state old g)) g \<in> set gs"
    if "old \<in> set (groups s)" "g \<in> set (groups u)" "g_key g = g_key old" for old g
    using sts(3) that unfolding pairs(3) v(2) by auto
  moreover have "g \<in> set gs" if "g \<in> set (groups u)" "g_key g \<notin> keys" for g
    using sts(2) that ks unfolding v(2) ks_def by simp
  ultimately show ?thesis using v(2,3,4,6) read(3,4) ks
    by (intro exI[of _ "(n2, n1)"] exI[of _ v] exI[of _ gs]) simp
qed

end
