(* ===== verification/Group_Recount.thy ===== *)
theory Group_Recount
  imports Group_Changes
begin

text \<open>
  What the recount of a group writes when no statement fails: the counters of its members,
  and the flags its new members raise.
\<close>

definition counted_row :: "time \<Rightarrow> mail_index \<Rightarrow> bounce_group \<Rightarrow> bounce_group" where
  "counted_row now s g =
     (case group_counters (counted_members s (g_key g)) of (count, recipients, ips, first, final) \<Rightarrow>
        g\<lparr>g_message_count := count, g_recipient_count := recipients, g_remote_ip_count := ips, g_first_seen := first,
          g_last_seen := final, g_updated_at := now\<rparr>)"

text \<open>What the members of a message mean for a group: sent back, or to be analyzed.\<close>

definition is_sent_back :: "(string \<rightharpoonup> int) \<Rightarrow> mail_index \<Rightarrow> tracker \<Rightarrow> bounce_group \<Rightarrow> group_member list \<Rightarrow> bool" where
  "is_sent_back days s t g ms \<longleftrightarrow>
     g_key g \<notin> tk_flagged t \<and> g_state g \<noteq> group_open \<and> \<not> g_needs_recheck g
     \<and> list_ex (sends_back days (basis_of s (g_key g)) g) ms"

definition has_new_pattern :: "mail_index \<Rightarrow> tracker \<Rightarrow> bounce_group \<Rightarrow> group_member list \<Rightarrow> bool" where
  "has_new_pattern s t g ms \<longleftrightarrow>
     g_key g \<notin> tk_flagged t \<and> (g_state g = group_open \<or> g_needs_recheck g) \<and> g_actionable g
     \<and> list_ex (\<lambda>m. \<not> covered_by s (g_key g) (b_pattern (gm_bounce m))) ms"

definition flagged_row :: "(string \<rightharpoonup> int) \<Rightarrow> mail_index \<Rightarrow> tracker \<Rightarrow> group_member list \<Rightarrow> bounce_group \<Rightarrow> bounce_group" where
  "flagged_row days s t ms g =
     g\<lparr>g_needs_recheck := (g_needs_recheck g \<or> is_sent_back days s t g ms),
       g_needs_analysis := (g_needs_analysis g \<or> (is_sent_back days s t g ms \<or> has_new_pattern s t g ms) \<and> g_actionable g)\<rparr>"

lemma find_key: "\<lbrakk> distinct (map g_key gs); g \<in> set gs \<rbrakk> \<Longrightarrow> List.find (\<lambda>x. g_key x = g_key g) gs = Some g"
  by (induction gs) auto

lemma refresh_calm:
  assumes "faults s = []"
  shows "refresh_group_counters now key s = (Inr (), update_groups (\<lambda>g. g_key g = key) (counted_row now s) s)"
proof -
  obtain a b c d e where x: "group_counters (counted_members s key) = (a, b, c, d, e)"
    by (cases "group_counters (counted_members s key)")
  then have "counted_row now s g = g\<lparr>g_message_count := a, g_recipient_count := b, g_remote_ip_count := c, g_first_seen := d,
      g_last_seen := e, g_updated_at := now\<rparr>" if "g_key g = key" for g
    using that by (simp add: counted_row_def)
  then have "update_groups (\<lambda>g. g_key g = key) (counted_row now s) s = update_groups (\<lambda>g. g_key g = key)
      (\<lambda>g. g\<lparr>g_message_count := a, g_recipient_count := b, g_remote_ip_count := c, g_first_seen := d,
      g_last_seen := e, g_updated_at := now\<rparr>) s"
    unfolding update_groups_def by (intro arg_cong[where f = "\<lambda>x. s\<lparr>groups := x\<rparr>"] map_cong) auto
  then show ?thesis using assms x
    by (simp add: refresh_group_counters_def act_bind_def query_no_faults exec_def stmt_no_faults)
qed

lemma get_group_calm:
  "\<lbrakk> faults s = []; distinct (map g_key (groups s)); g \<in> set (groups s) \<rbrakk> \<Longrightarrow> get_group (g_key g) s = (Inr g, s)"
  by (simp add: get_group_def query_row_no_faults find_key)

lemma recheck_members_calm:
  assumes "faults s = []" "g_state cur \<noteq> group_open"
  shows "recheck_members now days basis cur t ms s =
    (if list_ex (sends_back days basis cur) ms
     then (Inr (if g_actionable cur then flag_group (g_key cur) t else t), snd (set_group_needs_recheck now (g_key cur) s))
     else (Inr t, s))"
  using assms
  by (induction now days basis cur t ms rule: recheck_members.induct)
     (simp_all add: act_return_def act_bind_def set_group_needs_recheck_def exec_def stmt_no_faults)

lemma analyze_members_calm:
  assumes "faults s = []"
  shows "analyze_members now cur t ms s =
    (if list_ex (\<lambda>m. \<not> covered_by s (g_key cur) (b_pattern (gm_bounce m))) ms
     then (Inr (flag_group (g_key cur) t), snd (set_group_needs_analysis now (g_key cur) True s)) else (Inr t, s))"
  using assms
  by (induction now cur t ms rule: analyze_members.induct)
     (simp_all add: act_return_def act_bind_def pattern_covered_def query_no_faults set_group_needs_analysis_def exec_def
       stmt_no_faults)

lemma counted_row_simps [simp]:
  "g_key (counted_row now s g) = g_key g" "g_state (counted_row now s g) = g_state g"
  "g_needs_recheck (counted_row now s g) = g_needs_recheck g" "g_actionable (counted_row now s g) = g_actionable g"
  "g_category (counted_row now s g) = g_category g" "g_needs_analysis (counted_row now s g) = g_needs_analysis g"
  "g_updated_at (counted_row now s g) = now"
  by (simp_all add: counted_row_def split: prod.splits)

lemma sends_back_cong:
  "\<lbrakk> g_state g = g_state h; g_category g = g_category h \<rbrakk> \<Longrightarrow> sends_back days basis g = sends_back days basis h"
  by (rule ext) (simp add: sends_back_def recheck_deadline_def split: option.splits)

lemma update_groups_frame [simp]:
  "faults (update_groups P f s) = faults s" "basis_of (update_groups P f s) = basis_of s"
  "covered_by (update_groups P f s) = covered_by s" "groups (update_groups P f s) = map (\<lambda>g. if P g then f g else g) (groups s)"
proof -
  have "settling_report (update_groups P f s) = settling_report s"
    by (rule ext) (simp add: settling_report_def newest_report_def update_groups_def)
  then show "covered_by (update_groups P f s) = covered_by s"
    by (intro ext) (simp add: covered_by_def update_groups_def split: option.splits)
  have "history_of (update_groups P f s) = history_of s" by (rule history_of_cong) (simp add: update_groups_def)
  then show "basis_of (update_groups P f s) = basis_of s"
    by (intro ext) (simp add: basis_of_def update_groups_def split: list.splits)
qed (simp_all add: update_groups_def)

lemma update_update_groups:
  assumes "\<And>g. g \<in> set (groups s) \<Longrightarrow> (let h = (if P g then f g else g) in if Q h then k h else h) = (if P g then m g else g)"
  shows "update_groups Q k (update_groups P f s) = update_groups P m s"
  using assms by (simp add: update_groups_def Let_def o_def)

theorem recount_calm:
  assumes f: "faults s = []" and d: "distinct (map g_key (groups s))" and g: "g \<in> set (groups s)"
    and key: "g_key g0 = g_key g"
  shows "recount now days t (Some g0) ms s =
    (Inr (if (is_sent_back days s t g ms \<or> has_new_pattern s t g ms) \<and> g_actionable g then flag_group (g_key g) t else t),
     update_groups (\<lambda>x. g_key x = g_key g) (\<lambda>x. flagged_row days s t ms (counted_row now s x)) s)"
proof -
  let ?P = "\<lambda>x. g_key x = g_key g"
  let ?s1 = "update_groups ?P (counted_row now s) s"
  let ?cur = "counted_row now s g"
  have only: "x = g" if "x \<in> set (groups s)" "g_key x = g_key g" for x
    using d g that by (auto simp: distinct_map inj_on_def)
  have d1: "distinct (map g_key (groups ?s1))"
  proof -
    have "map g_key (groups ?s1) = map g_key (groups s)" by simp
    with d show ?thesis by metis
  qed
  have cur: "?cur \<in> set (groups ?s1)" using g by force
  have got: "get_group (g_key g0) ?s1 = (Inr ?cur, ?s1)"
    using get_group_calm[OF _ d1 cur] f key by simp
  have bk: "list_ex (sends_back days (basis_of s (g_key g)) ?cur) ms = list_ex (sends_back days (basis_of s (g_key g)) g) ms"
    using sends_back_cong[of ?cur g] by simp
  have same: "is_sent_back days s t (counted_row now s x) ms = is_sent_back days s t x ms"
      "has_new_pattern s t (counted_row now s x) ms = has_new_pattern s t x ms" for x
    using sends_back_cong[of "counted_row now s x" x] by (simp_all add: is_sent_back_def has_new_pattern_def)
  have idle: "update_groups ?P (\<lambda>x. flagged_row days s t ms (counted_row now s x)) s = ?s1"
    if "\<not> is_sent_back days s t g ms" "\<not> has_new_pattern s t g ms"
  proof -
    have "flagged_row days s t ms ?cur = ?cur"
      by (rule bounce_group.equality) (use that in \<open>simp_all add: flagged_row_def same\<close>)
    then have "flagged_row days s t ms (counted_row now s x) = counted_row now s x"
      if "x \<in> set (groups s)" "g_key x = g_key g" for x using only[OF that] by simp
    then show ?thesis
      unfolding update_groups_def by (intro arg_cong[where f = "\<lambda>x. s\<lparr>groups := x\<rparr>"] map_cong refl) simp
  qed
  have sb: "snd (set_group_needs_recheck now (g_key g) ?s1)
      = update_groups ?P (\<lambda>x. flagged_row days s t ms (counted_row now s x)) s" if "is_sent_back days s t g ms"
  proof -
    have n: "\<not> has_new_pattern s t g ms" "g_state g \<noteq> group_open" using that by (auto simp: has_new_pattern_def is_sent_back_def)
    have "snd (set_group_needs_recheck now (g_key g) ?s1) = update_groups (\<lambda>x. g_key x = g_key g \<and> g_state x \<noteq> group_open)
        (\<lambda>x. x\<lparr>g_needs_recheck := True, g_needs_analysis := (g_needs_analysis x \<or> g_actionable x), g_updated_at := now\<rparr>) ?s1"
      using f by (simp add: set_group_needs_recheck_def exec_def stmt_no_faults)
    also have "\<dots> = update_groups ?P (\<lambda>x. flagged_row days s t ms (counted_row now s x)) s"
      by (rule update_update_groups)
         (use that n in \<open>auto simp: Let_def flagged_row_def same dest!: only intro!: bounce_group.equality\<close>)
    finally show ?thesis .
  qed
  have np: "snd (set_group_needs_analysis now (g_key g) True ?s1)
      = update_groups ?P (\<lambda>x. flagged_row days s t ms (counted_row now s x)) s" if "has_new_pattern s t g ms"
  proof -
    have n: "\<not> is_sent_back days s t g ms" "g_actionable g" using that by (auto simp: has_new_pattern_def is_sent_back_def)
    have "snd (set_group_needs_analysis now (g_key g) True ?s1)
        = update_groups ?P (\<lambda>x. x\<lparr>g_needs_analysis := True, g_updated_at := now\<rparr>) ?s1"
      using f by (simp add: set_group_needs_analysis_def exec_def stmt_no_faults)
    also have "\<dots> = update_groups ?P (\<lambda>x. flagged_row days s t ms (counted_row now s x)) s"
      by (rule update_update_groups)
         (use that n in \<open>auto simp: Let_def flagged_row_def same dest!: only intro!: bounce_group.equality\<close>)
    finally show ?thesis .
  qed
  have "recount now days t (Some g0) ms s =
      (if g_key g \<in> tk_flagged t then (Inr t, ?s1)
       else if g_state g \<noteq> group_open \<and> \<not> g_needs_recheck g
       then recheck_members now days (basis_of s (g_key g)) ?cur t ms ?s1
       else if \<not> g_actionable g then (Inr t, ?s1) else analyze_members now ?cur t ms ?s1)"
    using f key got by (simp add: recount_def act_bind_def refresh_calm load_recheck_basis_calm act_return_def)
  then show ?thesis
    using f bk idle sb np
    by (auto simp: recheck_members_calm analyze_members_calm is_sent_back_def has_new_pattern_def)
qed

end
