(* ===== verification/Group_Counters.thy ===== *)
theory Group_Counters
  imports Group_Recount
begin

text \<open>
  The counters of the groups against their members. A group is stale when its counters are
  not those of its members; the lemmas say which keys an operation can make stale and which
  it brings up to date. They hold for every successful run, whatever the schedule of the
  failures.
\<close>

definition in_step :: "mail_index \<Rightarrow> bounce_group \<Rightarrow> bool" where
  "in_step s g \<longleftrightarrow>
     (g_message_count g, g_recipient_count g, g_remote_ip_count g, g_first_seen g, g_last_seen g)
       = group_counters (counted_members s (g_key g))"

text \<open>The keys of the stale groups; with \<open>every\<close> false only of those that have members.\<close>

definition stale :: "bool \<Rightarrow> mail_index \<Rightarrow> string set" where
  "stale every s = {g_key g |g. g \<in> set (groups s) \<and> \<not> in_step s g \<and> (every \<or> has_members s (g_key g))}"

definition same_members :: "mail_index \<Rightarrow> mail_index \<Rightarrow> bool" where
  "same_members s t \<longleftrightarrow> messages t = messages s \<and> bounces t = bounces s \<and> dmarc_records t = dmarc_records s"

lemma same_members_counted: "same_members s t \<Longrightarrow> counted_members t = counted_members s \<and> has_members t = has_members s"
  by (simp add: same_members_def counted_members_def has_members_def fun_eq_iff)

text \<open>Nothing becomes stale and no group appears.\<close>

definition quiet :: "mail_index \<Rightarrow> mail_index \<Rightarrow> bool" where
  "quiet s t \<longleftrightarrow> same_members s t \<and> (\<forall>every. stale every t \<subseteq> stale every s) \<and> g_key ` set (groups t) \<subseteq> g_key ` set (groups s)"

lemma quietD: "quiet s t \<Longrightarrow> same_members s t" "quiet s t \<Longrightarrow> stale every t \<subseteq> stale every s"
  "quiet s t \<Longrightarrow> g_key ` set (groups t) \<subseteq> g_key ` set (groups s)"
  by (auto simp: quiet_def)

lemma stale_faults [simp]: "stale every (s\<lparr>faults := fs\<rparr>) = stale every s"
  by (simp add: stale_def in_step_def counted_members_def has_members_def)

lemma same_members_faults [simp]: "same_members s (t\<lparr>faults := fs\<rparr>) = same_members s t"
  by (simp add: same_members_def)

lemma quiet_trans:
  assumes "quiet s t" "quiet t u"
  shows "quiet s u"
proof -
  have "stale every u \<subseteq> stale every s" for every using assms by (meson order.trans quietD(2))
  moreover have "g_key ` set (groups u) \<subseteq> g_key ` set (groups s)" using assms by (meson order.trans quietD(3))
  ultimately show ?thesis using assms by (simp add: quiet_def same_members_def)
qed

interpretation quiet: act_relation quiet
proof unfold_locales
  show "quiet s s" for s by (simp add: quiet_def same_members_def)
  show "quiet s u" if "quiet s t" "quiet t u" for s t u by (rule quiet_trans[OF that])
qed (simp_all add: quiet_def same_members_def)

lemma quiet_rows: "same_rows s t \<Longrightarrow> quiet s t"
proof -
  assume "same_rows s t"
  then obtain fs where "t = s\<lparr>faults := fs\<rparr>" by (auto simp: same_rows_def)
  then show ?thesis by (simp add: quiet_def same_members_def)
qed

lemma index_rowsD:
  assumes "same_rows s t"
  shows "messages t = messages s" "bounces t = bounces s" "dmarc_records t = dmarc_records s" "groups t = groups s"
proof -
  obtain fs where "t = s\<lparr>faults := fs\<rparr>" using assms by (auto simp: same_rows_def)
  then show "messages t = messages s" "bounces t = bounces s" "dmarc_records t = dmarc_records s" "groups t = groups s"
    by simp_all
qed

lemma bind_Inr: "act_bind m f s = (Inr x, t) \<longleftrightarrow> (\<exists>y u. m s = (Inr y, u) \<and> f y u = (Inr x, t))"
  by (auto simp: act_bind_def split: prod.splits sum.splits)

lemma exec_Inr: "exec f s = (Inr x, t) \<Longrightarrow> \<exists>u. same_rows s u \<and> t = f u"
  unfolding exec_def by (cases rule: stmt_cases[of "\<lambda>s. ((), f s)" s]) auto

lemma query_InrE: "query f s = (Inr x, t) \<Longrightarrow> same_rows s t \<and> x = f t"
  using query_Inr by metis

section \<open>Flags and reads\<close>

text \<open>Updates of rows that keep their key and counters, and removals.\<close>

definition same_counters :: "bounce_group \<Rightarrow> bounce_group \<Rightarrow> bool" where
  "same_counters g h \<longleftrightarrow>
     g_key h = g_key g \<and> g_message_count h = g_message_count g \<and> g_recipient_count h = g_recipient_count g
     \<and> g_remote_ip_count h = g_remote_ip_count g \<and> g_first_seen h = g_first_seen g \<and> g_last_seen h = g_last_seen g"

lemma in_step_same:
  "same_members s t \<Longrightarrow> same_counters g h \<Longrightarrow> in_step t h = in_step s g"
  using same_members_counted[of s t] by (simp add: in_step_def same_counters_def)

lemma quiet_sub:
  assumes m: "same_members s t" and g: "\<And>h. h \<in> set (groups t) \<Longrightarrow> \<exists>g \<in> set (groups s). same_counters g h"
  shows "quiet s t"
  unfolding quiet_def
proof (intro conjI allI subsetI)
  show "same_members s t" by (rule m)
next
  fix every k assume "k \<in> stale every t"
  then obtain h where h: "h \<in> set (groups t)" "k = g_key h" "\<not> in_step t h" "every \<or> has_members t (g_key h)"
    by (auto simp: stale_def)
  then obtain g where g': "g \<in> set (groups s)" "same_counters g h" using g by blast
  moreover have "\<not> in_step s g" using h(3) in_step_same[OF m g'(2)] by simp
  ultimately show "k \<in> stale every s"
    using h(2,4) same_members_counted[OF m] by (auto simp: stale_def same_counters_def)
next
  fix k assume "k \<in> g_key ` set (groups t)"
  then show "k \<in> g_key ` set (groups s)" using g by (force simp: same_counters_def)
qed

lemma quiet_update: "(\<And>g. P g \<Longrightarrow> same_counters g (f g)) \<Longrightarrow> quiet s (update_groups P f s)"
  by (rule quiet_sub) (auto simp: update_groups_def same_members_def same_counters_def)

lemma quiet_drop: "quiet s (drop_groups P s)"
  by (rule quiet_sub) (auto simp: drop_groups_def Let_def same_members_def same_counters_def)

abbreviation stays_quiet :: "'a idx \<Rightarrow> bool" where
  "stays_quiet \<equiv> act_keeps quiet"

lemma quiet_exec_frame:
  "(\<And>s. same_members s (f s) \<and> groups (f s) = groups s) \<Longrightarrow> stays_quiet (exec f)"
  by (rule quiet.exec_rule, rule quiet_sub) (auto simp: same_counters_def)

lemma quiet_insert_row_frame:
  "(\<And>s. same_members s (snd (f s)) \<and> groups (snd (f s)) = groups s) \<Longrightarrow> stays_quiet (insert_row f)"
  unfolding insert_row_def
  by (intro quiet.bind quiet.stmt_rule quiet.of_result quiet_sub) (auto simp: same_counters_def)

interpretation quiet: flag_relation quiet
proof unfold_locales
  show "stays_quiet (set_group_needs_analysis now key b)" "stays_quiet (set_group_needs_recheck now key)"
    "stays_quiet (update_group_responsible now key r)" "stays_quiet delete_empty_groups" "stays_quiet (delete_group_if_empty key)"
    for now key b r
    unfolding set_group_needs_analysis_def update_group_responsible_def set_group_needs_recheck_def
      delete_empty_groups_def delete_group_if_empty_def
    by (auto intro!: quiet.exec_rule quiet_update quiet_drop simp: same_counters_def)
  show "stays_quiet (insert_change_pattern i k)" for i k
    unfolding insert_change_pattern_def by (rule quiet_insert_row_frame) (simp add: same_members_def)
qed

section \<open>Recounting\<close>

text \<open>A successful refresh brings its key up to date.\<close>

lemma refresh_fresh:
  assumes "refresh_group_counters now key s = (Inr x, t)"
  shows "quiet s t \<and> key \<notin> stale every t"
proof -
  from assms obtain c u where q: "query (\<lambda>s. group_counters (counted_members s key)) s = (Inr c, u)"
    and e: "(case c of (count, recipients, ips, first, final) \<Rightarrow> exec (update_groups (\<lambda>g. g_key g = key)
         (\<lambda>g. g\<lparr>g_message_count := count, g_recipient_count := recipients, g_remote_ip_count := ips,
                g_first_seen := first, g_last_seen := final, g_updated_at := now\<rparr>))) u = (Inr x, t)"
    by (auto simp: refresh_group_counters_def bind_Inr)
  obtain a1 a2 a3 a4 a5 where c: "c = (a1, a2, a3, a4, a5)" by (cases c)
  define f :: "bounce_group \<Rightarrow> bounce_group" where "f = (\<lambda>g. g\<lparr>g_message_count := a1, g_recipient_count := a2, g_remote_ip_count := a3,
                g_first_seen := a4, g_last_seen := a5, g_updated_at := now\<rparr>)"
  have e': "exec (update_groups (\<lambda>g. g_key g = key) f) u = (Inr x, t)" using e by (simp add: c f_def)
  from exec_Inr[OF e'] obtain v where v: "same_rows u v" "t = update_groups (\<lambda>g. g_key g = key) f v"
    by blast
  have sv: "quiet s v" using quiet_rows v(1) query_InrE[OF q] quiet.chain by blast
  have mem: "same_members s t" "same_members u t"
    using quietD(1)[OF sv] quietD(1)[OF quiet_rows[OF v(1)]] v(2) by (simp_all add: same_members_def update_groups_def)
  have cnt: "(a1, a2, a3, a4, a5) = group_counters (counted_members t key)"
    using query_InrE[OF q] c same_members_counted[OF mem(2)] by simp
  have step: "in_step t (f g)" if "g_key g = key" for g
    using that cnt by (simp add: in_step_def f_def)
  have k: "g_key (f g) = g_key g" for g by (simp add: f_def)
  have gs: "groups t = map (\<lambda>g. if g_key g = key then f g else g) (groups v)" unfolding v(2) by (simp add: update_groups_def)
  have out: "key \<notin> stale every t" for every using step k by (auto simp: stale_def gs)
  have "stale every t \<subseteq> stale every v" for every
  proof
    fix k assume kk: "k \<in> stale every t"
    then have "k \<noteq> key" using out by blast
    with kk obtain g where "g \<in> set (groups v)" "g_key g = k" "\<not> in_step t g" "every \<or> has_members t k"
      using k by (auto simp: stale_def gs split: if_splits)
    moreover have "same_members v t" using v(2) by (simp add: same_members_def update_groups_def)
    ultimately show "k \<in> stale every v"
      using in_step_same[of v t g g] same_members_counted[of v t] by (auto simp: stale_def same_counters_def)
  qed
  moreover have "map g_key (groups t) = map g_key (groups v)" unfolding gs using k by simp
  then have "g_key ` set (groups t) = g_key ` set (groups v)" by (metis set_map)
  ultimately have "quiet v t" using v(2) by (simp add: quiet_def same_members_def update_groups_def)
  then show ?thesis using out quiet.chain[OF sv] by blast
qed

lemma quiet_after: "\<lbrakk> stays_quiet m; m s = (r, t) \<rbrakk> \<Longrightarrow> quiet s t"
  by (rule act_keepsD)

lemma recount_fresh:
  assumes "recount now days tk (Some g) ms s = (Inr x, t)"
  shows "quiet s t \<and> g_key g \<notin> stale every t"
proof -
  let ?m = "if g_key g \<in> tk_flagged tk then act_return tk
          else act_bind (get_group (g_key g)) (\<lambda>cur.
            if g_state cur \<noteq> group_open \<and> \<not> g_needs_recheck cur
            then act_bind (load_recheck_basis (g_key cur)) (\<lambda>basis. recheck_members now days basis cur tk ms)
            else if \<not> g_actionable cur then act_return tk
            else analyze_members now cur tk ms)"
  from assms obtain y u where r: "refresh_group_counters now (g_key g) s = (Inr y, u)"
    and rest: "?m u = (Inr x, t)"
    by (auto simp: recount_def bind_Inr)
  have "stays_quiet ?m" by (simp add: quiet.return quiet.flags_raised)
  then have "quiet u t" using rest by (rule quiet_after)
  then show ?thesis using refresh_fresh[OF r] quiet.chain quietD(2) by blast
qed

lemma recount_all_fresh:
  "recount_all now days tk parts s = (Inr x, t) \<Longrightarrow> quiet s t \<and> stale every t \<inter> (g_key \<circ> fst) ` set parts = {}"
proof (induction now days tk parts arbitrary: s rule: recount_all.induct)
  case (1 now days tk)
  then show ?case by (simp add: act_return_def quiet.idle)
next
  case (2 now days tk g ms rest)
  then obtain y u where u: "recount now days tk (Some g) ms s = (Inr y, u)" "recount_all now days y rest u = (Inr x, t)"
    by (auto simp: bind_Inr)
  have a: "quiet s u \<and> g_key g \<notin> stale every u" by (rule recount_fresh[OF u(1)])
  have b: "quiet u t \<and> stale every t \<inter> (g_key \<circ> fst) ` set rest = {}" by (rule "2.IH"[OF u(2)])
  have "quiet s t" using a b quiet.chain by blast
  moreover have "g_key g \<notin> stale every t" using a b quietD(2)[of u t] by blast
  ultimately show ?case using b by auto
qed

lemma leave_groups_fresh:
  "leave_groups now keys previous s = (Inr x, t) \<Longrightarrow> quiet s t \<and> stale every t \<inter> (set previous - set keys) = {}"
proof (induction now keys previous arbitrary: s rule: leave_groups.induct)
  case (1 now keys)
  then show ?case by (simp add: act_return_def quiet.idle)
next
  case (2 now keys key rest)
  show ?case
  proof (cases "key \<in> set keys")
    case True
    with "2.prems" "2.IH"(1)[OF True] show ?thesis by auto
  next
    case False
    with "2.prems" obtain y z u v where u: "refresh_group_counters now key s = (Inr y, u)"
      "delete_group_if_empty key u = (Inr z, v)" "leave_groups now keys rest v = (Inr x, t)"
      by (auto simp: bind_Inr)
    have a: "quiet s u \<and> key \<notin> stale every u" by (rule refresh_fresh[OF u(1)])
    have b: "quiet u v" by (rule quiet_after[OF quiet.drop_empty(2) u(2)])
    have c: "quiet v t \<and> stale every t \<inter> (set rest - set keys) = {}" by (rule "2.IH"(2)[OF False u(3)])
    have "quiet s t" using a b c quiet.chain by blast
    moreover have "key \<notin> stale every t" using a b c quietD(2)[of u v] quietD(2)[of v t] by blast
    ultimately show ?thesis using c by auto
  qed
qed

section \<open>Filing\<close>

text \<open>What an operation may make stale: only the keys \<open>K\<close>.\<close>

definition stales :: "string set \<Rightarrow> mail_index \<Rightarrow> mail_index \<Rightarrow> bool" where
  "stales K s t \<longleftrightarrow> (\<forall>every. stale every t \<subseteq> stale every s \<union> K)"

lemma stales_trans: "\<lbrakk> stales K s t; stales L t u \<rbrakk> \<Longrightarrow> stales (K \<union> L) s u"
  unfolding stales_def by blast

lemma stales_mono: "\<lbrakk> stales K s t; K \<subseteq> L \<rbrakk> \<Longrightarrow> stales L s t"
  unfolding stales_def by blast

lemma same_members_trans: "\<lbrakk> same_members s t; same_members t u \<rbrakk> \<Longrightarrow> same_members s u"
  by (simp add: same_members_def)

definition group_keys :: "mail_index \<Rightarrow> string set" where
  "group_keys s = g_key ` set (groups s)"

lemma quiet_stales: "quiet s t \<Longrightarrow> stales {} s t"
  by (simp add: stales_def quiet_def)

text \<open>Rows of the groups other than those of \<open>K\<close> and their members are the same.\<close>

lemma stales_groups:
  assumes "\<And>h. h \<in> set (groups t) \<Longrightarrow> g_key h \<notin> K \<Longrightarrow> \<exists>g \<in> set (groups s). same_counters g h"
    and "\<And>k. k \<notin> K \<Longrightarrow> counted_members t k = counted_members s k \<and> has_members t k = has_members s k"
  shows "stales K s t"
  unfolding stales_def
proof (intro allI subsetI)
  fix every k assume "k \<in> stale every t"
  then obtain h where h: "h \<in> set (groups t)" "k = g_key h" "\<not> in_step t h" "every \<or> has_members t (g_key h)"
    by (auto simp: stale_def)
  show "k \<in> stale every s \<union> K"
  proof (cases "k \<in> K")
    case False
    with h assms(1) obtain g where g: "g \<in> set (groups s)" "same_counters g h" by blast
    moreover have "\<not> in_step s g"
      using h(2,3) g(2) assms(2)[OF False] by (simp add: in_step_def same_counters_def)
    moreover have "every \<or> has_members s (g_key g)"
      using h(2,4) g(2) assms(2)[OF False] by (auto simp: same_counters_def)
    ultimately show ?thesis using h(2) by (auto simp: stale_def same_counters_def)
  qed simp
qed

definition only_groups :: "string set \<Rightarrow> mail_index \<Rightarrow> mail_index \<Rightarrow> bool" where
  "only_groups K s t \<longleftrightarrow> same_members s t \<and> stales K s t \<and> group_keys t \<subseteq> group_keys s \<union> K"

lemma only_groups_trans:
  assumes "only_groups K s t" "only_groups L t u"
  shows "only_groups (K \<union> L) s u"
proof -
  have "group_keys u \<subseteq> group_keys s \<union> (K \<union> L)" using assms unfolding only_groups_def by blast
  then show ?thesis using assms stales_trans same_members_trans unfolding only_groups_def by metis
qed

lemma only_groups_refl: "only_groups K s s"
  by (auto simp: only_groups_def same_members_def stales_def)

lemma only_groups_mono: "\<lbrakk> only_groups K s t; K \<subseteq> L \<rbrakk> \<Longrightarrow> only_groups L s t"
  unfolding only_groups_def stales_def by blast

lemma quiet_only_groups: "quiet s t \<Longrightarrow> only_groups {} s t"
  using quiet_stales[of s t] by (simp add: quiet_def only_groups_def group_keys_def)

lemma upsert_stales:
  assumes "upsert_group now g s = (Inr x, t)"
  shows "only_groups {g_key g} s t"
proof -
  from exec_Inr[OF assms[unfolded upsert_group_def]] obtain u where u: "same_rows s u" and
    t: "t = (if list_ex (\<lambda>x. g_key x = g_key g) (groups u)
         then update_groups (\<lambda>x. g_key x = g_key g) (described_as now g) u else u\<lparr>groups := groups u @ [new_group now g]\<rparr>)" by blast
  have q: "quiet s u" by (rule quiet_rows[OF u])
  have m: "same_members u t" unfolding t by (simp add: same_members_def update_groups_def)
  have k: "g_key (described_as now g x) = g_key x" "g_key (new_group now g) = g_key g" for x
    by (simp_all add: described_as_def new_group_def)
  have "stales {g_key g} u t"
    by (rule stales_groups)
       (use same_members_counted[OF m] k in \<open>auto simp: t update_groups_def same_counters_def split: if_splits\<close>)
  moreover have "group_keys t \<subseteq> group_keys u \<union> {g_key g}"
    unfolding t using k by (auto simp: update_groups_def group_keys_def)
  ultimately have "only_groups {g_key g} u t" using m by (simp add: only_groups_def)
  from only_groups_trans[OF quiet_only_groups[OF q] this] show ?thesis by simp
qed

lemma upsert_all_stales:
  "upsert_all now tk gs s = (Inr x, t) \<Longrightarrow> only_groups {g_key g |g. Some g \<in> set gs} s t"
proof (induction now tk gs arbitrary: s rule: upsert_all.induct)
  case (1 now t)
  then show ?case by (simp add: act_return_def only_groups_refl)
next
  case (2 now tk g gs)
  then obtain y u where u: "tracker_upsert now tk g s = (Inr y, u)" "upsert_all now y gs u = (Inr x, t)"
    by (auto simp: bind_Inr)
  have b: "only_groups {g_key g |g. Some g \<in> set gs} u t" by (rule "2.IH"[OF u(2)])
  have a: "only_groups {g_key h |h. g = Some h} s u"
  proof (cases g)
    case None
    with u(1) show ?thesis by (simp add: tracker_upsert_def act_return_def only_groups_refl)
  next
    case (Some h)
    with u(1) obtain z where "upsert_group now h s = (Inr z, u)"
      by (auto simp: tracker_upsert_def bind_Inr act_return_def)
    from upsert_stales[OF this] Some show ?thesis by (simp cong: conj_cong)
  qed
  show ?case by (rule only_groups_mono[OF only_groups_trans[OF a b]]) auto
qed

text \<open>The rows of a message are replaced.\<close>

lemma insert_row_Inr:
  "insert_row f s = (Inr x, t) \<Longrightarrow> \<exists>u. same_rows s u \<and> f u = (Inr x, t)"
proof -
  assume "insert_row f s = (Inr x, t)"
  then obtain y u where y: "stmt f s = (Inr y, u)" "act_of y u = (Inr x, t)" by (auto simp: insert_row_def bind_Inr)
  then obtain v where v: "same_rows s v" "(Inr y, u) = (Inr (fst (f v)) :: go_error + _, snd (f v))"
    by (cases rule: stmt_cases[of f s]) auto
  with y(2) show ?thesis
    by (intro exI[of _ v]) (cases "f v"; auto simp: act_of_def act_fail_def act_return_def split: sum.splits)
qed

lemma insert_bounces_ok:
  "insert_bounces i pos bs s = (Inr x, t) \<Longrightarrow>
     \<exists>new. bounces t = bounces s @ new \<and> map b_group new = map b_group bs \<and> messages t = messages s
       \<and> dmarc_records t = dmarc_records s \<and> groups t = groups s \<and> (\<forall>b \<in> set new. b_message b = i)"
proof (induction i pos bs arbitrary: s rule: insert_bounces.induct)
  case (1 i pos)
  then show ?case by (simp add: act_return_def)
next
  case (2 i pos b bs)
  then obtain y u where u: "insert_bounce (b\<lparr>b_message := i, b_index := pos\<rparr>) s = (Inr y, u)"
      "insert_bounces i (pos + 1) bs u = (Inr x, t)"
    by (auto simp: bind_Inr)
  obtain v where v: "same_rows s v" "bounces u = bounces v @ [y]" "y = b\<lparr>b_message := i, b_index := pos, b_id := next_bounce v\<rparr>"
      "messages u = messages v" "dmarc_records u = dmarc_records v" "groups u = groups v"
    using insert_row_Inr[OF u(1)[unfolded insert_bounce_def]] by (auto simp: Let_def split: if_splits)
  with "2.IH"[OF u(2)] index_rowsD[OF v(1)] show ?case by auto
qed

lemma insert_dmarc_records_ok:
  "insert_dmarc_records i ds s = (Inr x, t) \<Longrightarrow>
     \<exists>new. dmarc_records t = dmarc_records s @ new \<and> map d_group new = map d_group ds \<and> messages t = messages s
       \<and> bounces t = bounces s \<and> groups t = groups s \<and> (\<forall>d \<in> set new. d_message d = i)"
proof (induction i ds arbitrary: s rule: insert_dmarc_records.induct)
  case (1 i)
  then show ?case by (simp add: act_return_def)
next
  case (2 i d ds)
  then obtain y u where u: "insert_dmarc_record (d\<lparr>d_message := i\<rparr>) s = (Inr y, u)" "insert_dmarc_records i ds u = (Inr x, t)"
    by (auto simp: bind_Inr)
  from u(1) have "insert_row (\<lambda>s.
     if \<not> list_ex (\<lambda>m. ms_id m = d_message (d\<lparr>d_message := i\<rparr>)) (messages s) then (Inl (refused ''FOREIGN KEY''), s)
     else (let row = (d\<lparr>d_message := i\<rparr>)\<lparr>d_id := next_dmarc s\<rparr>
           in (Inr row, s\<lparr>dmarc_records := dmarc_records s @ [row], next_dmarc := next_dmarc s + 1\<rparr>))) s = (Inr y, u)"
    by (auto simp: insert_dmarc_record_def act_try_def act_fail_def act_return_def split: prod.splits sum.splits)
  from insert_row_Inr[OF this] obtain v where v: "same_rows s v" "dmarc_records u = dmarc_records v @ [y]"
      "y = d\<lparr>d_message := i, d_id := next_dmarc v\<rparr>" "messages u = messages v" "bounces u = bounces v" "groups u = groups v"
    by (auto simp: Let_def split: if_splits)
  with "2.IH"[OF u(2)] index_rowsD[OF v(1)] show ?case by auto
qed

lemma replace_bounces_ok:
  assumes "replace_bounces i bs s = (Inr x, t)"
  shows "\<exists>new. bounces t = filter (\<lambda>b. b_message b \<noteq> i) (bounces s) @ new \<and> map b_group new = map b_group bs
    \<and> messages t = messages s \<and> dmarc_records t = dmarc_records s \<and> groups t = groups s"
proof -
  from assms obtain y u where u: "delete_bounces i s = (Inr y, u)" "insert_bounces i 0 bs u = (Inr x, t)"
    by (auto simp: replace_bounces_def bind_Inr)
  from exec_Inr[OF u(1)[unfolded delete_bounces_def]] obtain v where
    v: "same_rows s v" "u = v\<lparr>bounces := filter (\<lambda>b. b_message b \<noteq> i) (bounces v)\<rparr>" by blast
  from insert_bounces_ok[OF u(2)] v index_rowsD[OF v(1)] show ?thesis by auto
qed

lemma replace_dmarc_ok:
  assumes "replace_dmarc_records i ds s = (Inr x, t)"
  shows "\<exists>new. dmarc_records t = filter (\<lambda>d. d_message d \<noteq> i) (dmarc_records s) @ new \<and> map d_group new = map d_group ds
    \<and> messages t = messages s \<and> bounces t = bounces s \<and> groups t = groups s \<and> (\<forall>d \<in> set new. d_message d = i)"
proof -
  from assms obtain y u where u: "delete_dmarc_records i s = (Inr y, u)" "insert_dmarc_records i ds u = (Inr x, t)"
    by (auto simp: replace_dmarc_records_def bind_Inr)
  from exec_Inr[OF u(1)[unfolded delete_dmarc_records_def]] obtain v where
    v: "same_rows s v" "u = v\<lparr>dmarc_records := filter (\<lambda>d. d_message d \<noteq> i) (dmarc_records v)\<rparr>" by blast
  from insert_dmarc_records_ok[OF u(2)] v index_rowsD[OF v(1)] show ?thesis by auto
qed

lemma counted_filter_cong:
  assumes "filter (\<lambda>b. b_group b = k) (bounces t) = filter (\<lambda>b. b_group b = k) (bounces s)"
    "filter (\<lambda>d. d_group d = k) (dmarc_records t) = filter (\<lambda>d. d_group d = k) (dmarc_records s)" "messages t = messages s"
  shows "counted_members t k = counted_members s k \<and> has_members t k = has_members s k"
proof -
  have ex: "list_ex P xs = (filter P xs \<noteq> [])" for P and xs :: "'b list" by (induction xs) auto
  show ?thesis using assms by (simp add: counted_members_def has_members_def ex)
qed

lemma filter_replaced:
  assumes "\<forall>b \<in> set xs. \<not> keep b \<longrightarrow> f b \<noteq> k" "k \<notin> set (map f ys)"
  shows "filter (\<lambda>b. f b = k) (filter keep xs @ ys) = filter (\<lambda>b. f b = k) xs"
proof -
  have "filter (\<lambda>b. f b = k) ys = []" using assms(2) by (induction ys) auto
  moreover have "filter (\<lambda>b. f b = k) (filter keep xs) = filter (\<lambda>b. f b = k) xs"
    using assms(1) by (induction xs) auto
  ultimately show ?thesis by simp
qed

lemma replace_bounces_stales:
  assumes "replace_bounces i bs s = (Inr x, t)"
  shows "stales (b_group ` {b \<in> set (bounces s). b_message b = i} \<union> b_group ` set bs) s t"
proof -
  from replace_bounces_ok[OF assms] obtain new where
    n: "bounces t = filter (\<lambda>b. b_message b \<noteq> i) (bounces s) @ new" "map b_group new = map b_group bs"
      "messages t = messages s" "dmarc_records t = dmarc_records s" "groups t = groups s" by blast
  show ?thesis
  proof (rule stales_groups)
    fix k assume k: "k \<notin> b_group ` {b \<in> set (bounces s). b_message b = i} \<union> b_group ` set bs"
    have "filter (\<lambda>b. b_group b = k) (bounces t) = filter (\<lambda>b. b_group b = k) (bounces s)"
      unfolding n(1) by (rule filter_replaced) (use k n(2) in auto)
    then show "counted_members t k = counted_members s k \<and> has_members t k = has_members s k"
      using n by (intro counted_filter_cong) simp_all
  qed (use n in \<open>auto simp: same_counters_def\<close>)
qed

lemma replace_dmarc_stales:
  assumes "replace_dmarc_records i ds s = (Inr x, t)" "\<forall>d \<in> set (dmarc_records s). d_message d \<noteq> i"
  shows "stales (d_group ` set ds) s t"
proof -
  from replace_dmarc_ok[OF assms(1)] obtain new where
    n: "dmarc_records t = filter (\<lambda>d. d_message d \<noteq> i) (dmarc_records s) @ new" "map d_group new = map d_group ds"
      "messages t = messages s" "bounces t = bounces s" "groups t = groups s" by blast
  show ?thesis
  proof (rule stales_groups)
    fix k assume k: "k \<notin> d_group ` set ds"
    have "filter (\<lambda>d. d_group d = k) (dmarc_records t) = filter (\<lambda>d. d_group d = k) (dmarc_records s)"
      unfolding n(1) by (rule filter_replaced) (use k n(2) assms(2) in auto)
    then show "counted_members t k = counted_members s k \<and> has_members t k = has_members s k"
      using n by (intro counted_filter_cong) simp_all
  qed (use n in \<open>auto simp: same_counters_def\<close>)
qed

text \<open>The outcome of the detection counts nothing.\<close>

lemma counters_map_messages:
  assumes "\<And>m. ms_id (f m) = ms_id m" "\<And>m. ms_date (f m) = ms_date m"
  shows "group_counters (counted_members (s\<lparr>messages := map f (messages s)\<rparr>) k) = group_counters (counted_members s k)"
proof -
  have "counted_members (s\<lparr>messages := map f (messages s)\<rparr>) k = map (\<lambda>(m, r, ip). (f m, r, ip)) (counted_members s k)"
    by (simp add: counted_members_def map_concat filter_map o_def split_def assms)
  then show ?thesis by (simp add: group_counters_def split_def o_def assms)
qed

lemma classification_stales:
  assumes "update_message_classification i is_bounce kind rule body s = (Inr x, t)"
  shows "stales {} s t \<and> groups t = groups s \<and> dmarc_records t = dmarc_records s \<and> map ms_id (messages t) = map ms_id (messages s)"
proof -
  define f :: "message \<Rightarrow> message" where "f = (\<lambda>m. if ms_id m = i then m\<lparr>ms_is_bounce := is_bounce, ms_bounce_kind := kind, ms_rule := rule,
              ms_body_source := body, ms_classified := True\<rparr> else m)"
  from exec_Inr[OF assms[unfolded update_message_classification_def update_messages_def]] obtain u where
    u: "same_rows s u" "t = u\<lparr>messages := map f (messages u)\<rparr>" unfolding f_def by blast
  have f: "ms_id (f m) = ms_id m" "ms_date (f m) = ms_date m" for m by (simp_all add: f_def)
  have "in_step t g = in_step u g" for g using counters_map_messages[of f u, OF f] by (simp add: in_step_def u(2))
  then have "stale every t = stale every u" for every by (simp add: stale_def u(2) has_members_def)
  then show ?thesis
    using u quiet_rows[OF u(1)] index_rowsD[OF u(1)] f by (simp add: stales_def quiet_def o_def)
qed

section \<open>A message\<close>

text \<open>The plan of a message: one group entry per bounce, keys that are not empty, and the group of every record among its groups.\<close>

definition plan_files :: "grouping_plan \<Rightarrow> bool" where
  "plan_files plan \<longleftrightarrow>
     length (gp_groups plan) = length (gp_bounces plan)
     \<and> (\<forall>g. Some g \<in> set (gp_groups plan) \<longrightarrow> g_key g \<noteq> '''')
     \<and> (\<forall>rg \<in> set (gp_record_groups plan). g_key (rg_group rg) \<noteq> '''')
     \<and> d_group ` set (gp_records plan) \<subseteq> (\<lambda>rg. g_key (rg_group rg)) ` set (gp_record_groups plan)"

definition bounce_keys :: "grouping_plan \<Rightarrow> string set" where
  "bounce_keys plan = {g_key g |g. Some g \<in> set (gp_groups plan)}"

definition record_keys :: "grouping_plan \<Rightarrow> string set" where
  "record_keys plan = (\<lambda>rg. g_key (rg_group rg)) ` set (gp_record_groups plan)"

lemma bounce_parts_keys: "(g_key \<circ> fst) ` set (bounce_parts plan msg) = bounce_keys plan"
proof -
  define gs where "gs = List.map_filter id (gp_groups plan)"
  have gs: "set gs = {g. Some g \<in> set (gp_groups plan)}"
    by (force simp: gs_def List.map_filter_def)
  have "g_key (the (List.find (\<lambda>g. g_key g = k) gs)) = k" if "k \<in> g_key ` set gs" for k
  proof (cases "List.find (\<lambda>g. g_key g = k) gs")
    case None
    with that show ?thesis by (auto simp: find_None_iff2)
  next
    case (Some g)
    then show ?thesis by (auto dest: find_SomeD)
  qed
  then have "(\<lambda>k. g_key (the (List.find (\<lambda>g. g_key g = k) gs))) ` (g_key ` set gs) = (\<lambda>k. k) ` (g_key ` set gs)"
    by (intro image_cong) simp_all
  then have "(g_key \<circ> fst) ` set (bounce_parts plan msg) = g_key ` set gs"
    by (simp add: bounce_parts_def Let_def gs_def[symmetric] image_image)
  then show ?thesis by (auto simp: gs bounce_keys_def)
qed

lemma keyed_bounce_groups: "b_group ` set (keyed_bounces plan) \<subseteq> {''''} \<union> bounce_keys plan"
proof
  fix k assume "k \<in> b_group ` set (keyed_bounces plan)"
  then obtain b g where "(b, g) \<in> set (zip (gp_bounces plan) (gp_groups plan))"
    "k = (case g of None \<Rightarrow> '''' | Some g \<Rightarrow> g_key g)"
    by (auto simp: keyed_bounces_def)
  then show "k \<in> {''''} \<union> bounce_keys plan"
    by (auto simp: bounce_keys_def dest!: set_zip_rightD split: option.splits)
qed

lemma quiet_keys: "quiet s t \<Longrightarrow> group_keys t \<subseteq> group_keys s"
  using quietD(3) by (simp add: group_keys_def)

lemma stale_keys: "stale every s \<subseteq> group_keys s"
  by (auto simp: stale_def group_keys_def)

text \<open>Filing a message leaves nothing stale that was not, when the message had no records before.\<close>

lemma group_message_fresh:
  assumes run: "group_message now days msg plan tk s = (Inr x, t)" and plan: "plan_files plan"
    and new: "\<forall>d \<in> set (dmarc_records s). d_message d \<noteq> ms_id msg" and named: "'''' \<notin> group_keys s"
  shows "stales {} s t \<and> '''' \<notin> group_keys t \<and> map ms_id (messages t) = map ms_id (messages s)
    \<and> (\<forall>d \<in> set (dmarc_records t). d \<in> set (dmarc_records s) \<or> d_message d = ms_id msg)"
proof -
  from transaction_ok[OF run[unfolded group_message_def]] obtain u v where
    tx: "same_rows s u" "group_message_in now days msg plan tk u = (Inr x, v)" "same_rows v t" by blast
  let ?A = "bounce_keys plan" and ?R = "record_keys plan"
  from tx(2) obtain prev s1 t1 s2 t2 s3 s4 s5 t3 s6 s7 t4 s8 where
    l: "list_bounce_group_keys (ms_id msg) u = (Inr prev, s1)" and
    up1: "upsert_all now tk (gp_groups plan) s1 = (Inr t1, s2)" and
    up2: "upsert_all now t1 (map (\<lambda>rg. Some (rg_group rg)) (gp_record_groups plan)) s2 = (Inr t2, s3)" and
    rb: "replace_bounces (ms_id msg) (keyed_bounces plan) s3 = (Inr (), s4)" and
    rd: "replace_dmarc_records (ms_id msg) (gp_records plan) s4 = (Inr (), s5)" and
    rc: "recount_all now days t2 (bounce_parts plan msg) s5 = (Inr t3, s6)" and
    lv: "leave_groups now (map (\<lambda>(g, _). g_key g) (bounce_parts plan msg)) prev s6 = (Inr (), s7)" and
    rr: "recount_all now days t3 (record_parts plan msg) s7 = (Inr t4, s8)" and
    cl: "update_message_classification (ms_id msg) (gp_is_bounce plan) (gp_kind plan) (gp_rule plan) (gp_body_source plan) s8
           = (Inr (), v)"
    by (auto simp: group_message_in_def bind_Inr act_return_def)
  have q1: "same_rows u s1" and prev: "prev = sort (remdups (map b_group (filter (\<lambda>b. b_message b = ms_id msg \<and> b_group b \<noteq> '''')
        (bounces s1))))"
    using query_InrE[OF l[unfolded list_bounce_group_keys_def]] by auto
  have g1: "only_groups {} s s1" using quiet_only_groups quiet.chain[OF quiet_rows[OF tx(1)] quiet_rows[OF q1]] by blast
  have g2: "only_groups ?A s1 s2" using upsert_all_stales[OF up1] by (simp add: bounce_keys_def)
  have "only_groups {g_key g |g. Some g \<in> set (map (\<lambda>rg. Some (rg_group rg)) (gp_record_groups plan))} s2 s3"
    by (rule upsert_all_stales[OF up2])
  then have g3: "only_groups ?R s2 s3" by (rule only_groups_mono) (auto simp: record_keys_def)
  have up: "only_groups (?A \<union> ?R) s s3" using only_groups_trans[OF only_groups_trans[OF g1 g2] g3] by simp
  have old: "b_group ` {b \<in> set (bounces s3). b_message b = ms_id msg} \<subseteq> {''''} \<union> set prev"
    using g2 g3 unfolding prev by (auto simp: only_groups_def same_members_def)
  have st4: "stales ({''''} \<union> set prev \<union> ?A) s3 s4"
    using replace_bounces_stales[OF rb] old keyed_bounce_groups[of plan] unfolding stales_def by blast
  from replace_bounces_ok[OF rb] have f4: "messages s4 = messages s3" "dmarc_records s4 = dmarc_records s3" "groups s4 = groups s3"
    by auto
  have d3: "messages s3 = messages s" "dmarc_records s3 = dmarc_records s" using up by (simp_all add: only_groups_def same_members_def)
  have "stales (d_group ` set (gp_records plan)) s4 s5"
    by (rule replace_dmarc_stales[OF rd]) (use new f4 d3 in simp)
  moreover have "d_group ` set (gp_records plan) \<subseteq> ?R" using plan by (simp add: plan_files_def record_keys_def)
  ultimately have st5: "stales ?R s4 s5" by (rule stales_mono)
  from replace_dmarc_ok[OF rd] obtain ds where f5: "messages s5 = messages s4" "groups s5 = groups s4"
      "dmarc_records s5 = filter (\<lambda>d. d_message d \<noteq> ms_id msg) (dmarc_records s4) @ ds" "\<forall>d \<in> set ds. d_message d = ms_id msg"
    by blast
  have r6: "quiet s5 s6 \<and> stale every s6 \<inter> ?A = {}" for every using recount_all_fresh[OF rc] bounce_parts_keys by metis
  have kp: "set (map (\<lambda>(g, _). g_key g) (bounce_parts plan msg)) = ?A"
    using bounce_parts_keys[of plan msg] by (simp add: o_def split_def)
  have r7: "quiet s6 s7 \<and> stale every s7 \<inter> (set prev - ?A) = {}" for every using leave_groups_fresh[OF lv] kp by metis
  have rk: "(g_key \<circ> fst) ` set (record_parts plan msg) = ?R" by (force simp: record_parts_def record_keys_def)
  have r8: "quiet s7 s8 \<and> stale every s8 \<inter> ?R = {}" for every using recount_all_fresh[OF rr] rk by metis
  have keys8: "group_keys s8 \<subseteq> group_keys s \<union> ?A \<union> ?R"
  proof -
    have "quiet s5 s8" by (rule quiet_trans[OF quiet_trans[OF conjunct1[OF r6] conjunct1[OF r7]] conjunct1[OF r8]])
    then have "group_keys s8 \<subseteq> group_keys s5" by (rule quiet_keys)
    moreover have "group_keys s5 = group_keys s3" using f4(3) f5(2) by (simp add: group_keys_def)
    ultimately show ?thesis using up unfolding only_groups_def by blast
  qed
  have no_empty: "'''' \<notin> ?A" "'''' \<notin> ?R" using plan by (auto simp: plan_files_def bounce_keys_def record_keys_def)
  have "stale every s8 \<subseteq> stale every s" for every
  proof
    fix k assume k: "k \<in> stale every s8"
    with r8 have k7: "k \<in> stale every s7" "k \<notin> ?R" using quietD(2)[of s7 s8] by blast+
    with r7 have k6: "k \<in> stale every s6" "k \<notin> set prev - ?A" using quietD(2)[of s6 s7] by blast+
    with r6 have k5: "k \<in> stale every s5" "k \<notin> ?A" using quietD(2)[of s5 s6] by blast+
    moreover have "k \<noteq> ''''" using k stale_keys[of every s8] keys8 named no_empty by blast
    ultimately show "k \<in> stale every s" using st5 st4 up k7(2) k6(2) unfolding stales_def only_groups_def by blast
  qed
  then have fin: "stales {} s s8" by (simp add: stales_def)
  note c = classification_stales[OF cl]
  have "stales {} s v" using stales_trans[OF fin conjunct1[OF c]] by simp
  then have "stales {} s t" using stales_trans[of "{}" s v "{}" t] quiet_stales[OF quiet_rows[OF tx(3)]] by simp
  moreover have "group_keys t = group_keys s8" using c index_rowsD(4)[OF tx(3)] by (simp add: group_keys_def)
  moreover have "messages s8 = messages s5" "dmarc_records s8 = dmarc_records s5"
    using r6 r7 r8 quietD(1) unfolding same_members_def by metis+
  ultimately show ?thesis
    using c index_rowsD[OF tx(3)] keys8 named no_empty f4 f5 d3 by auto
qed

section \<open>The grouping phase\<close>

lemma wrapping_Inr: "wrapping what m s = (Inr x, t) \<longleftrightarrow> m s = (Inr x, t)"
  by (auto simp: wrapping_def act_try_def act_fail_def act_return_def split: prod.splits sum.splits)

lemma group_messages_fresh:
  assumes "\<And>m plan. plan_of m = Some plan \<Longrightarrow> plan_files plan"
  shows "\<lbrakk> group_messages now days plan_of ms tk a b s = (Inr x, t); distinct (map ms_id ms);
      \<forall>m \<in> set ms. \<forall>d \<in> set (dmarc_records s). d_message d \<noteq> ms_id m; '''' \<notin> group_keys s \<rbrakk>
    \<Longrightarrow> stales {} s t \<and> '''' \<notin> group_keys t"
  using assms
proof (induction now days plan_of ms tk a b arbitrary: s rule: group_messages.induct)
  case (1 now days plan_of tk a b)
  then show ?case by (simp add: act_return_def stales_def)
next
  case (2 now days plan_of m ms tk a b)
  show ?case
  proof (cases "plan_of m")
    case None
    with "2.prems" show ?thesis by (intro "2.IH"(1)[OF None]) auto
  next
    case (Some plan)
    with "2.prems"(1) obtain m' tk' u where u: "group_message now days m plan tk s = (Inr (m', tk'), u)"
      and r: "group_messages now days plan_of ms tk' (a + 1) (if ms_is_bounce m' then b + 1 else b) u = (Inr x, t)"
      by (auto simp: bind_Inr wrapping_Inr)
    have f: "stales {} s u \<and> '''' \<notin> group_keys u \<and> map ms_id (messages u) = map ms_id (messages s)
        \<and> (\<forall>d \<in> set (dmarc_records u). d \<in> set (dmarc_records s) \<or> d_message d = ms_id m)"
      by (rule group_message_fresh[OF u "2.prems"(5)[OF Some]]) (use "2.prems" in auto)
    have d: "d_message d \<noteq> ms_id n" if "n \<in> set ms" "d \<in> set (dmarc_records u)" for n d
    proof -
      have "ms_id n \<noteq> ms_id m" using "2.prems"(2) that(1) by (auto simp: image_iff)
      with f that "2.prems"(3) show ?thesis by auto
    qed
    have "stales {} u t \<and> '''' \<notin> group_keys t"
      by (rule "2.IH"(2)[OF Some r]) (use "2.prems"(2,5) d f in auto)
    then show ?thesis using f stales_trans[of "{}" s u "{}" t] by simp
  qed
qed

text \<open>Messages still to be grouped have no records: those not classified, and notices with a bounce.\<close>

definition filed_apart :: "mail_index \<Rightarrow> bool" where
  "filed_apart s \<longleftrightarrow>
     (\<forall>m \<in> set (messages s). \<forall>d \<in> set (dmarc_records s). d_message d = ms_id m \<longrightarrow>
        ms_classified m \<and> \<not> list_ex (\<lambda>b. b_message b = ms_id m) (bounces s))"

lemma to_group_new:
  assumes u: "list_unclassified_messages s = (Inr fresh, u)"
    and a: "(if again_too then wrapping what (list_messages_by_bounce_rule_prefix prefix) else act_return []) u = (Inr again, v)"
    and d: "distinct (map ms_id (messages s))" and apart: "filed_apart s"
  shows "same_rows s v \<and> distinct (map ms_id (fresh @ again))
    \<and> (\<forall>m \<in> set (fresh @ again). \<forall>d \<in> set (dmarc_records v). d_message d \<noteq> ms_id m)"
proof -
  have ru: "same_rows s u" and fr: "fresh = sort_key by_date (filter (\<lambda>m. \<not> ms_classified m) (messages s))"
    using query_InrE[OF u[unfolded list_unclassified_messages_def]] index_rowsD(1)[of s u] by auto
  have ag: "same_rows u v \<and> (again = [] \<or> again = sort_key by_date (filter (\<lambda>m. ms_classified m
        \<and> list_ex (\<lambda>b. b_message b = ms_id m \<and> has_prefix (b_rule b) prefix) (bounces s)) (messages s)))"
  proof (cases again_too)
    case True
    with a have "query (\<lambda>s. sort_key by_date (filter (\<lambda>m. ms_classified m
        \<and> list_ex (\<lambda>b. b_message b = ms_id m \<and> has_prefix (b_rule b) prefix) (bounces s)) (messages s))) u = (Inr again, v)"
      by (simp add: wrapping_Inr list_messages_by_bounce_rule_prefix_def)
    from query_InrE[OF this] show ?thesis using index_rowsD[OF ru] index_rowsD[of u v] by auto
  next
    case False
    with a show ?thesis by (simp add: act_return_def)
  qed
  have rv: "same_rows s v" using ru ag same_rows_trans by blast
  have inj: "inj_on ms_id (set (messages s))" "distinct (messages s)" using d by (simp_all add: distinct_map)
  have "distinct (fresh @ again)" using inj(2) ag by (auto simp: fr)
  moreover have sub: "set (fresh @ again) \<subseteq> set (messages s)" using ag by (auto simp: fr)
  ultimately have "distinct (map ms_id (fresh @ again))"
    unfolding distinct_map using inj_on_subset[OF inj(1)] by blast
  moreover have "d_message d \<noteq> ms_id m" if "m \<in> set (fresh @ again)" "d \<in> set (dmarc_records v)" for m d
  proof
    assume e: "d_message d = ms_id m"
    have "m \<in> set (messages s)" "d \<in> set (dmarc_records s)" using sub that index_rowsD[OF rv] by auto
    with apart e have "ms_classified m" "\<not> list_ex (\<lambda>b. b_message b = ms_id m) (bounces s)" by (auto simp: filed_apart_def)
    with that(1) ag show False by (auto simp: fr list_ex_iff)
  qed
  ultimately show ?thesis using rv by blast
qed

lemma clear_ok:
  assumes "clear_mail_classification s = (Inr x, t)"
  shows "bounces t = [] \<and> dmarc_records t = [] \<and> map ms_id (messages t) = map ms_id (messages s) \<and> groups t = groups s"
proof -
  from transaction_ok[OF assms[unfolded clear_mail_classification_def]] obtain u v where
    tx: "same_rows s u" "same_rows v t" and
    b: "act_bind (exec (\<lambda>s. s\<lparr>bounces := []\<rparr>)) (\<lambda>_. act_bind (exec (\<lambda>s. s\<lparr>dmarc_records := []\<rparr>)) (\<lambda>_.
       update_messages (\<lambda>_. True) (\<lambda>m. m\<lparr>ms_is_bounce := False, ms_bounce_kind := '''', ms_rule := '''',
         ms_body_source := '''', ms_classified := False\<rparr>))) u = (Inr x, v)" by blast
  from b obtain y1 u1 y2 u2 where e: "exec (\<lambda>s. s\<lparr>bounces := []\<rparr>) u = (Inr y1, u1)"
      "exec (\<lambda>s. s\<lparr>dmarc_records := []\<rparr>) u1 = (Inr y2, u2)" and
      e3: "update_messages (\<lambda>_. True) (\<lambda>m. m\<lparr>ms_is_bounce := False, ms_bounce_kind := '''', ms_rule := '''',
         ms_body_source := '''', ms_classified := False\<rparr>) u2 = (Inr x, v)"
    by (auto simp: bind_Inr)
  from exec_Inr[OF e(1)] obtain w1 where w1: "same_rows u w1" "u1 = w1\<lparr>bounces := []\<rparr>" by blast
  from exec_Inr[OF e(2)] obtain w2 where w2: "same_rows u1 w2" "u2 = w2\<lparr>dmarc_records := []\<rparr>" by blast
  from exec_Inr[OF e3[unfolded update_messages_def]] obtain w3 where w3: "same_rows u2 w3"
      "messages v = map (\<lambda>m. m\<lparr>ms_is_bounce := False, ms_bounce_kind := '''', ms_rule := '''',
         ms_body_source := '''', ms_classified := False\<rparr>) (messages w3)" "bounces v = bounces w3"
      "dmarc_records v = dmarc_records w3" "groups v = groups w3"
    by auto
  show ?thesis
    using index_rowsD[OF tx(1)] index_rowsD[OF tx(2)] index_rowsD[OF w1(1)] index_rowsD[OF w2(1)] index_rowsD[OF w3(1)] w1(2) w2(2) w3
    by (simp add: o_def)
qed

lemma group_mailbox_fresh:
  assumes run: "group_mailbox now days plan_of name full live s = (Inr res, t)"
    and plans: "\<And>m plan. plan_of m = Some plan \<Longrightarrow> plan_files plan"
    and d: "distinct (map ms_id (messages s))" and named: "'''' \<notin> group_keys s"
    and start: "full \<or> filed_apart s \<and> stale True s = {}"
  shows "stale True t = {} \<and> (full \<longrightarrow> (\<forall>g \<in> set (groups t). has_members t (g_key g)))"
proof -
  from run obtain y1 s1 y2 s2 fresh s3 again s4 tk n1 n2 s5 y6 s6 y7 s7 y8 where
    op: "open_index name s = (Inr y1, s1)" and
    cl: "(if full then wrapping ''clear classification'' clear_mail_classification else act_return ()) s1 = (Inr y2, s2)" and
    un: "wrapping ''list messages'' list_unclassified_messages s2 = (Inr fresh, s3)" and
    ag: "(if \<not> full \<and> live then wrapping ''list unverified notices'' (list_messages_by_bounce_rule_prefix dns_unverified_rule_prefix)
          else act_return []) s3 = (Inr again, s4)" and
    gm: "group_messages now days plan_of (fresh @ again) new_tracker 0 0 s4 = (Inr (tk, n1, n2), s5)" and
    de: "(if full then wrapping ''delete empty groups'' delete_empty_groups else act_return ()) s5 = (Inr y6, s6)" and
    re: "wrapping ''reapply responsible'' (reapply_report_responsible now) s6 = (Inr y7, s7)" and
    co: "count_all_groups s7 = (Inr y8, t)"
    by (auto simp: group_mailbox_def bind_Inr act_return_def)
  have q1: "quiet s s1" by (rule quiet_after[OF quiet.index_opened op])
  have s2: "distinct (map ms_id (messages s2)) \<and> filed_apart s2 \<and> '''' \<notin> group_keys s2 \<and> (stale True s2 = {} \<or> full \<and> stale False s2 = {})"
  proof (cases full)
    case True
    from cl True have "clear_mail_classification s1 = (Inr (), s2)" by (simp add: wrapping_Inr)
    from clear_ok[OF this] show ?thesis using True d named quiet_keys[OF q1] quietD(1)[OF q1]
      by (auto simp: filed_apart_def stale_def has_members_def same_members_def group_keys_def)
  next
    case False
    with cl have "s2 = s1" by (simp add: act_return_def)
    with False start d named q1 quiet_keys[OF q1] quietD(2)[OF q1, of True] quietD(1)[OF q1] show ?thesis
      by (auto simp: filed_apart_def same_members_def)
  qed
  note tg = to_group_new[OF un[unfolded wrapping_Inr] ag]
  have r4: "same_rows s2 s4" and f4: "distinct (map ms_id (fresh @ again))"
      "\<forall>m \<in> set (fresh @ again). \<forall>d \<in> set (dmarc_records s4). d_message d \<noteq> ms_id m"
    using tg s2 by blast+
  have k4: "'''' \<notin> group_keys s4" using s2 quiet_keys[OF quiet_rows[OF r4]] by blast
  have g5: "stales {} s4 s5" using group_messages_fresh[OF _ gm f4 k4] plans by blast
  have st5: "stale every s5 \<subseteq> stale every s2" for every
    using g5 quietD(2)[OF quiet_rows[OF r4]] unfolding stales_def by blast
  have s6: "stale True s6 = {} \<and> (full \<longrightarrow> (\<forall>g \<in> set (groups s6). has_members s6 (g_key g)))"
  proof (cases full)
    case True
    with de have "exec (\<lambda>s. drop_groups (\<lambda>key. \<not> has_members s key) s) s5 = (Inr y6, s6)"
      by (simp add: wrapping_Inr delete_empty_groups_def)
    from exec_Inr[OF this] obtain u where u: "same_rows s5 u" "s6 = drop_groups (\<lambda>key. \<not> has_members u key) u" by blast
    have "same_members u s6" unfolding u(2) by (simp add: drop_groups_def Let_def same_members_def)
    then have hm: "has_members s6 = has_members u" using same_members_counted by blast
    have m: "\<forall>g \<in> set (groups s6). has_members s6 (g_key g)" unfolding hm unfolding u(2) by (simp add: drop_groups_def Let_def)
    have "quiet s5 s6" using quiet_trans[OF quiet_rows[OF u(1)] quiet_drop] unfolding u(2) .
    then have "stale False s6 \<subseteq> stale False s2" using st5[of False] quietD(2) by blast
    moreover have "stale False s2 = {}" using s2 by (auto simp: stale_def)
    moreover have "stale True s6 = stale False s6" using m by (auto simp: stale_def)
    ultimately show ?thesis using m by simp
  next
    case False
    with de s2 st5[of True] show ?thesis by (simp add: act_return_def)
  qed
  have q7: "quiet s6 s7" using re by (intro quiet_after[OF quiet.wrapped[OF quiet.responsibles_reapplied]])
  have q: "quiet s6 t" by (rule quiet_trans[OF q7 quiet_after[OF quiet.count_all co]])
  have "has_members t = has_members s6" using same_members_counted[OF quietD(1)[OF q]] by blast
  moreover have "g_key ` set (groups t) \<subseteq> g_key ` set (groups s6)" by (rule quietD(3)[OF q])
  ultimately have "full \<longrightarrow> (\<forall>g \<in> set (groups t). has_members t (g_key g))" using s6 by (auto simp: image_subset_iff)
  then show ?thesis using s6 quietD(2)[OF q, of True] by simp
qed

end
