(* ===== verification/Group_Properties.thy ===== *)
theory Group_Properties
  imports Group_Steps Group_Counters
begin

text \<open>
  The properties of the groups of an index: their states follow their history, a decision
  is not taken back by the notices it was taken on, and a new pattern raises its flag.
\<close>

section \<open>An index with one group\<close>

definition sample_message :: message where
  "sample_message = \<lparr>ms_id = 0, ms_key = ''m1'', ms_folder = ''INBOX'', ms_uidvalidity = 1, ms_uid = 1, ms_message_id = ''<1@a>'',
     ms_subject = ''Report'', ms_from_address = ''d@b'', ms_from_name = '''', ms_to_address = ''p@a'', ms_to_name = '''',
     ms_date = 50, ms_received_at = None, ms_size = 1, ms_text_count = 0, ms_html_count = 0, ms_body_source = '''',
     ms_classified = False, ms_is_bounce = False, ms_bounce_kind = '''', ms_rule = '''', ms_fetched_at = 60,
     ms_server_deleted_at = None\<rparr>"

definition sample_group :: bounce_group where
  "sample_group = \<lparr>g_key = ''k1'', g_category = ''dmarc_spf_missing'', g_actionable = True, g_unit = ''a'', g_authority = ''b'',
     g_recipient_domain = '''', g_status_code = '''', g_template = '''', g_responsible = ''sender'', g_state = '''',
     g_state_updated_at = None, g_state_reason = None, g_state_note = None, g_needs_recheck = False, g_needs_analysis = False,
     g_message_count = 0, g_recipient_count = 0, g_remote_ip_count = 0, g_first_seen = None, g_last_seen = None,
     g_created_at = 0, g_updated_at = 0\<rparr>"

definition sample_record :: "string \<Rightarrow> dmarc_record" where
  "sample_record pattern = \<lparr>d_id = 0, d_message = 0, d_group = ''k1'', d_rule = ''r'', d_template = ''t'', d_pattern = pattern,
     d_report_org = ''b'', d_report_id = ''1'', d_begin_at = None, d_end_at = Some 40, d_policy_domain = ''a'', d_policy = ''none'',
     d_header_from = ''a'', d_envelope_from = ''a'', d_source_ip = ''192.0.2.1'', d_count = 3, d_disposition = ''none'',
     d_dkim_result = ''fail'', d_spf_result = ''fail'', d_dkim_auth = '''', d_spf_auth = ''''\<rparr>"

definition sample_plan :: "string \<Rightarrow> grouping_plan" where
  "sample_plan pattern = \<lparr>gp_is_bounce = True, gp_kind = ''report'', gp_rule = ''dmarc_report'', gp_body_source = '''', gp_bounces = [],
     gp_groups = [], gp_records = [sample_record pattern],
     gp_record_groups = [\<lparr>rg_group = sample_group, rg_records = [sample_record pattern]\<rparr>]\<rparr>"

definition sample_change :: group_state_change where
  "sample_change = \<lparr>gs_state = ''resolved'', gs_reason = Some ''dns_fixed'', gs_note = Some ''SPF added''\<rparr>"

lemmas sample_defs = sample_message_def sample_group_def sample_record_def sample_plan_def sample_change_def

definition index_with_message :: mail_index where
  "index_with_message = snd (insert_message 100 sample_message empty_index)"

definition index_with_group :: mail_index where
  "index_with_group = snd (group_mailbox 200 Map.empty (\<lambda>_. Some (sample_plan ''p1'')) ''a'' False False index_with_message)"

definition index_with_decision :: mail_index where
  "index_with_decision = snd (change_group_state 300 ''k1'' sample_change ''admin'' index_with_group)"

lemma sample_input: "group_state_input ''resolved '' '' dns_fixed'' ''SPF added'' = Inr sample_change"
  by code_simp

lemma index_with_message_groups: "map ms_id (messages index_with_message) = [1]"
  by code_simp

lemma index_with_group_groups: "map g_key (groups index_with_group) = [''k1'']"
  by code_simp

lemma index_with_decision_groups: "map g_state (groups index_with_decision) = [''resolved'']"
  by code_simp

lemma index_with_group_reachable: "index_reachable index_with_group"
proof -
  have "index_reachable index_with_message"
    unfolding index_with_message_def
    by (rule index_reachable.step[OF index_reachable.start], rule stored, rule surjective_pairing)
  moreover have "plan_ok (sample_plan p)" for p by (simp add: plan_ok_def stateless_def sample_defs)
  then have "index_step index_with_message index_with_group"
    unfolding index_with_group_def by (intro grouped[OF _ surjective_pairing]) auto
  ultimately show ?thesis by (rule index_reachable.step)
qed

lemma index_with_decision_reachable: "index_reachable index_with_decision"
  unfolding index_with_decision_def
  by (rule index_reachable.step[OF index_with_group_reachable], rule changed[OF sample_input], rule surjective_pairing)

section \<open>State and history\<close>

text \<open>C11: in every index that the operations reach, whatever statements fail, the keys of the groups are distinct, the
  state, reason, note and time of a group are those of the newest entry of its history (a group without history is open),
  and a group waiting for a re-check is not open.\<close>

theorem state_follows_history:
  assumes "index_reachable s"
  shows "distinct (map g_key (groups s))
    \<and> (\<forall>g \<in> set (groups s). in_history (history_of s (g_key g)) g \<and> (g_needs_recheck g \<longrightarrow> g_state g \<noteq> group_open))"
  using reachable_ok[OF assms] by (simp_all add: index_ok_def)

theorem state_follows_history_witness:
  "\<exists>g. groups index_with_decision = [g] \<and> g_state g = ''resolved'' \<and> in_history (history_of index_with_decision (g_key g)) g"
proof -
  obtain g where g: "groups index_with_decision = [g]" "g_state g = ''resolved''" using index_with_decision_groups by auto
  with state_follows_history[OF index_with_decision_reachable] show ?thesis by simp
qed



section \<open>A decision stands\<close>

text \<open>C10: after a successful change of a group's state the group is not waiting for a re-check, and no current member
  sends it back, except that a resolved group is sent back by a member about mail sent after the deadline: the re-check days
  of its category from now.\<close>

theorem decision_not_taken_back:
  assumes "index_reachable s" "group_state_input st reason note = Inr change"
    and ch: "change_group_state now key change by s = (Inr (), t)"
    and g: "g \<in> set (groups t)" "g_key g = key" and m: "m \<in> set (group_members t key)"
  shows "g_state g = gs_state change \<and> \<not> g_needs_recheck g \<and>
    (\<exists>basis. load_recheck_basis key (calm t) = (Inr basis, calm t)
      \<and> (sends_back days basis g m \<longleftrightarrow>
           gs_state change = group_resolved \<and> now + recheck_days_for days (g_category g) * (24 * time_hour) < sent_at m))"
proof -
  note c = change_group_state_ok[OF ch]
  have ok: "index_ok s" by (rule reachable_ok[OF assms(1)])
  have st: "g_state g = gs_state change \<and> \<not> g_needs_recheck g"
  proof -
    from g(1) have "g \<in> (\<lambda>x. if g_key x = key then with_state now (gs_state change) (gs_reason change) (gs_note change) now
        (uncovered_member s key) x else x) ` set (groups s)"
      unfolding c(2) by (simp add: changed_index_def update_groups_def)
    then obtain x where x: "g = (if g_key x = key then with_state now (gs_state change) (gs_reason change) (gs_note change) now
        (uncovered_member s key) x else x)" by blast
    with g(2) show ?thesis by (cases "g_key x = key") (simp_all add: with_state_def)
  qed
  have "history_of t key = change_row now key change by s # history_of s key"
    using history_changed[OF ok, where now = now and key = key and change = change and k = key] history_of_cong[OF c(3)] by simp
  then have b: "basis_of (calm t) key
      = Some \<lparr>rb_change = change_row now key change by s, rb_keys = patterns_of (change_patterns t) (next_change s)\<rparr>"
    by (simp add: basis_of_def change_row_def)
  have "(next_change s, recheck_key m) \<in> set (change_patterns t)" using m c(5,6) by auto
  then have "recheck_key m \<in> set (patterns_of (change_patterns t) (next_change s))"
    by (force simp: patterns_of_def)
  then have "sends_back days (basis_of (calm t) key) g m \<longleftrightarrow>
      gs_state change = group_resolved \<and> now + recheck_days_for days (g_category g) * (24 * time_hour) < sent_at m"
    unfolding b using st
    by (auto simp: sends_back_def recheck_deadline_def add_days_utc change_row_def group_state_defs)
  with st show ?thesis using load_recheck_basis_calm[of "calm t" key] by auto
qed

theorem decision_not_taken_back_witness:
  "\<exists>g m basis. g \<in> set (groups index_with_decision) \<and> m \<in> set (group_members index_with_decision ''k1'')
     \<and> load_recheck_basis ''k1'' (calm index_with_decision) = (Inr basis, calm index_with_decision)
     \<and> \<not> sends_back Map.empty basis g m"
proof -
  have r: "change_group_state 300 ''k1'' sample_change ''admin'' index_with_group = (Inr (), index_with_decision)"
  proof -
    have "fst (change_group_state 300 ''k1'' sample_change ''admin'' index_with_group) = Inr ()" by code_simp
    then show ?thesis unfolding index_with_decision_def by (metis prod.collapse)
  qed
  have "map g_key (groups index_with_decision) = [''k1'']" by code_simp
  then obtain g where g: "g \<in> set (groups index_with_decision)" "g_key g = ''k1''" by (cases "groups index_with_decision") auto
  have "map sent_at (group_members index_with_decision ''k1'') = [40]" by code_simp
  then obtain m where m: "m \<in> set (group_members index_with_decision ''k1'')" "sent_at m = 40"
    by (cases "group_members index_with_decision ''k1''") auto
  have "min_recheck_days \<le> recheck_days_for Map.empty (g_category g)" by (rule recheck_days_for_pos)
  then have "\<not> 300 + recheck_days_for Map.empty (g_category g) * (24 * time_hour) < sent_at m"
    by (simp add: m(2) min_recheck_days_def time_hour_def)
  with decision_not_taken_back[OF index_with_group_reachable sample_input r g m(1), of Map.empty] g m show ?thesis by blast
qed

section \<open>New members raise the flags\<close>



section \<open>Counters\<close>



definition index_with_two :: mail_index where
  "index_with_two =
     (let s1 = snd (insert_message 100 (sample_message\<lparr>ms_key := ''m2'', ms_uid := 2, ms_date := 9000\<rparr>) index_with_message)
      in snd (group_mailbox 200 Map.empty (\<lambda>_. Some (sample_plan ''p1'')) ''a'' False False s1))"

definition pruned_with_fault :: mail_index where
  "pruned_with_fault = snd (prune_mailbox 10000 5000 (\<lambda>_. None) ''a''
     (index_with_two\<lparr>faults := [None, None, None, Some ''disk I/O error'']\<rparr>))"


end
