(* ===== verification/Rebuild_Properties.thy ===== *)
theory Rebuild_Properties
  imports Group_Rebuild Group_Properties
begin

text \<open>The rebuild of an index keeps what the users and the agents did.\<close>

section \<open>A key that comes back\<close>

lemma reports_kept:
  assumes "rows_ok s" "key \<in> keys" "\<And>r. P r \<Longrightarrow> r_group r = key"
    and "reports v = filter (\<lambda>r. r_group r \<in> keys) (sort_key r_id (reports s))"
  shows "sort_key (\<lambda>r. - r_id r) (filter P (reports v)) = sort_key (\<lambda>r. - r_id r) (filter P (reports s))"
  unfolding assms(4) by (rule rows_of_key) (use assms in \<open>auto simp: rows_ok_def numbered_def\<close>)

lemma history_kept:
  assumes "rows_ok s" "key \<in> keys" "changes v = filter (\<lambda>h. sc_group h \<in> keys) (sort_key sc_id (changes s))"
  shows "history_of v key = history_of s key"
  unfolding history_of_def assms(3) by (rule rows_of_key) (use assms in \<open>auto simp: rows_ok_def numbered_def\<close>)

lemma newest_report_mem: "newest_report P s = Some r \<Longrightarrow> r \<in> set (reports s) \<and> P r"
proof -
  assume "newest_report P s = Some r"
  then obtain rest where "sort_key (\<lambda>r. - r_id r) (filter P (reports s)) = r # rest"
    by (auto simp: newest_report_def split: list.splits)
  then have "r \<in> set (sort_key (\<lambda>r. - r_id r) (filter P (reports s)))" by simp
  then show ?thesis by simp
qed

lemma coverage_kept:
  assumes "rows_ok s" "key \<in> keys"
    and reps: "reports v = filter (\<lambda>r. r_group r \<in> keys) (sort_key r_id (reports s))"
    and ps: "set (report_patterns v) = {(i, k) \<in> set (report_patterns s). \<exists>r \<in> set (reports v). r_id r = i}"
  shows "covered_by v key = covered_by s key"
proof -
  let ?P = "\<lambda>x r. r_group r = key \<and> list_ex (\<lambda>(i, _). i = r_id r) (report_patterns x)"
  have "list_ex (\<lambda>(i, _). i = r_id r) (report_patterns v) = list_ex (\<lambda>(i, _). i = r_id r) (report_patterns s)"
    if "r \<in> set (reports v)" for r
    using that ps by (auto simp: list_ex_iff)
  then have "filter (?P v) (reports v) = filter (?P s) (reports v)" by (intro filter_cong) auto
  then have new: "newest_report (?P v) v = newest_report (?P s) s"
    using reports_kept[OF assms(1,2) _ reps, of "?P s"] by (simp add: newest_report_def)
  have "(i, k) \<in> set (report_patterns v) \<longleftrightarrow> (i, k) \<in> set (report_patterns s)"
    if "settling_report s key = Some i" for i k
  proof -
    from that obtain r where r: "newest_report (?P s) s = Some r" "r_id r = i" by (auto simp: settling_report_def)
    with newest_report_mem have "r \<in> set (reports s) \<and> r_group r = key" by blast
    then have "r \<in> set (reports v)" using assms(2) by (auto simp: reps)
    then show ?thesis using r(2) ps by auto
  qed
  moreover have "settling_report v key = settling_report s key" using new by (simp add: settling_report_def)
  ultimately show ?thesis by (intro ext) (simp add: covered_by_def split: option.splits)
qed

section \<open>The round trip\<close>



end
