(* ===== verification/Analysis_Properties.thy ===== *)
theory Analysis_Properties
  imports Group_Properties Group_Settle
begin

text \<open>
  The properties of the analyses of an index: what a completed report holds, how a run
  ends, and which failures leave the group waiting.
\<close>

section \<open>An analysed index\<close>

definition sample_run :: "bool \<Rightarrow> agent_run" where
  "sample_run limited = \<lparr>ar_provider = Some ''Codex'', ar_workspace = None, ar_evidence = (\<lambda>_. Inr [''p1'']), ar_prompt = '''',
     ar_transcript = (if limited then ''You have hit your usage limit.''
        else report_begin @ newline_char @ ''SPF is missing.'' @ newline_char @ report_end),
     ar_launch_error = None, ar_limit = detect_rate_limit_markers,
     ar_usage = \<lparr>us_model = '''', us_reasoning = '''', us_tokens = None, us_commands = None\<rparr>, ar_canceled = None, ar_decode = (\<lambda>_. None)\<rparr>"

definition analyzed_with :: "bool \<Rightarrow> (go_error + agent_report) \<times> mail_index" where
  "analyzed_with limited = analyze_group 250 Map.empty (sample_run limited) '''' ''k1'' (calm index_with_group)"

lemma calm_reachable: "index_reachable (calm index_with_group)"
  by (rule index_reachable.step[OF index_with_group_reachable]) (rule failing)

lemma analyzed_reachable: "index_reachable (snd (analyzed_with limited))"
  unfolding analyzed_with_def
  by (rule index_reachable.step[OF calm_reachable]) (rule analyzed, rule surjective_pairing)

section \<open>Reports\<close>

text \<open>C16: every completed report of a reachable index, whatever the agents wrote and whatever statements failed, has a
  body, no placeholder of the template and nothing secret-like in its text or its summary.\<close>

theorem completed_reports_usable:
  assumes "index_reachable s" "r \<in> set (reports s)" "r_status r = report_completed"
  shows "\<not> contains_secret_like (r_markdown r) \<and> \<not> contains_secret_like (r_summary r)
    \<and> rx_find placeholder_line (r_markdown r) = None \<and> trim_space (report_body (r_markdown r)) \<noteq> ''''"
  using reachable_safe[OF assms(1)] assms(2,3) by (simp add: reports_safe_def report_safe_def)

theorem completed_reports_usable_witness:
  "\<exists>r \<in> set (reports (snd (analyzed_with False))). r_markdown r = ''SPF is missing.'' \<and> \<not> contains_secret_like (r_markdown r)"
proof -
  have "map (\<lambda>r. (r_status r, r_markdown r)) (reports (snd (analyzed_with False))) = [(report_completed, ''SPF is missing.'')]"
    by code_simp
  then obtain r where r: "r \<in> set (reports (snd (analyzed_with False)))" "r_status r = report_completed" "r_markdown r = ''SPF is missing.''"
    by (cases "reports (snd (analyzed_with False))") auto
  with completed_reports_usable[OF analyzed_reachable r(1,2)] show ?thesis by blast
qed

section \<open>The end of a run\<close>

text \<open>C15: when no statement fails, the analysis of a group of a reachable index returns a report, completed or failed,
  whose row has the same status (no row is left running); after a completed report and after a failure that is not to be
  repeated the group is settled: it is flagged exactly when it is actionable, open or sent back, and has a member with a
  pattern that its latest report did not cover.\<close>

theorem analysis_settles:
  assumes "index_reachable s" "faults s = []" "g \<in> set (groups s)" "g_key g \<noteq> ''''"
  shows "\<exists>rep t. analyze_group now days run provider (g_key g) s = (Inr rep, t)
    \<and> (r_status rep = report_completed \<or> r_status rep = report_error)
    \<and> (\<exists>r \<in> set (reports t). r_id r = r_id rep) \<and> recorded (r_id rep) (r_status rep) t
    \<and> (r_status rep = report_completed \<or> failure_settles (r_error_message rep) \<longrightarrow> settled_group (g_key g) t)"
proof -
  have "distinct (map g_key (groups s))" using reachable_ok[OF assms(1)] by (simp add: index_ok_def)
  from analysis_yields[OF assms(2) this assms(3,4), of now days run provider] show ?thesis
    by (auto simp: run_over_def in_run_def)
qed

theorem analysis_settles_witness:
  "\<exists>rep t. analyzed_with False = (Inr rep, t) \<and> r_status rep = report_completed \<and> settled_group ''k1'' t"
proof -
  have "map g_key (groups (calm index_with_group)) = [''k1'']" by code_simp
  then obtain g where g: "g \<in> set (groups (calm index_with_group))" "g_key g = ''k1''"
    by (cases "groups (calm index_with_group)") auto
  have "map_sum (\<lambda>_. ()) r_status (fst (analyzed_with False)) = Inr report_completed" by code_simp
  then show ?thesis
    using analysis_settles[OF calm_reachable _ g(1), of 250 Map.empty "sample_run False" "''''"] g
    unfolding analyzed_with_def by auto
qed

text \<open>C18: a run that failed because of a usage limit or because it was canceled leaves every group and every covered
  pattern as it was, whatever statements fail, so the group stays flagged and is analysed again.\<close>

theorem repeated_runs_leave_groups:
  assumes "analyze_group now days run provider key s = (Inr rep, t)"
    and "r_status rep = report_error" "\<not> failure_settles (r_error_message rep)"
  shows "groups t = groups s \<and> report_patterns t = report_patterns s"
  using waits_analyze[of now days run provider key] assms by (simp add: settles_or_waits_def same_groups_def)

theorem repeated_runs_leave_groups_witness:
  "\<exists>rep t. analyzed_with True = (Inr rep, t) \<and> r_error_message rep = ''usage limit reached'' \<and> groups t = groups (calm index_with_group)"
proof -
  have s: "map_sum (\<lambda>_. ()) (\<lambda>r. (r_status r, r_error_message r)) (fst (analyzed_with True)) = Inr (report_error, ''usage limit reached'')"
    by code_simp
  then obtain rep t where r: "analyzed_with True = (Inr rep, t)" "r_status rep = report_error" "r_error_message rep = ''usage limit reached''"
    by (cases "analyzed_with True"; cases "fst (analyzed_with True)") auto
  have "\<not> failure_settles ''usage limit reached''" by code_simp
  with repeated_runs_leave_groups[OF r(1)[unfolded analyzed_with_def] r(2)] r show ?thesis by auto
qed

end
