(* ===== verification/Spec2Isabelle.thy ===== *)
theory Spec2Isabelle
  imports Job_Properties Spf_Properties Dns_Vote Settings_Properties Auth_Properties Notify_Properties Probe_Properties
    Scheduler_Properties Rebuild_Properties Analysis_Properties
begin

text \<open>
  MailCare watches the mailboxes to which the error notices of a mail system go. It fetches
  the mails over IMAP, files the delivery failures and the records of DMARC reports into
  groups (one group is one problem), lets an agent analyse each group, keeps what the users
  decided about it, and probes the delivery with mails of its own. One process serves the
  web pages, runs the jobs and the scheduler, and keeps two kinds of SQLite databases: one
  for the service, and one index per mailbox.

  This development models the parts that decide: the databases, the job manager and the
  scheduler, the settings, the accounts, the probe, the SPF evaluation and the DNS vote, and
  the life of a group from the filing of a notice to the report of the agent.

  \<^bold>\<open>The databases.\<close> \<^verbatim>\<open>Db\<close> holds the service database as a record
  (app/models: setting.go, mailbox.go, job.go, user.go, probe_mail.go) and the steps on it: an
  action takes the state to a result or an error and the state after. A list of scheduled
  failures in the state makes any statement fail, so every error path of the callers is
  reached; a transaction restores the rows. \<^verbatim>\<open>Act_Rules\<close>, \<^verbatim>\<open>Fault_Free\<close> and
  \<^verbatim>\<open>Total_Rules\<close> are the three calculi on actions: what every run keeps whatever fails (a locale
  over the relation kept), when a successful run is a fault-free one, and total correctness of
  fault-free runs. \<^verbatim>\<open>Job_Store\<close>, \<^verbatim>\<open>Users\<close> and \<^verbatim>\<open>Probe_Store\<close> hold the statements of their tables,
  \<^verbatim>\<open>Mail_Index\<close>, \<^verbatim>\<open>Group_Store\<close> and \<^verbatim>\<open>Group_History\<close> those of the index of a mailbox (message.go,
  bounce.go, dmarc_record.go, bounce_group.go, agent_report.go, group_state_change.go and the
  two pattern tables).

  \<^bold>\<open>Jobs.\<close> \<^verbatim>\<open>Job_Manager\<close> (modules/jobs.go): queueing, the keys of a job, the claim and the
  dispatcher as steps of the manager; \<^verbatim>\<open>Job_Safety\<close> its invariant over every reachable state,
  \<^verbatim>\<open>Job_Properties\<close> C1 to C9.

  \<^bold>\<open>Groups.\<close> \<^verbatim>\<open>Group_Keys\<close> (the SHA-1 keys of groups, patterns and members), \<^verbatim>\<open>Group_Life\<close>
  (recheck.go, grouping.go, group.go, group_state.go: filing a message, the flags, state
  changes, when a closed group is sent back), \<^verbatim>\<open>Group_Prune\<close> (prune.go), \<^verbatim>\<open>Group_Carryover\<close>
  (carryover.go, reindex.go), \<^verbatim>\<open>Agent_Output\<close> (agent/parse.go, ratelimit.go, over the regular
  expressions of \<^verbatim>\<open>Regex\<close>) and \<^verbatim>\<open>Group_Analysis\<close> (agent/run.go, decision.go). \<^verbatim>\<open>Group_Rules\<close> says
  once which statements a relation must allow so that all these operations keep it;
  \<^verbatim>\<open>Group_Invariant\<close>, \<^verbatim>\<open>Group_Counters\<close>, \<^verbatim>\<open>Group_Reports\<close> and \<^verbatim>\<open>Group_Rows\<close> are its instances.
  \<^verbatim>\<open>Group_Steps\<close> makes the operations the steps of one index, with its reachable states.
  \<^verbatim>\<open>Group_Changes\<close>, \<^verbatim>\<open>Group_Recount\<close>, \<^verbatim>\<open>Group_Settle\<close> and \<^verbatim>\<open>Group_Rebuild\<close> compute a state change,
  a recount, the end of an analysis and a rebuild when no statement fails.
  \<^verbatim>\<open>Group_Properties\<close>, \<^verbatim>\<open>Rebuild_Properties\<close> and \<^verbatim>\<open>Analysis_Properties\<close> hold C10 to C19: state and
  history agree, a decision is not taken back by the notices it was taken on, the counters follow
  the members, a rebuild keeps what is known about a group, reports are usable and a run that ends
  settles its group or leaves it waiting.

  \<^bold>\<open>DNS.\<close> \<^verbatim>\<open>Netip\<close>, \<^verbatim>\<open>Netip_Text\<close> (net/netip with its parsers and printers), \<^verbatim>\<open>Spf\<close>
  (dnscheck/spf.go) and \<^verbatim>\<open>Dns_Vote\<close> (vote.go): what an evaluation collects, its limits and the
  rules of the vote.

  \<^bold>\<open>Settings.\<close> \<^verbatim>\<open>Clock\<close>, \<^verbatim>\<open>Calendar\<close>, \<^verbatim>\<open>Check_Times\<close>, \<^verbatim>\<open>List_Setting\<close>, \<^verbatim>\<open>Categories\<close>, \<^verbatim>\<open>Agent_Check\<close> and \<^verbatim>\<open>Settings\<close>
  (modules/settings.go, agent registry, model and reasoning): every reader, check and saving
  function; the round trips are in \<^verbatim>\<open>Settings_Properties\<close>.

  \<^bold>\<open>Accounts, notifications, probe, scheduler.\<close> \<^verbatim>\<open>Auth\<close> (modules/auth.go and the login limiter),
  \<^verbatim>\<open>Secret\<close> (secret.go), \<^verbatim>\<open>Notify_Settings\<close> (notify.go, smtp.go), \<^verbatim>\<open>Probe\<close> and \<^verbatim>\<open>Probe_Check\<close>
  (probe.go) and \<^verbatim>\<open>Scheduler\<close> (scheduler.go), each with its properties.

  \<^bold>\<open>Conventions.\<close> Strings are byte strings, as in Go; integers of the code are int where they
  cannot overflow, words where the code computes modulo 2 to the width. Times are nanoseconds since
  the epoch. A map that Go visits in no fixed order is a list in the order of the visits. An
  error is a value of \<^verbatim>\<open>go_error\<close>. Recursion is structural or has its measure; the SPF
  evaluation counts down a depth that is shown to be enough.

  \<^bold>\<open>Parameters.\<close> DNS answers, the zone database, bcrypt, AES-GCM, the JSON decoder, the
  transcript of an agent, the plan of a message (what classification and extraction make of it)
  and the removal of files are arguments.

  \<^bold>\<open>Not modelled.\<close> Parsing, classification and categorization of mails (MIME, character sets and
  large tables of patterns), IMAP, SMTP and DNS transport, the evidence files and the prompt of an
  agent, sessions and tokens, the web handlers, the command line, PDF output and the service
  around the process: I/O, glue on libraries, or not reached yet. Of the modelled parts, log and
  progress lines are left out.
\<close>

end
